(* ===== verification/Prelude.thy ===== *)
theory Prelude
  imports Main "HOL-Library.AList" "HOL-Library.Char_ord" "HOL-Library.List_Lexorder"
begin

text \<open>
  What every component shares: Python values (JSON documents, insertion-ordered
  dictionaries, ASCII case folding), the clock, the exceptions of the repository layer, and
  the few SQL statements the state store is written in, as functions on lists of rows in
  rowid order. The two rule collections at the top gather the facts the component theories
  pass to the simplifier.
\<close>

named_theorems sql_simps \<open>how the SQL statements act on a table\<close>
named_theorems frame_simps \<open>tables and columns an operation leaves alone\<close>

section \<open>Time\<close>

text \<open>
  An aware UTC \<^verbatim>\<open>datetime\<close> is its number of microseconds since the epoch. The store keeps
  \<^verbatim>\<open>isoformat()\<close> strings of such values and compares them as text; for four-digit years in
  UTC that order is the order of the instants (the suffix of a value without microseconds,
  \<^verbatim>\<open>+00:00\<close>, sorts before the \<^verbatim>\<open>.\<close> of one with them), so rows hold the instant itself.
\<close>

type_synonym time = int

definition seconds :: "int \<Rightarrow> time" where
  "seconds n = n * 1000000"

definition epoch_seconds :: "time \<Rightarrow> int" where
  "epoch_seconds t = t div 1000000"

lemma seconds_mono [simp]: "seconds a \<le> seconds b \<longleftrightarrow> a \<le> b"
  by (simp add: seconds_def)

lemma seconds_nonneg [simp]: "0 \<le> seconds a \<longleftrightarrow> 0 \<le> a"
  by (simp add: seconds_def zero_le_mult_iff)

lemma epoch_seconds_mono: "s \<le> t \<Longrightarrow> epoch_seconds s \<le> epoch_seconds t"
  by (simp add: epoch_seconds_def zdiv_mono1)

text \<open>A nullable timestamp column that is NULL or not in the future.\<close>

definition due :: "time option \<Rightarrow> time \<Rightarrow> bool" where
  "due at t \<longleftrightarrow> (case at of None \<Rightarrow> True | Some r \<Rightarrow> r \<le> t)"

lemma due_simps [simp]:
  "due None t"
  "due (Some r) t \<longleftrightarrow> r \<le> t"
  by (simp_all add: due_def)

lemma due_mono: "due at s \<Longrightarrow> s \<le> t \<Longrightarrow> due at t"
  by (cases at) auto

section \<open>Python values\<close>

text \<open>
  A JSON document as \<^verbatim>\<open>json.loads\<close> returns it. A float is kept as its \<^verbatim>\<open>repr\<close>; a dictionary
  is the list of its items in insertion order, with distinct keys.
\<close>

datatype json =
    JNull
  | JBool bool
  | JInt int
  | JFloat string
  | JStr string
  | JList "json list"
  | JObj "(string \<times> json) list"

type_synonym dict = "(string \<times> json) list"

text \<open>A value that can be a member of a set or a key of a dictionary.\<close>

definition hashable :: "json \<Rightarrow> bool" where
  "hashable v \<longleftrightarrow> (case v of JList _ \<Rightarrow> False | JObj _ \<Rightarrow> False | _ \<Rightarrow> True)"

text \<open>
  \<^verbatim>\<open>d[k] = v\<close> is \<^const>\<open>AList.update\<close>: it overwrites in place or appends. \<open>{**a, **b}\<close> writes
  the items of \<open>b\<close> over a copy of \<open>a\<close>, in order; \<^verbatim>\<open>setdefault\<close> keeps the first value.
\<close>

definition dict_merge :: "('k \<times> 'v) list \<Rightarrow> ('k \<times> 'v) list \<Rightarrow> ('k \<times> 'v) list" where
  "dict_merge a b = fold (\<lambda>(k, v) d. AList.update k v d) b a"

definition dict_setdefault :: "'k \<Rightarrow> 'v \<Rightarrow> ('k \<times> 'v) list \<Rightarrow> ('k \<times> 'v) list" where
  "dict_setdefault k v d = (case map_of d k of None \<Rightarrow> d @ [(k, v)] | Some _ \<Rightarrow> d)"

lemma map_of_update [simp]: "map_of (AList.update k v d) = (map_of d)(k \<mapsto> v)"
  by (rule update_conv')

lemma map_of_setdefault:
  "map_of (dict_setdefault k v d) k' =
     (if k' = k \<and> map_of d k = None then Some v else map_of d k')"
  by (auto simp: dict_setdefault_def map_add_def split: option.splits)

lemma map_of_dict_merge_notin:
  "k \<notin> fst ` set b \<Longrightarrow> map_of (dict_merge a b) k = map_of a k"
  unfolding dict_merge_def
  by (induction b arbitrary: a) (auto simp: split_beta)

lemma map_of_dict_merge:
  "distinct (map fst b) \<Longrightarrow>
     map_of (dict_merge a b) k = (case map_of b k of None \<Rightarrow> map_of a k | Some v \<Rightarrow> Some v)"
proof (induction b arbitrary: a)
  case Nil
  then show ?case by (simp add: dict_merge_def)
next
  case (Cons p b)
  obtain k' v' where p: "p = (k', v')" by (cases p)
  have step: "dict_merge a (p # b) = dict_merge (AList.update k' v' a) b"
    by (simp add: dict_merge_def p)
  show ?case
  proof (cases "k = k'")
    case True
    with Cons.prems p have "k \<notin> fst ` set b" by auto
    then show ?thesis unfolding step by (simp add: p True map_of_dict_merge_notin)
  next
    case False
    with Cons.prems p show ?thesis unfolding step by (simp add: Cons.IH split: option.split)
  qed
qed

text \<open>\<^verbatim>\<open>str.lower\<close>, \<^verbatim>\<open>str.strip\<close> and \<^verbatim>\<open>str.endswith\<close> on ASCII text.\<close>

definition char_lower :: "char \<Rightarrow> char" where
  "char_lower c = (if CHR ''A'' \<le> c \<and> c \<le> CHR ''Z'' then char_of ((of_char c :: nat) + 32) else c)"

definition str_lower :: "string \<Rightarrow> string" where
  "str_lower s = map char_lower s"

definition is_space :: "char \<Rightarrow> bool" where
  "is_space c \<longleftrightarrow> (of_char c :: nat) \<in> {9, 10, 11, 12, 13, 28, 29, 30, 31, 32}"

definition strip_by :: "(char \<Rightarrow> bool) \<Rightarrow> string \<Rightarrow> string" where
  "strip_by P s = rev (dropWhile P (rev (dropWhile P s)))"

definition str_strip :: "string \<Rightarrow> string" where
  "str_strip s = strip_by is_space s"

text \<open>The models' \<^verbatim>\<open>str_strip_whitespace\<close>, which keeps the four ASCII separators 28 to 31.\<close>

definition is_white :: "char \<Rightarrow> bool" where
  "is_white c \<longleftrightarrow> (of_char c :: nat) \<in> {9, 10, 11, 12, 13, 32}"

definition str_trim :: "string \<Rightarrow> string" where
  "str_trim s = strip_by is_white s"

lemma strip_by_idem [simp]: "strip_by P (strip_by P s) = strip_by P s"
proof -
  have drop: "dropWhile P (dropWhile P xs) = dropWhile P xs" for xs :: string
    by (induction xs) auto
  have "dropWhile P (rev (dropWhile P (rev (dropWhile P s)))) = rev (dropWhile P (rev (dropWhile P s)))"
  proof (cases "dropWhile P (rev (dropWhile P s))")
    case Nil
    show ?thesis unfolding Nil by simp
  next
    case (Cons c cs)
    then obtain xs where xs: "rev (dropWhile P s) = xs @ c # cs"
      by (metis dropWhile_eq_drop append_take_drop_id)
    then have "dropWhile P s = rev cs @ c # rev xs"
      by (metis rev_rev_ident rev_append rev.simps(2) append_assoc append_Cons append_Nil)
    then have "\<not> P (hd (rev cs @ [c]))"
      by (metis append_Cons append_is_Nil_conv hd_append hd_dropWhile list.sel(1) list.distinct(1))
    then show ?thesis unfolding Cons by (cases "rev cs @ [c]") simp_all
  qed
  then show ?thesis by (simp add: strip_by_def drop)
qed

definition ends_with :: "string \<Rightarrow> string \<Rightarrow> bool" where
  "ends_with s suffix \<longleftrightarrow>
     length suffix \<le> length s \<and> drop (length s - length suffix) s = suffix"

text \<open>\<^verbatim>\<open>needle in s\<close>, and \<^verbatim>\<open>str\<close> of an integer.\<close>

definition starts_with :: "string \<Rightarrow> string \<Rightarrow> bool" where
  "starts_with s needle \<longleftrightarrow> take (length needle) s = needle"

fun contains :: "string \<Rightarrow> string \<Rightarrow> bool" where
  "contains [] needle \<longleftrightarrow> needle = []"
| "contains (c # s) needle \<longleftrightarrow> starts_with (c # s) needle \<or> contains s needle"

function digits :: "int \<Rightarrow> string" where
  "digits n = (if n < 10 then [char_of (48 + n)] else digits (n div 10) @ [char_of (48 + n mod 10)])"
  by pat_completeness auto

termination
  by (relation "measure nat") auto

declare digits.simps [simp del]

definition str_int :: "int \<Rightarrow> string" where
  "str_int i = (if i < 0 then ''-'' @ digits (- i) else digits i)"

text \<open>\<^verbatim>\<open>sep.join(items)\<close>.\<close>

fun str_join :: "string \<Rightarrow> string list \<Rightarrow> string" where
  "str_join sep [] = []"
| "str_join sep [s] = s"
| "str_join sep (s # ss) = s @ sep @ str_join sep ss"

section \<open>Exceptions\<close>

datatype repo_error =
    IdempotencyConflict string
  | IntegrityError
  | ValueError string
  | LookupError string
  | TypeError
  | ZeroDivisionError
  | OverflowError
  | ValidationError
  | KeyError
  | AttributeError
  | RuntimeError string
  | SecretReferenceError string
  | EngineError int string
  | HTTPException int string
  | AdapterError string
  | SipBrowserSessionError string
  | RequestValidationError
  | AssertionError
  | OSError

type_synonym 'a res = "repo_error + 'a"

text \<open>Sequencing of computations that may raise, and a comprehension whose body may.\<close>

definition res_bind :: "'a res \<Rightarrow> ('a \<Rightarrow> 'b res) \<Rightarrow> 'b res" where
  "res_bind m f = (case m of Inl e \<Rightarrow> Inl e | Inr x \<Rightarrow> f x)"

fun map_res :: "('a \<Rightarrow> 'b res) \<Rightarrow> 'a list \<Rightarrow> 'b list res" where
  "map_res f [] = Inr []"
| "map_res f (x # xs) = res_bind (f x) (\<lambda>y. res_bind (map_res f xs) (\<lambda>ys. Inr (y # ys)))"

lemma res_bind_simps [simp]:
  "res_bind (Inl e) f = Inl e"
  "res_bind (Inr x) f = f x"
  by (simp_all add: res_bind_def)

lemma res_bind_Inr: "res_bind m f = Inr y \<longleftrightarrow> (\<exists>x. m = Inr x \<and> f x = Inr y)"
  by (cases m) auto

lemma map_res_Inr: "map_res f xs = Inr ys \<longleftrightarrow> list_all2 (\<lambda>x y. f x = Inr y) xs ys"
  by (induction xs arbitrary: ys) (auto simp: res_bind_Inr list_all2_Cons1)

section \<open>SQL statements on lists of rows\<close>

text \<open>
  \<open>sql_update P f\<close> is \<^verbatim>\<open>UPDATE ... SET f WHERE P\<close>, \<open>rowcount P\<close> the cursor's row count,
  \<open>sql_first\<close> is \<^verbatim>\<open>fetchone()\<close>. \<open>order_by\<close> and \<open>order_by_desc\<close> are stable: rows whose key
  is equal stay in rowid order, the order in which the query's join visits them.
\<close>

definition sql_update :: "('r \<Rightarrow> bool) \<Rightarrow> ('r \<Rightarrow> 'r) \<Rightarrow> 'r list \<Rightarrow> 'r list" where
  "sql_update P f rows = map (\<lambda>r. if P r then f r else r) rows"

definition rowcount :: "('r \<Rightarrow> bool) \<Rightarrow> 'r list \<Rightarrow> nat" where
  "rowcount P rows = length (filter P rows)"

definition sql_first :: "'r list \<Rightarrow> 'r option" where
  "sql_first rows = (case rows of [] \<Rightarrow> None | r # _ \<Rightarrow> Some r)"

definition order_by :: "('r \<Rightarrow> 'k::linorder) \<Rightarrow> 'r list \<Rightarrow> 'r list" where
  "order_by key rows = sort_key key rows"

definition order_by_desc :: "('r \<Rightarrow> int) \<Rightarrow> 'r list \<Rightarrow> 'r list" where
  "order_by_desc key rows = sort_key (\<lambda>r. - key r) rows"

lemma sql_update_simps [sql_simps]:
  "sql_update P f [] = []"
  "sql_update P f (r # rows) = (if P r then f r else r) # sql_update P f rows"
  "sql_update P f (rows @ rows') = sql_update P f rows @ sql_update P f rows'"
  by (simp_all add: sql_update_def)

lemma set_sql_update [sql_simps]:
  "set (sql_update P f rows) = (\<lambda>r. if P r then f r else r) ` set rows"
  by (simp add: sql_update_def)

lemma length_sql_update [simp]: "length (sql_update P f rows) = length rows"
  by (simp add: sql_update_def)

lemma sql_update_id: "(\<And>r. r \<in> set rows \<Longrightarrow> P r \<Longrightarrow> f r = r) \<Longrightarrow> sql_update P f rows = rows"
  by (induction rows) (auto simp: sql_update_def)

lemma map_sql_update: "(\<And>r. P r \<Longrightarrow> g (f r) = g r) \<Longrightarrow> map g (sql_update P f rows) = map g rows"
  by (simp add: sql_update_def)

lemma mem_sql_update:
  "r' \<in> set (sql_update P f rows) \<longleftrightarrow>
     (\<exists>r \<in> set rows. r' = (if P r then f r else r))"
  by (auto simp: sql_update_def)

lemma sql_update_memI: "r \<in> set rows \<Longrightarrow> (if P r then f r else r) \<in> set (sql_update P f rows)"
  by (auto simp: sql_update_def)

lemma list_all_sql_update:
  "list_all P rows \<Longrightarrow> (\<And>r. r \<in> set rows \<Longrightarrow> Q r \<Longrightarrow> P r \<Longrightarrow> P (f r)) \<Longrightarrow>
     list_all P (sql_update Q f rows)"
  by (auto simp: list_all_iff sql_update_def)

lemma list_all2_sql_update:
  "(\<And>r. r \<in> set rows \<Longrightarrow> R r (if P r then f r else r)) \<Longrightarrow> list_all2 R rows (sql_update P f rows)"
  by (induction rows) (auto simp: sql_update_def)

lemma sql_first_simps [simp]:
  "sql_first [] = None"
  "sql_first (r # rows) = Some r"
  by (simp_all add: sql_first_def)

lemma sql_first_None [simp]: "sql_first rows = None \<longleftrightarrow> rows = []"
  by (cases rows) auto

lemma sql_first_Some_mem: "sql_first rows = Some r \<Longrightarrow> r \<in> set rows"
  by (cases rows) auto

lemma order_by_empty [simp]: "order_by key [] = []" "order_by_desc key' [] = []"
  by (simp_all add: order_by_def order_by_desc_def)

lemma set_order_by [simp]: "set (order_by key rows) = set rows"
  by (simp add: order_by_def)

lemma set_order_by_desc [simp]: "set (order_by_desc key rows) = set rows"
  by (simp add: order_by_desc_def)

lemma order_by_Nil [simp]: "order_by key rows = [] \<longleftrightarrow> rows = []"
  by (metis set_empty set_order_by)

lemma sql_first_order_by_least:
  assumes "sql_first (order_by key rows) = Some r" and "r' \<in> set rows"
  shows "key r \<le> key r'"
proof -
  obtain rest where eq: "sort_key key rows = r # rest"
    using assms(1) by (cases "sort_key key rows") (auto simp: order_by_def)
  have "sorted (map key (r # rest))"
    using sorted_sort_key [of key rows] eq by simp
  moreover have "r' \<in> set (r # rest)"
    using assms(2) eq [symmetric] by (metis set_sort)
  ultimately show ?thesis by auto
qed

lemma sql_first_order_by_desc_greatest:
  assumes "sql_first (order_by_desc key rows) = Some r" and "r' \<in> set rows"
  shows "key r' \<le> key r"
  using sql_first_order_by_least [of "\<lambda>r. - key r" rows r r'] assms
  by (simp add: order_by_def order_by_desc_def)

text \<open>A key that identifies the rows of a table.\<close>

lemma unique_key_eq:
  "distinct (map key rows) \<Longrightarrow> r \<in> set rows \<Longrightarrow> r' \<in> set rows \<Longrightarrow> key r = key r' \<Longrightarrow> r = r'"
  by (metis distinct_map inj_onD)

text \<open>What a projection of the rows fixes, every function of that projection does.\<close>

lemma distinct_key_filter:
  assumes "distinct (map key rows)"
  shows "length (filter (\<lambda>r. key r = k) rows) \<le> 1"
  using assms
proof (induction rows)
  case (Cons r rows)
  have "filter (\<lambda>x. key x = key r) rows = []"
    using Cons.prems by (simp add: filter_empty_conv image_iff) metis
  with Cons show ?case by auto
qed simp

lemma map_eq_via:
  assumes "map f xs' = map f xs" and "\<And>x. g x = h (f x)"
  shows "map g xs' = map g xs"
proof -
  have "g = h \<circ> f" using assms(2) by auto
  then show ?thesis using assms(1) by (metis map_map)
qed

lemma list_all_map_cong: "map P xs' = map P xs \<Longrightarrow> list_all P xs' = list_all P xs"
  by (metis (mono_tags) Ball_set image_iff list.set_map)

lemma list_all2_map_eq: "list_all2 R xs ys \<Longrightarrow> (\<And>x y. R x y \<Longrightarrow> g y = f x) \<Longrightarrow> map g ys = map f xs"
  by (induction rule: list_all2_induct) auto

lemma list_all2_right_mem: "list_all2 R xs ys \<Longrightarrow> y \<in> set ys \<Longrightarrow> \<exists>x \<in> set xs. R x y"
  by (induction rule: list_all2_induct) auto

lemma list_all2_left_mem: "list_all2 R xs ys \<Longrightarrow> x \<in> set xs \<Longrightarrow> \<exists>y \<in> set ys. R x y"
  by (induction rule: list_all2_induct) auto

text \<open>Updates and queries that pick one row by its key.\<close>

lemma sql_first_key:
  assumes "distinct (map key rows)" and "r \<in> set rows"
  shows "sql_first (filter (\<lambda>x. key x = key r) rows) = Some r"
proof (cases "filter (\<lambda>x. key x = key r) rows")
  case Nil
  then show ?thesis using assms(2) by (auto simp: filter_empty_conv)
next
  case (Cons x xs)
  then have "x \<in> set (filter (\<lambda>x. key x = key r) rows)" by simp
  then have "x \<in> set rows \<and> key x = key r" by auto
  then show ?thesis using Cons unique_key_eq [OF assms(1) _ assms(2)] by simp
qed

lemma sql_update_twice:
  "(\<And>r. P (g r) = P r) \<Longrightarrow> sql_update P f (sql_update P g rows) = sql_update P (\<lambda>r. f (g r)) rows"
  by (simp add: sql_update_def)

lemma sql_update_const:
  "(\<And>r. r \<in> set rows \<Longrightarrow> P r \<Longrightarrow> r = r0) \<Longrightarrow> sql_update P f rows = sql_update P (\<lambda>_. f r0) rows"
  by (auto simp: sql_update_def)

lemma mem_sql_updateE:
  assumes "r' \<in> set (sql_update P f rows)"
  obtains (updated) r where "r \<in> set rows" "P r" "r' = f r"
  | (kept) "r' \<in> set rows" "\<not> P r'"
  using assms by (auto simp: sql_update_def)

lemma filter_sql_update_other:
  "(\<And>r. P r \<Longrightarrow> \<not> Q r \<and> \<not> Q (f r)) \<Longrightarrow> filter Q (sql_update P f rows) = filter Q rows"
  by (induction rows) (auto simp: sql_update_def)

lemma sql_update_compose:
  assumes "\<And>r. r \<in> set rows \<Longrightarrow> P r \<Longrightarrow> Q (g r)" and "\<And>r. r \<in> set rows \<Longrightarrow> \<not> P r \<Longrightarrow> \<not> Q r"
  shows "sql_update Q f (sql_update P g rows) = sql_update P (\<lambda>r. f (g r)) rows"
  using assms by (auto simp: sql_update_def)

lemma sql_update_keeps_map:
  assumes "\<And>r. r \<in> set rows \<Longrightarrow> P r \<Longrightarrow> g (f r) = g r"
  shows "map g (sql_update P f rows) = map g rows"
  using assms by (induction rows) (auto simp: sql_update_def)

lemma map_res_list_all2: "map_res f xs = Inr ys \<Longrightarrow> list_all2 (\<lambda>x y. f x = Inr y) xs ys"
  by (induction xs arbitrary: ys) (auto simp: res_bind_def split: sum.splits)

lemma map_res_InlD: "map_res f xs = Inl e \<Longrightarrow> \<exists>x \<in> set xs. f x = Inl e"
  by (induction xs) (auto simp: res_bind_def split: sum.splits)

text \<open>
  \<^verbatim>\<open>INSERT ... ON CONFLICT(key) DO UPDATE\<close>: \<open>key\<close> is the unique key, \<open>f\<close> the SET clause, \<open>row\<close> the
  row to insert.
\<close>

definition sql_upsert :: "('r \<Rightarrow> 'k) \<Rightarrow> ('r \<Rightarrow> 'r) \<Rightarrow> 'r \<Rightarrow> 'r list \<Rightarrow> 'r list" where
  "sql_upsert key f row rows =
     (if \<exists>r \<in> set rows. key r = key row then sql_update (\<lambda>r. key r = key row) f rows
      else rows @ [row])"

lemma sql_upsert_distinct:
  assumes "distinct (map key rows)" and "\<And>r. key (f r) = key r"
  shows "distinct (map key (sql_upsert key f row rows))"
proof (cases "\<exists>r \<in> set rows. key r = key row")
  case True
  then show ?thesis using assms by (simp add: sql_upsert_def map_sql_update)
next
  case False
  then have "key row \<notin> key ` set rows" by (simp add: image_iff eq_commute)
  then show ?thesis using False assms by (simp add: sql_upsert_def)
qed

lemma sql_upsert_mem:
  "\<exists>r' \<in> set (sql_upsert key f row rows).
     r' = row \<or> (\<exists>r \<in> set rows. key r = key row \<and> r' = f r)"
proof (cases "\<exists>r \<in> set rows. key r = key row")
  case True
  then obtain r where r: "r \<in> set rows" "key r = key row" by blast
  have "f r \<in> set (sql_upsert key f row rows)"
    using sql_update_memI [OF r(1), of "\<lambda>r. key r = key row" f] r by (auto simp: sql_upsert_def)
  with r show ?thesis by blast
qed (simp add: sql_upsert_def)

lemma sql_upsert_other:
  assumes "\<And>r. key (f r) = key r" and "k \<noteq> key row"
  shows "filter (\<lambda>r. key r = k) (sql_upsert key f row rows) = filter (\<lambda>r. key r = k) rows"
proof -
  have "filter (\<lambda>r. key r = k) (sql_update (\<lambda>r. key r = key row) f rows) = filter (\<lambda>r. key r = k) rows"
    by (rule filter_sql_update_other) (use assms in simp)
  then show ?thesis using assms(2) by (simp add: sql_upsert_def)
qed

lemma sql_upsert_first:
  assumes "distinct (map key rows)" and "\<And>r. key (f r) = key r"
  shows "sql_first (filter (\<lambda>r. key r = key row) (sql_upsert key f row rows)) =
     Some (case sql_first (filter (\<lambda>r. key r = key row) rows) of Some r \<Rightarrow> f r | None \<Rightarrow> row)"
proof (cases "\<exists>r \<in> set rows. key r = key row")
  case True
  then obtain r where r: "r \<in> set rows" "key r = key row" by blast
  have "f r \<in> set (sql_upsert key f row rows)"
    using sql_update_memI [OF r(1), of "\<lambda>r. key r = key row" f] r by (auto simp: sql_upsert_def)
  from sql_first_key [OF sql_upsert_distinct [OF assms] this]
  show ?thesis using sql_first_key [OF assms(1) r(1)] r(2) assms(2) by simp
next
  case False
  then have "filter (\<lambda>r. key r = key row) rows = []" by (auto simp: filter_empty_conv)
  with False show ?thesis by (simp add: sql_upsert_def)
qed

lemma sql_upsert_list_all:
  "list_all P rows \<Longrightarrow> P row \<Longrightarrow> (\<And>r. P r \<Longrightarrow> P (f r)) \<Longrightarrow> list_all P (sql_upsert key f row rows)"
  unfolding sql_upsert_def by (auto intro: list_all_sql_update)

end
