(* ===== verification/Contracts.thy ===== *)
theory Contracts
  imports Prelude
begin

text \<open>
  The request and result contracts of \<^verbatim>\<open>app/contracts.py\<close>: the three enumerations, the
  envelope that step commands, executions and actions extend, the validators that run when
  a body is parsed, and the result documents. The field constraints and the validators are
  the source's; the pydantic machinery that calls them (parsing JSON into fields, refusing
  extra fields) is not modelled. The lemmas at the end say what an accepted document
  satisfies.
\<close>

section \<open>Enumerations\<close>

datatype target_system =
    Odoo | Keycloak | Vicidial | Sip | AgentDesktop | EmailProvider | N8nEvent
  | SecretStorage | VerificationSystem | ReconciliationSystem

datatype operation =
    CreateDisabled | Update | Verify | Activate | Suspend | Reactivate | Terminate
  | RotateCredentials | Reconcile | Cancel

datatype step_state =
    Pending | Running | RetryWait | Succeeded | Verified | Failed | DeadLetter | Compensated

text \<open>A \<^verbatim>\<open>StrEnum\<close> member is its string value.\<close>

fun target_value :: "target_system \<Rightarrow> string" where
  "target_value Odoo = ''odoo''"
| "target_value Keycloak = ''keycloak''"
| "target_value Vicidial = ''vicidial''"
| "target_value Sip = ''sip''"
| "target_value AgentDesktop = ''agent_desktop''"
| "target_value EmailProvider = ''email_provider''"
| "target_value N8nEvent = ''n8n_event''"
| "target_value SecretStorage = ''secret_storage''"
| "target_value VerificationSystem = ''verification''"
| "target_value ReconciliationSystem = ''reconciliation''"

fun operation_value :: "operation \<Rightarrow> string" where
  "operation_value CreateDisabled = ''create_disabled''"
| "operation_value Update = ''update''"
| "operation_value Verify = ''verify''"
| "operation_value Activate = ''activate''"
| "operation_value Suspend = ''suspend''"
| "operation_value Reactivate = ''reactivate''"
| "operation_value Terminate = ''terminate''"
| "operation_value RotateCredentials = ''rotate_credentials''"
| "operation_value Reconcile = ''reconcile''"
| "operation_value Cancel = ''cancel''"

fun state_value :: "step_state \<Rightarrow> string" where
  "state_value Pending = ''pending''"
| "state_value Running = ''running''"
| "state_value RetryWait = ''retry_wait''"
| "state_value Succeeded = ''succeeded''"
| "state_value Verified = ''verified''"
| "state_value Failed = ''failed''"
| "state_value DeadLetter = ''dead_letter''"
| "state_value Compensated = ''compensated''"

definition all_targets :: "target_system list" where
  "all_targets = [Odoo, Keycloak, Vicidial, Sip, AgentDesktop, EmailProvider, N8nEvent,
     SecretStorage, VerificationSystem, ReconciliationSystem]"

definition all_operations :: "operation list" where
  "all_operations = [CreateDisabled, Update, Verify, Activate, Suspend, Reactivate, Terminate,
     RotateCredentials, Reconcile, Cancel]"

text \<open>\<^verbatim>\<open>TargetSystem(value)\<close> and \<^verbatim>\<open>Operation(value)\<close>, which raise on an unknown value.\<close>

definition target_of_value :: "string \<Rightarrow> target_system option" where
  "target_of_value s = find (\<lambda>t. target_value t = s) all_targets"

definition operation_of_value :: "string \<Rightarrow> operation option" where
  "operation_of_value s = find (\<lambda>t. operation_value t = s) all_operations"

lemma target_value_inject [simp]: "target_value s = target_value t \<longleftrightarrow> s = t"
  by (cases s; cases t) auto

lemma operation_value_inject [simp]: "operation_value s = operation_value t \<longleftrightarrow> s = t"
  by (cases s; cases t) auto

lemma state_value_inject [simp]: "state_value s = state_value t \<longleftrightarrow> s = t"
  by (cases s; cases t) auto

lemma target_of_value_of [simp]: "target_of_value (target_value t) = Some t"
  by (cases t) (simp_all add: target_of_value_def all_targets_def)

lemma operation_of_value_of [simp]: "operation_of_value (operation_value t) = Some t"
  by (cases t) (simp_all add: operation_of_value_def all_operations_def)

text \<open>Members of a \<^verbatim>\<open>StrEnum\<close> are strings, so they are ordered as their values are.\<close>

definition target_precedes :: "target_system \<Rightarrow> target_system \<Rightarrow> bool" where
  "target_precedes s t \<longleftrightarrow> target_value s < target_value t"

instantiation target_system :: linorder
begin

definition less_eq_target_system :: "target_system \<Rightarrow> target_system \<Rightarrow> bool" where
  "less_eq_target_system s t \<longleftrightarrow> s = t \<or> target_precedes s t"

definition less_target_system :: "target_system \<Rightarrow> target_system \<Rightarrow> bool" where
  "less_target_system s t \<longleftrightarrow> target_precedes s t"

instance
  by standard (auto simp: less_eq_target_system_def less_target_system_def target_precedes_def)

end

section \<open>Request documents\<close>

record request_envelope =
  schema_version :: string
  request_id :: string
  correlation_id :: string
  idempotency_key :: string
  employee_id :: string
  target_system :: target_system
  operation :: operation
  timestamp :: time

record step_command = request_envelope +
  payload :: dict
  step_id :: string
  sequence :: int
  max_attempts :: int
  mandatory :: bool

record request_execution = request_envelope +
  steps :: "step_command list"

record action_request = request_envelope +
  action_payload :: dict

subsection \<open>Field constraints\<close>

definition is_digit :: "char \<Rightarrow> bool" where
  "is_digit c \<longleftrightarrow> CHR ''0'' \<le> c \<and> c \<le> CHR ''9''"

definition is_lower_letter :: "char \<Rightarrow> bool" where
  "is_lower_letter c \<longleftrightarrow> CHR ''a'' \<le> c \<and> c \<le> CHR ''z''"

definition is_upper_letter :: "char \<Rightarrow> bool" where
  "is_upper_letter c \<longleftrightarrow> CHR ''A'' \<le> c \<and> c \<le> CHR ''Z''"

definition length_between :: "nat \<Rightarrow> nat \<Rightarrow> string \<Rightarrow> bool" where
  "length_between lo hi s \<longleftrightarrow> lo \<le> length s \<and> length s \<le> hi"

text \<open>The pattern \<^verbatim>\<open>^1\.[0-9]+$\<close>, at most 16 characters.\<close>

definition schema_version_ok :: "string \<Rightarrow> bool" where
  "schema_version_ok s \<longleftrightarrow>
     length s \<le> 16 \<and> take 2 s = ''1.'' \<and> drop 2 s \<noteq> [] \<and> list_all is_digit (drop 2 s)"

text \<open>\<^verbatim>\<open>str_strip_whitespace\<close> strips the string fields before they are checked.\<close>

definition strip_envelope :: "'a request_envelope_scheme \<Rightarrow> 'a request_envelope_scheme" where
  "strip_envelope e = e\<lparr>
     schema_version := str_trim (schema_version e),
     request_id := str_trim (request_id e),
     correlation_id := str_trim (correlation_id e),
     idempotency_key := str_trim (idempotency_key e),
     employee_id := str_trim (employee_id e)\<rparr>"

definition envelope_ok :: "'a request_envelope_scheme \<Rightarrow> bool" where
  "envelope_ok e \<longleftrightarrow>
     schema_version_ok (schema_version e) \<and>
     length_between 1 128 (request_id e) \<and>
     length_between 8 128 (correlation_id e) \<and>
     length_between 16 128 (idempotency_key e) \<and>
     length_between 1 128 (employee_id e)"

text \<open>
  A parsed \<^verbatim>\<open>datetime\<close>: naive, or aware with its offset from UTC. The validator refuses a
  naive one and converts an aware one to UTC.
\<close>

datatype raw_datetime =
    Naive time
  | Aware time time \<comment> \<open>local clock reading, \<^verbatim>\<open>utcoffset()\<close>\<close>

fun timestamp_must_have_timezone :: "raw_datetime \<Rightarrow> time res" where
  "timestamp_must_have_timezone (Naive _) = Inl (ValueError ''timestamp timezone is required'')"
| "timestamp_must_have_timezone (Aware local_time offset) = Inr (local_time - offset)"

subsection \<open>No inline secrets\<close>

definition sensitive_keys :: "string list" where
  "sensitive_keys = [''password'', ''passwd'', ''secret'', ''token'', ''private_key'',
     ''client_secret'', ''api_key'', ''authorization'', ''credential'', ''credentials'']"

fun walk_keys :: "json \<Rightarrow> string list"
  and walk_items :: "dict \<Rightarrow> string list"
  and walk_list :: "json list \<Rightarrow> string list" where
  "walk_keys (JObj kvs) = walk_items kvs"
| "walk_keys (JList vs) = walk_list vs"
| "walk_keys _ = []"
| "walk_items [] = []"
| "walk_items ((key, nested) # kvs) = str_lower key # walk_keys nested @ walk_items kvs"
| "walk_list [] = []"
| "walk_list (nested # vs) = walk_keys nested @ walk_list vs"

text \<open>
  The step validator sets reference keys aside before it decides; the action validator does
  not.
\<close>

definition step_no_inline_secrets :: "step_command \<Rightarrow> step_command res" where
  "step_no_inline_secrets c =
     (let found = filter (\<lambda>k. k \<in> set sensitive_keys) (walk_keys (JObj (payload c)));
          reference_keys = filter (\<lambda>k. ends_with k ''_reference'' \<or> ends_with k ''_ref'') found;
          found' = filter (\<lambda>k. k \<notin> set reference_keys) found
      in if found' \<noteq> []
         then Inl (ValueError ''credential values are forbidden; use protected references'')
         else Inr c)"

definition action_no_inline_secrets :: "action_request \<Rightarrow> action_request res" where
  "action_no_inline_secrets a =
     (let found = filter (\<lambda>k. k \<in> set sensitive_keys) (walk_keys (JObj (action_payload a)))
      in if found \<noteq> []
         then Inl (ValueError ''credential values are forbidden; use protected references'')
         else Inr a)"

subsection \<open>Validation of commands and executions\<close>

text \<open>The field constraints of \<^verbatim>\<open>StepCommand\<close>, without its model validator.\<close>

definition step_fields_ok :: "step_command \<Rightarrow> bool" where
  "step_fields_ok c \<longleftrightarrow>
     envelope_ok c \<and>
     length_between 8 128 (step_id c) \<and>
     0 \<le> sequence c \<and> sequence c \<le> 100 \<and>
     1 \<le> max_attempts c \<and> max_attempts c \<le> 8"

definition validate_step :: "step_command \<Rightarrow> step_command res" where
  "validate_step c = (if step_fields_ok c then step_no_inline_secrets c else Inl ValidationError)"

definition validate_action :: "action_request \<Rightarrow> action_request res" where
  "validate_action a = (if envelope_ok a then action_no_inline_secrets a else Inl ValidationError)"

text \<open>The first of the four shared fields in which a step differs from its execution.\<close>

definition step_mismatch :: "request_execution \<Rightarrow> step_command \<Rightarrow> string option" where
  "step_mismatch ex s =
     (if schema_version s \<noteq> schema_version ex then Some ''step schema_version mismatch''
      else if request_id s \<noteq> request_id ex then Some ''step request_id mismatch''
      else if correlation_id s \<noteq> correlation_id ex then Some ''step correlation_id mismatch''
      else if employee_id s \<noteq> employee_id ex then Some ''step employee_id mismatch''
      else None)"

fun first_mismatch :: "request_execution \<Rightarrow> step_command list \<Rightarrow> string option" where
  "first_mismatch ex [] = None"
| "first_mismatch ex (s # ss) =
     (case step_mismatch ex s of Some e \<Rightarrow> Some e | None \<Rightarrow> first_mismatch ex ss)"

definition consistent_steps :: "request_execution \<Rightarrow> request_execution res" where
  "consistent_steps ex =
     (let sequences = map sequence (steps ex) in
      if length sequences \<noteq> length (remdups sequences)
      then Inl (ValueError ''step sequences must be unique'')
      else case first_mismatch ex (steps ex) of
             Some e \<Rightarrow> Inl (ValueError e)
           | None \<Rightarrow> Inr ex)"

definition validate_execution :: "request_execution \<Rightarrow> request_execution res" where
  "validate_execution ex =
     (if envelope_ok ex \<and> 1 \<le> length (steps ex) \<and> length (steps ex) \<le> 32 \<and>
         list_all (\<lambda>s. validate_step s = Inr s) (steps ex)
      then consistent_steps ex
      else Inl ValidationError)"

text \<open>
  The models on fields whose timestamps are in UTC, as after the engine's own changes of a document:
  the string fields are stripped first (\<^verbatim>\<open>str_strip_whitespace\<close>; values inside \<^verbatim>\<open>payload\<close> are not),
  then the constraints and the model validators run.
\<close>

definition strip_step :: "step_command \<Rightarrow> step_command" where
  "strip_step c = (strip_envelope c)\<lparr>step_id := str_trim (step_id c)\<rparr>"

definition strip_execution :: "request_execution \<Rightarrow> request_execution" where
  "strip_execution ex = (strip_envelope ex)\<lparr>steps := map strip_step (steps ex)\<rparr>"

definition parse_execution :: "request_execution \<Rightarrow> request_execution res" where
  "parse_execution ex = validate_execution (strip_execution ex)"

definition parse_action :: "action_request \<Rightarrow> action_request res" where
  "parse_action a = validate_action (strip_envelope a)"

text \<open>
  A request body before its timestamps have passed their validator: the fields as they were read,
  whose own \<^const>\<open>timestamp\<close> is not looked at, and the \<^verbatim>\<open>datetime\<close> that stood in its place. Each step of an
  execution is an envelope of its own, with its own timestamp.
\<close>

record 'a dated =
  raw_timestamp :: raw_datetime
  raw_fields :: 'a

record execution_document =
  doc_envelope :: "request_envelope dated"
  doc_steps :: "step_command dated list"

definition converted :: "'a request_envelope_scheme dated \<Rightarrow> 'a request_envelope_scheme res" where
  "converted d =
     res_bind (timestamp_must_have_timezone (raw_timestamp d)) (\<lambda>t.
     Inr ((raw_fields d)\<lparr>timestamp := t\<rparr>))"

definition read_execution :: "execution_document \<Rightarrow> request_execution res" where
  "read_execution doc =
     res_bind (converted (doc_envelope doc)) (\<lambda>envelope.
     res_bind (map_res converted (doc_steps doc)) (\<lambda>ss.
     Inr (request_envelope.extend envelope (request_execution.fields ss))))"

text \<open>The models as they are built from a request body, with every validator.\<close>

definition build_execution :: "execution_document \<Rightarrow> request_execution res" where
  "build_execution doc = res_bind (read_execution doc) parse_execution"

definition build_action :: "action_request dated \<Rightarrow> action_request res" where
  "build_action doc = res_bind (converted doc) parse_action"

section \<open>Result documents\<close>

record step_result =
  sr_step_id :: string
  sr_target_system :: target_system
  sr_operation :: operation
  sr_state :: step_state
  sr_attempt_count :: int
  sr_external_id :: "string option"
  sr_external_reference :: "string option"
  sr_credential_reference :: "string option"
  sr_evidence_hash :: "string option"
  sr_error_code :: "string option"
  sr_retry_at :: "time option"
  sr_replayed :: bool

record execution_result =
  er_request_id :: string
  er_employee_id :: string
  er_correlation_id :: string
  er_state :: string
  er_step_results :: "step_result list"
  er_replayed :: bool
  er_updated_at :: time

record callback_event =
  ce_event_id :: string
  ce_schema_version :: string
  ce_request_id :: string
  ce_employee_id :: string
  ce_correlation_id :: string
  ce_idempotency_key :: string
  ce_target_system :: target_system
  ce_operation :: operation
  ce_state :: string
  ce_step_results :: "step_result list"
  ce_timestamp :: time

record reconciliation_result =
  rr_employee_id :: string
  rr_state :: string
  rr_systems :: "step_result list"

text \<open>
  A \<^verbatim>\<open>str | None\<close> field filled from a JSON value: \<^verbatim>\<open>null\<close> and strings are taken, any other
  value fails validation.
\<close>

fun opt_str_field :: "json \<Rightarrow> string option res" where
  "opt_str_field JNull = Inr None"
| "opt_str_field (JStr s) = Inr (Some s)"
| "opt_str_field _ = Inl ValidationError"

text \<open>\<^verbatim>\<open>d.get(k)\<close>, with \<^verbatim>\<open>None\<close> for a missing key.\<close>

definition dict_get :: "dict \<Rightarrow> string \<Rightarrow> json" where
  "dict_get d k = (case map_of d k of None \<Rightarrow> JNull | Some v \<Rightarrow> v)"

section \<open>SIP browser-session documents\<close>

definition is_word_char :: "char \<Rightarrow> bool" where
  "is_word_char c \<longleftrightarrow>
     is_upper_letter c \<or> is_lower_letter c \<or> is_digit c \<or> c = CHR ''_'' \<or> c = CHR ''-''"

definition is_hex :: "char \<Rightarrow> bool" where
  "is_hex c \<longleftrightarrow> is_digit c \<or> (CHR ''a'' \<le> c \<and> c \<le> CHR ''f'')"

text \<open>The patterns \<^verbatim>\<open>^[A-Za-z0-9_-]{1,20}$\<close>, \<^verbatim>\<open>^[A-Z_]{1,40}$\<close> and that of a version 1-5 UUID.\<close>

definition name_ok :: "string \<Rightarrow> bool" where
  "name_ok s \<longleftrightarrow> length_between 1 20 s \<and> list_all is_word_char s"

definition role_ok :: "string \<Rightarrow> bool" where
  "role_ok s \<longleftrightarrow> length_between 1 40 s \<and> list_all (\<lambda>c. is_upper_letter c \<or> c = CHR ''_'') s"

definition uuid_char_ok :: "nat \<Rightarrow> char \<Rightarrow> bool" where
  "uuid_char_ok i c =
     (if i \<in> {8, 13, 18, 23} then c = CHR ''-''
      else if i = 14 then CHR ''1'' \<le> c \<and> c \<le> CHR ''5''
      else if i = 19 then c \<in> {CHR ''8'', CHR ''9'', CHR ''a'', CHR ''b''}
      else is_hex c)"

definition uuid_ok :: "string \<Rightarrow> bool" where
  "uuid_ok s \<longleftrightarrow> length s = 36 \<and> list_all (\<lambda>(i, c). uuid_char_ok i c) (enumerate 0 s)"

record sip_browser_session_request =
  sq_employee_id :: string
  sq_keycloak_subject :: string
  sq_odoo_employee_id :: string
  sq_vicidial_username :: string
  sq_endpoint :: int
  sq_campaign :: string
  sq_role :: string
  sq_browser_session_binding :: string

definition sip_request_ok :: "sip_browser_session_request \<Rightarrow> bool" where
  "sip_request_ok q \<longleftrightarrow>
     length_between 1 128 (sq_employee_id q) \<and>
     length_between 16 128 (sq_keycloak_subject q) \<and>
     length_between 1 128 (sq_odoo_employee_id q) \<and>
     name_ok (sq_vicidial_username q) \<and>
     6100 \<le> sq_endpoint q \<and> sq_endpoint q \<le> 6999 \<and>
     name_ok (sq_campaign q) \<and>
     role_ok (sq_role q) \<and>
     uuid_ok (sq_browser_session_binding q)"

record sip_browser_session_action =
  sa_session_id :: string
  sa_browser_session_binding :: string

definition sip_action_ok :: "sip_browser_session_action \<Rightarrow> bool" where
  "sip_action_ok a \<longleftrightarrow> uuid_ok (sa_session_id a) \<and> uuid_ok (sa_browser_session_binding a)"

text \<open>Both models strip the white space of their texts before they check them.\<close>

definition parse_sip_request :: "sip_browser_session_request \<Rightarrow> sip_browser_session_request res" where
  "parse_sip_request q =
     (let q' = q\<lparr>sq_employee_id := strip_by is_white (sq_employee_id q),
            sq_keycloak_subject := strip_by is_white (sq_keycloak_subject q),
            sq_odoo_employee_id := strip_by is_white (sq_odoo_employee_id q),
            sq_vicidial_username := strip_by is_white (sq_vicidial_username q),
            sq_campaign := strip_by is_white (sq_campaign q), sq_role := strip_by is_white (sq_role q),
            sq_browser_session_binding := strip_by is_white (sq_browser_session_binding q)\<rparr>
      in if sip_request_ok q' then Inr q' else Inl ValidationError)"

definition parse_sip_action :: "sip_browser_session_action \<Rightarrow> sip_browser_session_action res" where
  "parse_sip_action a =
     (let a' = a\<lparr>sa_session_id := strip_by is_white (sa_session_id a),
            sa_browser_session_binding := strip_by is_white (sa_browser_session_binding a)\<rparr>
      in if sip_action_ok a' then Inr a' else Inl ValidationError)"

record sip_browser_session_response =
  sp_session_id :: string
  sp_temporary_sip_authorization_username :: string
  sp_temporary_sip_credential :: string
  sp_endpoint :: int
  sp_sip_uri :: string
  sp_approved_wss_url :: string
  sp_temporary_turn_username :: string
  sp_temporary_turn_credential :: string
  sp_approved_turn_url :: string
  sp_expiration :: time
  sp_campaign :: string
  sp_role :: string
  sp_employee_identity :: string
  sp_browser_session_binding :: string

section \<open>What an accepted document satisfies\<close>

text \<open>\<open>occurs_key k v\<close>: the key \<open>k\<close> occurs in \<open>v\<close> at some depth.\<close>

inductive occurs_key :: "string \<Rightarrow> json \<Rightarrow> bool" where
  here: "(k, v) \<in> set kvs \<Longrightarrow> occurs_key k (JObj kvs)"
| deeper: "(k', v) \<in> set kvs \<Longrightarrow> occurs_key k v \<Longrightarrow> occurs_key k (JObj kvs)"
| item: "v \<in> set vs \<Longrightarrow> occurs_key k v \<Longrightarrow> occurs_key k (JList vs)"

inductive_simps occurs_key_simps:
  "occurs_key k (JObj kvs)"
  "occurs_key k (JList vs)"
  "occurs_key k JNull"
  "occurs_key k (JBool b)"
  "occurs_key k (JInt i)"
  "occurs_key k (JFloat f)"
  "occurs_key k (JStr s)"

lemma walk_keys_occurs:
  "x \<in> set (walk_keys v) \<longleftrightarrow> (\<exists>k. occurs_key k v \<and> x = str_lower k)"
  "x \<in> set (walk_items kvs) \<longleftrightarrow>
     (\<exists>k w. (k, w) \<in> set kvs \<and> (x = str_lower k \<or> (\<exists>k'. occurs_key k' w \<and> x = str_lower k')))"
  "x \<in> set (walk_list vs) \<longleftrightarrow> (\<exists>w \<in> set vs. \<exists>k. occurs_key k w \<and> x = str_lower k)"
proof (induction v and kvs and vs rule: walk_keys_walk_items_walk_list.induct)
  case (1 kvs)
  then show ?case by (auto simp: occurs_key_simps)
next
  case (2 vs)
  then show ?case by (auto simp: occurs_key_simps)
next
  case (5 key nested kvs)
  show ?case by (simp add: "5.IH") blast
qed (auto simp: occurs_key_simps)

text \<open>No sensitive key ends in a reference suffix, so setting those aside removes nothing.\<close>

lemma sensitive_not_reference:
  "k \<in> set sensitive_keys \<Longrightarrow> \<not> ends_with k ''_reference'' \<and> \<not> ends_with k ''_ref''"
  by (auto simp: sensitive_keys_def ends_with_def)

lemma no_reference_keys:
  "filter (\<lambda>k. ends_with k ''_reference'' \<or> ends_with k ''_ref'')
     (filter (\<lambda>k. k \<in> set sensitive_keys) ks) = []"
  using sensitive_not_reference by (auto simp: filter_empty_conv)

lemma step_secrets_iff:
  "step_no_inline_secrets c = Inr c \<longleftrightarrow>
     (\<forall>k \<in> set (walk_keys (JObj (payload c))). k \<notin> set sensitive_keys)"
  unfolding step_no_inline_secrets_def Let_def no_reference_keys
  by (auto simp: filter_empty_conv)

lemma step_secrets_cases:
  "step_no_inline_secrets c = Inr c \<or>
   step_no_inline_secrets c =
     Inl (ValueError ''credential values are forbidden; use protected references'')"
  by (simp add: step_no_inline_secrets_def Let_def)

lemma first_mismatch_None:
  "first_mismatch ex ss = None \<longleftrightarrow> (\<forall>s \<in> set ss. step_mismatch ex s = None)"
  by (induction ss) (auto split: option.splits)

lemma step_mismatch_None:
  "step_mismatch ex s = None \<longleftrightarrow>
     schema_version s = schema_version ex \<and> request_id s = request_id ex \<and>
     correlation_id s = correlation_id ex \<and> employee_id s = employee_id ex"
  by (auto simp: step_mismatch_def)

lemma remdups_length_distinct: "length xs = length (remdups xs) \<longleftrightarrow> distinct xs"
  by (metis distinct_card card_set length_remdups_card_conv card_distinct)

lemma consistent_steps_accepts:
  "consistent_steps ex = Inr ex \<longleftrightarrow>
     distinct (map sequence (steps ex)) \<and>
     (\<forall>s \<in> set (steps ex).
        schema_version s = schema_version ex \<and> request_id s = request_id ex \<and>
        correlation_id s = correlation_id ex \<and> employee_id s = employee_id ex)"
proof -
  have "(\<forall>s \<in> set (steps ex).
        schema_version s = schema_version ex \<and> request_id s = request_id ex \<and>
        correlation_id s = correlation_id ex \<and> employee_id s = employee_id ex) \<longleftrightarrow>
      first_mismatch ex (steps ex) = None"
    by (simp add: first_mismatch_None step_mismatch_None)
  then show ?thesis
    by (simp add: consistent_steps_def Let_def remdups_length_distinct split: option.split)
qed

lemma validate_execution_cases:
  "validate_execution ex = Inr ex \<or> (\<exists>e. validate_execution ex = Inl e)"
  by (auto simp: validate_execution_def consistent_steps_def Let_def split: option.splits)

text \<open>What the store needs of the steps of an execution; every validated execution has it.\<close>

definition steps_belong :: "request_execution \<Rightarrow> bool" where
  "steps_belong ex \<longleftrightarrow>
     (\<forall>s \<in> set (steps ex).
        request_id s = request_id ex \<and> employee_id s = employee_id ex \<and> 1 \<le> max_attempts s)"

lemma validate_step_fields: "validate_step s = Inr s \<Longrightarrow> step_fields_ok s"
  by (simp add: validate_step_def split: if_splits)

lemma validated_steps_belong: "validate_execution ex = Inr ex \<Longrightarrow> steps_belong ex"
  by (auto simp: validate_execution_def consistent_steps_accepts steps_belong_def list_all_iff
        step_fields_ok_def dest!: validate_step_fields split: if_splits)

end
