(* ===== verification/Database.thy ===== *)
theory Database
  imports Contracts
begin

text \<open>
  The tables that \<^verbatim>\<open>StateRepository.__init__\<close> creates (\<^verbatim>\<open>app/repository.py\<close>): one record per
  row type, with the columns in the order of the schema, and one record for the whole
  database. A table is the list of its rows in rowid order. Timestamps are instants, JSON
  columns hold the document that was dumped into them (\<^verbatim>\<open>command_json\<close> the step command,
  \<^verbatim>\<open>executions.result_json\<close> the execution result, \<^verbatim>\<open>steps.result_json\<close> the result
  dictionary), NULL is \<^const>\<open>None\<close>. Primary keys and UNIQUE constraints are checked by the
  operations that insert, in the theories of the components.

  The second half is the contract every update of the step table shares: an operation that
  keeps the identity columns keeps the identity part of the store's invariant.
\<close>

section \<open>Rows\<close>

record exec_row =
  ex_request_id :: string
  ex_employee_id :: string
  ex_correlation_id :: string
  ex_idempotency_hash :: string
  ex_request_hash :: string
  ex_state :: string
  ex_result :: "execution_result option"
  ex_cancelled_at :: "time option"
  ex_created_at :: time
  ex_updated_at :: time

record step_row =
  st_step_id :: string
  st_request_id :: string
  st_sequence :: int
  st_idempotency_hash :: string
  st_command :: step_command
  st_state :: step_state
  st_attempt_count :: int
  st_max_attempts :: int
  st_retry_class :: "string option"
  st_result :: "dict option"
  st_error_code :: "string option"
  st_next_retry_at :: "time option"
  st_claimed_at :: "time option"
  st_updated_at :: time

record dead_letter_row =
  dl_step_id :: string
  dl_request_id :: string
  dl_error_code :: string
  dl_created_at :: time
  dl_resolved_at :: "time option"

text \<open>\<^verbatim>\<open>delivered\<close> is 1 when delivered, 0 while pending, -1 when the retries are exhausted.\<close>

record callback_row =
  cb_event_id :: string
  cb_payload :: json
  cb_delivered :: int
  cb_attempt_count :: int
  cb_next_retry_at :: "time option"
  cb_last_error :: "string option"
  cb_created_at :: time
  cb_updated_at :: time

record jti_row =
  jt_jti_hash :: string
  jt_expires_at :: int

record rate_row =
  rw_subject_hash :: string
  rw_window_start :: int
  rw_count :: int

record credential_row =
  cr_reference :: string
  cr_ciphertext :: string
  cr_fingerprint :: string
  cr_created_at :: time
  cr_revoked_at :: "time option"

text \<open>The AUTOINCREMENT \<^verbatim>\<open>id\<close>, which nothing reads, is left out.\<close>

record compensation_row =
  ca_request_id :: string
  ca_step_id :: string
  ca_action :: string
  ca_state :: string
  ca_evidence_hash :: "string option"
  ca_error_code :: "string option"
  ca_attempt_count :: int
  ca_max_attempts :: int
  ca_next_retry_at :: "time option"
  ca_updated_at :: "time option"
  ca_created_at :: time

record verification_row =
  vr_employee_id :: string
  vr_target_system :: string
  vr_source_step_id :: string
  vr_evidence_hash :: string
  vr_verified_at :: time

record mock_mailbox_row =
  mm_employee_id :: string
  mm_email_address :: string
  mm_external_mailbox_id :: string
  mm_aliases_json :: json
  mm_provisioning_state :: string
  mm_created_at :: time
  mm_activated_at :: "time option"
  mm_suspended_at :: "time option"
  mm_terminated_at :: "time option"
  mm_credential_reference :: string

record sip_session_row =
  ss_session_id :: string
  ss_employee_id :: string
  ss_keycloak_subject :: string
  ss_odoo_employee_id :: string
  ss_vicidial_username :: string
  ss_endpoint :: int
  ss_campaign :: string
  ss_role :: string
  ss_browser_session_binding :: string
  ss_credential_fingerprint :: string
  ss_expires_at :: time
  ss_state :: string
  ss_created_at :: time
  ss_updated_at :: time

section \<open>The database\<close>

record db =
  tbl_executions :: "exec_row list"
  tbl_steps :: "step_row list"
  tbl_dead_letters :: "dead_letter_row list"
  tbl_callback_events :: "callback_row list"
  tbl_replay_jti :: "jti_row list"
  tbl_rate_windows :: "rate_row list"
  tbl_encrypted_credentials :: "credential_row list"
  tbl_compensation_actions :: "compensation_row list"
  tbl_verification_records :: "verification_row list"
  tbl_mock_mailboxes :: "mock_mailbox_row list"
  tbl_sip_browser_sessions :: "sip_session_row list"

text \<open>The store after the constructor has run on a new file.\<close>

definition empty_db :: db where
  "empty_db = \<lparr>tbl_executions = [], tbl_steps = [], tbl_dead_letters = [],
     tbl_callback_events = [], tbl_replay_jti = [], tbl_rate_windows = [],
     tbl_encrypted_credentials = [], tbl_compensation_actions = [],
     tbl_verification_records = [], tbl_mock_mailboxes = [], tbl_sip_browser_sessions = []\<rparr>"

lemma empty_db_simps [simp]:
  "tbl_executions empty_db = []"
  "tbl_steps empty_db = []"
  "tbl_dead_letters empty_db = []"
  "tbl_callback_events empty_db = []"
  "tbl_replay_jti empty_db = []"
  "tbl_rate_windows empty_db = []"
  "tbl_encrypted_credentials empty_db = []"
  "tbl_compensation_actions empty_db = []"
  "tbl_verification_records empty_db = []"
  "tbl_mock_mailboxes empty_db = []"
  "tbl_sip_browser_sessions empty_db = []"
  by (simp_all add: empty_db_def)

text \<open>\<^verbatim>\<open>digest\<close>: SHA-256 of the UTF-8 text, as hexadecimal. The hash is a parameter.\<close>

definition digest :: "(string \<Rightarrow> string) \<Rightarrow> string \<Rightarrow> string" where
  "digest sha256_hex value = sha256_hex value"

section \<open>States of a step\<close>

definition is_done :: "step_state \<Rightarrow> bool" where
  "is_done s \<longleftrightarrow> s \<in> {Succeeded, Verified, Compensated}"

definition is_waiting :: "step_state \<Rightarrow> bool" where
  "is_waiting s \<longleftrightarrow> s \<in> {Pending, RetryWait}"

definition is_successful :: "step_state \<Rightarrow> bool" where
  "is_successful s \<longleftrightarrow> s \<in> {Succeeded, Verified}"

text \<open>A step that has been neither started nor cancelled before its start.\<close>

definition is_idle :: "step_state \<Rightarrow> bool" where
  "is_idle s \<longleftrightarrow> s \<in> {Pending, Compensated}"

lemma is_done_simps [simp]:
  "\<not> is_done Pending" "\<not> is_done Running" "\<not> is_done RetryWait" "is_done Succeeded"
  "is_done Verified" "\<not> is_done Failed" "\<not> is_done DeadLetter" "is_done Compensated"
  by (simp_all add: is_done_def)

lemma is_waiting_simps [simp]:
  "is_waiting Pending" "\<not> is_waiting Running" "is_waiting RetryWait" "\<not> is_waiting Succeeded"
  "\<not> is_waiting Verified" "\<not> is_waiting Failed" "\<not> is_waiting DeadLetter"
  "\<not> is_waiting Compensated"
  by (simp_all add: is_waiting_def)

lemma is_successful_simps [simp]:
  "\<not> is_successful Pending" "\<not> is_successful Running" "\<not> is_successful RetryWait"
  "is_successful Succeeded" "is_successful Verified" "\<not> is_successful Failed"
  "\<not> is_successful DeadLetter" "\<not> is_successful Compensated"
  by (simp_all add: is_successful_def)

lemma is_idle_simps [simp]:
  "is_idle Pending" "\<not> is_idle Running" "\<not> is_idle RetryWait" "\<not> is_idle Succeeded"
  "\<not> is_idle Verified" "\<not> is_idle Failed" "\<not> is_idle DeadLetter" "is_idle Compensated"
  by (simp_all add: is_idle_def)

section \<open>The identity part of the invariant\<close>

text \<open>The columns of a step and of an execution that no update writes.\<close>

definition step_ident :: "step_row \<Rightarrow> string \<times> string \<times> int \<times> string \<times> step_command \<times> int" where
  "step_ident s = (st_step_id s, st_request_id s, st_sequence s, st_idempotency_hash s,
     st_command s, st_max_attempts s)"

definition exec_ident :: "exec_row \<Rightarrow> string \<times> string \<times> string \<times> string \<times> string" where
  "exec_ident e = (ex_request_id e, ex_employee_id e, ex_correlation_id e,
     ex_idempotency_hash e, ex_request_hash e)"

text \<open>The columns of a step row that repeat fields of its command agree with it.\<close>

definition step_row_wf :: "step_row \<Rightarrow> bool" where
  "step_row_wf s \<longleftrightarrow>
     st_step_id s = step_id (st_command s) \<and>
     st_request_id s = request_id (st_command s) \<and>
     st_sequence s = sequence (st_command s) \<and>
     st_max_attempts s = max_attempts (st_command s) \<and>
     1 \<le> st_max_attempts s"

text \<open>
  Keys and references: the PRIMARY KEY and UNIQUE constraints of \<^verbatim>\<open>executions\<close> and \<^verbatim>\<open>steps\<close>,
  the foreign key of \<^verbatim>\<open>steps\<close>, and the agreement of each row with its command.
\<close>

definition ident_inv :: "db \<Rightarrow> bool" where
  "ident_inv d \<longleftrightarrow>
     distinct (map ex_request_id (tbl_executions d)) \<and>
     distinct (map ex_correlation_id (tbl_executions d)) \<and>
     distinct (map ex_idempotency_hash (tbl_executions d)) \<and>
     distinct (map st_step_id (tbl_steps d)) \<and>
     distinct (map st_idempotency_hash (tbl_steps d)) \<and>
     distinct (map (\<lambda>s. (st_request_id s, st_sequence s)) (tbl_steps d)) \<and>
     st_request_id ` set (tbl_steps d) \<subseteq> ex_request_id ` set (tbl_executions d) \<and>
     list_all step_row_wf (tbl_steps d)"

lemma ident_inv_empty: "ident_inv empty_db"
  by (simp add: ident_inv_def)

text \<open>\<open>ident_inv\<close> reads the identity columns only.\<close>

lemma ident_inv_cong:
  assumes steps: "map step_ident (tbl_steps d') = map step_ident (tbl_steps d)"
    and execs: "map exec_ident (tbl_executions d') = map exec_ident (tbl_executions d)"
  shows "ident_inv d' = ident_inv d"
proof -
  note s = map_eq_via [OF steps] and e = map_eq_via [OF execs]
  have "map st_step_id (tbl_steps d') = map st_step_id (tbl_steps d)"
    by (rule s [where h = fst]) (simp add: step_ident_def)
  moreover have req: "map st_request_id (tbl_steps d') = map st_request_id (tbl_steps d)"
    by (rule s [where h = "\<lambda>(a, b, c). b"]) (simp add: step_ident_def)
  moreover have "map (\<lambda>s. (st_request_id s, st_sequence s)) (tbl_steps d')
      = map (\<lambda>s. (st_request_id s, st_sequence s)) (tbl_steps d)"
    by (rule s [where h = "\<lambda>(a, b, c, e). (b, c)"]) (simp add: step_ident_def)
  moreover have "map st_idempotency_hash (tbl_steps d') = map st_idempotency_hash (tbl_steps d)"
    by (rule s [where h = "\<lambda>(a, b, c, e, f). e"]) (simp add: step_ident_def)
  moreover have "map step_row_wf (tbl_steps d') = map step_row_wf (tbl_steps d)"
    by (rule s [where h = "\<lambda>(i, r, q, k, c, m). i = step_id c \<and> r = request_id c \<and>
          q = sequence c \<and> m = max_attempts c \<and> 1 \<le> m"])
       (simp add: step_ident_def step_row_wf_def)
  moreover have er: "map ex_request_id (tbl_executions d') = map ex_request_id (tbl_executions d)"
    by (rule e [where h = fst]) (simp add: exec_ident_def)
  moreover have "map ex_correlation_id (tbl_executions d') = map ex_correlation_id (tbl_executions d)"
    by (rule e [where h = "\<lambda>(a, b, c, f). c"]) (simp add: exec_ident_def)
  moreover have "map ex_idempotency_hash (tbl_executions d')
      = map ex_idempotency_hash (tbl_executions d)"
    by (rule e [where h = "\<lambda>(a, b, c, f, g). f"]) (simp add: exec_ident_def)
  moreover have "st_request_id ` set (tbl_steps d') = st_request_id ` set (tbl_steps d)"
    using req by (metis list.set_map)
  moreover have "ex_request_id ` set (tbl_executions d') = ex_request_id ` set (tbl_executions d)"
    using er by (metis list.set_map)
  moreover have "list_all step_row_wf (tbl_steps d') = list_all step_row_wf (tbl_steps d)"
    using \<open>map step_row_wf (tbl_steps d') = _\<close> by (rule list_all_map_cong)
  ultimately show ?thesis by (simp only: ident_inv_def)
qed

section \<open>Order of the steps of a request\<close>

text \<open>
  The steps of a request run in sequence order: while a step is not done, no later step of
  the request has been started (it is pending, or was cancelled before its start).
\<close>

definition order_inv :: "db \<Rightarrow> bool" where
  "order_inv d \<longleftrightarrow>
     (\<forall>p \<in> set (tbl_steps d). \<forall>s \<in> set (tbl_steps d).
        st_request_id p = st_request_id s \<and> st_sequence p < st_sequence s \<and>
        \<not> is_done (st_state p) \<longrightarrow> is_idle (st_state s))"

text \<open>A step carries a claim time exactly while it is running.\<close>

definition claim_wf :: "step_row \<Rightarrow> bool" where
  "claim_wf s \<longleftrightarrow> (st_claimed_at s \<noteq> None \<longleftrightarrow> st_state s = Running)"

definition store_inv :: "db \<Rightarrow> bool" where
  "store_inv d \<longleftrightarrow> ident_inv d \<and> order_inv d \<and> list_all claim_wf (tbl_steps d)"

lemma store_inv_empty: "store_inv empty_db"
  by (simp add: store_inv_def ident_inv_empty order_inv_def)

lemma order_invD:
  "order_inv d \<Longrightarrow> p \<in> set (tbl_steps d) \<Longrightarrow> s \<in> set (tbl_steps d) \<Longrightarrow>
     st_request_id p = st_request_id s \<Longrightarrow> st_sequence p < st_sequence s \<Longrightarrow>
     \<not> is_idle (st_state s) \<Longrightarrow> is_done (st_state p)"
  by (auto simp: order_inv_def)

lemma step_ident_eqD:
  "step_ident s' = step_ident s \<Longrightarrow>
     st_step_id s' = st_step_id s \<and> st_request_id s' = st_request_id s \<and>
     st_sequence s' = st_sequence s \<and> st_command s' = st_command s \<and>
     st_max_attempts s' = st_max_attempts s \<and>
     st_idempotency_hash s' = st_idempotency_hash s"
  by (simp add: step_ident_def)

section \<open>The contract of an update of the step table\<close>

text \<open>
  An operation that, wherever its precondition holds, writes none of the identity columns.
\<close>

locale step_update =
  fixes pre :: "db \<Rightarrow> bool" and oper :: "db \<Rightarrow> db"
  assumes keeps_step_ident:
      "pre d \<Longrightarrow> map step_ident (tbl_steps (oper d)) = map step_ident (tbl_steps d)"
    and keeps_exec_ident:
      "pre d \<Longrightarrow> map exec_ident (tbl_executions (oper d)) = map exec_ident (tbl_executions d)"
begin

lemma keeps_ident_inv: "pre d \<Longrightarrow> ident_inv (oper d) \<longleftrightarrow> ident_inv d"
  by (rule ident_inv_cong [OF keeps_step_ident keeps_exec_ident])

lemma keeps_step_ids: "pre d \<Longrightarrow> map st_step_id (tbl_steps (oper d)) = map st_step_id (tbl_steps d)"
  by (rule map_eq_via [OF keeps_step_ident, where h = fst]) (simp_all add: step_ident_def)

end

text \<open>
  What one update may do to one step: leave a finished step in its state, start no step
  that had not been started, and keep the claim time in line with the state.
\<close>

definition quiet_move :: "step_row \<Rightarrow> step_row \<Rightarrow> bool" where
  "quiet_move s s' \<longleftrightarrow>
     step_ident s' = step_ident s \<and>
     (is_done (st_state s) \<longrightarrow> st_state s' = st_state s) \<and>
     (\<not> is_idle (st_state s') \<longrightarrow> \<not> is_idle (st_state s)) \<and>
     (claim_wf s \<longrightarrow> claim_wf s')"

lemma quiet_move_refl [simp]: "quiet_move s s"
  by (simp add: quiet_move_def)

locale quiet_step_update =
  fixes pre :: "db \<Rightarrow> bool" and oper :: "db \<Rightarrow> db"
  assumes moves_quietly: "pre d \<Longrightarrow> list_all2 quiet_move (tbl_steps d) (tbl_steps (oper d))"
    and leaves_exec_ident:
      "pre d \<Longrightarrow> map exec_ident (tbl_executions (oper d)) = map exec_ident (tbl_executions d)"

sublocale quiet_step_update \<subseteq> step_update pre oper
proof
  show "map step_ident (tbl_steps (oper d)) = map step_ident (tbl_steps d)" if "pre d" for d
    using moves_quietly [OF that] by (rule list_all2_map_eq) (simp add: quiet_move_def)
qed (rule leaves_exec_ident)

context quiet_step_update
begin

lemma keeps_order_inv:
  assumes "pre d" and "order_inv d"
  shows "order_inv (oper d)"
  unfolding order_inv_def
proof (intro ballI impI)
  fix p' s'
  assume p': "p' \<in> set (tbl_steps (oper d))" and s': "s' \<in> set (tbl_steps (oper d))"
    and rel: "st_request_id p' = st_request_id s' \<and> st_sequence p' < st_sequence s' \<and>
      \<not> is_done (st_state p')"
  obtain p where p: "p \<in> set (tbl_steps d)" "quiet_move p p'"
    using list_all2_right_mem [OF moves_quietly [OF assms(1)] p'] by blast
  obtain s where s: "s \<in> set (tbl_steps d)" "quiet_move s s'"
    using list_all2_right_mem [OF moves_quietly [OF assms(1)] s'] by blast
  have "st_request_id p = st_request_id s \<and> st_sequence p < st_sequence s"
    using rel p(2) s(2) by (simp add: quiet_move_def step_ident_def)
  moreover have "\<not> is_done (st_state p)"
    using rel p(2) by (auto simp: quiet_move_def)
  ultimately have "is_idle (st_state s)"
    using assms(2) p(1) s(1) by (auto simp: order_inv_def)
  then show "is_idle (st_state s')" using s(2) by (auto simp: quiet_move_def)
qed

lemma keeps_claim_wf:
  assumes "pre d" and "list_all claim_wf (tbl_steps d)"
  shows "list_all claim_wf (tbl_steps (oper d))"
  unfolding list_all_iff
proof
  fix s' assume "s' \<in> set (tbl_steps (oper d))"
  then obtain s where "s \<in> set (tbl_steps d)" "quiet_move s s'"
    using list_all2_right_mem [OF moves_quietly [OF assms(1)]] by blast
  then show "claim_wf s'" using assms(2) by (auto simp: quiet_move_def list_all_iff)
qed

lemma keeps_store_inv: "pre d \<Longrightarrow> store_inv d \<Longrightarrow> store_inv (oper d)"
  by (simp add: store_inv_def keeps_ident_inv keeps_order_inv keeps_claim_wf)

lemma finished_stays:
  assumes "pre d" and "s \<in> set (tbl_steps d)" and "is_done (st_state s)"
  shows "\<exists>s' \<in> set (tbl_steps (oper d)). st_step_id s' = st_step_id s \<and> st_state s' = st_state s"
proof -
  obtain s' where "s' \<in> set (tbl_steps (oper d))" "quiet_move s s'"
    using list_all2_left_mem [OF moves_quietly [OF assms(1)] assms(2)] by blast
  then show ?thesis using assms(3) by (auto simp: quiet_move_def step_ident_def)
qed

end

end
