(* ===== verification/Step_Store.thy ===== *)
theory Step_Store
  imports Database
begin

text \<open>
  The execution and step operations of \<^verbatim>\<open>StateRepository\<close> (\<^verbatim>\<open>app/repository.py\<close>): beginning an
  execution, claiming, completing, failing, retrying, cancelling and recovering its steps,
  and computing its result. Each definition takes the clock readings of the method in the
  order in which the method makes them, then the arguments, then the database; a method
  that raises returns \<^const>\<open>Inl\<close> and leaves the database as the rolled-back transaction
  does.

  The first lemmas interpret the update contracts of the theory Database on every
  operation; the step relation at the end collects the operations as the engine may issue
  them and lifts the invariant to every reachable store.
\<close>

section \<open>Beginning an execution\<close>

definition insert_execution :: "exec_row \<Rightarrow> db \<Rightarrow> db res" where
  "insert_execution e d =
     (if \<exists>r \<in> set (tbl_executions d).
           ex_request_id r = ex_request_id e \<or> ex_correlation_id r = ex_correlation_id e \<or>
           ex_idempotency_hash r = ex_idempotency_hash e
      then Inl IntegrityError
      else Inr (d\<lparr>tbl_executions := tbl_executions d @ [e]\<rparr>))"

definition insert_step :: "step_row \<Rightarrow> db \<Rightarrow> db res" where
  "insert_step s d =
     (if \<exists>r \<in> set (tbl_steps d).
           st_step_id r = st_step_id s \<or> st_idempotency_hash r = st_idempotency_hash s \<or>
           (st_request_id r = st_request_id s \<and> st_sequence r = st_sequence s)
      then Inl IntegrityError
      else Inr (d\<lparr>tbl_steps := tbl_steps d @ [s]\<rparr>))"

fun insert_steps :: "step_row list \<Rightarrow> db \<Rightarrow> db res" where
  "insert_steps [] d = Inr d"
| "insert_steps (s # ss) d = res_bind (insert_step s d) (insert_steps ss)"

definition new_exec_row ::
  "(string \<Rightarrow> string) \<Rightarrow> time \<Rightarrow> request_execution \<Rightarrow> string \<Rightarrow> exec_row" where
  "new_exec_row sha t ex request_hash =
     \<lparr>ex_request_id = request_id ex, ex_employee_id = employee_id ex,
      ex_correlation_id = correlation_id ex,
      ex_idempotency_hash = digest sha (idempotency_key ex),
      ex_request_hash = request_hash, ex_state = ''pending'', ex_result = None,
      ex_cancelled_at = None, ex_created_at = t, ex_updated_at = t\<rparr>"

definition new_step_row ::
  "(string \<Rightarrow> string) \<Rightarrow> time \<Rightarrow> string \<Rightarrow> step_command \<Rightarrow> step_row" where
  "new_step_row sha t request step =
     \<lparr>st_step_id = step_id step, st_request_id = request, st_sequence = sequence step,
      st_idempotency_hash = digest sha (idempotency_key step), st_command = step,
      st_state = Pending, st_attempt_count = 0, st_max_attempts = max_attempts step,
      st_retry_class = None, st_result = None, st_error_code = None, st_next_retry_at = None,
      st_claimed_at = None, st_updated_at = t\<rparr>"

definition begin_execution ::
  "(string \<Rightarrow> string) \<Rightarrow> time \<Rightarrow> request_execution \<Rightarrow> string \<Rightarrow> db \<Rightarrow>
     (execution_result option \<times> bool) res \<times> db" where
  "begin_execution sha t ex request_hash d =
     (case sql_first (filter (\<lambda>r. ex_idempotency_hash r = digest sha (idempotency_key ex))
                        (tbl_executions d)) of
        Some existing \<Rightarrow>
          if ex_request_hash existing \<noteq> request_hash
          then (Inl (IdempotencyConflict ''idempotency_payload_conflict''), d)
          else (Inr (ex_result existing, True), d)
      | None \<Rightarrow>
          (case res_bind (insert_execution (new_exec_row sha t ex request_hash) d)
                  (insert_steps (map (new_step_row sha t (request_id ex))
                                   (order_by sequence (steps ex)))) of
             Inl e \<Rightarrow> (Inl e, d)
           | Inr d' \<Rightarrow> (Inr (None, False), d')))"

definition existing_execution ::
  "(string \<Rightarrow> string) \<Rightarrow> request_execution \<Rightarrow> string \<Rightarrow> db \<Rightarrow>
     (execution_result option \<times> bool) res" where
  "existing_execution sha ex request_hash d =
     (case sql_first (filter (\<lambda>r. ex_idempotency_hash r = digest sha (idempotency_key ex))
                        (tbl_executions d)) of
        None \<Rightarrow> Inr (None, False)
      | Some existing \<Rightarrow>
          if ex_request_hash existing \<noteq> request_hash
          then Inl (IdempotencyConflict ''idempotency_payload_conflict'')
          else Inr (ex_result existing, True))"

section \<open>Claiming and settling a step\<close>

definition runnable :: "time \<Rightarrow> string \<Rightarrow> db \<Rightarrow> step_row \<Rightarrow> bool" where
  "runnable t request d s \<longleftrightarrow>
     st_request_id s = request \<and>
     is_waiting (st_state s) \<and>
     due (st_next_retry_at s) t \<and>
     \<not> (\<exists>prior \<in> set (tbl_steps d).
          st_request_id prior = st_request_id s \<and> st_sequence prior < st_sequence s \<and>
          \<not> is_done (st_state prior))"

definition claim_next :: "time \<Rightarrow> string \<Rightarrow> db \<Rightarrow> step_command option \<times> db" where
  "claim_next t request d =
     (if \<exists>s \<in> set (tbl_steps d).
           st_request_id s = request \<and> \<not> is_done (st_state s) \<and> \<not> is_waiting (st_state s)
      then (None, d)
      else case sql_first (order_by st_sequence (filter (runnable t request d) (tbl_steps d))) of
             None \<Rightarrow> (None, d)
           | Some row \<Rightarrow>
               (Some (st_command row),
                d\<lparr>tbl_steps := sql_update (\<lambda>s. st_step_id s = st_step_id row)
                     (\<lambda>s. s\<lparr>st_state := Running, st_attempt_count := st_attempt_count s + 1,
                             st_claimed_at := Some t, st_updated_at := t\<rparr>) (tbl_steps d),
                  tbl_executions := sql_update (\<lambda>e. ex_request_id e = request)
                     (\<lambda>e. e\<lparr>ex_state := ''running'', ex_updated_at := t\<rparr>) (tbl_executions d)\<rparr>))"

definition complete_step :: "time \<Rightarrow> string \<Rightarrow> step_state \<Rightarrow> dict \<Rightarrow> db \<Rightarrow> unit res \<times> db" where
  "complete_step t step state result d =
     (if \<not> is_done state then (Inl (ValueError ''invalid terminal success state''), d)
      else (Inr (),
            d\<lparr>tbl_steps := sql_update (\<lambda>s. st_step_id s = step)
                 (\<lambda>s. s\<lparr>st_state := state, st_result := Some result, st_error_code := None,
                         st_next_retry_at := None, st_claimed_at := None, st_updated_at := t\<rparr>)
                 (tbl_steps d)\<rparr>))"

definition fail_state :: "step_row \<Rightarrow> string \<Rightarrow> step_state" where
  "fail_state row retry_class =
     (if st_max_attempts row \<le> st_attempt_count row \<or> retry_class = ''permanent''
      then DeadLetter else RetryWait)"

definition insert_dead_letter :: "dead_letter_row \<Rightarrow> db \<Rightarrow> db" where
  "insert_dead_letter row d =
     (if \<exists>r \<in> set (tbl_dead_letters d). dl_step_id r = dl_step_id row then d
      else d\<lparr>tbl_dead_letters := tbl_dead_letters d @ [row]\<rparr>)"

definition fail_step ::
  "time \<Rightarrow> time \<Rightarrow> string \<Rightarrow> string \<Rightarrow> string \<Rightarrow> time option \<Rightarrow> db \<Rightarrow> step_state res \<times> db" where
  "fail_step t t' step error_code retry_class retry_at d =
     (case sql_first (filter (\<lambda>s. st_step_id s = step) (tbl_steps d)) of
        None \<Rightarrow> (Inl TypeError, d)
      | Some row \<Rightarrow>
          (let state = fail_state row retry_class;
               d' = d\<lparr>tbl_steps := sql_update (\<lambda>s. st_step_id s = step)
                        (\<lambda>s. s\<lparr>st_state := state, st_retry_class := Some retry_class,
                                st_error_code := Some error_code,
                                st_next_retry_at := (if state = RetryWait then retry_at else None),
                                st_claimed_at := None, st_updated_at := t\<rparr>) (tbl_steps d)\<rparr>
           in (Inr state,
               if state = DeadLetter
               then insert_dead_letter \<lparr>dl_step_id = step, dl_request_id = st_request_id row,
                      dl_error_code = error_code, dl_created_at = t', dl_resolved_at = None\<rparr> d'
               else d')))"

section \<open>Retry, release, cancellation and recovery\<close>

definition schedule_step_retry :: "time \<Rightarrow> time \<Rightarrow> time \<Rightarrow> string \<Rightarrow> db \<Rightarrow> bool \<times> db" where
  "schedule_step_retry t t' t'' request d =
     (case sql_first (order_by st_sequence
             (filter (\<lambda>s. st_request_id s = request \<and>
                          st_state s \<in> {Failed, DeadLetter, RetryWait} \<and>
                          st_attempt_count s < st_max_attempts s) (tbl_steps d))) of
        None \<Rightarrow> (False, d)
      | Some row \<Rightarrow>
          (True,
           d\<lparr>tbl_steps := sql_update (\<lambda>s. st_step_id s = st_step_id row)
                (\<lambda>s. s\<lparr>st_state := RetryWait, st_next_retry_at := Some t,
                        st_claimed_at := None, st_updated_at := t'\<rparr>) (tbl_steps d),
             tbl_dead_letters := sql_update (\<lambda>r. dl_step_id r = st_step_id row)
                (\<lambda>r. r\<lparr>dl_resolved_at := Some t''\<rparr>) (tbl_dead_letters d)\<rparr>))"

definition release_activation_claim :: "time \<Rightarrow> time \<Rightarrow> time \<Rightarrow> string \<Rightarrow> db \<Rightarrow> db" where
  "release_activation_claim t t' t'' step d =
     d\<lparr>tbl_steps := sql_update (\<lambda>s. st_step_id s = step \<and> st_state s = Running)
          (\<lambda>s. s\<lparr>st_state := RetryWait, st_attempt_count := max (st_attempt_count s - 1) 0,
                  st_error_code := Some ''mandatory_verification_incomplete'',
                  st_next_retry_at := Some (t + seconds 30), st_claimed_at := None,
                  st_updated_at := t'\<rparr>) (tbl_steps d),
       tbl_executions := sql_update
          (\<lambda>e. map_option st_request_id
                  (sql_first (filter (\<lambda>s. st_step_id s = step) (tbl_steps d)))
                = Some (ex_request_id e))
          (\<lambda>e. e\<lparr>ex_state := ''retry_wait'', ex_result := None, ex_updated_at := t''\<rparr>)
          (tbl_executions d)\<rparr>"

definition mark_cancelled :: "time \<Rightarrow> time \<Rightarrow> string \<Rightarrow> db \<Rightarrow> db" where
  "mark_cancelled t t' request d =
     d\<lparr>tbl_executions := sql_update (\<lambda>e. ex_request_id e = request)
          (\<lambda>e. e\<lparr>ex_cancelled_at := Some t, ex_updated_at := t'\<rparr>) (tbl_executions d)\<rparr>"

definition is_cancelled :: "string \<Rightarrow> db \<Rightarrow> bool" where
  "is_cancelled request d =
     (case sql_first (filter (\<lambda>e. ex_request_id e = request) (tbl_executions d)) of
        None \<Rightarrow> False
      | Some row \<Rightarrow> ex_cancelled_at row \<noteq> None)"

definition cancellable :: "string \<Rightarrow> step_row \<Rightarrow> bool" where
  "cancellable request s \<longleftrightarrow> st_request_id s = request \<and> is_waiting (st_state s)"

definition cancel_pending :: "time \<Rightarrow> string \<Rightarrow> db \<Rightarrow> nat \<times> db" where
  "cancel_pending t request d =
     (rowcount (cancellable request) (tbl_steps d),
      d\<lparr>tbl_steps := sql_update (cancellable request)
           (\<lambda>s. s\<lparr>st_state := Compensated, st_error_code := Some ''request_cancelled'',
                   st_next_retry_at := None, st_claimed_at := None, st_updated_at := t\<rparr>)
           (tbl_steps d)\<rparr>)"

definition stale :: "time \<Rightarrow> step_row \<Rightarrow> bool" where
  "stale cutoff s \<longleftrightarrow>
     st_state s = Running \<and> (case st_claimed_at s of None \<Rightarrow> False | Some c \<Rightarrow> c < cutoff)"

definition recover_stale :: "time \<Rightarrow> time \<Rightarrow> time \<Rightarrow> int \<Rightarrow> db \<Rightarrow> nat \<times> db" where
  "recover_stale t t' t'' claim_timeout_seconds d =
     (let cutoff = t - seconds claim_timeout_seconds in
      (rowcount (stale cutoff) (tbl_steps d),
       d\<lparr>tbl_steps := sql_update (stale cutoff)
            (\<lambda>s. s\<lparr>st_state := RetryWait, st_next_retry_at := Some t', st_claimed_at := None,
                    st_error_code := Some ''worker_restart_recovery'', st_updated_at := t''\<rparr>)
            (tbl_steps d)\<rparr>))"

definition pending_request_ids :: "time \<Rightarrow> db \<Rightarrow> string list" where
  "pending_request_ids t d =
     sort (remdups (map st_request_id
       (filter (\<lambda>s. is_waiting (st_state s) \<and> due (st_next_retry_at s) t) (tbl_steps d))))"

section \<open>The result of an execution\<close>

definition target_field :: "json \<Rightarrow> target_system res" where
  "target_field v =
     (case v of JStr s \<Rightarrow> (case target_of_value s of Some x \<Rightarrow> Inr x | None \<Rightarrow> Inl ValidationError)
      | _ \<Rightarrow> Inl ValidationError)"

definition operation_field :: "json \<Rightarrow> operation res" where
  "operation_field v =
     (case v of JStr s \<Rightarrow> (case operation_of_value s of Some x \<Rightarrow> Inr x | None \<Rightarrow> Inl ValidationError)
      | _ \<Rightarrow> Inl ValidationError)"

text \<open>\<^verbatim>\<open>result.get(key, default)\<close>.\<close>

definition dict_get_default :: "dict \<Rightarrow> string \<Rightarrow> json \<Rightarrow> json" where
  "dict_get_default d k v = (case map_of d k of None \<Rightarrow> v | Some w \<Rightarrow> w)"

definition result_dict :: "step_row \<Rightarrow> dict" where
  "result_dict row = (case st_result row of None \<Rightarrow> [] | Some r \<Rightarrow> r)"

definition step_result_of :: "step_row \<Rightarrow> bool \<Rightarrow> step_result res" where
  "step_result_of row replayed =
     (let result = result_dict row; command = st_command row in
      res_bind (target_field (dict_get_default result ''target_system''
                  (JStr (target_value (target_system command))))) (\<lambda>target.
      res_bind (operation_field (dict_get_default result ''operation''
                  (JStr (operation_value (operation command))))) (\<lambda>oper.
      res_bind (opt_str_field (dict_get result ''external_id'')) (\<lambda>external_id.
      res_bind (opt_str_field (dict_get result ''external_reference'')) (\<lambda>external_reference.
      res_bind (opt_str_field (dict_get result ''credential_reference'')) (\<lambda>credential_reference.
      res_bind (opt_str_field (dict_get result ''evidence_hash'')) (\<lambda>evidence_hash.
      Inr \<lparr>sr_step_id = st_step_id row, sr_target_system = target, sr_operation = oper,
           sr_state = st_state row, sr_attempt_count = st_attempt_count row,
           sr_external_id = external_id, sr_external_reference = external_reference,
           sr_credential_reference = credential_reference, sr_evidence_hash = evidence_hash,
           sr_error_code = st_error_code row, sr_retry_at = st_next_retry_at row,
           sr_replayed = replayed\<rparr>)))))))"

text \<open>The overall state, from the states of the steps.\<close>

definition overall_state :: "step_state list \<Rightarrow> string" where
  "overall_state states =
     (if list_all is_done states then ''completed''
      else if DeadLetter \<in> set states then ''dead_letter''
      else if RetryWait \<in> set states then ''retry_wait''
      else if Running \<in> set states then ''running''
      else ''pending'')"

definition request_result ::
  "time \<Rightarrow> time \<Rightarrow> string \<Rightarrow> bool \<Rightarrow> db \<Rightarrow> execution_result option res \<times> db" where
  "request_result t t' request replayed d =
     (case sql_first (filter (\<lambda>e. ex_request_id e = request) (tbl_executions d)) of
        None \<Rightarrow> (Inr None, d)
      | Some execution \<Rightarrow>
          (case map_res (\<lambda>row. step_result_of row replayed)
                  (order_by st_sequence
                     (filter (\<lambda>s. st_request_id s = request) (tbl_steps d))) of
             Inl e \<Rightarrow> (Inl e, d)
           | Inr results \<Rightarrow>
               (let state = overall_state (map sr_state results);
                    output = \<lparr>er_request_id = request,
                       er_employee_id = ex_employee_id execution,
                       er_correlation_id = ex_correlation_id execution,
                       er_state = state, er_step_results = results,
                       er_replayed = replayed, er_updated_at = t\<rparr>
                in (Inr (Some output),
                    d\<lparr>tbl_executions := sql_update (\<lambda>e. ex_request_id e = request)
                         (\<lambda>e. e\<lparr>ex_state := state, ex_result := Some output, ex_updated_at := t'\<rparr>)
                         (tbl_executions d)\<rparr>))))"

end
