(* ===== verification/Step_Invariants.thy ===== *)
theory Step_Invariants
  imports Step_Store
begin

text \<open>
  The invariant of the execution and step tables and the safety of the step machine: the
  update contracts hold of every operation of the theory Step\_Store, so the keys, the
  references, the sequence order of the steps and the claim times are kept by each of them;
  the step relation collects the operations in the way the engine issues them (a step is
  completed, failed or released while it is claimed), with any interleaving of requests.
\<close>

section \<open>The operations meet the update contracts\<close>

text \<open>The engine settles a step only while it is running.\<close>

definition in_flight :: "string \<Rightarrow> db \<Rightarrow> bool" where
  "in_flight step d \<longleftrightarrow>
     (\<forall>s \<in> set (tbl_steps d). st_step_id s = step \<longrightarrow> st_state s = Running)"

lemmas move_defs = quiet_move_def step_ident_def claim_wf_def

interpretation complete: quiet_step_update "in_flight step"
  "\<lambda>d. snd (complete_step t step state result d)"
  by unfold_locales
     (auto simp: complete_step_def in_flight_def move_defs list_all2_refl
       intro!: list_all2_sql_update)

lemma fail_step_tables:
  "tbl_executions (snd (fail_step t t' step code cls at d)) = tbl_executions d"
  "tbl_steps (snd (fail_step t t' step code cls at d)) =
     (case sql_first (filter (\<lambda>s. st_step_id s = step) (tbl_steps d)) of
        None \<Rightarrow> tbl_steps d
      | Some row \<Rightarrow> sql_update (\<lambda>s. st_step_id s = step)
          (\<lambda>s. s\<lparr>st_state := fail_state row cls, st_retry_class := Some cls,
                  st_error_code := Some code,
                  st_next_retry_at := (if fail_state row cls = RetryWait then at else None),
                  st_claimed_at := None, st_updated_at := t\<rparr>) (tbl_steps d))"
  by (simp_all add: fail_step_def insert_dead_letter_def Let_def split: option.split)

lemma fail_state_simps [simp]:
  "\<not> is_done (fail_state row cls)" "fail_state row cls \<noteq> Running" "\<not> is_idle (fail_state row cls)"
  by (simp_all add: fail_state_def)

interpretation fail: quiet_step_update "in_flight step"
  "\<lambda>d. snd (fail_step t t' step code cls at d)"
  by unfold_locales
     (auto simp: fail_step_tables in_flight_def move_defs list_all2_refl
       intro!: list_all2_sql_update split: option.split)

interpretation retry: quiet_step_update "\<lambda>d. distinct (map st_step_id (tbl_steps d))"
  "\<lambda>d. snd (schedule_step_retry t t' t'' request d)"
proof unfold_locales
  fix d :: db assume dist: "distinct (map st_step_id (tbl_steps d))"
  show "list_all2 quiet_move (tbl_steps d) (tbl_steps (snd (schedule_step_retry t t' t'' request d)))"
  proof (cases "sql_first (order_by st_sequence
             (filter (\<lambda>s. st_request_id s = request \<and>
                          st_state s \<in> {Failed, DeadLetter, RetryWait} \<and>
                          st_attempt_count s < st_max_attempts s) (tbl_steps d)))")
    case None
    then show ?thesis by (simp add: schedule_step_retry_def list_all2_refl)
  next
    case (Some row)
    then have row: "row \<in> set (tbl_steps d)" "st_state row \<in> {Failed, DeadLetter, RetryWait}"
      by (auto dest!: sql_first_Some_mem)
    have "quiet_move s (if st_step_id s = st_step_id row
        then s\<lparr>st_state := RetryWait, st_next_retry_at := Some t, st_claimed_at := None,
               st_updated_at := t'\<rparr> else s)" if "s \<in> set (tbl_steps d)" for s
      using row unique_key_eq [OF dist that row(1)] by (auto simp: move_defs)
    with Some show ?thesis by (simp add: schedule_step_retry_def list_all2_sql_update)
  qed
qed (simp add: schedule_step_retry_def split: option.split)

interpretation release: quiet_step_update "\<lambda>d. True" "\<lambda>d. release_activation_claim t t' t'' step d"
  by unfold_locales
     (auto simp: release_activation_claim_def move_defs exec_ident_def
       intro!: list_all2_sql_update map_sql_update)

interpretation cancel: quiet_step_update "\<lambda>d. True" "\<lambda>d. snd (cancel_pending t request d)"
  by unfold_locales
     (auto simp: cancel_pending_def cancellable_def is_waiting_def move_defs
       intro!: list_all2_sql_update)

interpretation mark: quiet_step_update "\<lambda>d. True" "\<lambda>d. mark_cancelled t t' request d"
  by unfold_locales
     (auto simp: mark_cancelled_def list_all2_refl exec_ident_def intro!: map_sql_update)

interpretation recover: quiet_step_update "\<lambda>d. True" "\<lambda>d. snd (recover_stale t t' t'' secs d)"
  by unfold_locales
     (auto simp: recover_stale_def stale_def move_defs Let_def intro!: list_all2_sql_update)

interpretation result: quiet_step_update "\<lambda>d. True"
  "\<lambda>d. snd (request_result t t' request replayed d)"
  by unfold_locales
     (auto simp: request_result_def Let_def list_all2_refl exec_ident_def
       intro!: map_sql_update split: option.split sum.split)

section \<open>Claiming\<close>

text \<open>The two outcomes of a claim.\<close>

lemma claim_next_cases:
  obtains (none) "claim_next t request d = (None, d)"
  | (claimed) row where
      "row \<in> set (tbl_steps d)" "runnable t request d row"
      "\<And>s. s \<in> set (tbl_steps d) \<Longrightarrow> runnable t request d s \<Longrightarrow> st_sequence row \<le> st_sequence s"
      "\<And>s. s \<in> set (tbl_steps d) \<Longrightarrow> st_request_id s = request \<Longrightarrow>
         is_done (st_state s) \<or> is_waiting (st_state s)"
      "fst (claim_next t request d) = Some (st_command row)"
      "tbl_steps (snd (claim_next t request d)) =
         sql_update (\<lambda>s. st_step_id s = st_step_id row)
           (\<lambda>s. s\<lparr>st_state := Running, st_attempt_count := st_attempt_count s + 1,
                   st_claimed_at := Some t, st_updated_at := t\<rparr>) (tbl_steps d)"
      "tbl_executions (snd (claim_next t request d)) =
         sql_update (\<lambda>e. ex_request_id e = request)
           (\<lambda>e. e\<lparr>ex_state := ''running'', ex_updated_at := t\<rparr>) (tbl_executions d)"
proof (cases "\<exists>s \<in> set (tbl_steps d).
           st_request_id s = request \<and> \<not> is_done (st_state s) \<and> \<not> is_waiting (st_state s)")
  case True
  then show ?thesis by (intro none) (auto simp: claim_next_def)
next
  case free: False
  show ?thesis
  proof (cases "sql_first (order_by st_sequence (filter (runnable t request d) (tbl_steps d)))")
    case None
    then show ?thesis by (intro none) (auto simp: claim_next_def)
  next
    case (Some row)
    from Some have "row \<in> set (tbl_steps d)" "runnable t request d row"
      by (auto dest!: sql_first_Some_mem)
    moreover have "st_sequence row \<le> st_sequence s"
      if "s \<in> set (tbl_steps d)" "runnable t request d s" for s
      using that by (intro sql_first_order_by_least [OF Some]) auto
    moreover have "claim_next t request d =
        (Some (st_command row),
         d\<lparr>tbl_steps := sql_update (\<lambda>s. st_step_id s = st_step_id row)
              (\<lambda>s. s\<lparr>st_state := Running, st_attempt_count := st_attempt_count s + 1,
                      st_claimed_at := Some t, st_updated_at := t\<rparr>) (tbl_steps d),
           tbl_executions := sql_update (\<lambda>e. ex_request_id e = request)
              (\<lambda>e. e\<lparr>ex_state := ''running'', ex_updated_at := t\<rparr>) (tbl_executions d)\<rparr>)"
      using free Some by (simp add: claim_next_def)
    ultimately show ?thesis using free by (intro claimed) auto
  qed
qed

lemma runnableD:
  assumes "runnable t request d s"
  shows "st_request_id s = request" "is_waiting (st_state s)"
    "\<And>p. p \<in> set (tbl_steps d) \<Longrightarrow> st_request_id p = request \<Longrightarrow>
       st_sequence p < st_sequence s \<Longrightarrow> is_done (st_state p)"
  using assms by (auto simp: runnable_def)

interpretation claim: step_update "\<lambda>d. True" "\<lambda>d. snd (claim_next t request d)"
proof unfold_locales
  fix d :: db
  show "map step_ident (tbl_steps (snd (claim_next t request d))) = map step_ident (tbl_steps d)"
    by (cases rule: claim_next_cases [of t request d])
       (auto intro!: map_sql_update simp: step_ident_def)
  show "map exec_ident (tbl_executions (snd (claim_next t request d)))
      = map exec_ident (tbl_executions d)"
    by (cases rule: claim_next_cases [of t request d])
       (auto intro!: map_sql_update simp: exec_ident_def)
qed

lemma claim_next_store_inv:
  assumes inv: "store_inv d"
  shows "store_inv (snd (claim_next t request d))"
proof (cases rule: claim_next_cases [of t request d])
  case none
  then show ?thesis using inv by simp
next
  case (claimed row)
  let ?d' = "snd (claim_next t request d)"
  let ?f = "\<lambda>s. s\<lparr>st_state := Running, st_attempt_count := st_attempt_count s + 1,
                   st_claimed_at := Some t, st_updated_at := t\<rparr>"
  have dist: "distinct (map st_step_id (tbl_steps d))" and ord: "order_inv d"
    using inv by (auto simp: store_inv_def ident_inv_def)
  have row_eq: "s = row" if "s \<in> set (tbl_steps d)" "st_step_id s = st_step_id row" for s
    using unique_key_eq [OF dist that(1) claimed(1) that(2)] .
  have "order_inv ?d'"
    unfolding order_inv_def
  proof (intro ballI impI)
    fix p' s'
    assume p': "p' \<in> set (tbl_steps ?d')" and s': "s' \<in> set (tbl_steps ?d')"
      and rel: "st_request_id p' = st_request_id s' \<and> st_sequence p' < st_sequence s' \<and>
        \<not> is_done (st_state p')"
    obtain p where p: "p \<in> set (tbl_steps d)"
        "p' = (if st_step_id p = st_step_id row then ?f p else p)"
      using p' claimed(6) by (auto simp: mem_sql_update)
    obtain s where s: "s \<in> set (tbl_steps d)"
        "s' = (if st_step_id s = st_step_id row then ?f s else s)"
      using s' claimed(6) by (auto simp: mem_sql_update)
    have ps: "st_request_id p = st_request_id s" "st_sequence p < st_sequence s"
      using rel p(2) s(2) by (auto split: if_splits)
    have p_open: "\<not> is_done (st_state p)"
      using rel p(2) row_eq [OF p(1)] runnableD(2) [OF claimed(2)]
      by (auto simp: is_waiting_def split: if_splits)
    have "st_step_id s \<noteq> st_step_id row"
      using row_eq [OF s(1)] runnableD(1,3) [OF claimed(2)] p(1) ps p_open by blast
    then have "s' = s" using s(2) by simp
    then show "is_idle (st_state s')"
      using ord p(1) s(1) ps p_open by (auto simp: order_inv_def)
  qed
  moreover have "list_all claim_wf (tbl_steps ?d')"
    unfolding claimed(6) using inv
    by (intro list_all_sql_update) (auto simp: store_inv_def claim_wf_def)
  ultimately show ?thesis using inv by (simp add: store_inv_def claim.keeps_ident_inv)
qed

section \<open>Beginning\<close>

lemma insert_steps_Inr:
  "insert_steps ss d = Inr d' \<Longrightarrow>
     d' = d\<lparr>tbl_steps := tbl_steps d @ ss\<rparr> \<and>
     (distinct (map st_step_id (tbl_steps d)) \<longrightarrow> distinct (map st_step_id (tbl_steps d @ ss))) \<and>
     (distinct (map st_idempotency_hash (tbl_steps d)) \<longrightarrow>
        distinct (map st_idempotency_hash (tbl_steps d @ ss))) \<and>
     (distinct (map (\<lambda>s. (st_request_id s, st_sequence s)) (tbl_steps d)) \<longrightarrow>
        distinct (map (\<lambda>s. (st_request_id s, st_sequence s)) (tbl_steps d @ ss)))"
proof (induction ss arbitrary: d)
  case Nil
  then show ?case by simp
next
  case (Cons s ss)
  let ?d1 = "d\<lparr>tbl_steps := tbl_steps d @ [s]\<rparr>"
  from Cons.prems have fresh: "\<forall>r \<in> set (tbl_steps d). st_step_id r \<noteq> st_step_id s \<and>
      st_idempotency_hash r \<noteq> st_idempotency_hash s \<and>
      (st_request_id r, st_sequence r) \<noteq> (st_request_id s, st_sequence s)"
    and rest: "insert_steps ss ?d1 = Inr d'"
    by (auto simp: insert_step_def split: if_splits)
  from Cons.IH [OF rest] fresh show ?case by auto
qed

text \<open>A fresh execution appends its row and one row per step, in sequence order.\<close>

lemma begin_fresh:
  assumes "begin_execution sha t ex h d = (Inr (r, False), d')"
  shows "r = None"
    and "d' = d\<lparr>tbl_executions := tbl_executions d @ [new_exec_row sha t ex h],
                tbl_steps := tbl_steps d @
                  map (new_step_row sha t (request_id ex)) (order_by sequence (steps ex))\<rparr>"
    and "ident_inv d \<Longrightarrow> steps_belong ex \<Longrightarrow> ident_inv d'"
    and "request_id ex \<notin> ex_request_id ` set (tbl_executions d)"
proof -
  let ?new = "map (new_step_row sha t (request_id ex)) (order_by sequence (steps ex))"
  let ?e = "new_exec_row sha t ex h"
  have "res_bind (insert_execution ?e d) (insert_steps ?new) = Inr d' \<and> r = None"
    using assms by (auto simp: begin_execution_def split: option.splits sum.splits if_splits)
  then obtain d1 where ins: "insert_execution ?e d = Inr d1" and st: "insert_steps ?new d1 = Inr d'"
    and r: "r = None"
    by (auto simp: res_bind_Inr)
  from ins have d1: "d1 = d\<lparr>tbl_executions := tbl_executions d @ [?e]\<rparr>"
    and fresh: "\<forall>r \<in> set (tbl_executions d). ex_request_id r \<noteq> ex_request_id ?e \<and>
      ex_correlation_id r \<noteq> ex_correlation_id ?e \<and> ex_idempotency_hash r \<noteq> ex_idempotency_hash ?e"
    by (auto simp: insert_execution_def split: if_splits)
  note steps = insert_steps_Inr [OF st]
  show "r = None" by (rule r)
  show d': "d' = d\<lparr>tbl_executions := tbl_executions d @ [?e], tbl_steps := tbl_steps d @ ?new\<rparr>"
    using steps d1 by simp
  show "request_id ex \<notin> ex_request_id ` set (tbl_executions d)"
    using fresh by (auto simp: new_exec_row_def)
  assume inv: "ident_inv d" and belong: "steps_belong ex"
  have "list_all step_row_wf ?new"
    using belong by (auto simp: list_all_iff step_row_wf_def new_step_row_def steps_belong_def)
  with inv steps fresh d1 show "ident_inv d'"
    by (auto simp: ident_inv_def d' new_step_row_def new_exec_row_def)
qed

lemma begin_cases:
  obtains (fresh) d' where "begin_execution sha t ex h d = (Inr (None, False), d')"
  | (replay) r where "begin_execution sha t ex h d = (Inr (r, True), d)"
  | (raised) e where "begin_execution sha t ex h d = (Inl e, d)"
proof -
  have "(\<exists>d'. begin_execution sha t ex h d = (Inr (None, False), d')) \<or>
      (\<exists>r. begin_execution sha t ex h d = (Inr (r, True), d)) \<or>
      (\<exists>e. begin_execution sha t ex h d = (Inl e, d))"
    by (simp add: begin_execution_def split: option.split sum.split)
  then show ?thesis using that by blast
qed

lemma begin_store_inv:
  assumes inv: "store_inv d" and belong: "steps_belong ex"
  shows "store_inv (snd (begin_execution sha t ex h d))"
proof (cases rule: begin_cases [of sha t ex h d])
  case (fresh d')
  note d' = begin_fresh(2) [OF fresh] and new = begin_fresh(4) [OF fresh]
  have id': "ident_inv d'"
    using begin_fresh(3) [OF fresh] inv belong by (simp add: store_inv_def)
  have old: "\<forall>s \<in> set (tbl_steps d). st_request_id s \<noteq> request_id ex"
  proof
    fix s assume "s \<in> set (tbl_steps d)"
    then have "st_request_id s \<in> ex_request_id ` set (tbl_executions d)"
      using inv by (auto simp: store_inv_def ident_inv_def)
    with new show "st_request_id s \<noteq> request_id ex" by auto
  qed
  have "order_inv d'"
    using inv old by (auto simp: d' order_inv_def store_inv_def new_step_row_def)
  moreover have "list_all claim_wf (tbl_steps d')"
    using inv by (auto simp: d' store_inv_def list_all_iff claim_wf_def new_step_row_def)
  ultimately show ?thesis using id' fresh by (simp add: store_inv_def)
qed (use inv in simp_all)

end
