(* ===== verification/Step_Machine.thy ===== *)
theory Step_Machine
  imports Step_Invariants
begin

text \<open>
  The step machine of the store: the operations of the theory Step\_Store as one transition
  relation, its reachable stores, and the properties that hold in all of them. A transition
  is one repository call (each runs under the store's lock, in one transaction), so a run is
  any interleaving of the calls that requests, retries, cancellations and the worker make.
  The counter of a run is the number of restart recoveries in it.
\<close>

section \<open>Dead letters\<close>

text \<open>
  Every step in state \<^const>\<open>DeadLetter\<close> has a dead-letter record, there is at most one record per
  step, and each belongs to a step.
\<close>

definition dead_letter_inv :: "db \<Rightarrow> bool" where
  "dead_letter_inv d \<longleftrightarrow>
     (\<forall>s \<in> set (tbl_steps d). st_state s = DeadLetter \<longrightarrow>
        st_step_id s \<in> dl_step_id ` set (tbl_dead_letters d)) \<and>
     dl_step_id ` set (tbl_dead_letters d) \<subseteq> st_step_id ` set (tbl_steps d) \<and>
     distinct (map dl_step_id (tbl_dead_letters d))"

text \<open>An update that moves no step into \<^const>\<open>DeadLetter\<close> and adds or drops no record.\<close>

locale dead_letter_update = step_update +
  assumes no_new_dead_letter:
      "pre d \<Longrightarrow> s' \<in> set (tbl_steps (oper d)) \<Longrightarrow> st_state s' = DeadLetter \<Longrightarrow>
         \<exists>s \<in> set (tbl_steps d). st_step_id s = st_step_id s' \<and> st_state s = DeadLetter"
    and keeps_records:
      "pre d \<Longrightarrow> map dl_step_id (tbl_dead_letters (oper d)) = map dl_step_id (tbl_dead_letters d)"
begin

lemma keeps_dead_letter_inv:
  assumes "pre d" and inv: "dead_letter_inv d"
  shows "dead_letter_inv (oper d)"
proof -
  have ids: "st_step_id ` set (tbl_steps (oper d)) = st_step_id ` set (tbl_steps d)"
    using keeps_step_ids [OF assms(1)] by (metis list.set_map)
  have dls: "dl_step_id ` set (tbl_dead_letters (oper d)) = dl_step_id ` set (tbl_dead_letters d)"
    using keeps_records [OF assms(1)] by (metis list.set_map)
  have "st_step_id s' \<in> dl_step_id ` set (tbl_dead_letters d)"
    if new: "s' \<in> set (tbl_steps (oper d))" "st_state s' = DeadLetter" for s'
  proof -
    obtain s where "s \<in> set (tbl_steps d)" "st_step_id s = st_step_id s'" "st_state s = DeadLetter"
      using no_new_dead_letter [OF assms(1) new] by blast
    then show ?thesis using inv unfolding dead_letter_inv_def by metis
  qed
  then show ?thesis
    using inv by (simp add: dead_letter_inv_def ids dls keeps_records [OF assms(1)])
qed

end

interpretation complete_dl: dead_letter_update "in_flight step"
  "\<lambda>d. snd (complete_step t step state result d)"
  by unfold_locales
     (auto simp: complete_step_def mem_sql_update split: if_splits)

interpretation release_dl: dead_letter_update "\<lambda>d. True"
  "\<lambda>d. release_activation_claim t t' t'' step d"
  by unfold_locales
     (auto simp: release_activation_claim_def mem_sql_update split: if_splits)

interpretation cancel_dl: dead_letter_update "\<lambda>d. True" "\<lambda>d. snd (cancel_pending t request d)"
  by unfold_locales (auto simp: cancel_pending_def mem_sql_update split: if_splits)

interpretation mark_dl: dead_letter_update "\<lambda>d. True" "\<lambda>d. mark_cancelled t t' request d"
  by unfold_locales (auto simp: mark_cancelled_def)

interpretation recover_dl: dead_letter_update "\<lambda>d. True"
  "\<lambda>d. snd (recover_stale t t' t'' secs d)"
  by unfold_locales (auto simp: recover_stale_def mem_sql_update Let_def split: if_splits)

lemma request_result_tables:
  "tbl_steps (snd (request_result t t' request replayed d)) = tbl_steps d"
  "tbl_dead_letters (snd (request_result t t' request replayed d)) = tbl_dead_letters d"
  by (auto simp: request_result_def Let_def split: option.split sum.split)

interpretation result_dl: dead_letter_update "\<lambda>d. True"
  "\<lambda>d. snd (request_result t t' request replayed d)"
  by unfold_locales (auto simp: request_result_tables)

interpretation retry_dl: dead_letter_update "\<lambda>d. distinct (map st_step_id (tbl_steps d))"
  "\<lambda>d. snd (schedule_step_retry t t' t'' request d)"
  by unfold_locales
     (auto simp: schedule_step_retry_def mem_sql_update split: if_splits option.splits
       intro!: map_sql_update)

lemma claim_dead_letters: "tbl_dead_letters (snd (claim_next t request d)) = tbl_dead_letters d"
  by (simp add: claim_next_def split: option.split)

interpretation claim_dl: dead_letter_update "\<lambda>d. True" "\<lambda>d. snd (claim_next t request d)"
proof unfold_locales
  fix d :: db and s'
  assume "s' \<in> set (tbl_steps (snd (claim_next t request d)))" "st_state s' = DeadLetter"
  then show "\<exists>s \<in> set (tbl_steps d). st_step_id s = st_step_id s' \<and> st_state s = DeadLetter"
    by (cases rule: claim_next_cases [of t request d])
       (auto simp: mem_sql_update split: if_splits)
qed (simp add: claim_dead_letters)

lemma dead_letter_inv_empty: "dead_letter_inv empty_db"
  by (simp add: dead_letter_inv_def)

lemma fail_step_dead_letter_inv:
  assumes inv: "dead_letter_inv d"
  shows "dead_letter_inv (snd (fail_step t t' step code cls at d))"
proof (cases "sql_first (filter (\<lambda>s. st_step_id s = step) (tbl_steps d))")
  case None
  then show ?thesis using inv by (simp add: fail_step_def)
next
  case (Some row)
  then have row: "row \<in> set (tbl_steps d)" "st_step_id row = step"
    by (auto dest!: sql_first_Some_mem)
  let ?d' = "snd (fail_step t t' step code cls at d)"
  have steps: "tbl_steps ?d' = sql_update (\<lambda>s. st_step_id s = step)
       (\<lambda>s. s\<lparr>st_state := fail_state row cls, st_retry_class := Some cls,
               st_error_code := Some code,
               st_next_retry_at := (if fail_state row cls = RetryWait then at else None),
               st_claimed_at := None, st_updated_at := t\<rparr>) (tbl_steps d)"
    by (simp add: fail_step_tables Some)
  have ids: "st_step_id ` set (tbl_steps ?d') = st_step_id ` set (tbl_steps d)"
  proof -
    have "map st_step_id (tbl_steps ?d') = map st_step_id (tbl_steps d)"
      unfolding steps by (rule map_sql_update) simp
    then show ?thesis by (metis list.set_map)
  qed
  show ?thesis
  proof (cases "fail_state row cls = DeadLetter")
    case True
    then have "dl_step_id ` set (tbl_dead_letters ?d') = insert step (dl_step_id ` set (tbl_dead_letters d))"
      and "distinct (map dl_step_id (tbl_dead_letters ?d'))"
      using inv Some
      by (auto simp: fail_step_def insert_dead_letter_def Let_def dead_letter_inv_def)
    then show ?thesis using inv row ids unfolding dead_letter_inv_def
      by (auto simp: steps mem_sql_update split: if_splits)
  next
    case False
    then have "tbl_dead_letters ?d' = tbl_dead_letters d"
      by (simp add: fail_step_def Some Let_def)
    then show ?thesis using inv ids False unfolding dead_letter_inv_def
      by (auto simp: steps mem_sql_update split: if_splits)
  qed
qed

lemma begin_dead_letter_inv:
  assumes "dead_letter_inv d"
  shows "dead_letter_inv (snd (begin_execution sha t ex h d))"
proof (cases rule: begin_cases [of sha t ex h d])
  case (fresh d')
  then show ?thesis using assms begin_fresh(2) [OF fresh]
    by (auto simp: dead_letter_inv_def new_step_row_def)
qed (use assms in simp_all)

section \<open>Attempts\<close>

text \<open>
  After \<open>n\<close> restart recoveries a step has been attempted at most \<open>n\<close> times more than its
  maximum, and a step that waits has an attempt left within that bound.
\<close>

definition attempts_ok :: "nat \<Rightarrow> step_row \<Rightarrow> bool" where
  "attempts_ok n s \<longleftrightarrow>
     1 \<le> st_max_attempts s \<and> 0 \<le> st_attempt_count s \<and>
     st_attempt_count s \<le> st_max_attempts s + int n \<and>
     (is_waiting (st_state s) \<longrightarrow> st_attempt_count s < st_max_attempts s + int n)"

lemma attempts_ok_mono: "attempts_ok n s \<Longrightarrow> n \<le> m \<Longrightarrow> attempts_ok m s"
  by (auto simp: attempts_ok_def)

abbreviation attempts_inv :: "nat \<Rightarrow> db \<Rightarrow> bool" where
  "attempts_inv n d \<equiv> list_all (attempts_ok n) (tbl_steps d)"

lemma begin_attempts:
  assumes "attempts_inv n d" and "steps_belong ex"
  shows "attempts_inv n (snd (begin_execution sha t ex h d))"
proof (cases rule: begin_cases [of sha t ex h d])
  case (fresh d')
  then show ?thesis using assms begin_fresh(2) [OF fresh]
    by (auto simp: list_all_iff attempts_ok_def new_step_row_def steps_belong_def)
qed (use assms in simp_all)

lemma claim_attempts:
  assumes inv: "store_inv d" and "attempts_inv n d"
  shows "attempts_inv n (snd (claim_next t request d))"
proof (cases rule: claim_next_cases [of t request d])
  case (claimed row)
  have "s = row" if "s \<in> set (tbl_steps d)" "st_step_id s = st_step_id row" for s
    using inv that claimed(1) by (auto simp: store_inv_def ident_inv_def intro: unique_key_eq)
  then show ?thesis unfolding claimed(6) using assms(2) runnableD(2) [OF claimed(2)]
    by (intro list_all_sql_update) (auto simp: attempts_ok_def)
qed (use assms in simp)

lemma complete_attempts:
  "attempts_inv n d \<Longrightarrow> attempts_inv n (snd (complete_step t step state result d))"
  by (auto simp: complete_step_def attempts_ok_def is_done_def intro!: list_all_sql_update)

lemma fail_attempts:
  assumes inv: "store_inv d" and "attempts_inv n d"
  shows "attempts_inv n (snd (fail_step t t' step code cls at d))"
proof (cases "sql_first (filter (\<lambda>s. st_step_id s = step) (tbl_steps d))")
  case (Some row)
  then have row: "row \<in> set (tbl_steps d)" "st_step_id row = step"
    by (auto dest!: sql_first_Some_mem)
  have "s = row" if "s \<in> set (tbl_steps d)" "st_step_id s = step" for s
    using inv that row by (auto simp: store_inv_def ident_inv_def intro: unique_key_eq)
  then show ?thesis using assms(2)
    by (auto simp: fail_step_tables Some attempts_ok_def fail_state_def split: if_splits
        intro!: list_all_sql_update)
qed (use assms in \<open>simp add: fail_step_def\<close>)

lemma retry_attempts:
  assumes inv: "store_inv d" and "attempts_inv n d"
  shows "attempts_inv n (snd (schedule_step_retry t t' t'' request d))"
proof (cases "sql_first (order_by st_sequence
             (filter (\<lambda>s. st_request_id s = request \<and>
                          st_state s \<in> {Failed, DeadLetter, RetryWait} \<and>
                          st_attempt_count s < st_max_attempts s) (tbl_steps d)))")
  case None
  then show ?thesis using assms(2) unfolding schedule_step_retry_def by (simp split: option.split)
next
  case (Some row)
  then have row: "row \<in> set (tbl_steps d)" "st_attempt_count row < st_max_attempts row"
    by (auto dest!: sql_first_Some_mem)
  have "\<forall>s \<in> set (tbl_steps d). st_step_id s = st_step_id row \<longrightarrow> s = row"
    using inv row by (auto simp: store_inv_def ident_inv_def intro: unique_key_eq)
  then show ?thesis using assms(2) row(2) Some
    by (auto simp: schedule_step_retry_def attempts_ok_def intro!: list_all_sql_update)
qed

lemma release_attempts:
  "attempts_inv n d \<Longrightarrow> attempts_inv n (release_activation_claim t t' t'' step d)"
  by (auto simp: release_activation_claim_def attempts_ok_def intro!: list_all_sql_update)

lemma cancel_attempts: "attempts_inv n d \<Longrightarrow> attempts_inv n (snd (cancel_pending t request d))"
  by (auto simp: cancel_pending_def attempts_ok_def intro!: list_all_sql_update)

lemma recover_attempts:
  assumes "attempts_inv n d"
  shows "attempts_inv (Suc n) (snd (recover_stale t t' t'' secs d))"
proof -
  have "attempts_inv (Suc n) d"
    using assms by (auto simp: list_all_iff attempts_ok_def)
  with assms show ?thesis
    by (auto simp: recover_stale_def Let_def sql_update_def list_all_iff attempts_ok_def)
qed

section \<open>Transitions and reachable stores\<close>

text \<open>
  One repository call; the first argument is the hash, the second counts recoveries. Begin, complete and
  fail have no guard of their own in \<^verbatim>\<open>app/repository.py\<close>: that the steps belong to their execution, and
  that the step is in flight when its outcome is written, are obligations of the caller. The engine
  discharges them (\<open>submit\<close> begins documents their model has normalized only, \<open>run_step\<close> writes the
  outcome of the step it has claimed only): theory Engine\_Runs for calls one after the other, and
  theories Task\_Safety to Deployment for calls that interleave.
\<close>

inductive store_step :: "(string \<Rightarrow> string) \<Rightarrow> nat \<Rightarrow> db \<Rightarrow> db \<Rightarrow> bool" for sha where
  begins: "steps_belong ex \<Longrightarrow> store_step sha 0 d (snd (begin_execution sha t ex h d))"
| claims: "store_step sha 0 d (snd (claim_next t request d))"
| completes: "in_flight step d \<Longrightarrow> store_step sha 0 d (snd (complete_step t step state result d))"
| fails: "in_flight step d \<Longrightarrow> store_step sha 0 d (snd (fail_step t t' step code cls at d))"
| retries: "store_step sha 0 d (snd (schedule_step_retry t t' t'' request d))"
| releases: "store_step sha 0 d (release_activation_claim t t' t'' step d)"
| cancels: "store_step sha 0 d (snd (cancel_pending t request d))"
| marks: "store_step sha 0 d (mark_cancelled t t' request d)"
| reads: "store_step sha 0 d (snd (request_result t t' request replayed d))"
| recovers: "store_step sha 1 d (snd (recover_stale t t' t'' secs d))"
| elsewhere: "tbl_executions d' = tbl_executions d \<Longrightarrow> tbl_steps d' = tbl_steps d \<Longrightarrow>
    tbl_dead_letters d' = tbl_dead_letters d \<Longrightarrow> store_step sha 0 d d'"

inductive reachable :: "(string \<Rightarrow> string) \<Rightarrow> nat \<Rightarrow> db \<Rightarrow> bool" for sha where
  initial: "reachable sha 0 empty_db"
| moves: "reachable sha n d \<Longrightarrow> store_step sha k d d' \<Longrightarrow> reachable sha (n + k) d'"

definition machine_inv :: "nat \<Rightarrow> db \<Rightarrow> bool" where
  "machine_inv n d \<longleftrightarrow> store_inv d \<and> dead_letter_inv d \<and> attempts_inv n d"

lemma store_inv_distinct: "store_inv d \<Longrightarrow> distinct (map st_step_id (tbl_steps d))"
  by (simp add: store_inv_def ident_inv_def)

lemmas step_store_inv = complete.keeps_store_inv fail.keeps_store_inv retry.keeps_store_inv
  release.keeps_store_inv cancel.keeps_store_inv mark.keeps_store_inv result.keeps_store_inv
  recover.keeps_store_inv claim_next_store_inv begin_store_inv

lemmas step_dead_letters = complete_dl.keeps_dead_letter_inv fail_step_dead_letter_inv
  retry_dl.keeps_dead_letter_inv release_dl.keeps_dead_letter_inv
  cancel_dl.keeps_dead_letter_inv mark_dl.keeps_dead_letter_inv
  result_dl.keeps_dead_letter_inv recover_dl.keeps_dead_letter_inv
  claim_dl.keeps_dead_letter_inv begin_dead_letter_inv

lemmas step_attempts = complete_attempts fail_attempts retry_attempts release_attempts
  cancel_attempts recover_attempts claim_attempts begin_attempts

lemma store_step_inv:
  "store_step sha k d d' \<Longrightarrow> machine_inv n d \<Longrightarrow> machine_inv (n + k) d'"
proof (induction rule: store_step.induct)
  case (elsewhere d' d)
  then show ?case
    by (simp add: machine_inv_def store_inv_def ident_inv_def order_inv_def dead_letter_inv_def)
next
  case (marks d t t' request)
  then show ?case
    using mark.keeps_store_inv mark_dl.keeps_dead_letter_inv
    by (simp add: machine_inv_def mark_cancelled_def)
next
  case (reads d t t' request replayed)
  then show ?case
    using result.keeps_store_inv result_dl.keeps_dead_letter_inv
    by (simp add: machine_inv_def request_result_tables)
qed (auto simp: machine_inv_def store_inv_distinct intro: step_store_inv step_dead_letters
       step_attempts)

lemma reachable_machine_inv: "reachable sha n d \<Longrightarrow> machine_inv n d"
proof (induction rule: reachable.induct)
  case initial
  show ?case by (simp add: machine_inv_def store_inv_empty dead_letter_inv_empty)
next
  case (moves n d k d')
  then show ?case by (blast intro: store_step_inv)
qed

end
