(* ===== verification/Samples.thy ===== *)
theory Samples
  imports Step_Machine
begin

text \<open>
  Concrete documents and stores, in the shape the repository's tests build them
  (\<^verbatim>\<open>tests/helpers.py\<close>). They instantiate the properties: each hypothesis of a property is
  met by one of these values. The hash is instantiated with the identity.
\<close>

definition sample_step :: "string \<Rightarrow> string \<Rightarrow> int \<Rightarrow> target_system \<Rightarrow> operation \<Rightarrow> int \<Rightarrow> step_command" where
  "sample_step request step seq target oper attempts =
     \<lparr>schema_version = ''1.0'', request_id = request,
      correlation_id = ''correlation-'' @ request, idempotency_key = ''key-'' @ step @ ''-00000000'',
      employee_id = ''employee-0001'', target_system = target, operation = oper,
      timestamp = 0, payload = [], step_id = step, sequence = seq, max_attempts = attempts,
      mandatory = True\<rparr>"

definition sample_execution :: "string \<Rightarrow> operation \<Rightarrow> step_command list \<Rightarrow> request_execution" where
  "sample_execution request oper cmds =
     \<lparr>schema_version = ''1.0'', request_id = request,
      correlation_id = ''correlation-'' @ request,
      idempotency_key = ''execution-key-'' @ request,
      employee_id = ''employee-0001'', target_system = Odoo, operation = oper, timestamp = 0,
      steps = cmds\<rparr>"

text \<open>Two steps, listed against their sequence order.\<close>

definition sample_two :: request_execution where
  "sample_two = sample_execution ''request-1'' CreateDisabled
     [sample_step ''request-1'' ''step-b-01'' 1 Keycloak CreateDisabled 3,
      sample_step ''request-1'' ''step-a-00'' 0 Odoo CreateDisabled 3]"

definition sample_db :: db where
  "sample_db = snd (begin_execution (\<lambda>x. x) 0 sample_two ''hash'' empty_db)"

lemmas sample_defs = sample_two_def sample_execution_def sample_step_def

lemma sample_two_valid: "validate_execution sample_two = Inr sample_two"
  by code_simp

lemma sample_two_belongs: "steps_belong sample_two"
  by (rule validated_steps_belong [OF sample_two_valid])

lemma sample_db_reachable: "reachable (\<lambda>x. x) 0 sample_db"
  using reachable.moves [OF reachable.initial store_step.begins [OF sample_two_belongs]]
  by (simp add: sample_db_def)

lemma sample_begin_fresh:
  "begin_execution (\<lambda>x. x) 0 sample_two ''hash'' empty_db = (Inr (None, False), sample_db)"
proof -
  have "fst (begin_execution (\<lambda>x. x) 0 sample_two ''hash'' empty_db) = Inr (None, False)"
    by code_simp
  then show ?thesis by (simp add: sample_db_def prod_eq_iff)
qed

text \<open>The store after the first step has been claimed at time 10.\<close>

definition sample_running :: db where
  "sample_running = snd (claim_next 10 ''request-1'' sample_db)"

lemma sample_running_reachable: "reachable (\<lambda>x. x) 0 sample_running"
  using reachable.moves [OF sample_db_reachable store_step.claims]
  by (simp add: sample_running_def)

lemma sample_claim:
  "fst (claim_next 10 ''request-1'' sample_db) =
     Some (sample_step ''request-1'' ''step-a-00'' 0 Odoo CreateDisabled 3)"
  by code_simp

text \<open>One step with a single attempt, claimed, recovered after a restart, and claimed again.\<close>

definition sample_one :: request_execution where
  "sample_one = sample_execution ''request-2'' CreateDisabled
     [sample_step ''request-2'' ''step-c-00'' 0 Odoo CreateDisabled 1]"

definition sample_one_claimed :: db where
  "sample_one_claimed =
     snd (claim_next 10 ''request-2''
       (snd (begin_execution (\<lambda>x. x) 0 sample_one ''hash'' empty_db)))"

definition sample_one_recovered :: db where
  "sample_one_recovered = snd (recover_stale 200 200 200 0 sample_one_claimed)"

definition sample_one_reclaimed :: db where
  "sample_one_reclaimed = snd (claim_next 300 ''request-2'' sample_one_recovered)"

lemma sample_one_belongs: "steps_belong sample_one"
  by (rule validated_steps_belong) code_simp

lemma sample_one_claimed_reachable: "reachable (\<lambda>x. x) 0 sample_one_claimed"
  using reachable.moves [OF reachable.moves [OF reachable.initial
      store_step.begins [OF sample_one_belongs]] store_step.claims]
  by (simp add: sample_one_claimed_def)

lemma sample_one_reclaimed_reachable: "reachable (\<lambda>x. x) 1 sample_one_reclaimed"
  using reachable.moves [OF reachable.moves [OF sample_one_claimed_reachable store_step.recovers]
      store_step.claims]
  by (simp add: sample_one_reclaimed_def sample_one_recovered_def)

text \<open>A dead-lettered step, retried by an operator, that fails for good a second time.\<close>

definition sample_dead :: db where
  "sample_dead = snd (fail_step 11 11 ''step-a-00'' ''rejected'' ''permanent'' None sample_running)"

definition sample_retried :: db where
  "sample_retried = snd (schedule_step_retry 12 12 12 ''request-1'' sample_dead)"

definition sample_dead_again :: db where
  "sample_dead_again = snd (fail_step 14 14 ''step-a-00'' ''rejected'' ''permanent'' None
     (snd (claim_next 13 ''request-1'' sample_retried)))"

definition in_flight_check :: "string \<Rightarrow> db \<Rightarrow> bool" where
  "in_flight_check step d = list_all (\<lambda>s. st_step_id s = step \<longrightarrow> st_state s = Running) (tbl_steps d)"

lemma in_flight_code: "in_flight step d = in_flight_check step d"
  by (simp add: in_flight_def in_flight_check_def list_all_iff)

lemma sample_dead_reachable: "reachable (\<lambda>x. x) 0 sample_dead"
proof -
  have "in_flight ''step-a-00'' sample_running"
    unfolding in_flight_code by code_simp
  from reachable.moves [OF sample_running_reachable store_step.fails [OF this]]
  show ?thesis by (simp add: sample_dead_def)
qed

end
