(* ===== verification/Step_History.thy ===== *)
theory Step_History
  imports Samples
begin

text \<open>
  What a run of the step machine never takes back: the request hash recorded for an
  idempotency key, the final state of a step, and the resolution of a dead-letter record.
  All three are instances of one contract, a lookup that is written once.
\<close>

section \<open>Facts that are written once\<close>

text \<open>
  A lookup whose answer, once there, no transition changes. \<open>later\<close> is one transition; the
  client's lemma lifts the law to runs.
\<close>

locale write_once =
  fixes lookup :: "'s \<Rightarrow> 'k \<Rightarrow> 'v option" and later :: "'s \<Rightarrow> 's \<Rightarrow> bool"
    and ok :: "'s \<Rightarrow> bool"
  assumes persists: "later s s' \<Longrightarrow> ok s \<Longrightarrow> lookup s k = Some v \<Longrightarrow> lookup s' k = Some v"
    and ok_later: "later s s' \<Longrightarrow> ok s \<Longrightarrow> ok s'"
begin

lemma persists_run:
  assumes "later\<^sup>*\<^sup>* s s'" and "ok s" and "lookup s k = Some v"
  shows "lookup s' k = Some v"
proof -
  from assms have "ok s' \<and> lookup s' k = Some v"
    by (induction rule: rtranclp_induct) (auto intro: persists ok_later)
  then show ?thesis ..
qed

end

definition transition :: "(string \<Rightarrow> string) \<Rightarrow> db \<Rightarrow> db \<Rightarrow> bool" where
  "transition sha d d' \<longleftrightarrow> (\<exists>k. store_step sha k d d')"

text \<open>The request hash recorded for an idempotency hash.\<close>

definition recorded_hash :: "db \<Rightarrow> string \<Rightarrow> string option" where
  "recorded_hash d k =
     map_option ex_request_hash
       (sql_first (filter (\<lambda>r. ex_idempotency_hash r = k) (tbl_executions d)))"

text \<open>Whether a step has a dead-letter record that a retry has resolved.\<close>

definition resolved_record :: "db \<Rightarrow> string \<Rightarrow> unit option" where
  "resolved_record d step =
     (if \<exists>r \<in> set (tbl_dead_letters d). dl_step_id r = step \<and> dl_resolved_at r \<noteq> None
      then Some () else None)"

text \<open>The final state of a step.\<close>

definition final_state :: "db \<Rightarrow> string \<Rightarrow> step_state option" where
  "final_state d step =
     map_option st_state
       (sql_first (filter (\<lambda>s. st_step_id s = step \<and> is_done (st_state s)) (tbl_steps d)))"

lemma sql_first_map_cong:
  assumes "map f xs' = map f xs" and "\<And>x. P x \<longleftrightarrow> Q (f x)" and "\<And>x. g x = h (f x)"
  shows "map_option g (sql_first (filter P xs')) = map_option g (sql_first (filter P xs))"
proof -
  have "map f (filter P ys) = filter Q (map f ys)" for ys
    by (induction ys) (auto simp: assms(2))
  then have "map f (filter P xs') = map f (filter P xs)" using assms(1) by metis
  then have "map g (filter P xs') = map g (filter P xs)"
    by (rule map_eq_via) (rule assms(3))
  then show ?thesis by (cases "filter P xs'"; cases "filter P xs") auto
qed

lemma recorded_hash_ident:
  "map exec_ident (tbl_executions d') = map exec_ident (tbl_executions d) \<Longrightarrow>
     recorded_hash d' = recorded_hash d"
  unfolding recorded_hash_def
  by (rule ext)
     (rule sql_first_map_cong [where Q = "\<lambda>(r, e, c, k', h). k' = k" and h = "\<lambda>(r, e, c, k, h). h" for k],
      auto simp: exec_ident_def)

lemma sql_first_append: "sql_first xs = Some x \<Longrightarrow> sql_first (xs @ ys) = Some x"
  by (cases xs) auto

lemma recorded_hash_begin:
  assumes "recorded_hash d k = Some v"
  shows "recorded_hash (snd (begin_execution sha t ex h d)) k = Some v"
proof (cases rule: begin_cases [of sha t ex h d])
  case (fresh d')
  then show ?thesis using assms
    by (auto simp: begin_fresh(2) [OF fresh] recorded_hash_def dest: sql_first_append)
qed (use assms in simp_all)

lemmas step_exec_idents = complete.leaves_exec_ident fail.leaves_exec_ident
  retry.leaves_exec_ident release.leaves_exec_ident cancel.leaves_exec_ident
  mark.leaves_exec_ident result.leaves_exec_ident recover.leaves_exec_ident
  claim.keeps_exec_ident

lemma store_step_exec_ident:
  "store_step sha k d d' \<Longrightarrow> store_inv d \<Longrightarrow>
     (\<exists>ex t h. d' = snd (begin_execution sha t ex h d)) \<or>
     map exec_ident (tbl_executions d') = map exec_ident (tbl_executions d)"
  by (induction rule: store_step.induct)
     (auto simp: step_exec_idents store_inv_distinct)

interpretation hashes: write_once recorded_hash "transition sha" "\<lambda>d. \<exists>n. machine_inv n d"
proof unfold_locales
  fix d d' :: db and k v
  assume "transition sha d d'" and "\<exists>n. machine_inv n d" and v: "recorded_hash d k = Some v"
  then obtain n where "store_step sha n d d'" "store_inv d"
    by (auto simp: transition_def machine_inv_def)
  from store_step_exec_ident [OF this] show "recorded_hash d' k = Some v"
  proof
    assume "\<exists>ex t h. d' = snd (begin_execution sha t ex h d)"
    then show ?thesis using recorded_hash_begin [OF v] by blast
  next
    assume "map exec_ident (tbl_executions d') = map exec_ident (tbl_executions d)"
    then show ?thesis using recorded_hash_ident v by metis
  qed
next
  fix d d' :: db
  assume "transition sha d d'" and "\<exists>n. machine_inv n d"
  then show "\<exists>n. machine_inv n d'" unfolding transition_def by (blast intro: store_step_inv)
qed

lemma transition_machine_inv:
  "transition sha d d' \<Longrightarrow> \<exists>n. machine_inv n d \<Longrightarrow> \<exists>n. machine_inv n d'"
  unfolding transition_def by (blast intro: store_step_inv)

lemma final_state_iff:
  assumes "machine_inv n d"
  shows "final_state d step = Some st \<longleftrightarrow>
     (\<exists>s \<in> set (tbl_steps d). st_step_id s = step \<and> st_state s = st \<and> is_done st)"
proof
  assume "final_state d step = Some st"
  then show "\<exists>s \<in> set (tbl_steps d). st_step_id s = step \<and> st_state s = st \<and> is_done st"
    by (auto simp: final_state_def dest!: sql_first_Some_mem)
next
  have dist: "distinct (map st_step_id (tbl_steps d))"
    using assms by (simp add: machine_inv_def store_inv_distinct)
  assume "\<exists>s \<in> set (tbl_steps d). st_step_id s = step \<and> st_state s = st \<and> is_done st"
  then obtain s where s: "s \<in> set (tbl_steps d)" "st_step_id s = step" "st_state s = st" "is_done st"
    by blast
  then obtain r where r: "sql_first (filter (\<lambda>s. st_step_id s = step \<and> is_done (st_state s))
      (tbl_steps d)) = Some r"
    by (cases "filter (\<lambda>s. st_step_id s = step \<and> is_done (st_state s)) (tbl_steps d)")
       (auto simp: filter_empty_conv)
  then have "r = s" using s unique_key_eq [OF dist, of r s] by (auto dest!: sql_first_Some_mem)
  with r s show "final_state d step = Some st" by (simp add: final_state_def)
qed

lemma begin_tables:
  "set (tbl_steps d) \<subseteq> set (tbl_steps (snd (begin_execution sha t ex h d))) \<and>
   tbl_dead_letters (snd (begin_execution sha t ex h d)) = tbl_dead_letters d"
proof (cases rule: begin_cases [of sha t ex h d])
  case (fresh d')
  then show ?thesis using begin_fresh(2) [OF fresh] by simp
qed simp_all

lemma claim_finished:
  assumes "store_inv d" and "s \<in> set (tbl_steps d)" and "is_done (st_state s)"
  shows "s \<in> set (tbl_steps (snd (claim_next t request d)))"
proof (cases rule: claim_next_cases [of t request d])
  case (claimed row)
  have "st_step_id s \<noteq> st_step_id row"
    using unique_key_eq [OF store_inv_distinct [OF assms(1)] assms(2) claimed(1)]
      runnableD(2) [OF claimed(2)] assms(3) by (auto simp: is_waiting_def)
  then show ?thesis using assms(2) by (auto simp: claimed(6) mem_sql_update)
qed (use assms in simp)

lemmas step_finished_stays = complete.finished_stays fail.finished_stays retry.finished_stays
  release.finished_stays cancel.finished_stays mark.finished_stays result.finished_stays
  recover.finished_stays

lemma store_step_finished:
  "store_step sha k d d' \<Longrightarrow> store_inv d \<Longrightarrow> s \<in> set (tbl_steps d) \<Longrightarrow> is_done (st_state s) \<Longrightarrow>
     \<exists>s' \<in> set (tbl_steps d'). st_step_id s' = st_step_id s \<and> st_state s' = st_state s"
proof (induction rule: store_step.induct)
  case (begins ex d t h)
  then show ?case using begin_tables by blast
next
  case (claims d t request)
  then show ?case using claim_finished by blast
next
  case (elsewhere d' d)
  then show ?case by auto
qed (rule step_finished_stays; simp add: store_inv_distinct)+

interpretation finals: write_once final_state "transition sha" "\<lambda>d. \<exists>n. machine_inv n d"
proof unfold_locales
  fix d d' :: db and step st
  assume tr: "transition sha d d'" and inv: "\<exists>n. machine_inv n d"
    and st: "final_state d step = Some st"
  obtain n m where n: "machine_inv n d" and m: "machine_inv m d'"
    using inv transition_machine_inv [OF tr inv] by blast
  obtain s where "s \<in> set (tbl_steps d)" "st_step_id s = step" "st_state s = st" "is_done st"
    using st final_state_iff [OF n] by blast
  with tr n show "final_state d' step = Some st"
    unfolding transition_def final_state_iff [OF m]
    using store_step_finished by (fastforce simp: machine_inv_def)
qed (rule transition_machine_inv)

lemma resolved_record_iff:
  "resolved_record d step = Some u \<longleftrightarrow>
     (\<exists>r \<in> set (tbl_dead_letters d). dl_step_id r = step \<and> dl_resolved_at r \<noteq> None)"
  by (simp add: resolved_record_def)

lemma schedule_dead_letters:
  assumes r: "r \<in> set (tbl_dead_letters d)"
  shows "\<exists>r' \<in> set (tbl_dead_letters (snd (schedule_step_retry t t' t'' request d))).
     dl_step_id r' = dl_step_id r \<and> (dl_resolved_at r \<noteq> None \<longrightarrow> dl_resolved_at r' \<noteq> None)"
proof -
  let ?P = "\<lambda>row r. dl_step_id r = st_step_id row" and ?f = "\<lambda>r. r\<lparr>dl_resolved_at := Some t''\<rparr>"
  have keep: "\<exists>r' \<in> set (sql_update (?P row) ?f (tbl_dead_letters d)).
      dl_step_id r' = dl_step_id r \<and> (dl_resolved_at r \<noteq> None \<longrightarrow> dl_resolved_at r' \<noteq> None)" for row
    by (rule bexI [OF _ sql_update_memI [OF r]]) simp
  show ?thesis
    unfolding schedule_step_retry_def
    by (split option.split, intro conjI allI impI) (use r keep in auto)
qed

lemma store_step_dead_letters:
  "store_step sha k d d' \<Longrightarrow> r \<in> set (tbl_dead_letters d) \<Longrightarrow>
     \<exists>r' \<in> set (tbl_dead_letters d'). dl_step_id r' = dl_step_id r \<and>
       (dl_resolved_at r \<noteq> None \<longrightarrow> dl_resolved_at r' \<noteq> None)"
proof (induction rule: store_step.induct)
  case (begins ex d t h)
  then show ?case by (auto simp: begin_tables)
next
  case (fails step d t t' code cls at)
  then show ?case
    by (auto simp: fail_step_def insert_dead_letter_def Let_def split: option.split)
next
  case (retries d t t' t'' request)
  then show ?case by (rule schedule_dead_letters)
next
  case (completes step d t state result)
  then show ?case by (auto simp: complete_step_def)
qed (auto simp: claim_dead_letters release_activation_claim_def cancel_pending_def
       mark_cancelled_def request_result_tables recover_stale_def Let_def)

interpretation resolved: write_once resolved_record "transition sha" "\<lambda>d. True"
proof unfold_locales
  fix d d' :: db and step u
  assume "transition sha d d'" "resolved_record d step = Some u"
  then show "resolved_record d' step = Some u"
    unfolding transition_def resolved_record_iff using store_step_dead_letters by blast
qed simp

end
