(* ===== verification/Step_Properties.thy ===== *)
theory Step_Properties
  imports Step_History
begin

text \<open>
  The properties of the execution and step operations: the invariant of every reachable
  store, the sequencing and finality of steps, the bound on attempts and how restart
  recoveries exceed it, durable idempotency, atomic begin, the retry budget, cancellation
  and recovery, and the agreement of a replay with the stored result.
\<close>

section \<open>Which step is claimed\<close>

text \<open>At most one step of a request can be runnable, so a claim returns it.\<close>

lemma waiting_not_done: "is_waiting s \<Longrightarrow> \<not> is_done s"
  by (cases s) simp_all

lemma runnable_unique:
  assumes inv: "ident_inv d"
    and r: "r \<in> set (tbl_steps d)" "runnable t request d r"
    and s: "s \<in> set (tbl_steps d)" "runnable t request d s"
  shows "r = s"
proof -
  have "\<not> st_sequence r < st_sequence s" "\<not> st_sequence s < st_sequence r"
    using runnableD [OF r(2)] runnableD [OF s(2)] r(1) s(1) waiting_not_done by blast+
  then have "(st_request_id r, st_sequence r) = (st_request_id s, st_sequence s)"
    using runnableD(1) [OF r(2)] runnableD(1) [OF s(2)] by simp
  moreover have "distinct (map (\<lambda>s. (st_request_id s, st_sequence s)) (tbl_steps d))"
    using inv by (simp add: ident_inv_def)
  ultimately show ?thesis
    using unique_key_eq [of "\<lambda>s. (st_request_id s, st_sequence s)", OF _ r(1) s(1)] by simp
qed

lemma claim_next_runnable:
  assumes inv: "store_inv d" and row: "row \<in> set (tbl_steps d)" "runnable t request d row"
    and free: "\<And>s. s \<in> set (tbl_steps d) \<Longrightarrow> st_request_id s = request \<Longrightarrow>
      is_done (st_state s) \<or> is_waiting (st_state s)"
  shows "fst (claim_next t request d) = Some (st_command row)"
proof (cases rule: claim_next_cases [of t request d])
  case none
  have "filter (runnable t request d) (tbl_steps d) \<noteq> []"
    using row by (auto simp: filter_empty_conv)
  then obtain r where "sql_first (order_by st_sequence (filter (runnable t request d) (tbl_steps d))) = Some r"
    by (metis not_Some_eq order_by_Nil sql_first_None)
  moreover have "\<not> (\<exists>s \<in> set (tbl_steps d).
      st_request_id s = request \<and> \<not> is_done (st_state s) \<and> \<not> is_waiting (st_state s))"
    using free by blast
  ultimately have "fst (claim_next t request d) = Some (st_command r)"
    by (simp add: claim_next_def)
  with none show ?thesis by simp
next
  case (claimed row')
  then show ?thesis
    using runnable_unique [OF _ row claimed(1,2)] inv by (simp add: store_inv_def)
qed

lemma claim_next_blocked:
  assumes "s \<in> set (tbl_steps d)" "st_request_id s = request"
    "\<not> is_done (st_state s)" "\<not> is_waiting (st_state s)"
  shows "claim_next t request d = (None, d)"
  using assms by (auto simp: claim_next_def)

text \<open>The row a claim took, before and after.\<close>

lemma claim_next_Some:
  assumes inv: "store_inv d" and claim: "claim_next t request d = (Some c, d')"
  obtains row where "row \<in> set (tbl_steps d)" "runnable t request d row" "c = st_command row"
    "st_step_id row = step_id c"
    "\<And>s. s \<in> set (tbl_steps d) \<Longrightarrow> st_request_id s = request \<Longrightarrow>
       is_done (st_state s) \<or> is_waiting (st_state s)"
    "tbl_steps d' = sql_update (\<lambda>s. st_step_id s = step_id c)
       (\<lambda>s. s\<lparr>st_state := Running, st_attempt_count := st_attempt_count s + 1,
               st_claimed_at := Some t, st_updated_at := t\<rparr>) (tbl_steps d)"
    "\<And>s. s \<in> set (tbl_steps d) \<Longrightarrow> st_step_id s = step_id c \<Longrightarrow> s = row"
proof (cases rule: claim_next_cases [of t request d])
  case none
  with claim show ?thesis by simp
next
  case (claimed row)
  have id: "st_step_id row = step_id (st_command row)"
    using inv claimed(1) by (auto simp: store_inv_def ident_inv_def list_all_iff step_row_wf_def)
  show ?thesis
  proof (rule that [of row])
    show "s = row" if "s \<in> set (tbl_steps d)" "st_step_id s = step_id c" for s
      using unique_key_eq [OF store_inv_distinct [OF inv] that(1) claimed(1)] that(2) claim
        claimed(5) id by simp
  qed (use claimed claim id in auto)
qed

section \<open>Properties\<close>

text \<open>C19. A claimed step runs alone and in sequence: in the store after a claim the claimed
  row is running, every earlier step of the request is done, and no later one has been
  started.\<close>

theorem claimed_step_in_sequence:
  assumes "reachable sha n d" and "claim_next t request d = (Some c, d')"
  shows "\<exists>row \<in> set (tbl_steps d'). st_command row = c \<and> st_request_id row = request \<and>
     st_state row = Running \<and>
     (\<forall>s \<in> set (tbl_steps d'). st_request_id s = request \<longrightarrow>
        (st_sequence s < st_sequence row \<longrightarrow> is_done (st_state s)) \<and>
        (st_sequence row < st_sequence s \<longrightarrow> is_idle (st_state s)))"
proof -
  have inv: "store_inv d" and inv': "store_inv d'"
    using assms(1) claim_next_store_inv [of d t request] assms(2) reachable_machine_inv
    by (auto simp: machine_inv_def)
  show ?thesis
  proof (rule claim_next_Some [OF inv assms(2)], goal_cases)
    case row: (1 row)
    obtain row' where row': "row' \<in> set (tbl_steps d')" "st_command row' = c"
        "st_request_id row' = request" "st_state row' = Running" "\<not> is_done (st_state row')"
        "\<not> is_idle (st_state row')"
    proof (rule that)
      show "(if st_step_id row = step_id c then row\<lparr>st_state := Running,
          st_attempt_count := st_attempt_count row + 1, st_claimed_at := Some t,
          st_updated_at := t\<rparr> else row) \<in> set (tbl_steps d')"
        unfolding row(6) by (rule sql_update_memI [OF row(1)])
    qed (use row(3,4) runnableD(1) [OF row(2)] in simp_all)
    have "order_inv d'" using inv' by (simp add: store_inv_def)
    then have "\<forall>s \<in> set (tbl_steps d'). st_request_id s = request \<longrightarrow>
          (st_sequence s < st_sequence row' \<longrightarrow> is_done (st_state s)) \<and>
          (st_sequence row' < st_sequence s \<longrightarrow> is_idle (st_state s))"
      using row'(1,3,5,6) unfolding order_inv_def by metis
    with row' show ?thesis by blast
  qed
qed

theorem claimed_step_in_sequence_witness:
  "\<exists>row \<in> set (tbl_steps sample_running).
     st_command row = sample_step ''request-1'' ''step-a-00'' 0 Odoo CreateDisabled 3 \<and>
     st_state row = Running"
proof -
  have "claim_next 10 ''request-1'' sample_db =
      (Some (sample_step ''request-1'' ''step-a-00'' 0 Odoo CreateDisabled 3), sample_running)"
    by (simp add: prod_eq_iff sample_claim sample_running_def)
  from claimed_step_in_sequence [OF sample_db_reachable this] show ?thesis by blast
qed

text \<open>C20. After any run with \<open>n\<close> restart recoveries, no step has been attempted more than
  \<open>n\<close> times beyond its maximum; without recoveries the maximum is never exceeded.\<close>

theorem attempts_bounded:
  assumes "reachable sha n d" and "s \<in> set (tbl_steps d)"
  shows "0 \<le> st_attempt_count s \<and> st_attempt_count s \<le> st_max_attempts s + int n"
  using reachable_machine_inv [OF assms(1)] assms(2)
  by (auto simp: machine_inv_def list_all_iff attempts_ok_def)

theorem attempts_bounded_witness:
  "list_all (\<lambda>s. st_attempt_count s \<le> st_max_attempts s) (tbl_steps sample_running)"
  unfolding list_all_iff
proof
  fix s assume "s \<in> set (tbl_steps sample_running)"
  from attempts_bounded [OF sample_running_reachable this]
  show "st_attempt_count s \<le> st_max_attempts s" by simp
qed

text \<open>The bound is attained: a step whose single attempt was interrupted by a restart is
  recovered and claimed again, and its attempt count then exceeds its maximum.\<close>

theorem recovery_exceeds_maximum:
  "reachable (\<lambda>x. x) 1 sample_one_reclaimed \<and>
   (\<exists>s \<in> set (tbl_steps sample_one_reclaimed). st_max_attempts s < st_attempt_count s)"
proof
  have "list_ex (\<lambda>s. st_max_attempts s < st_attempt_count s) (tbl_steps sample_one_reclaimed)"
    by code_simp
  then show "\<exists>s \<in> set (tbl_steps sample_one_reclaimed). st_max_attempts s < st_attempt_count s"
    by (simp add: list_ex_iff)
qed (rule sample_one_reclaimed_reachable)

text \<open>A finished step is final along the transitions of the machine.\<close>

lemma finished_step_kept:
  assumes "reachable sha n d" and "s \<in> set (tbl_steps d)" and "is_done (st_state s)"
    and "(transition sha)\<^sup>*\<^sup>* d d'"
  shows "\<exists>s' \<in> set (tbl_steps d'). st_step_id s' = st_step_id s \<and> st_state s' = st_state s"
proof -
  have inv: "\<exists>n. machine_inv n d" using reachable_machine_inv [OF assms(1)] by blast
  then obtain m where "machine_inv m d" by blast
  then have "final_state d (st_step_id s) = Some (st_state s)"
    using final_state_iff assms(2,3) by blast
  from finals.persists_run [OF assms(4) inv this] show ?thesis
    by (auto simp: final_state_def dest!: sql_first_Some_mem)
qed

section \<open>Idempotency\<close>

lemma begin_recorded:
  assumes "begin_execution sha t ex h d = (Inr (r, False), d')"
  shows "recorded_hash d' (digest sha (idempotency_key ex)) = Some h"
proof -
  have "filter (\<lambda>r. ex_idempotency_hash r = digest sha (idempotency_key ex)) (tbl_executions d) = []"
    using assms
    by (cases "filter (\<lambda>r. ex_idempotency_hash r = digest sha (idempotency_key ex))
          (tbl_executions d)")
       (auto simp: begin_execution_def split: if_splits)
  then show ?thesis
    by (simp add: recorded_hash_def begin_fresh(2) [OF assms] new_exec_row_def)
qed

lemma begin_by_recorded:
  assumes "recorded_hash d (digest sha (idempotency_key ex)) = Some h'"
  shows "if h = h' then \<exists>r. begin_execution sha t ex h d = (Inr (r, True), d)
     else begin_execution sha t ex h d =
       (Inl (IdempotencyConflict ''idempotency_payload_conflict''), d)"
  using assms by (auto simp: recorded_hash_def begin_execution_def)

lemma reachable_begin:
  assumes "reachable sha n d" and "steps_belong ex" and "begin_execution sha t ex h d = (r, d')"
  shows "reachable sha n d'"
  using reachable.moves [OF assms(1) store_step.begins [OF assms(2)]] assms(3)
  by (metis add_0_right snd_conv)

text \<open>C22. Idempotency is durable: after an execution has begun, and after any further run, a
  submission with the same idempotency key changes nothing; it is a replay when its request
  hash is the recorded one and a conflict when it is not.\<close>

theorem idempotency_durable:
  assumes "reachable sha n d" and "steps_belong ex"
    and "begin_execution sha t ex h d = (Inr (r, False), d')"
    and "(transition sha)\<^sup>*\<^sup>* d' d''"
    and "digest sha (idempotency_key ex') = digest sha (idempotency_key ex)"
  shows "if h' = h then \<exists>r'. begin_execution sha t' ex' h' d'' = (Inr (r', True), d'')
     else begin_execution sha t' ex' h' d'' =
       (Inl (IdempotencyConflict ''idempotency_payload_conflict''), d'')"
proof -
  have "\<exists>n. machine_inv n d'"
    using reachable_begin [OF assms(1-3)] reachable_machine_inv by blast
  from hashes.persists_run [OF assms(4) this begin_recorded [OF assms(3)]]
  show ?thesis using assms(5) begin_by_recorded by metis
qed

text \<open>Beginning is atomic: a call that raises or finds the key recorded leaves the store
  as it was; otherwise it appends one execution row and one pending, unattempted row per
  step, in sequence order, and nothing else.\<close>

theorem begin_execution_atomic:
  "case begin_execution sha t ex h d of
     (Inl e, d') \<Rightarrow> d' = d
   | (Inr (r, True), d') \<Rightarrow> d' = d
   | (Inr (r, False), d') \<Rightarrow>
       r = None \<and>
       d' = d\<lparr>tbl_executions := tbl_executions d @ [new_exec_row sha t ex h],
              tbl_steps := tbl_steps d @
                map (new_step_row sha t (request_id ex)) (order_by sequence (steps ex))\<rparr>"
proof (cases rule: begin_cases [of sha t ex h d])
  case (fresh d')
  then show ?thesis using begin_fresh(2) [OF fresh] by simp
qed simp_all

lemma sample_transition: "transition (\<lambda>x. x) sample_db sample_running"
  unfolding transition_def sample_running_def by (blast intro: store_step.claims)

theorem idempotency_durable_witness:
  "(\<exists>r. begin_execution (\<lambda>x. x) 20 sample_two ''hash'' sample_running =
     (Inr (r, True), sample_running)) \<and>
   begin_execution (\<lambda>x. x) 20 sample_two ''other'' sample_running =
     (Inl (IdempotencyConflict ''idempotency_payload_conflict''), sample_running)"
proof -
  have run: "(transition (\<lambda>x. x))\<^sup>*\<^sup>* sample_db sample_running"
    using sample_transition by (rule r_into_rtranclp)
  note durable = idempotency_durable [OF reachable.initial sample_two_belongs sample_begin_fresh
      run refl, where t' = 20]
  show ?thesis
    using durable [where h' = "''hash''"] durable [where h' = "''other''"] by simp
qed

definition sample_completed :: db where
  "sample_completed = snd (complete_step 12 ''step-a-00'' Succeeded [] sample_running)"

lemma sample_completed_reachable: "reachable (\<lambda>x. x) 0 sample_completed"
proof -
  have "in_flight ''step-a-00'' sample_running"
    unfolding in_flight_code by code_simp
  from reachable.moves [OF sample_running_reachable store_step.completes [OF this]]
  show ?thesis by (simp add: sample_completed_def)
qed

section \<open>Failure, retry and recovery\<close>

lemma claim_in_flight:
  assumes "store_inv d" and "claim_next t request d = (Some c, d')"
  shows "in_flight (step_id c) d'"
proof (rule claim_next_Some [OF assms], goal_cases)
  case row: (1 row)
  show ?case
    unfolding in_flight_def
  proof (intro ballI impI)
    fix s assume "s \<in> set (tbl_steps d')" "st_step_id s = step_id c"
    then show "st_state s = Running"
      unfolding row(6) by (cases rule: mem_sql_updateE) simp_all
  qed
qed

text \<open>The step table after a claim followed by a transient failure of the claimed step.\<close>

lemma claim_fail_steps:
  assumes inv: "store_inv d" and claim: "claim_next t request d = (Some c, d1)"
    and s: "s \<in> set (tbl_steps d)" "st_step_id s = step_id c"
    and failed: "fail_step t1 t2 (step_id c) code cls at d1 = (r, d2)"
  shows "let row = s\<lparr>st_state := Running, st_attempt_count := st_attempt_count s + 1,
               st_claimed_at := Some t, st_updated_at := t\<rparr>;
             state = fail_state row cls
         in r = Inr state \<and>
            tbl_steps d2 = sql_update (\<lambda>x. st_step_id x = step_id c)
              (\<lambda>_. row\<lparr>st_state := state, st_retry_class := Some cls, st_error_code := Some code,
                 st_next_retry_at := (if state = RetryWait then at else None),
                 st_claimed_at := None, st_updated_at := t1\<rparr>) (tbl_steps d)"
proof (rule claim_next_Some [OF inv claim], goal_cases)
  case row: (1 row)
  let ?run = "\<lambda>s. s\<lparr>st_state := Running, st_attempt_count := st_attempt_count s + 1,
               st_claimed_at := Some t, st_updated_at := t\<rparr>"
  let ?P = "\<lambda>x. st_step_id x = step_id c"
  have only: "x = s" if "x \<in> set (tbl_steps d)" "?P x" for x
    using row(7) [OF that] row(7) [OF s] by simp
  have dist: "distinct (map st_step_id (tbl_steps d1))"
    using store_inv_distinct [OF inv] unfolding row(6) by (subst map_sql_update) simp_all
  have "?run s \<in> set (tbl_steps d1)"
    using sql_update_memI [OF s(1), of ?P ?run] s(2) by (simp add: row(6))
  from sql_first_key [OF dist this] s(2)
  have first: "sql_first (filter ?P (tbl_steps d1)) = Some (?run s)" by simp
  let ?fail = "\<lambda>x. x\<lparr>st_state := fail_state (?run s) cls, st_retry_class := Some cls,
            st_error_code := Some code,
            st_next_retry_at := (if fail_state (?run s) cls = RetryWait then at else None),
            st_claimed_at := None, st_updated_at := t1\<rparr>"
  have "tbl_steps d2 = sql_update ?P ?fail (tbl_steps d1)"
    using fail_step_tables(2) [of t1 t2 "step_id c" code cls at d1] failed by (simp add: first)
  also have "\<dots> = sql_update ?P (\<lambda>x. ?fail (?run x)) (tbl_steps d)"
    unfolding row(6) by (rule sql_update_twice) simp
  also have "\<dots> = sql_update ?P (\<lambda>_. ?fail (?run s)) (tbl_steps d)"
    by (rule sql_update_const) (rule only)
  finally have steps: "tbl_steps d2 = \<dots>" .
  have "r = Inr (fail_state (?run s) cls)"
    using failed by (simp add: fail_step_def first Let_def)
  then show ?thesis by (simp add: Let_def steps)
qed

lemma runnable_step_update:
  assumes steps: "tbl_steps d' = sql_update (\<lambda>x. st_step_id x = st_step_id s) (\<lambda>_. s') (tbl_steps d)"
    and old: "runnable t request d s" and s: "s \<in> set (tbl_steps d)"
    and inv: "store_inv d"
    and new: "step_ident s' = step_ident s" "is_waiting (st_state s')" "due (st_next_retry_at s') t'"
  shows "runnable t' request d' s'"
proof -
  have only: "x = s" if "x \<in> set (tbl_steps d)" "st_step_id x = st_step_id s" for x
    using unique_key_eq [OF store_inv_distinct [OF inv] that(1) s that(2)] .
  have "is_done (st_state p')" if "p' \<in> set (tbl_steps d')" "st_request_id p' = st_request_id s'"
      "st_sequence p' < st_sequence s'" for p'
  proof -
    from that(1) have "p' \<in> set (tbl_steps d)"
      unfolding steps by (cases rule: mem_sql_updateE) (use that(3) in simp_all)
    then show ?thesis
      using that runnableD(3) [OF old] runnableD(1) [OF old] step_ident_eqD [OF new(1)] by simp
  qed
  then show ?thesis
    using new runnableD(1) [OF old] step_ident_eqD [OF new(1)] by (auto simp: runnable_def)
qed

text \<open>The retry budget: when a claimed step fails with a transient error, it is
  dead-lettered and its request is blocked exactly if that was its last attempt; otherwise it
  waits, and from its retry time on the next claim of the request takes it again.\<close>

theorem transient_retry_budget:
  assumes "reachable sha n d" and "claim_next t request d = (Some c, d1)"
    and "s \<in> set (tbl_steps d)" and "st_step_id s = step_id c"
    and "fail_step t1 t2 (step_id c) code ''transient'' (Some at) d1 = (r, d2)"
    and "at \<le> t3"
  shows "if st_max_attempts s \<le> st_attempt_count s + 1
     then r = Inr DeadLetter \<and> claim_next t3 request d2 = (None, d2)
     else r = Inr RetryWait \<and> fst (claim_next t3 request d2) = Some c"
proof (rule claim_next_Some [OF _ assms(2)], goal_cases)
  case 1
  then show ?case using reachable_machine_inv [OF assms(1)] by (simp add: machine_inv_def)
next
  case row: (2 row)
  have inv: "store_inv d"
    using reachable_machine_inv [OF assms(1)] by (simp add: machine_inv_def)
  have s: "s = row" using row(7) assms(3,4) by blast
  define s' where "s' = s\<lparr>st_state := Running, st_attempt_count := st_attempt_count s + 1,
               st_claimed_at := Some t, st_updated_at := t\<rparr>"
  define state where "state = fail_state s' ''transient''"
  define s2 where "s2 = s'\<lparr>st_state := state, st_retry_class := Some ''transient'',
      st_error_code := Some code, st_next_retry_at := (if state = RetryWait then Some at else None),
      st_claimed_at := None, st_updated_at := t1\<rparr>"
  note * = claim_fail_steps [OF inv assms(2-5), folded s'_def, unfolded Let_def, folded state_def,
      folded s2_def]
  have r: "r = Inr state" and steps: "tbl_steps d2 =
      sql_update (\<lambda>x. st_step_id x = st_step_id s) (\<lambda>_. s2) (tbl_steps d)"
    using * assms(4) by simp_all
  have ident: "step_ident s2 = step_ident s" and state2: "st_state s2 = state"
    by (simp_all add: s2_def s'_def step_ident_def)
  have mem: "s2 \<in> set (tbl_steps d2)"
    using sql_update_memI [OF assms(3), of "\<lambda>x. st_step_id x = st_step_id s" "\<lambda>_. s2"]
    by (simp add: steps)
  have req: "st_request_id s2 = request"
    using runnableD(1) [OF row(2)] s step_ident_eqD [OF ident] by simp
  show ?case
  proof (cases "st_max_attempts s \<le> st_attempt_count s + 1")
    case True
    then have "state = DeadLetter" by (simp add: state_def s'_def fail_state_def)
    then show ?thesis using True r claim_next_blocked [OF mem req] state2 by simp
  next
    case False
    then have st: "state = RetryWait" by (simp add: state_def s'_def fail_state_def)
    have "store_inv d2"
      using fail.keeps_store_inv [OF claim_in_flight [OF inv assms(2)]]
        claim_next_store_inv [OF inv, of t request] assms(2,5) by (metis snd_conv)
    moreover have "runnable t3 request d2 s2"
      by (rule runnable_step_update [OF steps _ assms(3) inv ident])
         (use row(2) s st state2 assms(6) in \<open>simp_all add: s2_def\<close>)
    moreover have "is_done (st_state x) \<or> is_waiting (st_state x)"
      if "x \<in> set (tbl_steps d2)" "st_request_id x = request" for x
      using that(1) unfolding steps
      by (cases rule: mem_sql_updateE) (use that(2) row(5) st state2 in auto)
    ultimately have "fst (claim_next t3 request d2) = Some (st_command s2)"
      using claim_next_runnable mem by blast
    then show ?thesis using False r st row(3) s step_ident_eqD [OF ident] by simp
  qed
qed

text \<open>The step of the sample store: it has a second and a third attempt.\<close>

theorem transient_retry_budget_witness:
  "fst (claim_next 50 ''request-1''
     (snd (fail_step 11 11 ''step-a-00'' ''timeout'' ''transient'' (Some 40) sample_running))) =
   Some (sample_step ''request-1'' ''step-a-00'' 0 Odoo CreateDisabled 3)"
proof -
  let ?c = "sample_step ''request-1'' ''step-a-00'' 0 Odoo CreateDisabled 3"
  have claim: "claim_next 10 ''request-1'' sample_db = (Some ?c, sample_running)"
    by (simp add: prod_eq_iff sample_claim sample_running_def)
  have "list_ex (\<lambda>s. st_step_id s = ''step-a-00'' \<and> st_attempt_count s = 0 \<and> st_max_attempts s = 3)
      (tbl_steps sample_db)"
    by code_simp
  then obtain s where s: "s \<in> set (tbl_steps sample_db)" "st_step_id s = step_id ?c"
      "st_attempt_count s = 0" "st_max_attempts s = 3"
    by (auto simp: list_ex_iff sample_step_def)
  let ?f = "fail_step 11 11 (step_id ?c) ''timeout'' ''transient'' (Some 40) sample_running"
  have id: "step_id ?c = ''step-a-00''" by (simp add: sample_step_def)
  have "?f = (fst ?f, snd ?f)" by simp
  from transient_retry_budget [OF sample_db_reachable claim s(1,2) this, of 50] s(3,4)
  show ?thesis by (simp add: id)
qed

end
