(* ===== verification/Step_Outcomes.thy ===== *)
theory Step_Outcomes
  imports Step_Properties
begin

text \<open>
  Recovery, cancellation, release and results: what brings a step back to the queue, what
  keeps it out, and what a caller reads afterwards.
\<close>

section \<open>The waiting queue\<close>

text \<open>The worker's scan is complete: every request of which a step can be claimed at a time
  is among the pending requests listed at that time.\<close>

theorem pending_covers_claims:
  assumes "claim_next t request d = (Some c, d')"
  shows "request \<in> set (pending_request_ids t d)"
proof (cases rule: claim_next_cases [of t request d])
  case none
  then show ?thesis using assms by simp
next
  case (claimed row)
  then show ?thesis
    by (auto simp: pending_request_ids_def runnable_def intro!: image_eqI [of _ _ row])
qed

theorem pending_covers_claims_witness: "''request-1'' \<in> set (pending_request_ids 10 sample_db)"
  by (rule pending_covers_claims [of 10 "''request-1''" sample_db
        "sample_step ''request-1'' ''step-a-00'' 0 Odoo CreateDisabled 3" sample_running])
     (simp add: prod_eq_iff sample_claim sample_running_def)

section \<open>Recovery after a restart\<close>

lemma running_alone:
  assumes inv: "store_inv d" and s: "s \<in> set (tbl_steps d)" "st_state s = Running"
    and p: "p \<in> set (tbl_steps d)" "st_request_id p = st_request_id s" "p \<noteq> s"
  shows "if st_sequence p < st_sequence s then is_done (st_state p) else is_idle (st_state p)"
proof -
  have order: "order_inv d" and ident: "ident_inv d" using inv by (simp_all add: store_inv_def)
  have "st_sequence p \<noteq> st_sequence s"
    using unique_key_eq [of "\<lambda>s. (st_request_id s, st_sequence s)", OF _ p(1) s(1)] ident p(2,3)
    by (auto simp: ident_inv_def)
  then show ?thesis
    using order p(1,2) s unfolding order_inv_def
    by (metis is_done_simps(2) is_idle_simps(2) linorder_neqE_linordered_idom)
qed

text \<open>Recovery: when a running step's claim is older than the timeout, recovery returns it to
  the queue, and the next claim of its request hands out that step again.\<close>

theorem recovered_step_claimable:
  assumes "reachable sha n d" and "s \<in> set (tbl_steps d)" and "st_state s = Running"
    and "st_claimed_at s = Some c" and "c < t - seconds timeout" and "t' \<le> t3"
  shows "fst (claim_next t3 (st_request_id s) (snd (recover_stale t t' t'' timeout d))) =
     Some (st_command s)"
proof -
  let ?stale = "stale (t - seconds timeout)"
  let ?f = "\<lambda>s. s\<lparr>st_state := RetryWait, st_next_retry_at := Some t', st_claimed_at := None,
                 st_error_code := Some ''worker_restart_recovery'', st_updated_at := t''\<rparr>"
  let ?d = "snd (recover_stale t t' t'' timeout d)"
  have inv: "store_inv d"
    using reachable_machine_inv [OF assms(1)] by (simp add: machine_inv_def)
  have inv': "store_inv ?d" using recover.keeps_store_inv inv by simp
  have steps: "tbl_steps ?d = sql_update ?stale ?f (tbl_steps d)"
    by (simp add: recover_stale_def Let_def)
  have st: "?stale s" using assms(3-5) by (simp add: stale_def)
  have mem: "?f s \<in> set (tbl_steps ?d)"
    using sql_update_memI [OF assms(2), of ?stale ?f] st by (simp add: steps)
  have others: "if st_sequence x < st_sequence s then is_done (st_state x) else is_idle (st_state x)"
    if "x \<in> set (tbl_steps ?d)" "st_request_id x = st_request_id s" "st_step_id x \<noteq> st_step_id s" for x
    using that(1) unfolding steps
  proof (cases rule: mem_sql_updateE)
    case (updated r)
    then have "st_state r = Running" by (simp add: stale_def)
    moreover have "r \<noteq> s" "st_request_id r = st_request_id s" using that(2,3) updated by auto
    ultimately show ?thesis
      using running_alone [OF inv assms(2,3) updated(1)] by (auto split: if_splits)
  next
    case kept
    have "x \<noteq> s" using that(3) by blast
    then show ?thesis using running_alone [OF inv assms(2,3) kept(1) that(2)] by simp
  qed
  have same: "x = ?f s" if "x \<in> set (tbl_steps ?d)" "st_step_id x = st_step_id s" for x
    using unique_key_eq [OF store_inv_distinct [OF inv'] that(1) mem] that(2) by simp
  have "is_done (st_state x)" if x: "x \<in> set (tbl_steps ?d)" "st_request_id x = st_request_id s"
      and lt: "st_sequence x < st_sequence s" for x
    using others [OF x] same [OF x(1)] lt by (cases "st_step_id x = st_step_id s") simp_all
  then have "runnable t3 (st_request_id s) ?d (?f s)"
    unfolding runnable_def using assms(6) by (auto simp: due_def)
  moreover have "is_done (st_state x) \<or> is_waiting (st_state x)"
    if "x \<in> set (tbl_steps ?d)" "st_request_id x = st_request_id s" for x
  proof (cases "st_step_id x = st_step_id s")
    case True
    then show ?thesis using same [OF that(1)] by simp
  next
    case False
    from others [OF that False] show ?thesis
      by (cases "st_state x") (auto split: if_splits)
  qed
  ultimately show ?thesis using claim_next_runnable [OF inv' mem] by simp
qed

theorem recovered_step_claimable_witness:
  "fst (claim_next 300 ''request-2'' (snd (recover_stale 200 200 200 0 sample_one_claimed))) =
     Some (sample_step ''request-2'' ''step-c-00'' 0 Odoo CreateDisabled 1)"
proof -
  let ?c = "sample_step ''request-2'' ''step-c-00'' 0 Odoo CreateDisabled 1"
  have "list_ex (\<lambda>s. st_state s = Running \<and> st_claimed_at s = Some 10 \<and>
      st_request_id s = ''request-2'' \<and> st_command s = ?c) (tbl_steps sample_one_claimed)"
    by code_simp
  then obtain s where s: "s \<in> set (tbl_steps sample_one_claimed)" "st_state s = Running"
      "st_claimed_at s = Some 10" "st_request_id s = ''request-2''" "st_command s = ?c"
    by (auto simp: list_ex_iff)
  from recovered_step_claimable [OF sample_one_claimed_reachable s(1-3), of 200 0 200 300 200] s(4,5)
  show ?thesis by (simp add: seconds_def)
qed

section \<open>Cancellation and release\<close>

text \<open>A claim reads the rows of its own request only.\<close>

definition rows_of :: "string \<Rightarrow> db \<Rightarrow> step_row list" where
  "rows_of request d = filter (\<lambda>s. st_request_id s = request) (tbl_steps d)"

lemma claim_next_local:
  assumes "rows_of request d' = rows_of request d"
  shows "fst (claim_next t request d') = fst (claim_next t request d)"
proof -
  have rows: "set (rows_of request e) = {s \<in> set (tbl_steps e). st_request_id s = request}" for e
    by (auto simp: rows_of_def)
  have blocked: "(\<exists>s \<in> set (tbl_steps e). st_request_id s = request \<and> P s) \<longleftrightarrow>
      (\<exists>s \<in> set (rows_of request e). P s)" for e P
    by (auto simp: rows)
  have run: "filter (runnable t request e) (tbl_steps e) =
      filter (\<lambda>s. is_waiting (st_state s) \<and> due (st_next_retry_at s) t \<and>
         \<not> (\<exists>p \<in> set (rows_of request e). st_sequence p < st_sequence s \<and> \<not> is_done (st_state p)))
        (rows_of request e)" for e
    unfolding rows_of_def filter_filter
    by (rule filter_cong) (auto simp: runnable_def)
  show ?thesis
    unfolding claim_next_def blocked run assms by (auto split: option.split)
qed

text \<open>Cancelling the pending steps of a request ends its queue: at no time can a step of it
  be claimed afterwards or does the worker list it, and the claims of every other request are
  what they were.\<close>

theorem cancel_pending_ends_queue:
  "let d' = snd (cancel_pending t request d) in
     claim_next t' request d' = (None, d') \<and>
     request \<notin> set (pending_request_ids t' d') \<and>
     (other \<noteq> request \<longrightarrow> fst (claim_next t' other d') = fst (claim_next t' other d))"
proof -
  define d' where "d' = snd (cancel_pending t request d)"
  have none: "\<not> (st_request_id s = request \<and> is_waiting (st_state s))" if "s \<in> set (tbl_steps d')" for s
    using that unfolding d'_def cancel_pending_def snd_conv
    by (auto simp: cancellable_def elim!: mem_sql_updateE)
  have "request \<notin> set (pending_request_ids t' d')"
    using none by (auto simp: pending_request_ids_def)
  moreover have "claim_next t' request d' = (None, d')"
  proof (cases rule: claim_next_cases [of t' request d'])
    case (claimed row)
    then show ?thesis using none runnableD(1,2) [OF claimed(2)] by blast
  qed
  moreover have "fst (claim_next t' other d') = fst (claim_next t' other d)" if "other \<noteq> request"
  proof (rule claim_next_local)
    show "rows_of other d' = rows_of other d"
      unfolding rows_of_def d'_def cancel_pending_def
      by (simp, rule filter_sql_update_other) (use that in \<open>auto simp: cancellable_def\<close>)
  qed
  ultimately show ?thesis by (simp add: Let_def d'_def)
qed

theorem cancel_pending_ends_queue_witness:
  "fst (claim_next 300 ''request-1'' (snd (cancel_pending 20 ''request-2'' sample_db))) =
   Some (sample_step ''request-1'' ''step-a-00'' 0 Odoo CreateDisabled 3)"
proof -
  have "fst (claim_next 300 ''request-1'' sample_db) =
      Some (sample_step ''request-1'' ''step-a-00'' 0 Odoo CreateDisabled 3)"
    by code_simp
  then show ?thesis
    using cancel_pending_ends_queue [of 20 "''request-2''" sample_db 300 "''request-1''"]
    by (simp add: Let_def)
qed

text \<open>The step table after a claim and its release.\<close>

lemma claim_release_steps:
  assumes inv: "store_inv d" and claim: "claim_next t request d = (Some c, d')"
    and row: "row \<in> set (tbl_steps d)" "st_step_id row = step_id c" "0 \<le> st_attempt_count row"
  shows "tbl_steps (release_activation_claim t1 t2 t3 (step_id c) d') =
     sql_update (\<lambda>s. st_step_id s = st_step_id row)
       (\<lambda>_. row\<lparr>st_state := RetryWait, st_error_code := Some ''mandatory_verification_incomplete'',
              st_next_retry_at := Some (t1 + seconds 30), st_claimed_at := None,
              st_updated_at := t2\<rparr>) (tbl_steps d)"
proof (rule claim_next_Some [OF inv claim], goal_cases)
  case old: (1 row')
  let ?P = "\<lambda>s. st_step_id s = step_id c"
  let ?run = "\<lambda>s. s\<lparr>st_state := Running, st_attempt_count := st_attempt_count s + 1,
               st_claimed_at := Some t, st_updated_at := t\<rparr>"
  let ?rel = "\<lambda>s. s\<lparr>st_state := RetryWait, st_attempt_count := max (st_attempt_count s - 1) 0,
                  st_error_code := Some ''mandatory_verification_incomplete'',
                  st_next_retry_at := Some (t1 + seconds 30), st_claimed_at := None,
                  st_updated_at := t2\<rparr>"
  have only: "s = row" if "s \<in> set (tbl_steps d)" "?P s" for s
    using old(7) [OF that] old(7) [OF row(1,2)] by simp
  have "tbl_steps (release_activation_claim t1 t2 t3 (step_id c) d') =
      sql_update (\<lambda>s. ?P s \<and> st_state s = Running) ?rel (sql_update ?P ?run (tbl_steps d))"
    by (simp add: release_activation_claim_def old(6))
  also have "\<dots> = sql_update ?P (\<lambda>s. ?rel (?run s)) (tbl_steps d)"
    by (rule sql_update_compose) simp_all
  also have "\<dots> = sql_update ?P (\<lambda>_. ?rel (?run row)) (tbl_steps d)"
    by (rule sql_update_const) (rule only)
  finally show ?case using row(2,3) by simp
qed

text \<open>Releasing a claimed activation consumes no attempt: after a claim and a release every
  step has the attempt count it had, and the released step is claimed again once its delay of
  thirty seconds is over, and not before.\<close>

theorem release_keeps_budget:
  assumes "reachable sha n d" and "claim_next t request d = (Some c, d')"
  shows "let d'' = release_activation_claim t1 t2 t3 (step_id c) d' in
     map st_attempt_count (tbl_steps d'') = map st_attempt_count (tbl_steps d) \<and>
     fst (claim_next t4 request d'') = (if t1 + seconds 30 \<le> t4 then Some c else None)"
proof (rule claim_next_Some [OF _ assms(2)], goal_cases)
  case 1
  then show ?case using reachable_machine_inv [OF assms(1)] by (simp add: machine_inv_def)
next
  case row: (2 row)
  have inv: "store_inv d" and nonneg: "0 \<le> st_attempt_count row"
    using reachable_machine_inv [OF assms(1)] row(1)
    by (auto simp: machine_inv_def list_all_iff attempts_ok_def)
  define d'' where "d'' = release_activation_claim t1 t2 t3 (step_id c) d'"
  define s2 where "s2 = row\<lparr>st_state := RetryWait,
      st_error_code := Some ''mandatory_verification_incomplete'',
      st_next_retry_at := Some (t1 + seconds 30), st_claimed_at := None, st_updated_at := t2\<rparr>"
  note steps = claim_release_steps [OF inv assms(2) row(1,4) nonneg, of t1 t2 t3,
      folded d''_def s2_def]
  have inv'': "store_inv d''"
    unfolding d''_def using release.keeps_store_inv claim_next_store_inv [OF inv, of t request] assms(2)
    by simp
  have only: "s = row" if "s \<in> set (tbl_steps d)" "st_step_id s = st_step_id row" for s
    using unique_key_eq [OF store_inv_distinct [OF inv] that(1) row(1) that(2)] .
  have counts: "map st_attempt_count (tbl_steps d'') = map st_attempt_count (tbl_steps d)"
    unfolding steps by (rule sql_update_keeps_map) (auto simp: s2_def dest: only)
  have mem: "s2 \<in> set (tbl_steps d'')"
    using sql_update_memI [OF row(1), of "\<lambda>s. st_step_id s = st_step_id row" "\<lambda>_. s2"]
    by (simp add: steps)
  have ident: "step_ident s2 = step_ident row" and state: "st_state s2 = RetryWait"
    and at: "st_next_retry_at s2 = Some (t1 + seconds 30)"
    by (simp_all add: s2_def step_ident_def)
  have others: "is_done (st_state x) \<or> is_waiting (st_state x)"
    if "x \<in> set (tbl_steps d'')" "st_request_id x = request" for x
    using that(1) unfolding steps
    by (cases rule: mem_sql_updateE) (use that(2) row(5) state in auto)
  have "fst (claim_next t4 request d'') = Some c" if "t1 + seconds 30 \<le> t4"
  proof -
    have "runnable t4 request d'' s2"
      by (rule runnable_step_update [OF steps row(2,1) inv ident])
         (use state at that in \<open>simp_all add: due_def\<close>)
    from claim_next_runnable [OF inv'' mem this others]
    show ?thesis using row(3) step_ident_eqD [OF ident] by simp
  qed
  moreover have "fst (claim_next t4 request d'') = None" if early: "\<not> t1 + seconds 30 \<le> t4"
  proof (cases rule: claim_next_cases [of t4 request d''])
    case none
    then show ?thesis by simp
  next
    case (claimed r)
    note r = runnableD [OF claimed(2)]
    have "due (st_next_retry_at r) t4" using claimed(2) by (simp add: runnable_def)
    then have "r \<noteq> s2" using at early by (auto simp: due_def)
    then have old: "r \<in> set (tbl_steps d)" "st_step_id r \<noteq> st_step_id row"
      using claimed(1) unfolding steps by (auto elim: mem_sql_updateE)
    have s2: "st_request_id s2 = request" "\<not> is_done (st_state s2)" "st_sequence s2 = st_sequence row"
      using runnableD(1) [OF row(2)] step_ident_eqD [OF ident] state by simp_all
    have "\<not> st_sequence row < st_sequence r"
      using r(3) [OF mem] s2 r(1) by auto
    moreover have "\<not> st_sequence r < st_sequence row"
      using runnableD(3) [OF row(2) old(1)] r(1,2) runnableD(1) [OF row(2)] waiting_not_done by auto
    ultimately have "(st_request_id r, st_sequence r) = (st_request_id row, st_sequence row)"
      using r(1) runnableD(1) [OF row(2)] by simp
    then have "r = row"
      using unique_key_eq [of "\<lambda>s. (st_request_id s, st_sequence s)", OF _ old(1) row(1)] inv
      by (simp add: store_inv_def ident_inv_def)
    then show ?thesis using old(2) by simp
  qed
  ultimately show ?case using counts by (simp add: d''_def Let_def)
qed

theorem release_keeps_budget_witness:
  "fst (claim_next 100 ''request-1''
     (release_activation_claim 20 20 20 ''step-a-00'' sample_running)) = None"
proof -
  let ?c = "sample_step ''request-1'' ''step-a-00'' 0 Odoo CreateDisabled 3"
  have claim: "claim_next 10 ''request-1'' sample_db = (Some ?c, sample_running)"
    by (simp add: prod_eq_iff sample_claim sample_running_def)
  have id: "step_id ?c = ''step-a-00''" by (simp add: sample_step_def)
  from release_keeps_budget [OF sample_db_reachable claim, of 20 20 20 100]
  show ?thesis by (simp add: Let_def id seconds_def)
qed

section \<open>Results and dead letters\<close>

text \<open>A step result as it is read from a row.\<close>

lemma step_result_of_fields:
  "step_result_of row replayed = Inr r \<Longrightarrow>
     sr_step_id r = st_step_id row \<and> sr_state r = st_state row \<and>
     sr_attempt_count r = st_attempt_count row \<and> sr_error_code r = st_error_code row \<and>
     sr_retry_at r = st_next_retry_at row \<and> sr_replayed r = replayed"
  by (auto simp: step_result_of_def res_bind_def Let_def split: sum.splits)

lemma overall_state_iff:
  "overall_state ss = ''completed'' \<longleftrightarrow> list_all is_done ss"
  "overall_state ss = ''dead_letter'' \<longleftrightarrow> DeadLetter \<in> set ss"
  by (auto simp: overall_state_def list_all_iff intro!: bexI [of _ DeadLetter])

lemma request_result_SomeE:
  assumes "request_result t t' request replayed d = (Inr (Some out), d')"
  obtains execution results where
    "sql_first (filter (\<lambda>e. ex_request_id e = request) (tbl_executions d)) = Some execution"
    "list_all2 (\<lambda>row r. step_result_of row replayed = Inr r) (order_by st_sequence (rows_of request d)) results"
    "er_step_results out = results" "er_state out = overall_state (map sr_state results)"
    "d' = d\<lparr>tbl_executions := sql_update (\<lambda>e. ex_request_id e = request)
        (\<lambda>e. e\<lparr>ex_state := er_state out, ex_result := Some out, ex_updated_at := t'\<rparr>)
        (tbl_executions d)\<rparr>"
  using assms
  by (auto simp: request_result_def rows_of_def Let_def split: option.splits sum.splits
      dest!: map_res_list_all2)

text \<open>C23. The reported state of an execution is true: it is completed exactly when every step
  row of the request is done; a dead-lettered step makes it dead-lettered; and the step results
  list the rows of the request in sequence order with their states and attempt counts.\<close>

theorem request_result_faithful:
  assumes "request_result t t' request replayed d = (Inr (Some out), d')"
  shows "(er_state out = ''completed'' \<longleftrightarrow> list_all (\<lambda>s. is_done (st_state s)) (rows_of request d)) \<and>
    (er_state out = ''dead_letter'' \<longleftrightarrow> list_ex (\<lambda>s. st_state s = DeadLetter) (rows_of request d)) \<and>
    map (\<lambda>r. (sr_step_id r, sr_state r, sr_attempt_count r, sr_error_code r)) (er_step_results out) =
    map (\<lambda>s. (st_step_id s, st_state s, st_attempt_count s, st_error_code s))
      (order_by st_sequence (rows_of request d))"
proof (rule request_result_SomeE [OF assms], goal_cases)
  case (1 execution results)
  let ?f = "\<lambda>s. (st_step_id s, st_state s, st_attempt_count s, st_error_code s)"
  have rows: "map (\<lambda>r. (sr_step_id r, sr_state r, sr_attempt_count r, sr_error_code r)) results =
      map ?f (order_by st_sequence (rows_of request d))"
    by (rule list_all2_map_eq [OF 1(2)]) (auto dest: step_result_of_fields)
  have states: "map sr_state results = map st_state (order_by st_sequence (rows_of request d))"
    by (rule list_all2_map_eq [OF 1(2)]) (auto dest: step_result_of_fields)
  have "set (map sr_state results) = st_state ` set (rows_of request d)"
    unfolding states by simp
  then have "list_all is_done (map sr_state results) \<longleftrightarrow>
      list_all (\<lambda>s. is_done (st_state s)) (rows_of request d)"
    and "DeadLetter \<in> set (map sr_state results) \<longleftrightarrow>
      list_ex (\<lambda>s. st_state s = DeadLetter) (rows_of request d)"
    unfolding list_all_iff list_ex_iff by (simp_all add: image_iff eq_commute [of DeadLetter])
  then show ?case
    unfolding 1(3,4) rows overall_state_iff by simp
qed

definition sample_result :: execution_result where
  "sample_result = (case request_result 30 30 ''request-1'' False sample_dead of
     (Inr (Some out), _) \<Rightarrow> out | _ \<Rightarrow> undefined)"

lemma sample_request_result:
  "request_result 30 30 ''request-1'' False sample_dead =
     (Inr (Some sample_result), snd (request_result 30 30 ''request-1'' False sample_dead))"
proof -
  have "case fst (request_result 30 30 ''request-1'' False sample_dead) of
      Inr (Some _) \<Rightarrow> True | _ \<Rightarrow> False"
    by code_simp
  then show ?thesis
    by (cases "request_result 30 30 ''request-1'' False sample_dead")
       (auto simp: sample_result_def split: sum.splits option.splits)
qed

theorem request_result_faithful_witness: "er_state sample_result = ''dead_letter''"
proof -
  have "list_ex (\<lambda>s. st_state s = DeadLetter) (rows_of ''request-1'' sample_dead)" by code_simp
  then show ?thesis using request_result_faithful [OF sample_request_result] by simp
qed

text \<open>A replay returns the stored answer: once the result of an execution has been computed
  for a request, looking its key up with the recorded request hash returns exactly that result,
  and beginning it again does too.\<close>

theorem replay_returns_result:
  assumes "reachable sha n d" and "request_result t t' request replayed d = (Inr (Some out), d')"
    and "e \<in> set (tbl_executions d)" and "ex_request_id e = request"
    and "ex_idempotency_hash e = digest sha (idempotency_key ex)"
  shows "existing_execution sha ex (ex_request_hash e) d' = Inr (Some out, True) \<and>
     begin_execution sha t'' ex (ex_request_hash e) d' = (Inr (Some out, True), d')"
proof (rule request_result_SomeE [OF assms(2)], goal_cases)
  case (1 execution results)
  have "store_inv d" using reachable_machine_inv [OF assms(1)] by (simp add: machine_inv_def)
  then have dist: "distinct (map ex_idempotency_hash (tbl_executions d))"
    by (simp add: store_inv_def ident_inv_def)
  define e' where "e' = e\<lparr>ex_state := er_state out, ex_result := Some out, ex_updated_at := t'\<rparr>"
  have mem: "e' \<in> set (tbl_executions d')"
    using sql_update_memI [OF assms(3), of "\<lambda>e. ex_request_id e = request"
      "\<lambda>e. e\<lparr>ex_state := er_state out, ex_result := Some out, ex_updated_at := t'\<rparr>"] assms(4)
    by (simp add: 1(5) e'_def)
  have "map ex_idempotency_hash (tbl_executions d') = map ex_idempotency_hash (tbl_executions d)"
    unfolding 1(5) by (simp add: sql_update_keeps_map)
  with dist sql_first_key [OF _ mem, of ex_idempotency_hash]
  have "sql_first (filter (\<lambda>r. ex_idempotency_hash r = digest sha (idempotency_key ex))
      (tbl_executions d')) = Some e'"
    using assms(5) by (simp add: e'_def)
  then show ?case
    unfolding existing_execution_def begin_execution_def by (simp add: e'_def)
qed

theorem replay_returns_result_witness:
  "existing_execution (\<lambda>x. x) sample_two ''hash''
     (snd (request_result 30 30 ''request-1'' False sample_dead)) = Inr (Some sample_result, True)"
proof -
  have "list_ex (\<lambda>e. ex_request_id e = ''request-1'' \<and> ex_request_hash e = ''hash'' \<and>
      ex_idempotency_hash e = idempotency_key sample_two) (tbl_executions sample_dead)"
    by code_simp
  then obtain e where e: "e \<in> set (tbl_executions sample_dead)" "ex_request_id e = ''request-1''"
      "ex_request_hash e = ''hash''"
      "ex_idempotency_hash e = digest (\<lambda>x. x) (idempotency_key sample_two)"
    by (auto simp: list_ex_iff digest_def)
  from replay_returns_result [OF sample_dead_reachable sample_request_result e(1,2,4)] e(3)
  show ?thesis by simp
qed

text \<open>A resolved dead-letter record stays resolved under every run, so a step that is
  dead-lettered a second time has no unresolved record.\<close>

theorem dead_letter_stays_resolved:
  assumes "reachable sha n d" and "(transition sha)\<^sup>*\<^sup>* d d'"
    and "r \<in> set (tbl_dead_letters d)" and "dl_resolved_at r \<noteq> None"
    and "s \<in> set (tbl_steps d')" and "st_step_id s = dl_step_id r" and "st_state s = DeadLetter"
  shows "filter (\<lambda>r'. dl_step_id r' = st_step_id s \<and> dl_resolved_at r' = None)
     (tbl_dead_letters d') = []"
proof -
  have "resolved_record d (dl_step_id r) = Some ()"
    using assms(3,4) by (auto simp: resolved_record_def)
  from resolved.persists_run [OF assms(2) _ this]
  obtain r0 where r0: "r0 \<in> set (tbl_dead_letters d')" "dl_step_id r0 = dl_step_id r"
      "dl_resolved_at r0 \<noteq> None"
    by (auto simp: resolved_record_def split: if_splits)
  have "\<exists>n. machine_inv n d'"
    using assms(2) reachable_machine_inv [OF assms(1)] transition_machine_inv
    by (induction rule: rtranclp_induct) blast+
  then have "distinct (map dl_step_id (tbl_dead_letters d'))"
    by (auto simp: machine_inv_def dead_letter_inv_def)
  then have "r' = r0" if "r' \<in> set (tbl_dead_letters d')" "dl_step_id r' = dl_step_id r" for r'
    using unique_key_eq [of dl_step_id, OF _ that(1) r0(1)] that(2) r0(2) by simp
  then show ?thesis using r0(3) assms(6) by (auto simp: filter_empty_conv)
qed

theorem dead_letter_stays_resolved_witness:
  "list_ex (\<lambda>s. st_state s = DeadLetter) (tbl_steps sample_dead_again) \<and>
   filter (\<lambda>r'. dl_step_id r' = ''step-a-00'' \<and> dl_resolved_at r' = None)
     (tbl_dead_letters sample_dead_again) = []"
proof
  let ?claimed = "snd (claim_next 13 ''request-1'' sample_retried)"
  show dead: "list_ex (\<lambda>s. st_state s = DeadLetter) (tbl_steps sample_dead_again)"
    by code_simp
  have "list_all (\<lambda>s. st_state s = DeadLetter \<longrightarrow> st_step_id s = ''step-a-00'') (tbl_steps sample_dead_again)"
    by code_simp
  with dead obtain s where s: "s \<in> set (tbl_steps sample_dead_again)" "st_state s = DeadLetter"
      "st_step_id s = ''step-a-00''"
    by (auto simp: list_ex_iff list_all_iff)
  have "list_ex (\<lambda>r. dl_step_id r = ''step-a-00'' \<and> dl_resolved_at r = Some 12)
      (tbl_dead_letters sample_retried)"
    by code_simp
  then obtain r where r: "r \<in> set (tbl_dead_letters sample_retried)" "dl_step_id r = ''step-a-00''"
      "dl_resolved_at r \<noteq> None"
    by (auto simp: list_ex_iff)
  have "reachable (\<lambda>x. x) 0 sample_retried"
    using reachable.moves [OF sample_dead_reachable store_step.retries] by (simp add: sample_retried_def)
  moreover have "in_flight ''step-a-00'' ?claimed"
    unfolding in_flight_code by code_simp
  then have "transition (\<lambda>x. x) sample_retried ?claimed" "transition (\<lambda>x. x) ?claimed sample_dead_again"
    unfolding transition_def sample_dead_again_def
    by (blast intro: store_step.claims store_step.fails)+
  then have "(transition (\<lambda>x. x))\<^sup>*\<^sup>* sample_retried sample_dead_again"
    by (meson converse_rtranclp_into_rtranclp rtranclp.rtrancl_refl)
  ultimately show "filter (\<lambda>r'. dl_step_id r' = ''step-a-00'' \<and> dl_resolved_at r' = None)
     (tbl_dead_letters sample_dead_again) = []"
    using dead_letter_stays_resolved [OF _ _ r(1,3) s(1) _ s(2)] r(2) s(3) by simp
qed

end
