(* ===== verification/Contract_Properties.thy ===== *)
theory Contract_Properties
  imports Step_Outcomes
begin

text \<open>
  What the request models accept: the exact condition under which an execution or an action
  document passes, and that a command read back from the store passes again.
\<close>

text \<open>A payload in which no sensitive key occurs, at any depth.\<close>

definition free_of_secrets :: "dict \<Rightarrow> bool" where
  "free_of_secrets d \<longleftrightarrow> \<not> (\<exists>k. occurs_key k (JObj d) \<and> str_lower k \<in> set sensitive_keys)"

lemma free_of_secrets_walk:
  "free_of_secrets d \<longleftrightarrow> (\<forall>k \<in> set (walk_keys (JObj d)). k \<notin> set sensitive_keys)"
  unfolding free_of_secrets_def using walk_keys_occurs(1) [of _ "JObj d"] by metis

lemma validate_step_iff:
  "validate_step c = Inr c \<longleftrightarrow> step_fields_ok c \<and> free_of_secrets (payload c)"
  by (auto simp: validate_step_def step_secrets_iff free_of_secrets_walk)

lemma validate_action_iff:
  "validate_action a = Inr a' \<longleftrightarrow> a' = a \<and> envelope_ok a \<and> free_of_secrets (action_payload a)"
  by (auto simp: validate_action_def action_no_inline_secrets_def free_of_secrets_walk Let_def
      filter_empty_conv)

lemma validate_execution_result: "validate_execution ex = Inr ex' \<Longrightarrow> ex' = ex"
  using validate_execution_cases [of ex] by auto

lemma validate_execution_iff:
  "validate_execution ex = Inr ex \<longleftrightarrow>
     envelope_ok ex \<and> 1 \<le> length (steps ex) \<and> length (steps ex) \<le> 32 \<and>
     distinct (map sequence (steps ex)) \<and>
     (\<forall>s \<in> set (steps ex). step_fields_ok s \<and> free_of_secrets (payload s) \<and>
        schema_version s = schema_version ex \<and> request_id s = request_id ex \<and>
        correlation_id s = correlation_id ex \<and> employee_id s = employee_id ex)"
  by (auto simp: validate_execution_def consistent_steps_accepts list_all_iff validate_step_iff)

text \<open>Whether a timestamp has a time zone, and the instant it then stands for.\<close>

fun is_aware :: "raw_datetime \<Rightarrow> bool" where
  "is_aware (Naive _) = False"
| "is_aware (Aware _ _) = True"

fun utc :: "raw_datetime \<Rightarrow> time" where
  "utc (Naive t) = t"
| "utc (Aware local_time offset) = local_time - offset"

definition in_utc :: "'a request_envelope_scheme dated \<Rightarrow> 'a request_envelope_scheme" where
  "in_utc d = (raw_fields d)\<lparr>timestamp := utc (raw_timestamp d)\<rparr>"

definition document_in_utc :: "execution_document \<Rightarrow> request_execution" where
  "document_in_utc doc =
     request_envelope.extend (in_utc (doc_envelope doc)) (request_execution.fields (map in_utc (doc_steps doc)))"

lemma converted_iff: "converted d = Inr e \<longleftrightarrow> is_aware (raw_timestamp d) \<and> e = in_utc d"
  by (cases "raw_timestamp d") (auto simp: converted_def in_utc_def)

lemma map_converted_iff:
  "map_res converted ds = Inr es \<longleftrightarrow> list_all (\<lambda>d. is_aware (raw_timestamp d)) ds \<and> es = map in_utc ds"
  by (induction ds arbitrary: es) (auto simp: res_bind_Inr converted_iff)

lemma read_execution_iff:
  "read_execution doc = Inr ex \<longleftrightarrow>
     is_aware (raw_timestamp (doc_envelope doc)) \<and>
     list_all (\<lambda>d. is_aware (raw_timestamp d)) (doc_steps doc) \<and> ex = document_in_utc doc"
  unfolding read_execution_def document_in_utc_def
  by (auto simp: res_bind_Inr converted_iff map_converted_iff)

text \<open>C24. The exact condition under which the body of an execution is accepted: its timestamp and that
  of every step have a time zone, and are converted to UTC; its fields and those of every step are
  within bounds after trimming, there are 1 to 32 steps with different sequence numbers, each repeats
  the execution's four shared fields, and no step's payload has a sensitive key at any depth.\<close>

theorem build_execution_iff:
  "build_execution doc = Inr ex \<longleftrightarrow>
     is_aware (raw_timestamp (doc_envelope doc)) \<and>
     list_all (\<lambda>d. is_aware (raw_timestamp d)) (doc_steps doc) \<and>
     ex = strip_execution (document_in_utc doc) \<and>
     envelope_ok ex \<and> 1 \<le> length (steps ex) \<and> length (steps ex) \<le> 32 \<and>
     distinct (map sequence (steps ex)) \<and>
     (\<forall>s \<in> set (steps ex). step_fields_ok s \<and>
        \<not> (\<exists>k. occurs_key k (JObj (payload s)) \<and> str_lower k \<in> set sensitive_keys) \<and>
        schema_version s = schema_version ex \<and> request_id s = request_id ex \<and>
        correlation_id s = correlation_id ex \<and> employee_id s = employee_id ex)"
proof -
  have "build_execution doc = Inr ex \<longleftrightarrow>
      (\<exists>raw. read_execution doc = Inr raw \<and> parse_execution raw = Inr ex)"
    by (cases "read_execution doc") (simp_all add: build_execution_def)
  moreover have "parse_execution raw = Inr ex \<longleftrightarrow> ex = strip_execution raw \<and> validate_execution ex = Inr ex" for raw
    using validate_execution_result unfolding parse_execution_def by auto
  ultimately show ?thesis
    unfolding read_execution_iff validate_execution_iff free_of_secrets_def by blast
qed

text \<open>
  The sample execution as a body, with the clock of a place one hour ahead: it is accepted with its
  timestamps in UTC; refused with a naive timestamp on one step, and with a secret two levels down.
\<close>

definition sample_dated :: "'a request_envelope_scheme \<Rightarrow> 'a request_envelope_scheme dated" where
  "sample_dated e = \<lparr>raw_timestamp = Aware (timestamp e + seconds 3600) (seconds 3600), raw_fields = e\<rparr>"

definition sample_body :: "step_command list \<Rightarrow> execution_document" where
  "sample_body ss =
     \<lparr>doc_envelope = sample_dated (request_envelope.truncate sample_two), doc_steps = map sample_dated ss\<rparr>"

definition sample_naive :: execution_document where
  "sample_naive = (sample_body (steps sample_two))\<lparr>doc_steps :=
     map (\<lambda>c. \<lparr>raw_timestamp = Naive (timestamp c), raw_fields = c\<rparr>) (steps sample_two)\<rparr>"

definition sample_leaky :: execution_document where
  "sample_leaky = sample_body (map (\<lambda>s. s\<lparr>payload :=
     [(''account'', JList [JObj [(''Client_Secret'', JStr ''x'')]])]\<rparr>) (steps sample_two))"

theorem build_execution_iff_witness:
  "build_execution (sample_body (steps sample_two)) = Inr sample_two \<and>
   build_execution sample_naive \<noteq> Inr sample_two \<and> (\<forall>ex. build_execution sample_leaky \<noteq> Inr ex)"
proof (intro conjI allI)
  have "build_execution (sample_body (steps sample_two)) = Inr sample_two" by code_simp
  then show "build_execution (sample_body (steps sample_two)) = Inr sample_two"
    using build_execution_iff [of "sample_body (steps sample_two)" sample_two] by blast
  have "\<not> list_all (\<lambda>d. is_aware (raw_timestamp d)) (doc_steps sample_naive)" by code_simp
  then show "build_execution sample_naive \<noteq> Inr sample_two"
    using build_execution_iff [of sample_naive sample_two] by blast
  have "isl (build_execution sample_leaky)" by code_simp
  then show "build_execution sample_leaky \<noteq> Inr ex" for ex by auto
qed

text \<open>Actions are held to the same rule as steps although only the step validator sets
  reference keys aside: an action and a step with the same payload are both refused for inline
  secrets, or neither is.\<close>

theorem secret_rules_agree:
  "(step_no_inline_secrets (c\<lparr>payload := d\<rparr>) = Inr (c\<lparr>payload := d\<rparr>) \<longleftrightarrow>
      \<not> (\<exists>k. occurs_key k (JObj d) \<and> str_lower k \<in> set sensitive_keys)) \<and>
   (action_no_inline_secrets (a\<lparr>action_payload := d\<rparr>) = Inr (a\<lparr>action_payload := d\<rparr>) \<longleftrightarrow>
      \<not> (\<exists>k. occurs_key k (JObj d) \<and> str_lower k \<in> set sensitive_keys))"
  unfolding free_of_secrets_def [symmetric]
  by (auto simp: step_secrets_iff free_of_secrets_walk action_no_inline_secrets_def Let_def
      filter_empty_conv)

lemma strip_step_fields:
  "strip_step (strip_step c) = strip_step c"
  by (simp add: strip_step_def strip_envelope_def str_trim_def)

text \<open>A stored command reads back: every step of an accepted execution passes the step
  model again, unchanged, when it is loaded from its JSON column.\<close>

theorem accepted_step_reads_back:
  assumes "parse_execution raw = Inr ex" and "c \<in> set (steps ex)"
  shows "strip_step c = c \<and> validate_step (strip_step c) = Inr c"
proof -
  have ex: "ex = strip_execution raw" and valid: "validate_execution ex = Inr ex"
    using assms(1) validate_execution_result by (auto simp: parse_execution_def)
  then obtain c0 where "c = strip_step c0" using assms(2) by (auto simp: strip_execution_def)
  then have "strip_step c = c" by (simp add: strip_step_fields)
  then show ?thesis using valid assms(2) by (simp add: validate_execution_iff validate_step_iff)
qed

theorem accepted_step_reads_back_witness:
  "strip_step (sample_step ''request-1'' ''step-a-00'' 0 Odoo CreateDisabled 3) =
     sample_step ''request-1'' ''step-a-00'' 0 Odoo CreateDisabled 3"
proof -
  have "parse_execution sample_two = Inr sample_two" by code_simp
  from accepted_step_reads_back [OF this]
  show ?thesis by (simp add: sample_two_def sample_execution_def)
qed

end
