(* ===== verification/Verification_Store.thy ===== *)
theory Verification_Store
  imports Contract_Properties
begin

text \<open>
  The evidence queries of \<^verbatim>\<open>StateRepository\<close>: which commands of a request or an employee
  succeeded, whether a compensation is stale, recording a verification, and the blockers of an
  activation (\<^verbatim>\<open>successful_commands\<close> to \<^verbatim>\<open>activation_blockers\<close> in \<^verbatim>\<open>app/repository.py\<close>). The
  dictionaries \<^verbatim>\<open>latest\<close> and \<^verbatim>\<open>latest_state\<close> are association lists in insertion order.

  The main results: an activation is unblocked exactly when every current target has a
  successful, verified latest command (on top of a successful creation), and recording a
  verification of a current candidate removes that blocker.
\<close>

section \<open>Commands of a request\<close>

definition latest_commands :: "operation set \<Rightarrow> step_command list \<Rightarrow> (string \<times> step_command) list" where
  "latest_commands ops cmds =
     fold (\<lambda>c latest. if operation c \<in> ops
                      then dict_setdefault (target_value (target_system c)) c latest else latest)
       cmds []"

definition successful_rows :: "string \<Rightarrow> db \<Rightarrow> step_row list" where
  "successful_rows request d =
     order_by_desc st_sequence
       (filter (\<lambda>s. st_request_id s = request \<and> is_successful (st_state s)) (tbl_steps d))"

definition successful_commands :: "string \<Rightarrow> db \<Rightarrow> step_command list" where
  "successful_commands request d =
     map snd (latest_commands {CreateDisabled, Update, Activate}
       (map st_command (successful_rows request d)))"

definition verification_commands :: "string \<Rightarrow> db \<Rightarrow> step_command list" where
  "verification_commands request d =
     map snd (latest_commands {CreateDisabled, Update}
       (map st_command (successful_rows request d)))"

section \<open>Rows of an employee\<close>

text \<open>
  \<^verbatim>\<open>steps s JOIN executions e USING(request_id)\<close>: each step with the employee of its execution.
\<close>

definition step_employee :: "db \<Rightarrow> step_row \<Rightarrow> string option" where
  "step_employee d s = map_option ex_employee_id
     (sql_first (filter (\<lambda>e. ex_request_id e = st_request_id s) (tbl_executions d)))"

definition employee_steps :: "string \<Rightarrow> db \<Rightarrow> step_row list" where
  "employee_steps employee d = filter (\<lambda>s. step_employee d s = Some employee) (tbl_steps d)"

definition compensation_superseded :: "string \<Rightarrow> string \<Rightarrow> string \<Rightarrow> db \<Rightarrow> bool" where
  "compensation_superseded request source_step target d =
     (case sql_first (filter (\<lambda>s. st_request_id s = request \<and> st_step_id s = source_step \<and>
             step_employee d s \<noteq> None) (tbl_steps d)) of
        None \<Rightarrow> True
      | Some source \<Rightarrow>
          list_ex (\<lambda>s. target_value (target_system (st_command s)) = target \<and>
               operation (st_command s) \<in>
                 {CreateDisabled, Update, Activate, Suspend, Reactivate, Terminate})
            (order_by_desc st_updated_at
               (filter (\<lambda>s. step_employee d s = step_employee d source \<and>
                    st_request_id s \<noteq> request \<and> st_updated_at source < st_updated_at s \<and>
                    is_successful (st_state s)) (tbl_steps d))))"

section \<open>Verification records\<close>

definition is_current_verification_candidate :: "string \<Rightarrow> string \<Rightarrow> string \<Rightarrow> db \<Rightarrow> bool" where
  "is_current_verification_candidate employee target source_step d =
     (map_option (\<lambda>s. step_id (st_command s))
        (sql_first (filter (\<lambda>s. target_value (target_system (st_command s)) = target \<and>
             operation (st_command s) \<in> {CreateDisabled, Update})
           (order_by_desc st_updated_at
              (filter (\<lambda>s. is_successful (st_state s)) (employee_steps employee d)))))
      = Some source_step)"

definition verification_row_key :: "verification_row \<Rightarrow> string \<times> string" where
  "verification_row_key r = (vr_employee_id r, vr_target_system r)"

definition upsert_verification :: "verification_row \<Rightarrow> db \<Rightarrow> db" where
  "upsert_verification row d =
     d\<lparr>tbl_verification_records := sql_upsert verification_row_key
         (\<lambda>r. r\<lparr>vr_source_step_id := vr_source_step_id row,
                 vr_evidence_hash := vr_evidence_hash row,
                 vr_verified_at := vr_verified_at row\<rparr>) row (tbl_verification_records d)\<rparr>"

definition record_verification ::
  "time \<Rightarrow> string \<Rightarrow> string \<Rightarrow> string \<Rightarrow> string \<Rightarrow> db \<Rightarrow> bool \<times> db" where
  "record_verification t employee target source_step evidence d =
     (if \<not> is_current_verification_candidate employee target source_step d then (False, d)
      else (True, upsert_verification
             \<lparr>vr_employee_id = employee, vr_target_system = target,
              vr_source_step_id = source_step, vr_evidence_hash = evidence,
              vr_verified_at = t\<rparr> d))"

section \<open>Activation blockers\<close>

text \<open>The loop over the rows: \<^verbatim>\<open>latest\<close>, \<^verbatim>\<open>created_disabled\<close> and \<^verbatim>\<open>latest_state\<close>.\<close>

record blocker_scan =
  bs_latest :: "(string \<times> step_command) list"
  bs_created :: "string list"
  bs_state :: "(string \<times> step_state) list"

definition scan_row :: "step_row \<Rightarrow> blocker_scan \<Rightarrow> blocker_scan" where
  "scan_row row b =
     (if st_state row = Compensated then b
      else
        let command = st_command row;
            system = target_value (target_system command);
            b' = (if operation command = CreateDisabled \<and> is_successful (st_state row)
                  then b\<lparr>bs_created := List.insert system (bs_created b)\<rparr> else b)
        in if operation command \<in> {CreateDisabled, Update}
           then b'\<lparr>bs_latest := dict_setdefault system command (bs_latest b'),
                   bs_state := dict_setdefault system (st_state row) (bs_state b')\<rparr>
           else b')"

definition scan_rows :: "step_row list \<Rightarrow> blocker_scan" where
  "scan_rows rows = fold scan_row rows \<lparr>bs_latest = [], bs_created = [], bs_state = []\<rparr>"

definition verified_sources :: "string \<Rightarrow> db \<Rightarrow> (string \<times> string) list" where
  "verified_sources employee d =
     fold (\<lambda>r. AList.update (vr_target_system r) (vr_source_step_id r))
       (filter (\<lambda>r. vr_employee_id r = employee) (tbl_verification_records d)) []"

definition system_blockers :: "blocker_scan \<Rightarrow> (string \<times> string) list \<Rightarrow> string \<Rightarrow> string list" where
  "system_blockers b verified system =
     (case map_of (bs_latest b) system of
        None \<Rightarrow> [system @ '':created_disabled_missing'', system @ '':verification_missing'']
      | Some command \<Rightarrow>
          (if system \<notin> set (bs_created b) then [system @ '':created_disabled_missing''] else []) @
          (if \<not> (case map_of (bs_state b) system of Some s \<Rightarrow> is_successful s | None \<Rightarrow> False)
           then [system @ '':provisioning_incomplete'']
           else if map_of verified system \<noteq> Some (step_id command)
           then [system @ '':verification_missing'']
           else []))"

text \<open>\<open>required\<close> lists the members of the set; \<^verbatim>\<open>None\<close> is the empty list.\<close>

definition activation_blockers :: "string \<Rightarrow> string list \<Rightarrow> db \<Rightarrow> string list" where
  "activation_blockers employee required d =
     (let b = scan_rows (order_by_desc st_updated_at (employee_steps employee d)) in
      if bs_latest b = [] \<and> required = [] then [''created_disabled_account_missing'']
      else sort (concat (map (system_blockers b (verified_sources employee d))
             (remdups (map fst (bs_latest b) @ required)))))"

section \<open>The scan\<close>

definition provisions :: "string \<Rightarrow> step_row \<Rightarrow> bool" where
  "provisions system s \<longleftrightarrow>
     st_state s \<noteq> Compensated \<and> target_value (target_system (st_command s)) = system \<and>
     operation (st_command s) \<in> {CreateDisabled, Update}"

definition creates :: "string \<Rightarrow> step_row \<Rightarrow> bool" where
  "creates system s \<longleftrightarrow>
     is_successful (st_state s) \<and> target_value (target_system (st_command s)) = system \<and>
     operation (st_command s) = CreateDisabled"

lemma scan_row_simps:
  "map_of (bs_latest (scan_row row b)) system =
     (case map_of (bs_latest b) system of
        Some c \<Rightarrow> Some c
      | None \<Rightarrow> if provisions system row then Some (st_command row) else None)"
  "map_of (bs_state (scan_row row b)) system =
     (case map_of (bs_state b) system of
        Some c \<Rightarrow> Some c
      | None \<Rightarrow> if provisions system row then Some (st_state row) else None)"
  "system \<in> set (bs_created (scan_row row b)) \<longleftrightarrow> system \<in> set (bs_created b) \<or> creates system row"
  by (auto simp: scan_row_def provisions_def creates_def Let_def map_of_setdefault
      split: option.split)

lemma fold_scan:
  "map_of (bs_latest (fold scan_row rows b)) system =
     (case map_of (bs_latest b) system of
        Some c \<Rightarrow> Some c
      | None \<Rightarrow> map_option st_command (sql_first (filter (provisions system) rows)))"
  "map_of (bs_state (fold scan_row rows b)) system =
     (case map_of (bs_state b) system of
        Some c \<Rightarrow> Some c
      | None \<Rightarrow> map_option st_state (sql_first (filter (provisions system) rows)))"
  "system \<in> set (bs_created (fold scan_row rows b)) \<longleftrightarrow>
     system \<in> set (bs_created b) \<or> list_ex (creates system) rows"
  by (induction rows arbitrary: b) (auto simp: scan_row_simps split: option.split)

lemma scan_rows_simps:
  "map_of (bs_latest (scan_rows rows)) system =
     map_option st_command (sql_first (filter (provisions system) rows))"
  "map_of (bs_state (scan_rows rows)) system =
     map_option st_state (sql_first (filter (provisions system) rows))"
  "system \<in> set (bs_created (scan_rows rows)) \<longleftrightarrow> list_ex (creates system) rows"
  by (simp_all add: scan_rows_def fold_scan)

text \<open>The latest provisioning row of a system.\<close>

definition latest_row :: "string \<Rightarrow> string \<Rightarrow> db \<Rightarrow> step_row option" where
  "latest_row employee system d =
     sql_first (filter (provisions system) (order_by_desc st_updated_at (employee_steps employee d)))"

section \<open>When an activation is unblocked\<close>

text \<open>
  A system is ready for activation: its latest provisioning step succeeded, a creation
  succeeded, and the verification record names that latest step.
\<close>

definition system_ready :: "string \<Rightarrow> string \<Rightarrow> db \<Rightarrow> bool" where
  "system_ready employee system d \<longleftrightarrow>
     (\<exists>row. latest_row employee system d = Some row \<and> is_successful (st_state row) \<and>
        list_ex (creates system) (employee_steps employee d) \<and>
        (\<exists>r \<in> set (tbl_verification_records d). vr_employee_id r = employee \<and>
           vr_target_system r = system \<and> vr_source_step_id r = step_id (st_command row)))"

text \<open>The primary key of \<^verbatim>\<open>verification_records\<close>.\<close>

definition verification_key :: "db \<Rightarrow> bool" where
  "verification_key d \<longleftrightarrow>
     distinct (map verification_row_key (tbl_verification_records d))"

lemma fold_update_map_of:
  "distinct (map key rows) \<Longrightarrow>
     map_of (fold (\<lambda>r. AList.update (key r) (val r)) rows m) k =
       (case sql_first (filter (\<lambda>r. key r = k) rows) of Some r \<Rightarrow> Some (val r) | None \<Rightarrow> map_of m k)"
proof (induction rows arbitrary: m)
  case (Cons a rows)
  have "filter (\<lambda>r. key r = key a) rows = []"
    using Cons.prems by (simp add: filter_empty_conv image_iff) metis
  with Cons show ?case by (auto split: option.split)
qed simp

lemma verified_sources_iff:
  assumes "verification_key d"
  shows "map_of (verified_sources employee d) system = Some source \<longleftrightarrow>
     (\<exists>r \<in> set (tbl_verification_records d). vr_employee_id r = employee \<and>
        vr_target_system r = system \<and> vr_source_step_id r = source)"
proof -
  let ?rows = "filter (\<lambda>r. vr_employee_id r = employee) (tbl_verification_records d)"
  have "distinct (map verification_row_key ?rows)"
    using assms by (simp add: verification_key_def distinct_map_filter)
  then have dist: "distinct (map vr_target_system ?rows)"
    by (auto simp: distinct_map inj_on_def verification_row_key_def)
  have "map_of (verified_sources employee d) system =
      map_option vr_source_step_id (sql_first (filter (\<lambda>r. vr_target_system r = system) ?rows))"
    unfolding verified_sources_def fold_update_map_of [OF dist] by (simp split: option.split)
  also have "\<dots> = Some source \<longleftrightarrow> (\<exists>r \<in> set ?rows. vr_target_system r = system \<and> vr_source_step_id r = source)"
  proof
    assume "\<exists>r \<in> set ?rows. vr_target_system r = system \<and> vr_source_step_id r = source"
    then obtain r where "r \<in> set ?rows" "vr_target_system r = system" "vr_source_step_id r = source"
      by blast
    then show "map_option vr_source_step_id (sql_first (filter (\<lambda>r. vr_target_system r = system) ?rows)) =
        Some source"
      using sql_first_key [OF dist] by fastforce
  qed (auto dest!: sql_first_Some_mem)
  finally show ?thesis by auto
qed

lemma system_blockers_Nil:
  assumes "verification_key d" and "b = scan_rows (order_by_desc st_updated_at (employee_steps employee d))"
  shows "system_blockers b (verified_sources employee d) system = [] \<longleftrightarrow> system_ready employee system d"
proof -
  have creates: "list_ex (creates system) (order_by_desc st_updated_at (employee_steps employee d)) =
      list_ex (creates system) (employee_steps employee d)"
    by (simp add: list_ex_iff)
  show ?thesis
    unfolding system_blockers_def system_ready_def assms(2) scan_rows_simps creates
      verified_sources_iff [OF assms(1)] latest_row_def
    by (auto split: option.split)
qed

lemma bs_latest_keys:
  "system \<in> set (map fst (bs_latest (scan_rows rows))) \<longleftrightarrow> list_ex (provisions system) rows"
proof -
  have "system \<in> set (map fst (bs_latest (scan_rows rows))) \<longleftrightarrow>
      map_of (bs_latest (scan_rows rows)) system \<noteq> None"
    by (simp add: map_of_eq_None_iff)
  also have "\<dots> \<longleftrightarrow> list_ex (provisions system) rows"
    unfolding scan_rows_simps by (auto simp: list_ex_iff filter_empty_conv)
  finally show ?thesis .
qed

text \<open>C25. The activation gate: an employee has no blocker exactly when something is to be
  activated and every system that is required or has a provisioning step of the employee is
  ready, that is, its latest provisioning step succeeded and is the one its verification record
  names, and its creation succeeded.\<close>

theorem activation_unblocked_iff:
  assumes "verification_key d"
  shows "activation_blockers employee required d = [] \<longleftrightarrow>
     (required \<noteq> [] \<or> (\<exists>system. list_ex (provisions system) (employee_steps employee d))) \<and>
     (\<forall>system. system \<in> set required \<or> list_ex (provisions system) (employee_steps employee d) \<longrightarrow>
        system_ready employee system d)"
proof -
  define b where "b = scan_rows (order_by_desc st_updated_at (employee_steps employee d))"
  have keys: "system \<in> fst ` set (bs_latest b) \<longleftrightarrow> list_ex (provisions system) (employee_steps employee d)"
    for system
    using bs_latest_keys [of system "order_by_desc st_updated_at (employee_steps employee d)"]
    by (simp add: b_def list_ex_iff)
  then have empty: "bs_latest b = [] \<longleftrightarrow> \<not> (\<exists>system. list_ex (provisions system) (employee_steps employee d))"
    by (metis ex_in_conv image_is_empty set_empty)
  have sort_Nil: "sort xs = [] \<longleftrightarrow> xs = []" for xs :: "string list"
    by (metis set_empty set_sort)
  show ?thesis
    unfolding activation_blockers_def Let_def b_def [symmetric]
    using system_blockers_Nil [OF assms b_def] keys empty by (auto simp: sort_Nil)
qed

lemma filter_order_by_desc:
  "filter P (order_by_desc key rows) = order_by_desc key (filter P rows)"
  by (simp add: order_by_desc_def filter_sort)

lemma sql_first_filter_conj:
  "sql_first (filter P rows) = Some r \<Longrightarrow> Q r \<Longrightarrow> sql_first (filter (\<lambda>x. P x \<and> Q x) rows) = Some r"
  by (induction rows) (auto split: if_splits)

lemma candidate_of_latest:
  assumes "latest_row employee system d = Some row" and "is_successful (st_state row)"
  shows "is_current_verification_candidate employee system source d \<longleftrightarrow> source = step_id (st_command row)"
proof -
  have "filter (\<lambda>s. target_value (target_system (st_command s)) = system \<and>
          operation (st_command s) \<in> {CreateDisabled, Update})
        (order_by_desc st_updated_at (filter (\<lambda>s. is_successful (st_state s)) (employee_steps employee d))) =
      filter (\<lambda>s. provisions system s \<and> is_successful (st_state s))
        (order_by_desc st_updated_at (employee_steps employee d))"
    unfolding filter_order_by_desc [symmetric] filter_filter
    by (rule filter_cong) (auto simp: provisions_def)
  moreover have "sql_first (filter (\<lambda>s. provisions system s \<and> is_successful (st_state s))
        (order_by_desc st_updated_at (employee_steps employee d))) = Some row"
    using assms unfolding latest_row_def by (rule sql_first_filter_conj)
  ultimately show ?thesis by (auto simp: is_current_verification_candidate_def)
qed

lemma upsert_tables:
  "tbl_steps (upsert_verification row d) = tbl_steps d"
  "tbl_executions (upsert_verification row d) = tbl_executions d"
  by (simp_all add: upsert_verification_def)

lemma upsert_key:
  "verification_key d \<Longrightarrow> verification_key (upsert_verification row d)"
  unfolding verification_key_def upsert_verification_def
  by (simp add: sql_upsert_distinct verification_row_key_def)

lemma upsert_mem:
  "\<exists>r \<in> set (tbl_verification_records (upsert_verification row d)).
     vr_employee_id r = vr_employee_id row \<and> vr_target_system r = vr_target_system row \<and>
     vr_source_step_id r = vr_source_step_id row"
proof -
  let ?f = "\<lambda>r. r\<lparr>vr_source_step_id := vr_source_step_id row,
                 vr_evidence_hash := vr_evidence_hash row, vr_verified_at := vr_verified_at row\<rparr>"
  obtain r' where "r' \<in> set (tbl_verification_records (upsert_verification row d))"
      "r' = row \<or> (\<exists>r. verification_row_key r = verification_row_key row \<and> r' = ?f r)"
    using sql_upsert_mem [of verification_row_key ?f row "tbl_verification_records d"]
    by (auto simp: upsert_verification_def)
  then show ?thesis by (intro bexI [of _ r']) (auto simp: verification_row_key_def)
qed

lemma employee_steps_upsert [simp]:
  "employee_steps employee (upsert_verification row d) = employee_steps employee d"
  by (simp add: employee_steps_def step_employee_def upsert_tables)

text \<open>Recording evidence: when the latest provisioning step of a system succeeded, a
  verification is recorded exactly if it was made for that step, and the system is then ready
  for activation if its creation succeeded; evidence for an older step changes nothing.\<close>

theorem verification_of_latest:
  assumes "latest_row employee system d = Some row" and "is_successful (st_state row)"
    and "record_verification t employee system source evidence d = (recorded, d')"
  shows "if source = step_id (st_command row)
     then recorded \<and> (system_ready employee system d' \<longleftrightarrow>
            list_ex (creates system) (employee_steps employee d))
     else \<not> recorded \<and> d' = d"
proof (cases "source = step_id (st_command row)")
  case True
  then have d': "recorded" "d' = upsert_verification \<lparr>vr_employee_id = employee,
      vr_target_system = system, vr_source_step_id = source, vr_evidence_hash = evidence,
      vr_verified_at = t\<rparr> d"
    using assms(3) candidate_of_latest [OF assms(1,2)] by (simp_all add: record_verification_def)
  have "latest_row employee system d' = Some row"
    using assms(1) by (simp add: latest_row_def d'(2))
  then show ?thesis
    using True d' assms(2) upsert_mem [of "\<lparr>vr_employee_id = employee,
      vr_target_system = system, vr_source_step_id = source, vr_evidence_hash = evidence,
      vr_verified_at = t\<rparr>" d] by (auto simp: system_ready_def)
next
  case False
  then show ?thesis
    using assms(3) candidate_of_latest [OF assms(1,2)] by (simp add: record_verification_def)
qed

text \<open>A successful provisioning step of an employee that is the latest.\<close>

lemma latest_row_greatest:
  assumes "latest_row employee system d = Some row"
  shows "row \<in> set (employee_steps employee d)" and "provisions system row"
    and "s \<in> set (employee_steps employee d) \<Longrightarrow> provisions system s \<Longrightarrow>
      st_updated_at s \<le> st_updated_at row"
  using assms sql_first_order_by_desc_greatest [of st_updated_at
      "filter (provisions system) (employee_steps employee d)" row s]
  by (auto simp: latest_row_def filter_order_by_desc dest!: sql_first_Some_mem)

lemma step_employee_fresh:
  assumes "begin_execution sha t ex h d = (Inr (r, False), d')"
  shows "step_employee d' (new_step_row sha t (request_id ex) c) = Some (employee_id ex)"
proof -
  have "\<not> (\<exists>e \<in> set (tbl_executions d). ex_request_id e = request_id ex)"
    using assms by (auto simp: begin_execution_def insert_execution_def new_exec_row_def res_bind_def
        split: option.splits if_splits sum.splits)
  then have "filter (\<lambda>e. ex_request_id e = request_id ex) (tbl_executions d) = []"
    by (auto simp: filter_empty_conv)
  then show ?thesis
    by (simp add: step_employee_def begin_fresh(2) [OF assms] new_step_row_def new_exec_row_def)
qed

text \<open>Evidence does not outlive a change: when an execution that creates or updates a system
  of an employee begins after all earlier steps of the employee, activation of the employee is
  blocked, whatever has been verified before.\<close>

theorem new_step_blocks_activation:
  assumes "begin_execution sha t ex h d = (Inr (r, False), d')"
    and "verification_key d" and "c \<in> set (steps ex)" and "operation c \<in> {CreateDisabled, Update}"
    and "\<forall>s \<in> set (tbl_steps d). st_updated_at s < t"
  shows "activation_blockers (employee_id ex) required d' \<noteq> []"
proof
  let ?new = "new_step_row sha t (request_id ex) c"
  let ?system = "target_value (target_system c)"
  have d': "tbl_steps d' = tbl_steps d @
      map (new_step_row sha t (request_id ex)) (order_by sequence (steps ex))"
    "tbl_verification_records d' = tbl_verification_records d"
    by (simp_all add: begin_fresh(2) [OF assms(1)])
  have mem: "?new \<in> set (employee_steps (employee_id ex) d')"
    using assms(3) step_employee_fresh [OF assms(1)] by (simp add: employee_steps_def d')
  have prov: "provisions ?system ?new"
    using assms(4) by (simp add: provisions_def new_step_row_def)
  assume "activation_blockers (employee_id ex) required d' = []"
  moreover have "verification_key d'" using assms(2) by (simp add: verification_key_def d')
  moreover have "list_ex (provisions ?system) (employee_steps (employee_id ex) d')"
    using mem prov by (auto simp: list_ex_iff)
  ultimately have "system_ready (employee_id ex) ?system d'"
    using activation_unblocked_iff by blast
  then obtain row where row: "latest_row (employee_id ex) ?system d' = Some row"
      "is_successful (st_state row)"
    unfolding system_ready_def by blast
  have "t \<le> st_updated_at row"
    using latest_row_greatest(3) [OF row(1) mem prov] by (simp add: new_step_row_def)
  then have "row \<notin> set (tbl_steps d)" using assms(5) by fastforce
  then have "row \<in> new_step_row sha t (request_id ex) ` set (steps ex)"
    using latest_row_greatest(1) [OF row(1)] by (auto simp: employee_steps_def d')
  then show False using row(2) by (auto simp: new_step_row_def)
qed

section \<open>The sample employee\<close>

text \<open>Both steps of the sample execution completed, then both verified, then an update begun.\<close>

definition sample_provisioned :: db where
  "sample_provisioned =
     snd (complete_step 14 ''step-b-01'' Succeeded []
       (snd (claim_next 13 ''request-1'' sample_completed)))"

definition sample_verified :: db where
  "sample_verified =
     snd (record_verification 16 ''employee-0001'' ''keycloak'' ''step-b-01'' ''evidence''
       (snd (record_verification 15 ''employee-0001'' ''odoo'' ''step-a-00'' ''evidence''
          sample_provisioned)))"

definition sample_update :: request_execution where
  "sample_update = sample_execution ''request-3'' Update
     [sample_step ''request-3'' ''step-u-00'' 0 Odoo Update 3]"

theorem activation_unblocked_iff_witness:
  "system_ready ''employee-0001'' ''odoo'' sample_verified"
proof -
  have "verification_key sample_verified" unfolding verification_key_def by code_simp
  note iff = activation_unblocked_iff [OF this]
  have "activation_blockers ''employee-0001'' [''odoo''] sample_verified = []" by code_simp
  with iff show ?thesis by simp
qed

theorem verification_of_latest_witness:
  "fst (record_verification 15 ''employee-0001'' ''odoo'' ''step-a-00'' ''evidence'' sample_provisioned) \<and>
   \<not> fst (record_verification 15 ''employee-0001'' ''odoo'' ''step-x-00'' ''evidence'' sample_provisioned)"
proof -
  have "(case latest_row ''employee-0001'' ''odoo'' sample_provisioned of None \<Rightarrow> False
      | Some row \<Rightarrow> st_state row = Succeeded \<and> step_id (st_command row) = ''step-a-00'')"
    by code_simp
  then obtain row where row: "latest_row ''employee-0001'' ''odoo'' sample_provisioned = Some row"
      "is_successful (st_state row)" "step_id (st_command row) = ''step-a-00''"
    by (auto split: option.splits)
  note recorded = verification_of_latest [OF row(1,2) prod.collapse [symmetric],
      where t = 15 and evidence = "''evidence''"]
  from recorded [where source = "''step-a-00''"] recorded [where source = "''step-x-00''"]
  show ?thesis by (simp add: row(3))
qed

theorem new_step_blocks_activation_witness:
  "activation_blockers ''employee-0001'' [''odoo'']
     (snd (begin_execution (\<lambda>x. x) 100 sample_update ''hash'' sample_verified)) \<noteq> []"
proof -
  let ?start = "begin_execution (\<lambda>x. x) 100 sample_update ''hash'' sample_verified"
  let ?c = "sample_step ''request-3'' ''step-u-00'' 0 Odoo Update 3"
  have "fst ?start = Inr (None, False)" by code_simp
  then have fresh: "?start = (Inr (None, False), snd ?start)" by (simp add: prod_eq_iff)
  have key: "verification_key sample_verified" unfolding verification_key_def by code_simp
  have c: "?c \<in> set (steps sample_update)" "operation ?c \<in> {CreateDisabled, Update}"
    by (simp_all add: sample_update_def sample_execution_def) (simp add: sample_step_def)
  have "list_all (\<lambda>s. st_updated_at s < 100) (tbl_steps sample_verified)" by code_simp
  then have "\<forall>s \<in> set (tbl_steps sample_verified). st_updated_at s < 100" by (simp add: list_all_iff)
  from new_step_blocks_activation [OF fresh key c this]
  show ?thesis by (simp add: sample_update_def sample_execution_def)
qed

end
