(* ===== verification/Employee_View.thy ===== *)
theory Employee_View
  imports Verification_Store "HOL-Library.Sublist"
begin

text \<open>
  What the store knows of an employee across requests (\<^verbatim>\<open>employee_results\<close> and
  \<^verbatim>\<open>employee_commands\<close> in \<^verbatim>\<open>app/repository.py\<close>): the latest result of every system, and per
  system the last successful command with the payloads of all of them merged. The merge is
  characterised by paths into nested dictionaries, the commands by a reference that looks at
  one system at a time.
\<close>

section \<open>Latest results\<close>

definition employee_result_of :: "step_row \<Rightarrow> step_result res" where
  "employee_result_of row =
     (let result = result_dict row; command = st_command row in
      res_bind (opt_str_field (dict_get result ''external_id'')) (\<lambda>external_id.
      res_bind (opt_str_field (dict_get result ''external_reference'')) (\<lambda>external_reference.
      res_bind (opt_str_field (dict_get result ''credential_reference'')) (\<lambda>credential_reference.
      res_bind (opt_str_field (dict_get result ''evidence_hash'')) (\<lambda>evidence_hash.
      Inr \<lparr>sr_step_id = st_step_id row, sr_target_system = target_system command,
           sr_operation = operation command, sr_state = st_state row,
           sr_attempt_count = st_attempt_count row, sr_external_id = external_id,
           sr_external_reference = external_reference,
           sr_credential_reference = credential_reference, sr_evidence_hash = evidence_hash,
           sr_error_code = st_error_code row, sr_retry_at = st_next_retry_at row,
           sr_replayed = False\<rparr>)))))"

definition latest_rows :: "step_row list \<Rightarrow> (string \<times> step_row) list" where
  "latest_rows rows =
     fold (\<lambda>row latest. dict_setdefault (target_value (target_system (st_command row))) row latest)
       rows []"

definition employee_results :: "string \<Rightarrow> db \<Rightarrow> step_result list res" where
  "employee_results employee d =
     map_res employee_result_of
       (map snd (latest_rows (order_by_desc st_updated_at (employee_steps employee d))))"

section \<open>Merged commands\<close>

fun merged :: "dict \<Rightarrow> dict \<Rightarrow> dict"
  and merged_value :: "json option \<Rightarrow> json \<Rightarrow> json" where
  "merged base [] = base"
| "merged base ((key, val) # upd) =
     merged (AList.update key (merged_value (map_of base key) val) base) upd"
| "merged_value (Some (JObj base)) (JObj upd) = JObj (merged base upd)"
| "merged_value _ val = val"

type_synonym command_scan = "(string \<times> step_command) list \<times> (string \<times> dict) list"

definition scan_command :: "step_command \<Rightarrow> command_scan \<Rightarrow> command_scan" where
  "scan_command command cs =
     (let (current, payloads) = cs; system = target_value (target_system command) in
      if map_of current system = None \<and> operation command \<noteq> CreateDisabled then cs
      else (AList.update system command current,
            AList.update system
              (merged (case map_of payloads system of None \<Rightarrow> [] | Some p \<Rightarrow> p) (payload command))
              payloads))"

definition merged_commands :: "step_command list \<Rightarrow> step_command list" where
  "merged_commands commands =
     (let (current, payloads) = fold scan_command commands ([], []) in
      map (\<lambda>(system, command).
             command\<lparr>payload := (case map_of payloads system of None \<Rightarrow> [] | Some p \<Rightarrow> p)\<rparr>) current)"

definition employee_commands :: "string \<Rightarrow> db \<Rightarrow> step_command list" where
  "employee_commands employee d =
     merged_commands (map st_command
       (order_by st_updated_at
          (filter (\<lambda>s. is_successful (st_state s)) (employee_steps employee d))))"

section \<open>The merge of nested dictionaries\<close>

text \<open>Dictionaries have each key once, at every depth.\<close>

fun json_wf :: "json \<Rightarrow> bool"
  and items_wf :: "dict \<Rightarrow> bool"
  and list_wf :: "json list \<Rightarrow> bool" where
  "json_wf (JObj kvs) \<longleftrightarrow> distinct (map fst kvs) \<and> items_wf kvs"
| "json_wf (JList vs) \<longleftrightarrow> list_wf vs"
| "json_wf _ \<longleftrightarrow> True"
| "items_wf [] \<longleftrightarrow> True"
| "items_wf ((key, v) # kvs) \<longleftrightarrow> json_wf v \<and> items_wf kvs"
| "list_wf [] \<longleftrightarrow> True"
| "list_wf (v # vs) \<longleftrightarrow> json_wf v \<and> list_wf vs"

lemma items_wf_map_of: "items_wf kvs \<Longrightarrow> map_of kvs k = Some v \<Longrightarrow> json_wf v"
  by (induction kvs) (auto split: if_splits)

lemma object_wf_map_of: "json_wf (JObj kvs) \<Longrightarrow> map_of kvs k = Some v \<Longrightarrow> json_wf v"
  by (rule items_wf_map_of [of kvs]) simp_all

fun path_get :: "json \<Rightarrow> string list \<Rightarrow> json option" where
  "path_get v [] = Some v"
| "path_get (JObj kvs) (k # ks) = (case map_of kvs k of None \<Rightarrow> None | Some v \<Rightarrow> path_get v ks)"
| "path_get _ (k # ks) = None"

fun is_object :: "json \<Rightarrow> bool" where
  "is_object (JObj _) \<longleftrightarrow> True"
| "is_object _ \<longleftrightarrow> False"

lemma merged_value_leaf: "\<not> is_object v \<Longrightarrow> merged_value b v = v"
  by (cases v) simp_all

lemma merged_value_fresh: "b = None \<or> (\<exists>w. b = Some w \<and> \<not> is_object w) \<Longrightarrow> merged_value b v = v"
  by (cases "(b, v)" rule: merged_value.cases) auto

lemma map_of_merged:
  "distinct (map fst u) \<Longrightarrow>
     map_of (merged b u) k =
       (case map_of u k of None \<Rightarrow> map_of b k | Some v \<Rightarrow> Some (merged_value (map_of b k) v))"
proof (induction u arbitrary: b)
  case (Cons kv u)
  obtain k' v where kv: "kv = (k', v)" by (cases kv)
  have "k = k' \<Longrightarrow> map_of u k = None" using Cons.prems by (simp add: kv map_of_eq_None_iff)
  with Cons show ?case by (auto simp: kv split: option.split)
qed simp

lemma path_get_leaf: "\<not> is_object v \<Longrightarrow> path_get v (k # ks) = None"
  by (cases v) simp_all

lemma merged_path_update:
  "json_wf (JObj u) \<Longrightarrow> path_get (JObj u) p = Some v \<Longrightarrow> \<not> is_object v \<Longrightarrow>
     path_get (JObj (merged b u)) p = Some v"
proof (induction p arbitrary: b u)
  case (Cons k ks)
  then obtain w where w: "map_of u k = Some w" "path_get w ks = Some v"
    by (auto split: option.splits)
  then have merged: "map_of (merged b u) k = Some (merged_value (map_of b k) w)"
    using Cons.prems(1) by (simp add: map_of_merged)
  show ?case
  proof (cases "is_object w")
    case False
    then have "ks = []" using w(2) path_get_leaf by (cases ks) auto
    with False w merged show ?thesis by (simp add: merged_value_leaf)
  next
    case True
    then obtain wu where wu: "w = JObj wu" by (cases w) auto
    have "json_wf (JObj wu)" using object_wf_map_of [OF Cons.prems(1)] w(1) wu by blast
    from Cons.IH [OF this] show ?thesis
      using w(2) merged Cons.prems(3) unfolding wu
      by (cases "map_of b k" rule: option.exhaust; cases "the (map_of b k)") auto
  qed
qed auto

lemma merged_path_base:
  "json_wf (JObj u) \<Longrightarrow> path_get (JObj u) p = None \<Longrightarrow>
     (\<And>q v. prefix q p \<Longrightarrow> path_get (JObj u) q = Some v \<Longrightarrow> is_object v) \<Longrightarrow>
     path_get (JObj (merged b u)) p = path_get (JObj b) p"
proof (induction p arbitrary: b u)
  case (Cons k ks)
  show ?case
  proof (cases "map_of u k")
    case None
    then show ?thesis using Cons.prems(1) by (simp add: map_of_merged)
  next
    case (Some w)
    then obtain wu where wu: "w = JObj wu"
      using Cons.prems(3) [of "[k]" w] by (cases w) auto
    have none: "path_get (JObj wu) ks = None" using Cons.prems(2) Some wu by simp
    then obtain k' ks' where ks: "ks = k' # ks'" by (cases ks) auto
    have merged: "map_of (merged b u) k = Some (merged_value (map_of b k) (JObj wu))"
      using Cons.prems(1) Some wu by (simp add: map_of_merged)
    show ?thesis
    proof (cases "\<exists>bb. map_of b k = Some (JObj bb)")
      case True
      then obtain bb where bb: "map_of b k = Some (JObj bb)" by blast
      have "path_get (JObj (merged bb wu)) ks = path_get (JObj bb) ks"
      proof (rule Cons.IH [OF _ none])
        show "json_wf (JObj wu)" using object_wf_map_of [OF Cons.prems(1)] Some wu by blast
        show "is_object v" if "prefix q ks" "path_get (JObj wu) q = Some v" for q v
          using Cons.prems(3) [of "k # q" v] that Some wu by simp
      qed
      then show ?thesis using merged bb by simp
    next
      case False
      then have "map_of b k = None \<or> (\<exists>w. map_of b k = Some w \<and> \<not> is_object w)"
        by (metis is_object.elims(2) not_Some_eq)
      then show ?thesis
        using merged none by (auto simp: merged_value_fresh path_get_leaf ks)
    qed
  qed
qed simp

text \<open>Merging payloads loses nothing and keeps the newest: below any path, a plain value of
  the update is the value of the merge, and where the update says nothing (no value there, and
  no plain value on the way) the merge has what the base has.\<close>

theorem merged_paths:
  assumes "json_wf (JObj u)"
  shows "(path_get (JObj u) p = Some v \<and> \<not> is_object v \<longrightarrow>
       path_get (JObj (merged b u)) p = Some v) \<and>
     (path_get (JObj u) p = None \<and>
        (\<forall>q v. prefix q p \<and> path_get (JObj u) q = Some v \<longrightarrow> is_object v) \<longrightarrow>
       path_get (JObj (merged b u)) p = path_get (JObj b) p)"
  using merged_path_update [OF assms] merged_path_base [OF assms] by blast

definition sample_base :: dict where
  "sample_base = [(''account'', JObj [(''name'', JStr ''a''), (''extension'', JInt 6101)])]"

definition sample_patch :: dict where
  "sample_patch = [(''account'', JObj [(''name'', JStr ''b'')])]"

theorem merged_paths_witness:
  "path_get (JObj (merged sample_base sample_patch)) [''account'', ''name''] = Some (JStr ''b'') \<and>
   path_get (JObj (merged sample_base sample_patch)) [''account'', ''extension''] = Some (JInt 6101)"
proof
  have wf: "json_wf (JObj sample_patch)" by code_simp
  have "path_get (JObj sample_patch) [''account'', ''name''] = Some (JStr ''b'')" by code_simp
  then show "path_get (JObj (merged sample_base sample_patch)) [''account'', ''name''] = Some (JStr ''b'')"
    using merged_paths [OF wf] by (metis is_object.simps(6))
  have "path_get (JObj sample_patch) [''account'', ''extension''] = None"
      "path_get (JObj sample_base) [''account'', ''extension''] = Some (JInt 6101)"
    by code_simp+
  moreover have "is_object v" if "prefix q [''account'', ''extension'']" "path_get (JObj sample_patch) q = Some v" for q v
    using that by (auto simp: prefix_Cons sample_patch_def split: if_splits)
  ultimately show "path_get (JObj (merged sample_base sample_patch)) [''account'', ''extension''] =
      Some (JInt 6101)"
    using merged_paths [OF wf, of "[''account'', ''extension'']" _ sample_base] by metis
qed

section \<open>One command per system\<close>

text \<open>
  The commands that count for a system: those from its first creation on. Its merged command
  is the last of them, with all their payloads merged in order.
\<close>

definition system_history :: "string \<Rightarrow> step_command list \<Rightarrow> step_command list" where
  "system_history system commands =
     dropWhile (\<lambda>c. operation c \<noteq> CreateDisabled)
       (filter (\<lambda>c. target_value (target_system c) = system) commands)"

definition history_payload :: "step_command list \<Rightarrow> dict" where
  "history_payload history = fold (\<lambda>c base. merged base (payload c)) history []"

definition history_command :: "step_command list \<Rightarrow> step_command option" where
  "history_command history =
     (if history = [] then None else Some ((last history)\<lparr>payload := history_payload history\<rparr>))"

lemma system_history_snoc:
  "system_history system (commands @ [c]) =
     (if target_value (target_system c) = system \<and>
         (system_history system commands \<noteq> [] \<or> operation c = CreateDisabled)
      then system_history system commands @ [c] else system_history system commands)"
proof -
  have "dropWhile Q (xs @ [c]) =
      (if dropWhile Q xs \<noteq> [] \<or> \<not> Q c then dropWhile Q xs @ [c] else dropWhile Q xs)"
    for Q and xs :: "step_command list"
    by (induction xs) auto
  then show ?thesis by (simp add: system_history_def)
qed

lemma scan_command_skip:
  "map_of current (target_value (target_system c)) = None \<Longrightarrow> operation c \<noteq> CreateDisabled \<Longrightarrow>
     scan_command c (current, payloads) = (current, payloads)"
  by (simp add: scan_command_def)

lemma scan_command_take:
  "map_of current (target_value (target_system c)) \<noteq> None \<or> operation c = CreateDisabled \<Longrightarrow>
     scan_command c (current, payloads) =
       (AList.update (target_value (target_system c)) c current,
        AList.update (target_value (target_system c))
          (merged (case map_of payloads (target_value (target_system c)) of None \<Rightarrow> [] | Some p \<Rightarrow> p)
             (payload c)) payloads)"
  by (auto simp: scan_command_def Let_def)

text \<open>What the scan has collected, per system.\<close>

definition collected :: "string \<Rightarrow> step_command list \<Rightarrow> command_scan \<Rightarrow> bool" where
  "collected system history cs \<longleftrightarrow>
     map_of (fst cs) system = (if history = [] then None else Some (last history)) \<and>
     map_of (snd cs) system = (if history = [] then None else Some (history_payload history))"

lemma collected_take:
  assumes "collected system history (current, payloads)" and "system = target_value (target_system c)"
    and "history \<noteq> [] \<or> operation c = CreateDisabled"
  shows "collected system (history @ [c]) (scan_command c (current, payloads))"
proof -
  have "map_of current (target_value (target_system c)) \<noteq> None \<or> operation c = CreateDisabled"
    using assms by (auto simp: collected_def)
  from scan_command_take [OF this] show ?thesis
    using assms(1,2) by (simp add: collected_def history_payload_def)
qed

lemma scan_collected:
  "collected system (system_history system commands) (fold scan_command commands ([], []))"
proof (induction commands arbitrary: system rule: rev_induct)
  case Nil
  show ?case by (simp add: system_history_def collected_def)
next
  case (snoc c commands)
  obtain current payloads where scan: "fold scan_command commands ([], []) = (current, payloads)"
    by (cases "fold scan_command commands ([], [])")
  let ?system = "target_value (target_system c)"
  have step: "fold scan_command (commands @ [c]) ([], []) = scan_command c (current, payloads)"
    by (simp add: scan)
  note IH = snoc.IH [unfolded scan]
  show ?case
  proof (cases "system_history ?system commands \<noteq> [] \<or> operation c = CreateDisabled")
    case True
    note taken = collected_take [OF IH refl True]
    show ?thesis
    proof (cases "?system = system")
      case eq: True
      then show ?thesis using taken True unfolding step system_history_snoc by simp
    next
      case False
      have "map_of current ?system \<noteq> None \<or> operation c = CreateDisabled"
        using IH [of ?system] True by (auto simp: collected_def)
      from scan_command_take [OF this] show ?thesis
        using IH [of system] False unfolding step system_history_snoc by (simp add: collected_def)
    qed
  next
    case False
    then have "scan_command c (current, payloads) = (current, payloads)"
      using IH [of ?system] by (intro scan_command_skip) (simp_all add: collected_def)
    then show ?thesis using IH [of system] False unfolding step system_history_snoc by auto
  qed
qed

lemma scan_keys:
  "distinct (map fst (fst (fold scan_command commands ([], [])))) \<and>
   (\<forall>(system, c) \<in> set (fst (fold scan_command commands ([], []))). target_value (target_system c) = system)"
proof (induction commands rule: rev_induct)
  case (snoc c commands)
  obtain current payloads where scan: "fold scan_command commands ([], []) = (current, payloads)"
    by (cases "fold scan_command commands ([], [])")
  note IH = snoc.IH [unfolded scan fst_conv]
  show ?case
  proof (cases "map_of current (target_value (target_system c)) \<noteq> None \<or> operation c = CreateDisabled")
    case True
    have dist: "distinct (map fst (AList.update (target_value (target_system c)) c current))"
      using IH by (simp add: distinct_update)
    have "target_value (target_system c') = system"
      if "(system, c') \<in> set (AList.update (target_value (target_system c)) c current)" for system c'
    proof -
      have "map_of (AList.update (target_value (target_system c)) c current) system = Some c'"
        using map_of_is_SomeI [OF dist that] .
      then have "system = target_value (target_system c) \<and> c' = c \<or> map_of current system = Some c'"
        by (auto split: if_splits)
      then show ?thesis using IH map_of_SomeD by fastforce
    qed
    then show ?thesis using dist by (auto simp: scan scan_command_take [OF True])
  next
    case False
    then have "scan_command c (current, payloads) = (current, payloads)"
      by (intro scan_command_skip) auto
    then show ?thesis using IH by (simp add: scan)
  qed
qed simp

lemma find_map_of:
  assumes "distinct (map fst xs)" and "\<And>k v. (k, v) \<in> set xs \<Longrightarrow> key (g (k, v)) = k"
  shows "find (\<lambda>x. key x = k) (map g xs) = map_option (\<lambda>v. g (k, v)) (map_of xs k)"
  using assms
proof (induction xs)
  case (Cons kv xs)
  then show ?case by (cases kv) auto
qed simp

lemma merged_commands_find:
  "find (\<lambda>c. target_value (target_system c) = system) (merged_commands commands) =
     history_command (system_history system commands)"
proof -
  obtain current payloads where scan: "fold scan_command commands ([], []) = (current, payloads)"
    by (cases "fold scan_command commands ([], [])")
  note keys = scan_keys [of commands, unfolded scan fst_conv]
  let ?g = "\<lambda>(system, command).
      command\<lparr>payload := (case map_of payloads system of None \<Rightarrow> [] | Some p \<Rightarrow> p)\<rparr>"
  have "merged_commands commands = map ?g current"
    by (simp add: merged_commands_def scan)
  moreover have "find (\<lambda>c. target_value (target_system c) = system) (map ?g current) =
      map_option (\<lambda>v. ?g (system, v)) (map_of current system)"
    by (rule find_map_of) (use keys in auto)
  ultimately show ?thesis
    using scan_collected [of system commands, unfolded scan]
    by (auto simp: collected_def history_command_def)
qed

lemma merged_commands_distinct:
  "distinct (map target_system (merged_commands commands))"
proof -
  obtain current payloads where scan: "fold scan_command commands ([], []) = (current, payloads)"
    by (cases "fold scan_command commands ([], [])")
  note keys = scan_keys [of commands, unfolded scan fst_conv]
  have "map target_value (map target_system (merged_commands commands)) = map fst current"
    using keys by (auto simp: merged_commands_def scan)
  then have "distinct (map target_value (map target_system (merged_commands commands)))"
    using keys by simp
  then show ?thesis unfolding distinct_map [of target_value] ..
qed

text \<open>The commands of an employee, one system at a time: there is at most one per system;
  it is there exactly if a creation of the system succeeded, and it is the last successful
  command of the system with the payloads of all successful commands since that creation
  merged in the order in which they finished.\<close>

theorem employee_commands_per_system:
  "let finished = map st_command (order_by st_updated_at
         (filter (\<lambda>s. is_successful (st_state s)) (employee_steps employee d)));
       history = dropWhile (\<lambda>c. operation c \<noteq> CreateDisabled)
         (filter (\<lambda>c. target_value (target_system c) = system) finished)
   in find (\<lambda>c. target_value (target_system c) = system) (employee_commands employee d) =
        (if history = [] then None
         else Some ((last history)\<lparr>payload := fold (\<lambda>c base. merged base (payload c)) history []\<rparr>)) \<and>
      distinct (map target_system (employee_commands employee d))"
  by (simp add: Let_def employee_commands_def merged_commands_find merged_commands_distinct
      history_command_def history_payload_def system_history_def)

end
