(* ===== verification/Compensation_Store.thy ===== *)
theory Compensation_Store
  imports Employee_View
begin

text \<open>
  Compensation actions (\<^verbatim>\<open>record_compensation\<close> and \<^verbatim>\<open>due_compensation_request_ids\<close> in
  \<^verbatim>\<open>app/repository.py\<close>), the contract of the three retry delays of the service, and the
  operator's counters (\<^verbatim>\<open>counts\<close>).
\<close>

section \<open>Retry delays\<close>

text \<open>
  A retry delay in seconds as a function of the attempt: it is never negative, never shrinks
  from one attempt to the next, and is capped.
\<close>

locale bounded_backoff =
  fixes delay :: "int \<Rightarrow> int" and cap :: int
  assumes nonneg: "0 \<le> delay n"
    and capped: "delay n \<le> cap"
    and grows: "n \<le> m \<Longrightarrow> delay n \<le> delay m"
begin

text \<open>A retry scheduled at \<open>t\<close> is due within the cap, and not before \<open>t\<close>.\<close>

lemma window: "t \<le> t + seconds (delay n) \<and> t + seconds (delay n) \<le> t + seconds cap"
  using nonneg [of n] capped [of n] by (simp add: seconds_def)

lemma due_after_cap: "due (Some (t + seconds (delay n))) (t + seconds cap)"
  using capped [of n] by (simp add: due_def seconds_def)

text \<open>What \<open>k\<close> retries in a row wait in all.\<close>

lemma total_wait: "(\<Sum>i<k. delay (n + int i)) \<le> int k * cap"
proof (induction k)
  case (Suc k)
  then show ?case using capped [of "n + int k"] by (simp add: algebra_simps)
qed simp

lemma stays_at_cap: "delay n = cap \<Longrightarrow> n \<le> m \<Longrightarrow> delay m = cap"
  using grows [of n m] capped [of m] by simp

end

text \<open>
  The delay of the engine's step retries and of compensations:
  \<^verbatim>\<open>min(base * 2 ** max(attempt - 1, 0), 300)\<close>.
\<close>

definition step_retry_seconds :: "int \<Rightarrow> int \<Rightarrow> int" where
  "step_retry_seconds base attempt = min (base * 2 ^ nat (max (attempt - 1) 0)) 300"

lemma step_backoff:
  assumes "0 \<le> base"
  shows "bounded_backoff (step_retry_seconds base) 300"
proof
  show "0 \<le> step_retry_seconds base n" for n
    using assms by (simp add: step_retry_seconds_def)
  show "step_retry_seconds base n \<le> step_retry_seconds base m" if "n \<le> m" for n m
  proof -
    have "(2::int) ^ nat (max (n - 1) 0) \<le> 2 ^ nat (max (m - 1) 0)"
      using that by (intro power_increasing) auto
    then have "base * 2 ^ nat (max (n - 1) 0) \<le> base * 2 ^ nat (max (m - 1) 0)"
      using assms by (rule mult_left_mono)
    then show ?thesis unfolding step_retry_seconds_def by linarith
  qed
qed (simp add: step_retry_seconds_def)

interpretation default_backoff: bounded_backoff "step_retry_seconds 2" 300
  by (rule step_backoff) simp

section \<open>Recording a compensation\<close>

definition compensation_key :: "compensation_row \<Rightarrow> string \<times> string \<times> string" where
  "compensation_key r = (ca_request_id r, ca_step_id r, ca_action r)"

definition compensation_attempts :: "string \<Rightarrow> string \<Rightarrow> string \<Rightarrow> db \<Rightarrow> int" where
  "compensation_attempts request step action d =
     (case sql_first (filter (\<lambda>r. compensation_key r = (request, step, action))
                        (tbl_compensation_actions d)) of
        None \<Rightarrow> 0
      | Some existing \<Rightarrow> ca_attempt_count existing)"

text \<open>
  \<open>t\<close> is the clock reading of the retry time, taken only when there is one, \<open>t'\<close> the timestamp.
\<close>

definition record_compensation ::
  "time \<Rightarrow> time \<Rightarrow> string \<Rightarrow> string \<Rightarrow> string \<Rightarrow> string \<Rightarrow> string option \<Rightarrow> string option \<Rightarrow>
     int option \<Rightarrow> db \<Rightarrow> db" where
  "record_compensation t t' request step action state evidence_hash error_code retry_delay d =
     (let attempt_count = compensation_attempts request step action d + 1;
          retry_at = (case retry_delay of
              Some delay \<Rightarrow>
                if state = ''failed''
                then Some (t + seconds (min (delay * 2 ^ nat (attempt_count - 1)) 300)) else None
            | None \<Rightarrow> None)
      in d\<lparr>tbl_compensation_actions := sql_upsert compensation_key
             (\<lambda>r. r\<lparr>ca_state := state, ca_evidence_hash := evidence_hash,
                     ca_error_code := error_code, ca_attempt_count := ca_attempt_count r + 1,
                     ca_next_retry_at := retry_at, ca_updated_at := Some t'\<rparr>)
             \<lparr>ca_request_id = request, ca_step_id = step, ca_action = action, ca_state = state,
              ca_evidence_hash = evidence_hash, ca_error_code = error_code,
              ca_attempt_count = 1, ca_max_attempts = 3, ca_next_retry_at = retry_at,
              ca_updated_at = Some t', ca_created_at = t'\<rparr>
             (tbl_compensation_actions d)\<rparr>)"

definition compensation_due :: "time \<Rightarrow> db \<Rightarrow> compensation_row \<Rightarrow> bool" where
  "compensation_due t d ca \<longleftrightarrow>
     ca_state ca = ''failed'' \<and> ca_attempt_count ca < ca_max_attempts ca \<and>
     due (ca_next_retry_at ca) t \<and>
     (\<exists>e \<in> set (tbl_executions d). ex_request_id e = ca_request_id ca \<and>
        (ex_cancelled_at e \<noteq> None \<or>
         (\<exists>s \<in> set (tbl_steps d). st_request_id s = ca_request_id ca \<and> st_state s = DeadLetter)))"

definition due_compensation_request_ids :: "time \<Rightarrow> db \<Rightarrow> string list" where
  "due_compensation_request_ids t d =
     sort (remdups (map ca_request_id (filter (compensation_due t d) (tbl_compensation_actions d))))"

section \<open>Counters\<close>

record store_counts =
  pending_steps :: nat
  dead_letters :: nat
  pending_callbacks :: nat
  failed_callbacks :: nat
  failed_compensations :: nat

definition counts :: "db \<Rightarrow> store_counts" where
  "counts d =
     \<lparr>pending_steps = rowcount (\<lambda>s. st_state s \<in> {Pending, RetryWait, Running}) (tbl_steps d),
      dead_letters = rowcount (\<lambda>r. dl_resolved_at r = None) (tbl_dead_letters d),
      pending_callbacks = rowcount (\<lambda>c. cb_delivered c = 0) (tbl_callback_events d),
      failed_callbacks = rowcount (\<lambda>c. cb_delivered c = - 1) (tbl_callback_events d),
      failed_compensations = rowcount (\<lambda>c. ca_state c = ''failed'') (tbl_compensation_actions d)\<rparr>"

section \<open>The attempts of an action\<close>

text \<open>The unique key of \<^verbatim>\<open>compensation_actions\<close>, and rows whose attempts are counted from 1.\<close>

definition compensation_inv :: "db \<Rightarrow> bool" where
  "compensation_inv d \<longleftrightarrow>
     distinct (map compensation_key (tbl_compensation_actions d)) \<and>
     list_all (\<lambda>r. 1 \<le> ca_attempt_count r \<and> ca_max_attempts r = 3) (tbl_compensation_actions d)"

definition compensation_entry :: "string \<times> string \<times> string \<Rightarrow> db \<Rightarrow> compensation_row option" where
  "compensation_entry k d =
     sql_first (filter (\<lambda>r. compensation_key r = k) (tbl_compensation_actions d))"

lemma compensation_attempts_nonneg:
  "compensation_inv d \<Longrightarrow> 0 \<le> compensation_attempts request step action d"
  by (fastforce simp: compensation_attempts_def compensation_inv_def list_all_iff
      split: option.split dest!: sql_first_Some_mem)

lemma record_compensation_inv:
  assumes "compensation_inv d"
  shows "compensation_inv (record_compensation t t' request step action state ev err delay d)"
proof -
  have "distinct (map compensation_key
      (tbl_compensation_actions (record_compensation t t' request step action state ev err delay d)))"
    using assms unfolding record_compensation_def Let_def compensation_inv_def
    by (simp add: sql_upsert_distinct compensation_key_def)
  moreover have "list_all (\<lambda>r. 1 \<le> ca_attempt_count r \<and> ca_max_attempts r = 3)
      (tbl_compensation_actions (record_compensation t t' request step action state ev err delay d))"
    using assms unfolding record_compensation_def Let_def compensation_inv_def
    by (auto intro!: sql_upsert_list_all)
  ultimately show ?thesis by (simp add: compensation_inv_def)
qed

text \<open>Recording a compensation: the action's entry then has the new outcome and one attempt
  more than before; a failure is scheduled for retry after the backed-off delay of that attempt;
  and the entries of all other actions are as they were.\<close>

theorem record_compensation_entry:
  assumes "compensation_inv d" and "0 \<le> delay"
  shows "let d' = record_compensation t t' request step action state ev err (Some delay) d;
             n = compensation_attempts request step action d + 1
         in compensation_attempts request step action d' = n \<and>
            (\<exists>r. compensation_entry (request, step, action) d' = Some r \<and>
               ca_state r = state \<and> ca_error_code r = err \<and> ca_evidence_hash r = ev \<and>
               ca_attempt_count r = n \<and>
               ca_next_retry_at r =
                 (if state = ''failed'' then Some (t + seconds (step_retry_seconds delay n)) else None)) \<and>
            (\<forall>k. k \<noteq> (request, step, action) \<longrightarrow> compensation_entry k d' = compensation_entry k d)"
proof -
  let ?k = "(request, step, action)"
  let ?d' = "record_compensation t t' request step action state ev err (Some delay) d"
  let ?n = "compensation_attempts request step action d + 1"
  define at where "at = (if state = ''failed''
      then Some (t + seconds (step_retry_seconds delay ?n)) else None)"
  define f :: "compensation_row \<Rightarrow> compensation_row" where "f = (\<lambda>r. r\<lparr>ca_state := state, ca_evidence_hash := ev,
                     ca_error_code := err, ca_attempt_count := ca_attempt_count r + 1,
                     ca_next_retry_at := at, ca_updated_at := Some t'\<rparr>)"
  define row where "row = \<lparr>ca_request_id = request, ca_step_id = step, ca_action = action,
              ca_state = state, ca_evidence_hash = ev, ca_error_code = err,
              ca_attempt_count = 1, ca_max_attempts = 3, ca_next_retry_at = at,
              ca_updated_at = Some t', ca_created_at = t'\<rparr>"
  have n: "1 \<le> ?n" using compensation_attempts_nonneg [OF assms(1)] by simp
  have table: "tbl_compensation_actions ?d' =
      sql_upsert compensation_key f row (tbl_compensation_actions d)"
    using n by (auto simp: record_compensation_def Let_def f_def row_def at_def step_retry_seconds_def)
  have key: "compensation_key (f r) = compensation_key r" for r
    by (simp add: compensation_key_def f_def)
  have k: "compensation_key row = ?k" by (simp add: compensation_key_def row_def)
  have entry: "compensation_entry ?k ?d' =
      Some (case compensation_entry ?k d of Some r \<Rightarrow> f r | None \<Rightarrow> row)"
    using sql_upsert_first [of compensation_key "tbl_compensation_actions d" f row] key assms(1)
    unfolding compensation_entry_def table k [symmetric] by (simp add: compensation_inv_def)
  have others: "compensation_entry k' ?d' = compensation_entry k' d" if "k' \<noteq> ?k" for k'
    using sql_upsert_other [of compensation_key f k' row "tbl_compensation_actions d"] key that k
    unfolding compensation_entry_def table by simp
  have att: "compensation_attempts request step action e =
      (case compensation_entry ?k e of None \<Rightarrow> 0 | Some r \<Rightarrow> ca_attempt_count r)" for e
    by (simp add: compensation_attempts_def compensation_entry_def)
  show ?thesis
    using entry others by (auto simp: Let_def att f_def row_def at_def split: option.split)
qed

text \<open>An action is due exactly if its entry is.\<close>

lemma compensation_entry_mem:
  assumes "compensation_inv d" and "r \<in> set (tbl_compensation_actions d)"
  shows "compensation_entry (compensation_key r) d = Some r"
  using assms sql_first_key [of compensation_key] by (simp add: compensation_entry_def compensation_inv_def)

lemma compensation_entry_in:
  "compensation_entry k d = Some r \<Longrightarrow> r \<in> set (tbl_compensation_actions d) \<and> compensation_key r = k"
  by (auto simp: compensation_entry_def dest!: sql_first_Some_mem)

text \<open>Failures of one action in a row; each entry of the list has the clock readings and code.\<close>

fun record_failures ::
  "int \<Rightarrow> string \<Rightarrow> string \<Rightarrow> string \<Rightarrow> (time \<times> time \<times> string) list \<Rightarrow> db \<Rightarrow> db" where
  "record_failures base request step action [] d = d"
| "record_failures base request step action ((t, t', code) # fs) d =
     record_failures base request step action fs
       (record_compensation t t' request step action ''failed'' None (Some code) (Some base) d)"

lemma record_failures_attempts:
  "compensation_inv d \<Longrightarrow> 0 \<le> base \<Longrightarrow>
     compensation_inv (record_failures base request step action fs d) \<and>
     compensation_attempts request step action (record_failures base request step action fs d) =
       compensation_attempts request step action d + int (length fs)"
proof (induction fs arbitrary: d)
  case (Cons f fs)
  obtain t t' code where f: "f = (t, t', code)" by (cases f)
  have "compensation_inv
      (record_compensation t t' request step action ''failed'' None (Some code) (Some base) d)"
    using record_compensation_inv [OF Cons.prems(1)] .
  moreover have "compensation_attempts request step action
      (record_compensation t t' request step action ''failed'' None (Some code) (Some base) d) =
      compensation_attempts request step action d + 1"
    using record_compensation_entry [OF Cons.prems, of t t' request step action "''failed''" None "Some code"]
    by (simp add: Let_def)
  ultimately show ?case using Cons.IH Cons.prems(2) by (simp add: f)
qed simp

text \<open>A compensation is tried three times: after three failures the action is never due
  again, and while it has failed once or twice in a cancelled request it is due, at the latest
  300 seconds after its last failure.\<close>

theorem compensation_budget:
  assumes "compensation_inv d" and "0 \<le> base" and "compensation_attempts request step action d = 0"
    and "r \<in> set (tbl_compensation_actions d')" and "compensation_key r = (request, step, action)"
    and "d' = record_failures base request step action (fs @ [(t, t', code)]) d"
    and "request \<in> ex_request_id ` set (filter (\<lambda>e. ex_cancelled_at e \<noteq> None) (tbl_executions d))"
    and "t + seconds 300 \<le> now"
  shows "compensation_due now d' r \<longleftrightarrow> length fs < 2"
proof -
  let ?d1 = "record_failures base request step action fs d"
  have snoc: "record_failures base request step action (xs @ [(t, t', code)]) e =
      record_compensation t t' request step action ''failed'' None (Some code) (Some base)
        (record_failures base request step action xs e)" for xs e
    by (induction xs arbitrary: e) auto
  have d': "d' = record_compensation t t' request step action ''failed'' None (Some code) (Some base) ?d1"
    by (simp add: assms(6) snoc)
  have inv1: "compensation_inv ?d1" and att: "compensation_attempts request step action ?d1 = int (length fs)"
    using record_failures_attempts [OF assms(1,2)] assms(3) by auto
  have inv': "compensation_inv d'" unfolding d' by (rule record_compensation_inv [OF inv1])
  obtain r' where r': "compensation_entry (request, step, action) d' = Some r'"
      "ca_state r' = ''failed''" "ca_attempt_count r' = int (length fs) + 1"
      "ca_next_retry_at r' = Some (t + seconds (step_retry_seconds base (int (length fs) + 1)))"
    using record_compensation_entry [OF inv1 assms(2), of t t' request step action "''failed''" None
        "Some code"] att by (auto simp: Let_def d')
  have "r' = r" using compensation_entry_mem [OF inv' assms(4)] r'(1) assms(5) by simp
  note r = r'(2-4) [unfolded this]
  have execs: "tbl_executions (record_failures base request step action xs e) = tbl_executions e" for xs e
    by (induction xs arbitrary: e) (auto simp: record_compensation_def Let_def)
  have "\<exists>e \<in> set (tbl_executions d'). ex_request_id e = ca_request_id r \<and> ex_cancelled_at e \<noteq> None"
    using assms(5,7) by (auto simp: assms(6) execs compensation_key_def)
  moreover have "ca_max_attempts r = 3"
    using inv' assms(4) by (auto simp: compensation_inv_def list_all_iff)
  moreover have "due (ca_next_retry_at r) now"
    unfolding due_def r(3)
    using order_trans [OF conjunct2 [OF bounded_backoff.window [OF step_backoff [OF assms(2)]]] assms(8)]
    by simp
  ultimately show ?thesis using r(1,2) by (auto simp: compensation_due_def)
qed

text \<open>The dead-letter counter misses steps: after an operator's retry, a step that fails for
  good again is in state dead-letter in a reachable store whose counter reports none.\<close>

theorem dead_letter_counter_misses:
  "reachable (\<lambda>x. x) 0 sample_dead_again \<and>
   rowcount (\<lambda>s. st_state s = DeadLetter) (tbl_steps sample_dead_again) = 1 \<and>
   dead_letters (counts sample_dead_again) = 0"
proof (intro conjI)
  let ?claimed = "snd (claim_next 13 ''request-1'' sample_retried)"
  have "reachable (\<lambda>x. x) 0 ?claimed"
    using reachable.moves [OF reachable.moves [OF sample_dead_reachable store_step.retries]
        store_step.claims] by (simp add: sample_retried_def)
  moreover have "in_flight ''step-a-00'' ?claimed" unfolding in_flight_code by code_simp
  ultimately show "reachable (\<lambda>x. x) 0 sample_dead_again"
    unfolding sample_dead_again_def using reachable.moves store_step.fails by fastforce
qed code_simp+

definition sample_cancelled :: db where
  "sample_cancelled = mark_cancelled 20 20 ''request-1'' sample_completed"

theorem record_compensation_entry_witness:
  "compensation_attempts ''request-1'' ''step-a-00'' ''update''
     (record_compensation 30 31 ''request-1'' ''step-a-00'' ''update'' ''failed'' None (Some ''timeout'')
        (Some 2) sample_cancelled) = 1"
proof -
  have "compensation_inv sample_cancelled" unfolding compensation_inv_def by code_simp
  from record_compensation_entry [OF this, of 2 30 31 "''request-1''" "''step-a-00''" "''update''"
      "''failed''" None "Some ''timeout''"]
  have "compensation_attempts ''request-1'' ''step-a-00'' ''update''
     (record_compensation 30 31 ''request-1'' ''step-a-00'' ''update'' ''failed'' None (Some ''timeout'')
        (Some 2) sample_cancelled) =
     compensation_attempts ''request-1'' ''step-a-00'' ''update'' sample_cancelled + 1"
    by (simp add: Let_def)
  moreover have "compensation_attempts ''request-1'' ''step-a-00'' ''update'' sample_cancelled = 0"
    by code_simp
  ultimately show ?thesis by simp
qed

theorem compensation_budget_witness:
  "\<exists>r. compensation_due 400000000
     (record_failures 2 ''request-1'' ''step-a-00'' ''update'' ([] @ [(30, 31, ''timeout'')]) sample_cancelled) r"
proof -
  let ?d = "record_failures 2 ''request-1'' ''step-a-00'' ''update'' ([] @ [(30, 31, ''timeout'')]) sample_cancelled"
  have inv: "compensation_inv sample_cancelled" unfolding compensation_inv_def by code_simp
  have zero: "compensation_attempts ''request-1'' ''step-a-00'' ''update'' sample_cancelled = 0"
    by code_simp
  have "list_ex (\<lambda>r. compensation_key r = (''request-1'', ''step-a-00'', ''update''))
      (tbl_compensation_actions ?d)"
    by code_simp
  then obtain r where r: "r \<in> set (tbl_compensation_actions ?d)"
      "compensation_key r = (''request-1'', ''step-a-00'', ''update'')"
    by (auto simp: list_ex_iff)
  have "list_ex (\<lambda>e. ex_cancelled_at e \<noteq> None \<and> ex_request_id e = ''request-1'')
      (tbl_executions sample_cancelled)"
    by code_simp
  then have "''request-1'' \<in> ex_request_id ` set (filter (\<lambda>e. ex_cancelled_at e \<noteq> None)
      (tbl_executions sample_cancelled))"
    by (auto simp: list_ex_iff image_iff)
  from compensation_budget [OF inv _ zero r refl this, of 400000000]
  show ?thesis by (auto simp: seconds_def)
qed

end
