(* ===== verification/Replay_Store.thy ===== *)
theory Replay_Store
  imports Compensation_Store
begin

text \<open>
  Replay protection and rate limiting (\<^verbatim>\<open>accept_jti\<close> and \<^verbatim>\<open>check_rate\<close> in
  \<^verbatim>\<open>app/repository.py\<close>), and what they guarantee over any sequence of calls.
\<close>

section \<open>Token identifiers\<close>

definition accept_jti :: "(string \<Rightarrow> string) \<Rightarrow> time \<Rightarrow> string \<Rightarrow> int \<Rightarrow> db \<Rightarrow> bool \<times> db" where
  "accept_jti sha t jti expires_at d =
     (let current = epoch_seconds t;
          rows = filter (\<lambda>r. \<not> jt_expires_at r < current) (tbl_replay_jti d);
          jti_hash = digest sha jti
      in if \<exists>r \<in> set rows. jt_jti_hash r = jti_hash
         then (False, d\<lparr>tbl_replay_jti := rows\<rparr>)
         else (True, d\<lparr>tbl_replay_jti :=
                rows @ [\<lparr>jt_jti_hash = jti_hash, jt_expires_at = expires_at\<rparr>]\<rparr>))"

text \<open>A sequence of calls: clock reading, token identifier, expiry.\<close>

fun accept_all :: "(string \<Rightarrow> string) \<Rightarrow> (time \<times> string \<times> int) list \<Rightarrow> db \<Rightarrow> db" where
  "accept_all sha [] d = d"
| "accept_all sha ((t, jti, expires_at) # calls) d =
     accept_all sha calls (snd (accept_jti sha t jti expires_at d))"

definition jti_known :: "string \<Rightarrow> int \<Rightarrow> db \<Rightarrow> bool" where
  "jti_known h expires_at d \<longleftrightarrow>
     (\<exists>r \<in> set (tbl_replay_jti d). jt_jti_hash r = h \<and> expires_at \<le> jt_expires_at r)"

lemma accept_jti_known:
  "jti_known h e d \<Longrightarrow> epoch_seconds t \<le> e \<Longrightarrow> jti_known h e (snd (accept_jti sha t jti e' d))"
  by (fastforce simp: jti_known_def accept_jti_def Let_def)

lemma accept_all_known:
  "jti_known h e d \<Longrightarrow> \<forall>(t, jti, e') \<in> set calls. epoch_seconds t \<le> e \<Longrightarrow>
     jti_known h e (accept_all sha calls d)"
proof (induction calls arbitrary: d)
  case (Cons call calls)
  then show ?case by (cases call) (auto intro: accept_jti_known)
qed simp

lemma accept_jti_refuses:
  assumes "jti_known (digest sha jti) e d" and "epoch_seconds t \<le> e"
  shows "\<not> fst (accept_jti sha t jti e' d)"
proof -
  obtain r where "r \<in> set (tbl_replay_jti d)" "jt_jti_hash r = digest sha jti" "e \<le> jt_expires_at r"
    using assms(1) by (auto simp: jti_known_def)
  then have "\<exists>r \<in> set (filter (\<lambda>r. \<not> jt_expires_at r < epoch_seconds t) (tbl_replay_jti d)).
      jt_jti_hash r = digest sha jti"
    using assms(2) by (intro bexI [of _ r]) auto
  then show ?thesis by (simp add: accept_jti_def Let_def)
qed

text \<open>A token is accepted once: after its identifier was accepted, every later presentation
  before the second after its expiry is refused, whatever other tokens came in between.\<close>

theorem token_replay_refused:
  assumes "accept_jti sha t jti expires_at d = (True, d')"
    and "\<forall>(t', jti', e') \<in> set calls. epoch_seconds t' \<le> expires_at"
    and "epoch_seconds t2 \<le> expires_at"
  shows "fst (accept_jti sha t2 jti expires_at' (accept_all sha calls d')) = False"
proof -
  have "jti_known (digest sha jti) expires_at d'"
    using assms(1) by (auto simp: jti_known_def accept_jti_def Let_def split: if_splits)
  from accept_jti_refuses [OF accept_all_known [OF this assms(2)] assms(3)]
  show ?thesis by simp
qed

theorem token_replay_refused_witness:
  "fst (accept_jti (\<lambda>x. x) (seconds 150) ''jti-1'' 160
     (accept_all (\<lambda>x. x) [(seconds 120, ''jti-2'', 130)]
       (snd (accept_jti (\<lambda>x. x) (seconds 100) ''jti-1'' 160 empty_db)))) = False"
proof -
  have "accept_jti (\<lambda>x. x) (seconds 100) ''jti-1'' 160 empty_db =
      (True, snd (accept_jti (\<lambda>x. x) (seconds 100) ''jti-1'' 160 empty_db))"
    by (simp add: accept_jti_def)
  from token_replay_refused [OF this, of "[(seconds 120, ''jti-2'', 130)]" "seconds 150" 160]
  show ?thesis by (simp add: epoch_seconds_def seconds_def)
qed

section \<open>Rate windows\<close>

definition rate_key :: "rate_row \<Rightarrow> string \<times> int" where
  "rate_key r = (rw_subject_hash r, rw_window_start r)"

definition rate_window :: "int \<Rightarrow> time \<Rightarrow> int" where
  "rate_window window_seconds t =
     (let current = epoch_seconds t in current - current mod window_seconds)"

definition rate_count :: "string \<times> int \<Rightarrow> rate_row list \<Rightarrow> int" where
  "rate_count k rows = (case sql_first (filter (\<lambda>r. rate_key r = k) rows) of
       None \<Rightarrow> 0 | Some r \<Rightarrow> rw_count r)"

definition check_rate ::
  "(string \<Rightarrow> string) \<Rightarrow> time \<Rightarrow> string \<Rightarrow> int \<Rightarrow> int \<Rightarrow> db \<Rightarrow> bool res \<times> db" where
  "check_rate sha t subject limit window_seconds d =
     (if window_seconds = 0 then (Inl ZeroDivisionError, d)
      else
        let window = rate_window window_seconds t;
            subject_hash = digest sha subject;
            rows = sql_upsert rate_key (\<lambda>r. r\<lparr>rw_count := rw_count r + 1\<rparr>)
              \<lparr>rw_subject_hash = subject_hash, rw_window_start = window, rw_count = 1\<rparr>
              (tbl_rate_windows d);
            count = rate_count (subject_hash, window) rows
        in (Inr (count \<le> limit),
            d\<lparr>tbl_rate_windows :=
                filter (\<lambda>r. \<not> rw_window_start r < window - window_seconds * 2) rows\<rparr>))"

subsection \<open>Counting\<close>

definition rate_inv :: "db \<Rightarrow> bool" where
  "rate_inv d \<longleftrightarrow> distinct (map rate_key (tbl_rate_windows d))"

definition used :: "string \<times> int \<Rightarrow> db \<Rightarrow> int" where
  "used k d = rate_count k (tbl_rate_windows d)"

lemma rate_count_upsert:
  assumes "distinct (map rate_key rows)" and "rw_count row = 1"
  shows "rate_count k (sql_upsert rate_key (\<lambda>r. r\<lparr>rw_count := rw_count r + 1\<rparr>) row rows) =
     (if k = rate_key row then rate_count k rows + 1 else rate_count k rows)"
proof (cases "k = rate_key row")
  case True
  show ?thesis
    using sql_upsert_first [of rate_key rows "\<lambda>r. r\<lparr>rw_count := rw_count r + 1\<rparr>" row] assms
    unfolding True rate_count_def by (auto simp: rate_key_def split: option.split)
next
  case False
  then show ?thesis
    using sql_upsert_other [of rate_key "\<lambda>r. r\<lparr>rw_count := rw_count r + 1\<rparr>" k row rows]
    by (simp add: rate_count_def rate_key_def)
qed

lemma rate_count_filter:
  "rate_count k (filter (\<lambda>r. \<not> rw_window_start r < w) rows) =
     (if snd k < w then 0 else rate_count k rows)"
proof -
  have "filter (\<lambda>r. rate_key r = k) (filter (\<lambda>r. \<not> rw_window_start r < w) rows) =
      (if snd k < w then [] else filter (\<lambda>r. rate_key r = k) rows)"
    by (auto simp: filter_filter rate_key_def filter_empty_conv intro!: filter_cong)
  then show ?thesis by (simp add: rate_count_def)
qed

lemma check_rate_step:
  assumes "rate_inv d" and "w \<noteq> 0"
  shows "rate_inv (snd (check_rate sha t subject limit w d))"
    and "fst (check_rate sha t subject limit w d) =
       Inr (used (digest sha subject, rate_window w t) d + 1 \<le> limit)"
    and "used k (snd (check_rate sha t subject limit w d)) =
       (if snd k < rate_window w t - w * 2 then 0
        else if k = (digest sha subject, rate_window w t) then used k d + 1 else used k d)"
proof -
  let ?rows = "sql_upsert rate_key (\<lambda>r. r\<lparr>rw_count := rw_count r + 1\<rparr>)
      \<lparr>rw_subject_hash = digest sha subject, rw_window_start = rate_window w t, rw_count = 1\<rparr>
      (tbl_rate_windows d)"
  have dist: "distinct (map rate_key (tbl_rate_windows d))" using assms(1) by (simp add: rate_inv_def)
  have "distinct (map rate_key ?rows)"
    by (rule sql_upsert_distinct [OF dist]) (simp add: rate_key_def)
  then show "rate_inv (snd (check_rate sha t subject limit w d))"
    using assms(2) by (simp add: check_rate_def Let_def rate_inv_def distinct_map_filter)
  have count: "rate_count k ?rows = (if k = (digest sha subject, rate_window w t)
      then used k d + 1 else used k d)" for k
    using rate_count_upsert [OF dist, of "\<lparr>rw_subject_hash = digest sha subject,
      rw_window_start = rate_window w t, rw_count = 1\<rparr>" k]
    by (simp add: used_def rate_key_def)
  show "fst (check_rate sha t subject limit w d) =
       Inr (used (digest sha subject, rate_window w t) d + 1 \<le> limit)"
    using assms(2) count by (simp add: check_rate_def Let_def)
  show "used k (snd (check_rate sha t subject limit w d)) =
       (if snd k < rate_window w t - w * 2 then 0
        else if k = (digest sha subject, rate_window w t) then used k d + 1 else used k d)"
    using assms(2) count by (simp add: check_rate_def Let_def used_def rate_count_filter)
qed

text \<open>The calls of a sequence (clock reading, subject) that were granted.\<close>

fun granted ::
  "(string \<Rightarrow> string) \<Rightarrow> int \<Rightarrow> int \<Rightarrow> (time \<times> string) list \<Rightarrow> db \<Rightarrow> (time \<times> string) list" where
  "granted sha limit w [] d = []"
| "granted sha limit w ((t, subject) # calls) d =
     (let (ok, d') = check_rate sha t subject limit w d;
          rest = granted sha limit w calls d'
      in if ok = Inr True then (t, subject) # rest else rest)"

definition in_window :: "(string \<Rightarrow> string) \<Rightarrow> int \<Rightarrow> string \<times> int \<Rightarrow> time \<times> string \<Rightarrow> bool" where
  "in_window sha w k call \<longleftrightarrow> (digest sha (snd call), rate_window w (fst call)) = k"

lemma rate_window_mono: "0 < w \<Longrightarrow> t \<le> t' \<Longrightarrow> rate_window w t \<le> rate_window w t'"
proof -
  assume "0 < w" "t \<le> t'"
  then have "epoch_seconds t div w * w \<le> epoch_seconds t' div w * w"
    by (intro mult_right_mono zdiv_mono1) (auto simp: epoch_seconds_def zdiv_mono1)
  then show ?thesis
    by (simp add: rate_window_def Let_def minus_mod_eq_div_mult)
qed

lemma granted_in_window:
  assumes "0 < w" and "rate_inv d" and "sorted (map fst calls)"
  shows "int (length (filter (in_window sha w k) (granted sha limit w calls d))) =
     min (int (length (filter (in_window sha w k) calls))) (max (limit - used k d) 0)"
  using assms(2,3)
proof (induction calls arbitrary: d)
  case (Cons call calls)
  obtain t subject where call: "call = (t, subject)" by (cases call)
  let ?d' = "snd (check_rate sha t subject limit w d)"
  have w: "w \<noteq> 0" using assms(1) by simp
  note step = check_rate_step [OF Cons.prems(1) w, where sha = sha and t = t and subject = subject
      and limit = limit]
  have IH: "int (length (filter (in_window sha w k) (granted sha limit w calls ?d'))) =
      min (int (length (filter (in_window sha w k) calls))) (max (limit - used k ?d') 0)"
    using Cons.IH [OF step(1)] Cons.prems(2) by simp
  have grant: "granted sha limit w (call # calls) d =
      (if used (digest sha subject, rate_window w t) d + 1 \<le> limit
       then call # granted sha limit w calls ?d' else granted sha limit w calls ?d')"
    using step(2) by (simp add: call Let_def case_prod_beta)
  consider (hit) "in_window sha w k call" | (old) "\<not> in_window sha w k call" "snd k < rate_window w t - w * 2"
    | (other) "\<not> in_window sha w k call" "\<not> snd k < rate_window w t - w * 2" by blast
  then show ?case
  proof cases
    case hit
    then have k: "k = (digest sha subject, rate_window w t)" by (simp add: in_window_def call)
    then have "used k ?d' = used k d + 1" using step(3) [where k = k] assms(1) by simp
    define rest made where "rest = filter (in_window sha w k) (granted sha limit w calls ?d')"
      and "made = filter (in_window sha w k) calls"
    have "filter (in_window sha w k) (granted sha limit w (call # calls) d) =
        (if used k d + 1 \<le> limit then call # rest else rest)"
      using hit by (simp add: grant k rest_def)
    moreover have "filter (in_window sha w k) (call # calls) = call # made"
      using hit by (simp add: made_def)
    ultimately show ?thesis
      using IH \<open>used k ?d' = used k d + 1\<close> unfolding rest_def [symmetric] made_def [symmetric]
      by (cases "used k d + 1 \<le> limit") (simp_all add: min_def max_def)
  next
    case old
    have "filter (in_window sha w k) calls = []"
    proof -
      have "\<not> in_window sha w k c" if "c \<in> set calls" for c
      proof -
        have "rate_window w t \<le> rate_window w (fst c)"
          using Cons.prems(2) that assms(1) by (intro rate_window_mono) (auto simp: call)
        then show ?thesis using old(2) assms(1) by (auto simp: in_window_def)
      qed
      then show ?thesis by (simp add: filter_empty_conv)
    qed
    then show ?thesis using IH old(1) unfolding grant by auto
  next
    case other
    then have "used k ?d' = used k d"
      using step(3) [where k = k] by (auto simp: in_window_def call)
    then show ?thesis using IH other(1) unfolding grant by auto
  qed
qed simp

text \<open>C26. The rate limit is exact: in any sequence of calls in order of time, by any subjects,
  the calls of one subject that are granted within one window are as many as were made there,
  up to the limit, and never more.\<close>

theorem rate_limit_exact:
  assumes "0 < window_seconds" and "rate_inv d" and "sorted (map fst calls)"
    and "used k d = 0" and "0 \<le> limit"
  shows "int (length (filter (in_window sha window_seconds k)
       (granted sha limit window_seconds calls d))) =
     min (int (length (filter (in_window sha window_seconds k) calls))) limit"
  using granted_in_window [OF assms(1-3), of sha k limit] assms(4,5) by simp

theorem rate_limit_exact_witness:
  "length (filter (in_window (\<lambda>x. x) 60 (''a'', 60)) (granted (\<lambda>x. x) 2 60
     [(seconds 61, ''a''), (seconds 62, ''b''), (seconds 63, ''a''), (seconds 70, ''a''), (seconds 130, ''a'')]
     empty_db)) = 2"
proof -
  let ?calls = "[(seconds 61, ''a''), (seconds 62, ''b''), (seconds 63, ''a''), (seconds 70, ''a''), (seconds 130, ''a'')]"
  have "sorted (map fst ?calls)" by (simp add: seconds_def)
  moreover have "length (filter (in_window (\<lambda>x. x) 60 (''a'', 60)) ?calls) = 3" by code_simp
  moreover have "rate_inv empty_db" "used (''a'', 60) empty_db = 0"
    by (simp_all add: rate_inv_def used_def rate_count_def)
  ultimately have "int (length (filter (in_window (\<lambda>x. x) 60 (''a'', 60)) (granted (\<lambda>x. x) 2 60 ?calls empty_db))) = 2"
    using rate_limit_exact [of 60 empty_db ?calls "(''a'', 60)" 2 "\<lambda>x. x"] by simp
  then show ?thesis by linarith
qed

end
