(* ===== verification/Json_Text.thy ===== *)
theory Json_Text
  imports Prelude
begin

text \<open>
  The standard library the service serialises with: \<^verbatim>\<open>json.dumps\<close> (with \<^verbatim>\<open>sort_keys=True\<close>, as the
  modelled components call it except where they only search the text), \<^verbatim>\<open>str\<close> and the truth of a JSON value, \<^verbatim>\<open>datetime.isoformat\<close>, and
  \<^verbatim>\<open>urlsplit\<close>. Text is ASCII.
\<close>

section \<open>Serialisation\<close>

definition hex_digit :: "nat \<Rightarrow> char" where
  "hex_digit n = (if n < 10 then char_of (48 + n) else char_of (87 + n))"

definition json_escape :: "char \<Rightarrow> string" where
  "json_escape c =
     (let n = (of_char c :: nat) in
      if n = 34 then [char_of (92::nat), char_of (34::nat)]
      else if n = 92 then [char_of (92::nat), char_of (92::nat)]
      else if n = 8 then [char_of (92::nat), CHR ''b'']
      else if n = 9 then [char_of (92::nat), CHR ''t'']
      else if n = 10 then [char_of (92::nat), CHR ''n'']
      else if n = 12 then [char_of (92::nat), CHR ''f'']
      else if n = 13 then [char_of (92::nat), CHR ''r'']
      else if n < 32 \<or> 126 < n
      then [char_of (92::nat), CHR ''u'', CHR ''0'', CHR ''0'', hex_digit (n div 16), hex_digit (n mod 16)]
      else [c])"

definition json_string :: "string \<Rightarrow> string" where
  "json_string s = [char_of (34::nat)] @ concat (map json_escape s) @ [char_of (34::nat)]"

text \<open>\<open>item\<close> and \<open>colon\<close> are the separators; the members of an object are written in key order.\<close>

fun json_dumps :: "string \<Rightarrow> string \<Rightarrow> json \<Rightarrow> string"
  and dump_items :: "string \<Rightarrow> string \<Rightarrow> dict \<Rightarrow> (string \<times> string) list"
  and dump_list :: "string \<Rightarrow> string \<Rightarrow> json list \<Rightarrow> string list" where
  "json_dumps item colon JNull = ''null''"
| "json_dumps item colon (JBool b) = (if b then ''true'' else ''false'')"
| "json_dumps item colon (JInt i) = str_int i"
| "json_dumps item colon (JFloat f) = f"
| "json_dumps item colon (JStr s) = json_string s"
| "json_dumps item colon (JList vs) = ''['' @ str_join item (dump_list item colon vs) @ '']''"
| "json_dumps item colon (JObj kvs) =
     ''{'' @ str_join item (map (\<lambda>(k, s). json_string k @ colon @ s)
               (sort_key fst (dump_items item colon kvs))) @ ''}''"
| "dump_items item colon [] = []"
| "dump_items item colon ((k, v) # kvs) = (k, json_dumps item colon v) # dump_items item colon kvs"
| "dump_list item colon [] = []"
| "dump_list item colon (v # vs) = json_dumps item colon v # dump_list item colon vs"

text \<open>The two ways the sources set the separators: compact, and the default.\<close>

definition compact_json :: "json \<Rightarrow> string" where
  "compact_json v = json_dumps '','' '':'' v"

definition default_json :: "json \<Rightarrow> string" where
  "default_json v = json_dumps '', '' '': '' v"

section \<open>Truth and text of a value\<close>

fun truthy :: "json \<Rightarrow> bool" where
  "truthy JNull \<longleftrightarrow> False"
| "truthy (JBool b) \<longleftrightarrow> b"
| "truthy (JInt i) \<longleftrightarrow> i \<noteq> 0"
| "truthy (JFloat f) \<longleftrightarrow> f \<notin> {''0.0'', ''-0.0''}"
| "truthy (JStr s) \<longleftrightarrow> s \<noteq> []"
| "truthy (JList vs) \<longleftrightarrow> vs \<noteq> []"
| "truthy (JObj kvs) \<longleftrightarrow> kvs \<noteq> []"

definition py_or :: "json \<Rightarrow> json \<Rightarrow> json" where
  "py_or a b = (if truthy a then a else b)"

text \<open>\<^verbatim>\<open>v == 0\<close>: \<^verbatim>\<open>False\<close> and the zero floats are equal to 0.\<close>

fun equals_zero :: "json \<Rightarrow> bool" where
  "equals_zero (JInt i) \<longleftrightarrow> i = 0"
| "equals_zero (JBool b) \<longleftrightarrow> \<not> b"
| "equals_zero (JFloat f) \<longleftrightarrow> f \<in> {''0.0'', ''-0.0''}"
| "equals_zero _ \<longleftrightarrow> False"

text \<open>\<^verbatim>\<open>repr\<close> of a text: single quotes, unless the text has one and no double quote.\<close>

definition repr_char :: "nat \<Rightarrow> char \<Rightarrow> string" where
  "repr_char quote c =
     (let n = (of_char c :: nat) in
      if n = quote \<or> n = 92 then [char_of (92::nat), c]
      else if n = 9 then [char_of (92::nat), CHR ''t'']
      else if n = 10 then [char_of (92::nat), CHR ''n'']
      else if n = 13 then [char_of (92::nat), CHR ''r'']
      else if n < 32 \<or> n = 127
      then [char_of (92::nat), CHR ''x'', hex_digit (n div 16), hex_digit (n mod 16)]
      else [c])"

definition repr_string :: "string \<Rightarrow> string" where
  "repr_string s =
     (let single = (char_of (39::nat)) \<in> set s; double = (char_of (34::nat)) \<in> set s;
          quote = (if single \<and> \<not> double then 34 else (39::nat))
      in [char_of quote] @ concat (map (repr_char quote) s) @ [char_of quote])"

fun py_repr :: "json \<Rightarrow> string"
  and repr_items :: "dict \<Rightarrow> string list"
  and repr_list :: "json list \<Rightarrow> string list" where
  "py_repr JNull = ''None''"
| "py_repr (JBool b) = (if b then ''True'' else ''False'')"
| "py_repr (JInt i) = str_int i"
| "py_repr (JFloat f) = f"
| "py_repr (JStr s) = repr_string s"
| "py_repr (JList vs) = ''['' @ str_join '', '' (repr_list vs) @ '']''"
| "py_repr (JObj kvs) = ''{'' @ str_join '', '' (repr_items kvs) @ ''}''"
| "repr_items [] = []"
| "repr_items ((k, v) # kvs) = (repr_string k @ '': '' @ py_repr v) # repr_items kvs"
| "repr_list [] = []"
| "repr_list (v # vs) = py_repr v # repr_list vs"

text \<open>\<^verbatim>\<open>str(v)\<close>.\<close>

definition py_str :: "json \<Rightarrow> string" where
  "py_str v = (case v of JStr s \<Rightarrow> s | _ \<Rightarrow> py_repr v)"

section \<open>Instants as text\<close>

text \<open>The civil date of a day counted from the epoch, in the proleptic Gregorian calendar.\<close>

definition civil_date :: "int \<Rightarrow> int \<times> int \<times> int" where
  "civil_date days =
     (let z = days + 719468;
          era = z div 146097;
          doe = z mod 146097;
          yoe = (doe - doe div 1460 + doe div 36524 - doe div 146096) div 365;
          doy = doe - (365 * yoe + yoe div 4 - yoe div 100);
          mp = (5 * doy + 2) div 153;
          d = doy - (153 * mp + 2) div 5 + 1;
          m = (if mp < 10 then mp + 3 else mp - 9)
      in (yoe + era * 400 + (if m \<le> 2 then 1 else 0), m, d))"

definition padded :: "nat \<Rightarrow> int \<Rightarrow> string" where
  "padded width i = (let s = str_int i in replicate (width - length s) (CHR ''0'') @ s)"

text \<open>\<open>iso_text\<close> is \<^verbatim>\<open>isoformat()\<close> of an aware UTC datetime; \<open>suffix\<close> is \<^verbatim>\<open>+00:00\<close> there.\<close>

definition clock_text :: "string \<Rightarrow> time \<Rightarrow> string" where
  "clock_text suffix t =
     (let (y, mo, d) = civil_date (t div 86400000000);
          s = (t mod 86400000000) div 1000000; us = t mod 1000000
      in padded 4 y @ ''-'' @ padded 2 mo @ ''-'' @ padded 2 d @ ''T'' @
         padded 2 (s div 3600) @ '':'' @ padded 2 (s div 60 mod 60) @ '':'' @ padded 2 (s mod 60) @
         (if us = 0 then [] else ''.'' @ padded 6 us) @ suffix)"

definition iso_text :: "time \<Rightarrow> string" where
  "iso_text t = clock_text ''+00:00'' t"

section \<open>URLs\<close>

text \<open>
  \<^verbatim>\<open>urlsplit\<close>, as far as the constructors look at its result: absent parts are empty. Leading
  control characters and blanks, and tabs and line ends anywhere, are dropped first.
\<close>

record parsed_url =
  url_scheme :: string
  url_username :: string
  url_password :: string
  url_hostname :: string
  url_query :: string
  url_fragment :: string

definition before :: "char set \<Rightarrow> string \<Rightarrow> string" where
  "before cs s = takeWhile (\<lambda>c. c \<notin> cs) s"

definition after :: "char set \<Rightarrow> string \<Rightarrow> string" where
  "after cs s = drop 1 (dropWhile (\<lambda>c. c \<notin> cs) s)"

definition scheme_char :: "char \<Rightarrow> bool" where
  "scheme_char c \<longleftrightarrow>
     CHR ''a'' \<le> char_lower c \<and> char_lower c \<le> CHR ''z'' \<or> CHR ''0'' \<le> c \<and> c \<le> CHR ''9'' \<or>
     c \<in> {CHR ''+'', CHR ''-'', CHR ''.''}"

definition split_scheme :: "string \<Rightarrow> string \<times> string" where
  "split_scheme s =
     (let pre = before {CHR '':''} s in
      if CHR '':'' \<in> set s \<and> list_all scheme_char pre \<and>
         (case pre of [] \<Rightarrow> False | c # _ \<Rightarrow> CHR ''a'' \<le> char_lower c \<and> char_lower c \<le> CHR ''z'')
      then (str_lower pre, after {CHR '':''} s) else ([], s))"

text \<open>The user part of a network location is what comes before its last \<^verbatim>\<open>@\<close>.\<close>

definition user_part :: "string \<Rightarrow> string" where
  "user_part netloc = rev (after {CHR ''@''} (rev netloc))"

definition host_part :: "string \<Rightarrow> string" where
  "host_part netloc = rev (before {CHR ''@''} (rev netloc))"

definition host_name :: "string \<Rightarrow> string" where
  "host_name host =
     str_lower (if CHR ''['' \<in> set host then before {CHR '']''} (after {CHR ''[''} host)
                else before {CHR '':''} host)"

definition urlsplit :: "string \<Rightarrow> parsed_url res" where
  "urlsplit url =
     (let cleaned = filter (\<lambda>c. (of_char c :: nat) \<notin> {9, 10, 13})
                      (dropWhile (\<lambda>c. (of_char c :: nat) \<le> 32) url);
          (scheme, rest) = split_scheme cleaned;
          (netloc, tail) =
            (if starts_with rest ''//''
             then let r = drop 2 rest; stops = {CHR ''/'', CHR ''?'', CHR ''#''}
                  in (before stops r, dropWhile (\<lambda>c. c \<notin> stops) r)
             else ([], rest));
          main = before {CHR ''#''} tail;
          user = user_part netloc
      in if (CHR ''['' \<in> set netloc) \<noteq> (CHR '']'' \<in> set netloc)
         then Inl (ValueError ''Invalid IPv6 URL'')
         else Inr \<lparr>url_scheme = scheme, url_username = before {CHR '':''} user,
           url_password = after {CHR '':''} user, url_hostname = host_name (host_part netloc),
           url_query = after {CHR ''?''} main, url_fragment = after {CHR ''#''} tail\<rparr>)"

text \<open>The check of the constructors that take a private URL.\<close>

definition credential_free_https :: "parsed_url \<Rightarrow> bool" where
  "credential_free_https u \<longleftrightarrow>
     url_scheme u = ''https'' \<and> url_username u = [] \<and> url_password u = [] \<and>
     url_query u = [] \<and> url_fragment u = []"

definition rstrip_slash :: "string \<Rightarrow> string" where
  "rstrip_slash s = rev (dropWhile (\<lambda>c. c = CHR ''/'') (rev s))"

definition lstrip_slash :: "string \<Rightarrow> string" where
  "lstrip_slash s = dropWhile (\<lambda>c. c = CHR ''/'') s"

end
