(* ===== verification/Callback_Store.thy ===== *)
theory Callback_Store
  imports Replay_Store Json_Text
begin

text \<open>
  The callback outbox (\<^verbatim>\<open>enqueue_callback\<close>, \<^verbatim>\<open>due_callbacks\<close>, \<^verbatim>\<open>mark_callback\<close> in
  \<^verbatim>\<open>app/repository.py\<close>) and the dispatcher that empties it (\<^verbatim>\<open>app/callbacks.py\<close>), and the
  protected credentials of the store. The HTTP exchange is a parameter: its outcome is a status
  or a transport error. An event's life is a state machine on its row, with at most eight
  attempts.
\<close>

section \<open>The outbox\<close>

definition enqueue_callback :: "time \<Rightarrow> string \<Rightarrow> json \<Rightarrow> db \<Rightarrow> db" where
  "enqueue_callback t event_id event d =
     (if \<exists>r \<in> set (tbl_callback_events d). cb_event_id r = event_id then d
      else d\<lparr>tbl_callback_events := tbl_callback_events d @
               [\<lparr>cb_event_id = event_id, cb_payload = event, cb_delivered = 0,
                 cb_attempt_count = 0, cb_next_retry_at = None, cb_last_error = None,
                 cb_created_at = t, cb_updated_at = t\<rparr>]\<rparr>)"

definition callback_due :: "time \<Rightarrow> callback_row \<Rightarrow> bool" where
  "callback_due t r \<longleftrightarrow>
     cb_delivered r = 0 \<and> cb_attempt_count r < 8 \<and> due (cb_next_retry_at r) t"

definition due_callbacks :: "time \<Rightarrow> nat \<Rightarrow> db \<Rightarrow> callback_row list" where
  "due_callbacks t limit d =
     take limit (order_by cb_created_at (filter (callback_due t) (tbl_callback_events d)))"

definition mark_callback ::
  "time \<Rightarrow> string \<Rightarrow> bool \<Rightarrow> string option \<Rightarrow> time option \<Rightarrow> db \<Rightarrow> db" where
  "mark_callback t event_id delivered err retry_at d =
     (let exhausted =
            (case sql_first (filter (\<lambda>r. cb_event_id r = event_id) (tbl_callback_events d)) of
               None \<Rightarrow> False
             | Some row \<Rightarrow> 8 \<le> cb_attempt_count row + 1 \<and> \<not> delivered)
      in d\<lparr>tbl_callback_events := sql_update (\<lambda>r. cb_event_id r = event_id)
             (\<lambda>r. r\<lparr>cb_delivered := (if delivered then 1 else if exhausted then - 1 else 0),
                     cb_attempt_count := cb_attempt_count r + 1,
                     cb_last_error := (if exhausted then Some ''callback_retry_exhausted'' else err),
                     cb_next_retry_at := (if exhausted then None else retry_at),
                     cb_updated_at := t\<rparr>) (tbl_callback_events d)\<rparr>)"

section \<open>The dispatcher\<close>

text \<open>The constructor refuses a URL that is not credential-free HTTPS; an empty one is no URL.\<close>

definition url_given :: "string option \<Rightarrow> bool" where
  "url_given url \<longleftrightarrow> (case url of None \<Rightarrow> False | Some u \<Rightarrow> u \<noteq> [])"

definition new_dispatcher :: "string option \<Rightarrow> string option res" where
  "new_dispatcher url =
     (case url of
        None \<Rightarrow> Inr None
      | Some u \<Rightarrow>
          if u = [] then Inr (Some u)
          else res_bind (urlsplit u) (\<lambda>parsed.
            if credential_free_https parsed then Inr (Some u)
            else Inl (ValueError ''callback URL must be credential-free HTTPS'')))"

datatype http_outcome =
    HttpStatus int
  | TransportError

definition callback_retry_seconds :: "int \<Rightarrow> int" where
  "callback_retry_seconds attempts = min (2 ^ nat (min (attempts + 1) 8)) 300"

text \<open>
  The signed request: \<open>hmac\<close> is HMAC-SHA256 in hexadecimal, \<open>raw\<close> the serialised payload.
\<close>

definition callback_headers ::
  "(string \<Rightarrow> string \<Rightarrow> string) \<Rightarrow> string \<Rightarrow> string \<Rightarrow> string \<Rightarrow> string \<Rightarrow> (string \<times> string) list" where
  "callback_headers hmac secret time_stamp raw event_id =
     [(''X-Codestra-Timestamp'', time_stamp),
      (''X-Codestra-Signature'', ''sha256='' @ hmac secret (time_stamp @ ''.'' @ raw)),
      (''X-Codestra-Event-ID'', event_id),
      (''Idempotency-Key'', event_id),
      (''Content-Type'', ''application/json'')]"

text \<open>
  One delivery. \<open>secret\<close> is what reading the HMAC secret file gave, \<open>outcome\<close> what the POST gave,
  \<open>t\<close> the reading of the dispatcher's clock after it, \<open>t'\<close> that of the repository.
\<close>

definition delivered_status :: "int \<Rightarrow> bool" where
  "delivered_status status \<longleftrightarrow> status \<in> {200, 202, 204, 409}"

definition dispatch_callback ::
  "string option \<Rightarrow> string res \<Rightarrow> http_outcome \<Rightarrow> time \<Rightarrow> time \<Rightarrow> string \<Rightarrow> int \<Rightarrow> db \<Rightarrow>
     bool res \<times> db" where
  "dispatch_callback url secret outcome t t' event_id attempts d =
     (if \<not> url_given url then
          (Inr False, mark_callback t' event_id False (Some ''callback_url_not_configured'')
             (Some (t + seconds 60)) d)
      else
          (case secret of
             Inl e \<Rightarrow> (Inl e, d)
           | Inr _ \<Rightarrow>
               (case outcome of
                  HttpStatus status \<Rightarrow>
                    (let delivered = delivered_status status;
                         retry_at = (if delivered then None
                                     else Some (t + seconds (callback_retry_seconds attempts)))
                     in (Inr delivered,
                         mark_callback t' event_id delivered
                           (if delivered then None else Some (''http_'' @ str_int status))
                           retry_at d))
                | TransportError \<Rightarrow>
                    (Inr False, mark_callback t' event_id False (Some ''transport_error'')
                       (Some (t + seconds (callback_retry_seconds attempts))) d))))"

section \<open>Backoff\<close>

interpretation callback_backoff: bounded_backoff callback_retry_seconds 300
proof
  show "0 \<le> callback_retry_seconds n" for n by (simp add: callback_retry_seconds_def)
  show "callback_retry_seconds n \<le> callback_retry_seconds m" if "n \<le> m" for n m
  proof -
    have "(2::int) ^ nat (min (n + 1) 8) \<le> 2 ^ nat (min (m + 1) 8)"
      using that by (intro power_increasing) auto
    then show ?thesis unfolding callback_retry_seconds_def by linarith
  qed
qed (simp add: callback_retry_seconds_def)

section \<open>The life of an event\<close>

text \<open>One call on the outbox.\<close>

inductive outbox_step :: "db \<Rightarrow> db \<Rightarrow> bool" where
  enqueues: "outbox_step d (enqueue_callback t event_id event d)"
| marks: "outbox_step d (mark_callback t event_id delivered err retry_at d)"

text \<open>
  The table's key, and the states of a row: pending with attempts left, delivered, or given up
  after eight attempts.
\<close>

definition callback_row_ok :: "callback_row \<Rightarrow> bool" where
  "callback_row_ok r \<longleftrightarrow>
     0 \<le> cb_attempt_count r \<and>
     (cb_delivered r = 0 \<and> cb_attempt_count r < 8 \<or>
      cb_delivered r = 1 \<and> 0 < cb_attempt_count r \<or>
      cb_delivered r = - 1 \<and> 8 \<le> cb_attempt_count r \<and> cb_next_retry_at r = None \<and>
        cb_last_error r = Some ''callback_retry_exhausted'')"

definition outbox_inv :: "db \<Rightarrow> bool" where
  "outbox_inv d \<longleftrightarrow>
     distinct (map cb_event_id (tbl_callback_events d)) \<and>
     list_all callback_row_ok (tbl_callback_events d)"

text \<open>What marking does to the row of the event.\<close>

definition marked :: "time \<Rightarrow> bool \<Rightarrow> string option \<Rightarrow> time option \<Rightarrow> callback_row \<Rightarrow> callback_row" where
  "marked t delivered err retry_at r =
     (let exhausted = 8 \<le> cb_attempt_count r + 1 \<and> \<not> delivered in
      r\<lparr>cb_delivered := (if delivered then 1 else if exhausted then - 1 else 0),
        cb_attempt_count := cb_attempt_count r + 1,
        cb_last_error := (if exhausted then Some ''callback_retry_exhausted'' else err),
        cb_next_retry_at := (if exhausted then None else retry_at), cb_updated_at := t\<rparr>)"

lemma mark_callback_table:
  assumes "distinct (map cb_event_id (tbl_callback_events d))"
  shows "tbl_callback_events (mark_callback t event_id delivered err retry_at d) =
     sql_update (\<lambda>r. cb_event_id r = event_id) (marked t delivered err retry_at) (tbl_callback_events d)"
proof -
  have "sql_first (filter (\<lambda>x. cb_event_id x = event_id) (tbl_callback_events d)) = Some r"
    if "r \<in> set (tbl_callback_events d)" "cb_event_id r = event_id" for r
    using sql_first_key [OF assms that(1)] that(2) by simp
  then show ?thesis
    by (auto simp: mark_callback_def Let_def marked_def sql_update_def)
qed

lemma marked_ok: "callback_row_ok r \<Longrightarrow> callback_row_ok (marked t delivered err retry_at r)"
  by (auto simp: callback_row_ok_def marked_def Let_def)

lemma marked_same:
  "cb_event_id (marked t delivered err retry_at r) = cb_event_id r"
  "cb_payload (marked t delivered err retry_at r) = cb_payload r"
  "cb_attempt_count (marked t delivered err retry_at r) = cb_attempt_count r + 1"
  by (simp_all add: marked_def Let_def)

lemma outbox_step_inv: "outbox_step d d' \<Longrightarrow> outbox_inv d \<Longrightarrow> outbox_inv d'"
proof (induction rule: outbox_step.induct)
  case (enqueues d t event_id event)
  then show ?case
    by (auto simp: outbox_inv_def enqueue_callback_def callback_row_ok_def)
next
  case (marks d t event_id delivered err retry_at)
  then have dist: "distinct (map cb_event_id (tbl_callback_events d))" by (simp add: outbox_inv_def)
  show ?case
    using marks
    by (auto simp: outbox_inv_def mark_callback_table [OF dist] map_sql_update marked_same marked_ok
        intro!: list_all_sql_update)
qed

lemma outbox_inv_empty: "outbox_inv empty_db"
  by (simp add: outbox_inv_def)

text \<open>The payload of an event is written once.\<close>

definition callback_payload :: "db \<Rightarrow> string \<Rightarrow> json option" where
  "callback_payload d event_id =
     map_option cb_payload
       (sql_first (filter (\<lambda>r. cb_event_id r = event_id) (tbl_callback_events d)))"

interpretation payloads: write_once callback_payload outbox_step outbox_inv
proof unfold_locales
  fix d d' :: db and e v
  assume "outbox_step d d'" and "outbox_inv d" and "callback_payload d e = Some v"
  then show "callback_payload d' e = Some v"
  proof (induction rule: outbox_step.induct)
    case (enqueues d t event_id event)
    then show ?case
      by (auto simp: callback_payload_def enqueue_callback_def dest: sql_first_append)
  next
    case (marks d t event_id delivered err retry_at)
    then have dist: "distinct (map cb_event_id (tbl_callback_events d))" by (simp add: outbox_inv_def)
    have "map_option cb_payload (sql_first (filter (\<lambda>r. cb_event_id r = e)
        (tbl_callback_events (mark_callback t event_id delivered err retry_at d)))) =
      map_option cb_payload (sql_first (filter (\<lambda>r. cb_event_id r = e) (tbl_callback_events d)))"
      unfolding mark_callback_table [OF dist]
      by (rule sql_first_map_cong [where f = "\<lambda>r. (cb_event_id r, cb_payload r)"
            and Q = "\<lambda>(i, p). i = e" and h = snd])
         (simp_all add: map_sql_update marked_same)
    then show ?case using marks by (simp add: callback_payload_def)
  qed
qed (rule outbox_step_inv)

text \<open>C27. The outbox in every state it can reach: events have one row each, a row is pending
  with fewer than eight attempts, delivered, or given up after eight; and the payload sent for
  an event is the one it was first enqueued with, whatever is enqueued under its id later.\<close>

theorem outbox_reachable:
  assumes "outbox_step\<^sup>*\<^sup>* empty_db d" and "outbox_step\<^sup>*\<^sup>* d d'"
  shows "outbox_inv d \<and>
    (callback_payload d e = None \<longrightarrow> callback_payload (enqueue_callback t e event d) e = Some event) \<and>
    (callback_payload d e = Some v \<longrightarrow> callback_payload d' e = Some v)"
proof -
  have inv: "outbox_inv d"
    using assms(1) by (induction rule: rtranclp_induct) (auto intro: outbox_inv_empty outbox_step_inv)
  have "callback_payload (enqueue_callback t e event d) e = Some event" if "callback_payload d e = None"
    using that by (auto simp: callback_payload_def enqueue_callback_def filter_empty_conv)
  then show ?thesis using inv payloads.persists_run [OF assms(2) inv] by blast
qed

text \<open>The outcome of a delivery attempt: the event's row counts one more attempt and keeps
  its payload; it is delivered exactly if the call reports so; otherwise it is given up for good
  if that was the eighth attempt, and else is due again at a time at most 300 seconds away.\<close>

theorem dispatch_outcome:
  assumes "outbox_inv d" and "r \<in> set (tbl_callback_events d)"
    and "dispatch_callback url secret outcome t t' (cb_event_id r) (cb_attempt_count r) d = (Inr ok, d')"
  shows "\<exists>r' \<in> set (tbl_callback_events d'). cb_event_id r' = cb_event_id r \<and>
     cb_payload r' = cb_payload r \<and> cb_attempt_count r' = cb_attempt_count r + 1 \<and>
     (if ok then cb_delivered r' = 1
      else if 8 \<le> cb_attempt_count r + 1 then cb_delivered r' = - 1 \<and> (\<forall>now. \<not> callback_due now r')
      else \<not> callback_due (t - 1) r' \<and> callback_due (t + seconds 300) r')"
proof -
  have dist: "distinct (map cb_event_id (tbl_callback_events d))" using assms(1) by (simp add: outbox_inv_def)
  let ?delay = "seconds (callback_retry_seconds (cb_attempt_count r))"
  obtain err at where d': "d' = mark_callback t' (cb_event_id r) ok err at d"
      and at: "\<not> ok \<Longrightarrow> at = Some (t + seconds 60) \<or> at = Some (t + ?delay)"
    using assms(3) unfolding dispatch_callback_def Let_def
    by (auto split: option.splits sum.splits http_outcome.splits if_splits)
  define r' where "r' = marked t' ok err at r"
  have mem: "r' \<in> set (tbl_callback_events d')"
    using sql_update_memI [OF assms(2), of "\<lambda>x. cb_event_id x = cb_event_id r" "marked t' ok err at"]
    by (simp add: d' mark_callback_table [OF dist] r'_def)
  have "t \<le> t + ?delay \<and> t + ?delay \<le> t + seconds 300" by (rule callback_backoff.window)
  then have window: "\<not> ok \<Longrightarrow> \<exists>x. at = Some x \<and> t \<le> x \<and> x \<le> t + seconds 300"
    using at by (auto simp: seconds_def)
  show ?thesis
  proof (rule bexI [OF _ mem])
    show "cb_event_id r' = cb_event_id r \<and> cb_payload r' = cb_payload r \<and>
        cb_attempt_count r' = cb_attempt_count r + 1 \<and>
       (if ok then cb_delivered r' = 1
        else if 8 \<le> cb_attempt_count r + 1 then cb_delivered r' = - 1 \<and> (\<forall>now. \<not> callback_due now r')
        else \<not> callback_due (t - 1) r' \<and> callback_due (t + seconds 300) r')"
      using window by (auto simp: r'_def marked_def Let_def callback_due_def due_def)
  qed
qed

definition sample_outbox :: db where
  "sample_outbox = mark_callback 6 ''event-1'' False (Some ''http_500'') (Some 8)
     (enqueue_callback 5 ''event-1'' (JStr ''payload'') empty_db)"

theorem outbox_reachable_witness:
  "outbox_inv sample_outbox \<and>
   callback_payload (enqueue_callback 9 ''event-1'' (JStr ''other'') sample_outbox) ''event-1'' =
     Some (JStr ''payload'')"
proof -
  have "outbox_step\<^sup>*\<^sup>* empty_db sample_outbox"
    unfolding sample_outbox_def
    by (meson outbox_step.intros converse_rtranclp_into_rtranclp rtranclp.rtrancl_refl)
  moreover have "outbox_step\<^sup>*\<^sup>* sample_outbox (enqueue_callback 9 ''event-1'' (JStr ''other'') sample_outbox)"
    by (meson outbox_step.intros converse_rtranclp_into_rtranclp rtranclp.rtrancl_refl)
  moreover have "callback_payload sample_outbox ''event-1'' = Some (JStr ''payload'')" by code_simp
  ultimately show ?thesis using outbox_reachable by blast
qed

theorem dispatch_outcome_witness:
  "\<exists>r' \<in> set (tbl_callback_events (snd (dispatch_callback (Some ''https://odoo.internal/callback'') (Inr ''s'')
      (HttpStatus 204) 20 20 ''event-1'' 1 sample_outbox))). cb_delivered r' = 1"
proof -
  let ?u = "Some ''https://odoo.internal/callback''"
  have "list_ex (\<lambda>r. cb_event_id r = ''event-1'' \<and> cb_attempt_count r = 1) (tbl_callback_events sample_outbox)"
    by code_simp
  then obtain r where r: "r \<in> set (tbl_callback_events sample_outbox)" "cb_event_id r = ''event-1''"
      "cb_attempt_count r = 1"
    by (auto simp: list_ex_iff)
  have inv: "outbox_inv sample_outbox"
    unfolding sample_outbox_def by (intro outbox_step_inv [OF outbox_step.marks]
        outbox_step_inv [OF outbox_step.enqueues] outbox_inv_empty)
  have "dispatch_callback ?u (Inr ''s'') (HttpStatus 204) 20 20 (cb_event_id r) (cb_attempt_count r) sample_outbox =
      (Inr True, snd (dispatch_callback ?u (Inr ''s'') (HttpStatus 204) 20 20 ''event-1'' 1 sample_outbox))"
    unfolding r(2,3) by (simp add: dispatch_callback_def delivered_status_def url_given_def)
  from dispatch_outcome [OF inv r(1) this] show ?thesis by auto
qed

end
