(* ===== verification/Session_Store.thy ===== *)
theory Session_Store
  imports Callback_Store
begin

text \<open>
  The remaining tables of \<^verbatim>\<open>StateRepository\<close> (\<^verbatim>\<open>app/repository.py\<close>): protected credentials,
  the mailbox mock, and the browser sessions of SIP endpoints. For the mailbox and the sessions
  the operations are a step relation; the results are that a mailbox keeps its address and
  identity, and that an employee never has two active sessions and a session that has ended
  stays ended.
\<close>

section \<open>Protected credentials\<close>

definition store_encrypted_credential :: "time \<Rightarrow> string \<Rightarrow> string \<Rightarrow> string \<Rightarrow> db \<Rightarrow> db" where
  "store_encrypted_credential t reference ciphertext fingerprint d =
     (if \<exists>r \<in> set (tbl_encrypted_credentials d). cr_reference r = reference then d
      else d\<lparr>tbl_encrypted_credentials := tbl_encrypted_credentials d @
               [\<lparr>cr_reference = reference, cr_ciphertext = ciphertext,
                 cr_fingerprint = fingerprint, cr_created_at = t, cr_revoked_at = None\<rparr>]\<rparr>)"

definition revoke_credential :: "time \<Rightarrow> string \<Rightarrow> db \<Rightarrow> db" where
  "revoke_credential t reference d =
     d\<lparr>tbl_encrypted_credentials := sql_update (\<lambda>r. cr_reference r = reference)
         (\<lambda>r. r\<lparr>cr_revoked_at := Some t\<rparr>) (tbl_encrypted_credentials d)\<rparr>"

section \<open>The mailbox mock\<close>

text \<open>\<^verbatim>\<open>allowed\<close>: the state an operation leads to, if it changes the state.\<close>

definition mailbox_target :: "string \<Rightarrow> string option option" where
  "mailbox_target oper = map_of
     [(''create_disabled'', Some ''disabled''), (''verify'', None), (''activate'', Some ''active''),
      (''suspend'', Some ''suspended''), (''reactivate'', Some ''active''),
      (''terminate'', Some ''terminated''), (''reconcile'', None)] oper"

definition mailbox_of :: "string \<Rightarrow> db \<Rightarrow> mock_mailbox_row option" where
  "mailbox_of employee d =
     sql_first (filter (\<lambda>r. mm_employee_id r = employee) (tbl_mock_mailboxes d))"

definition new_mailbox :: "(string \<Rightarrow> string) \<Rightarrow> time \<Rightarrow> string \<Rightarrow> string \<Rightarrow> mock_mailbox_row" where
  "new_mailbox sha t employee email =
     \<lparr>mm_employee_id = employee, mm_email_address = email,
      mm_external_mailbox_id = ''mock:'' @ take 32 (digest sha email),
      mm_aliases_json = JList [], mm_provisioning_state = ''disabled'', mm_created_at = t,
      mm_activated_at = None, mm_suspended_at = None, mm_terminated_at = None,
      mm_credential_reference = ''mock:no-provider-credential''\<rparr>"

definition insert_mailbox :: "mock_mailbox_row \<Rightarrow> db \<Rightarrow> db res" where
  "insert_mailbox row d =
     (if \<exists>r \<in> set (tbl_mock_mailboxes d).
           mm_employee_id r = mm_employee_id row \<or> mm_email_address r = mm_email_address row \<or>
           mm_external_mailbox_id r = mm_external_mailbox_id row
      then Inl IntegrityError
      else Inr (d\<lparr>tbl_mock_mailboxes := tbl_mock_mailboxes d @ [row]\<rparr>))"

text \<open>The UPDATE of a state change; the timestamp column depends on the operation.\<close>

definition set_mailbox_state :: "time \<Rightarrow> string \<Rightarrow> string \<Rightarrow> mock_mailbox_row \<Rightarrow> mock_mailbox_row" where
  "set_mailbox_state t oper next_state r =
     (let r' = r\<lparr>mm_provisioning_state := next_state\<rparr> in
      if oper = ''suspend'' then r'\<lparr>mm_suspended_at := Some t\<rparr>
      else if oper = ''terminate'' then r'\<lparr>mm_terminated_at := Some t\<rparr>
      else r'\<lparr>mm_activated_at := Some t\<rparr>)"

definition create_mock_mailbox ::
  "(string \<Rightarrow> string) \<Rightarrow> time \<Rightarrow> string \<Rightarrow> string option \<Rightarrow> db \<Rightarrow> mock_mailbox_row res \<times> db" where
  "create_mock_mailbox sha t employee email d =
     (case email of
        None \<Rightarrow> (Inl (ValueError ''mock_mailbox_email_required''), d)
      | Some address \<Rightarrow>
          if address = [] then (Inl (ValueError ''mock_mailbox_email_required''), d)
          else case mailbox_of employee d of
            None \<Rightarrow>
              (case insert_mailbox (new_mailbox sha t employee address) d of
                 Inl _ \<Rightarrow> (Inl (IdempotencyConflict ''mock_mailbox_address_collision''), d)
               | Inr d' \<Rightarrow> (Inr (new_mailbox sha t employee address), d'))
          | Some row \<Rightarrow>
              if mm_email_address row \<noteq> address
              then (Inl (IdempotencyConflict ''mock_mailbox_identity_conflict''), d)
              else (Inr row, d))"

definition move_mock_mailbox ::
  "time \<Rightarrow> string \<Rightarrow> string \<Rightarrow> string option \<Rightarrow> db \<Rightarrow> mock_mailbox_row res \<times> db" where
  "move_mock_mailbox t employee oper next_state d =
     (case mailbox_of employee d of
        None \<Rightarrow> (Inl (LookupError ''mock_mailbox_not_found''), d)
      | Some row \<Rightarrow>
          (case next_state of
             None \<Rightarrow> (Inr row, d)
           | Some state \<Rightarrow>
               (Inr (set_mailbox_state t oper state row),
                d\<lparr>tbl_mock_mailboxes := sql_update (\<lambda>r. mm_employee_id r = employee)
                     (set_mailbox_state t oper state) (tbl_mock_mailboxes d)\<rparr>)))"

definition transition_mock_mailbox ::
  "(string \<Rightarrow> string) \<Rightarrow> time \<Rightarrow> string \<Rightarrow> string \<Rightarrow> string option \<Rightarrow> db \<Rightarrow>
     mock_mailbox_row res \<times> db" where
  "transition_mock_mailbox sha t employee oper email d =
     (case mailbox_target oper of
        None \<Rightarrow> (Inl (ValueError ''mock_mailbox_operation_unsupported''), d)
      | Some next_state \<Rightarrow>
          if oper = ''create_disabled'' then create_mock_mailbox sha t employee email d
          else move_mock_mailbox t employee oper next_state d)"

text \<open>The table's keys, and what the external identity is derived from.\<close>

definition mailbox_inv :: "(string \<Rightarrow> string) \<Rightarrow> db \<Rightarrow> bool" where
  "mailbox_inv sha d \<longleftrightarrow>
     distinct (map mm_employee_id (tbl_mock_mailboxes d)) \<and>
     distinct (map mm_email_address (tbl_mock_mailboxes d)) \<and>
     distinct (map mm_external_mailbox_id (tbl_mock_mailboxes d)) \<and>
     list_all (\<lambda>r. mm_external_mailbox_id r = ''mock:'' @ take 32 (digest sha (mm_email_address r)) \<and>
        mm_provisioning_state r \<in> {''disabled'', ''active'', ''suspended'', ''terminated''})
       (tbl_mock_mailboxes d)"

lemma set_mailbox_state_same [simp]:
  "mm_employee_id (set_mailbox_state t oper st r) = mm_employee_id r"
  "mm_email_address (set_mailbox_state t oper st r) = mm_email_address r"
  "mm_external_mailbox_id (set_mailbox_state t oper st r) = mm_external_mailbox_id r"
  "mm_provisioning_state (set_mailbox_state t oper st r) = st"
  by (simp_all add: set_mailbox_state_def Let_def)

inductive mailbox_step :: "(string \<Rightarrow> string) \<Rightarrow> db \<Rightarrow> db \<Rightarrow> bool" for sha where
  unchanged: "mailbox_step sha d d"
| created: "mailbox_of employee d = None \<Longrightarrow> insert_mailbox (new_mailbox sha t employee address) d = Inr d' \<Longrightarrow>
     mailbox_step sha d d'"
| moved: "mailbox_target oper = Some (Some st) \<Longrightarrow> mailbox_step sha d
     (d\<lparr>tbl_mock_mailboxes := sql_update (\<lambda>r. mm_employee_id r = employee)
          (set_mailbox_state t oper st) (tbl_mock_mailboxes d)\<rparr>)"

lemma transition_step: "mailbox_step sha d (snd (transition_mock_mailbox sha t employee oper email d))"
proof (cases "mailbox_target oper")
  case None
  then show ?thesis by (simp add: transition_mock_mailbox_def mailbox_step.unchanged)
next
  case (Some next_state)
  show ?thesis
  proof (cases "oper = ''create_disabled''")
    case True
    have "mailbox_step sha d (snd (create_mock_mailbox sha t employee email d))"
      unfolding create_mock_mailbox_def
      by (auto intro: mailbox_step.unchanged mailbox_step.created split: option.split sum.split)
    then show ?thesis using Some True by (simp add: transition_mock_mailbox_def)
  next
    case False
    have "mailbox_step sha d (snd (move_mock_mailbox t employee oper next_state d))"
      unfolding move_mock_mailbox_def
      using Some by (auto intro: mailbox_step.unchanged mailbox_step.moved split: option.split)
    then show ?thesis using Some False by (simp add: transition_mock_mailbox_def)
  qed
qed

lemma mailbox_target_states:
  "mailbox_target oper = Some (Some st) \<Longrightarrow> st \<in> {''disabled'', ''active'', ''suspended'', ''terminated''}"
  by (auto simp: mailbox_target_def split: if_splits)

lemma mailbox_step_inv: "mailbox_step sha d d' \<Longrightarrow> mailbox_inv sha d \<Longrightarrow> mailbox_inv sha d'"
proof (induction rule: mailbox_step.induct)
  case (created employee d t address d')
  then show ?case
    by (fastforce simp: mailbox_inv_def insert_mailbox_def new_mailbox_def split: if_splits)
next
  case (moved oper st d employee t)
  from mailbox_target_states [OF moved(1)] moved(2) show ?case
    by (auto simp: mailbox_inv_def map_sql_update intro!: list_all_sql_update)
qed

text \<open>The identity of an employee's mailbox is written once.\<close>

definition mailbox_identity :: "db \<Rightarrow> string \<Rightarrow> (string \<times> string \<times> time) option" where
  "mailbox_identity d employee =
     map_option (\<lambda>r. (mm_email_address r, mm_external_mailbox_id r, mm_created_at r))
       (sql_first (filter (\<lambda>r. mm_employee_id r = employee) (tbl_mock_mailboxes d)))"

lemma set_mailbox_state_created [simp]: "mm_created_at (set_mailbox_state t oper st r) = mm_created_at r"
  by (simp add: set_mailbox_state_def Let_def)

interpretation mailboxes: write_once mailbox_identity "mailbox_step sha" "mailbox_inv sha"
proof unfold_locales
  fix d d' :: db and e v
  assume "mailbox_step sha d d'" and "mailbox_identity d e = Some v"
  then show "mailbox_identity d' e = Some v"
  proof (induction rule: mailbox_step.induct)
    case (created employee d t address d')
    then show ?case
      by (auto simp: mailbox_identity_def insert_mailbox_def dest: sql_first_append split: if_splits)
  next
    case (moved oper st d employee t)
    have "map_option (\<lambda>r. (mm_email_address r, mm_external_mailbox_id r, mm_created_at r))
        (sql_first (filter (\<lambda>r. mm_employee_id r = e)
          (sql_update (\<lambda>r. mm_employee_id r = employee) (set_mailbox_state t oper st) (tbl_mock_mailboxes d)))) =
      map_option (\<lambda>r. (mm_email_address r, mm_external_mailbox_id r, mm_created_at r))
        (sql_first (filter (\<lambda>r. mm_employee_id r = e) (tbl_mock_mailboxes d)))"
      by (rule sql_first_map_cong [where f = "\<lambda>r. (mm_employee_id r, mm_email_address r, mm_external_mailbox_id r, mm_created_at r)"
            and Q = "\<lambda>(i, p). i = e" and h = snd])
         (simp_all add: map_sql_update)
    then show ?case using moved by (simp add: mailbox_identity_def)
  qed
qed (rule mailbox_step_inv)

text \<open>The mailbox mock, after any number of transitions: an employee has at most one mailbox,
  no two employees share an address or an external identity, and a mailbox keeps its address,
  external identity and creation time whatever operations follow.\<close>

theorem mailbox_identity_permanent:
  assumes "(mailbox_step sha)\<^sup>*\<^sup>* empty_db d"
    and "transition_mock_mailbox sha t employee oper email d = (Inr row, d')"
    and "(mailbox_step sha)\<^sup>*\<^sup>* d' d''"
  shows "mailbox_inv sha d'' \<and>
     mailbox_identity d'' employee =
       Some (mm_email_address row, mm_external_mailbox_id row, mm_created_at row)"
proof -
  have "mailbox_inv sha d"
    using assms(1)
  proof (induction rule: rtranclp_induct)
    case base
    show ?case by (simp add: mailbox_inv_def)
  qed (rule mailbox_step_inv)
  then have inv: "mailbox_inv sha d'"
    using mailbox_step_inv transition_step [of sha d t employee oper email] assms(2) by (metis snd_conv)
  have moved: "sql_first (filter (\<lambda>r. mm_employee_id r = employee)
        (sql_update (\<lambda>r. mm_employee_id r = employee) f rows)) =
      map_option f (sql_first (filter (\<lambda>r. mm_employee_id r = employee) rows))"
    if "\<And>r. mm_employee_id (f r) = mm_employee_id r" for f :: "mock_mailbox_row \<Rightarrow> mock_mailbox_row" and rows
    using that by (induction rows) (auto simp: sql_update_def)
  have "mailbox_identity d' employee =
      Some (mm_email_address row, mm_external_mailbox_id row, mm_created_at row)"
    using assms(2)
    by (auto simp: transition_mock_mailbox_def create_mock_mailbox_def move_mock_mailbox_def
        mailbox_identity_def mailbox_of_def insert_mailbox_def new_mailbox_def moved filter_empty_conv
        split: option.splits if_splits sum.splits)
  from mailboxes.persists_run [OF assms(3) inv this]
  have "mailbox_identity d'' employee =
      Some (mm_email_address row, mm_external_mailbox_id row, mm_created_at row)" .
  moreover have "mailbox_inv sha d''"
    using assms(3) inv by (induction rule: rtranclp_induct) (auto intro: mailbox_step_inv)
  ultimately show ?thesis by blast
qed

definition sample_mailbox :: db where
  "sample_mailbox =
     snd (transition_mock_mailbox (\<lambda>x. x) 5 ''employee-0001'' ''create_disabled'' (Some ''a@codestra.co'') empty_db)"

theorem mailbox_identity_permanent_witness:
  "mailbox_identity (snd (transition_mock_mailbox (\<lambda>x. x) 9 ''employee-0001'' ''terminate'' None sample_mailbox))
     ''employee-0001'' = Some (''a@codestra.co'', ''mock:a@codestra.co'', 5)"
proof -
  let ?row = "new_mailbox (\<lambda>x. x) 5 ''employee-0001'' ''a@codestra.co''"
  have "fst (transition_mock_mailbox (\<lambda>x. x) 5 ''employee-0001'' ''create_disabled''
      (Some ''a@codestra.co'') empty_db) = Inr ?row"
    by code_simp
  then have "transition_mock_mailbox (\<lambda>x. x) 5 ''employee-0001'' ''create_disabled''
      (Some ''a@codestra.co'') empty_db = (Inr ?row, sample_mailbox)"
    by (simp add: prod_eq_iff sample_mailbox_def)
  from mailbox_identity_permanent [OF rtranclp.rtrancl_refl this
      r_into_rtranclp [where r = "mailbox_step (\<lambda>x. x)", OF transition_step]]
  show ?thesis by (simp add: new_mailbox_def digest_def)
qed

section \<open>Browser sessions\<close>

definition sip_browser_session :: "string \<Rightarrow> db \<Rightarrow> sip_session_row option" where
  "sip_browser_session session_id d =
     sql_first (filter (\<lambda>r. ss_session_id r = session_id) (tbl_sip_browser_sessions d))"

definition is_active :: "sip_session_row \<Rightarrow> bool" where
  "is_active r \<longleftrightarrow> ss_state r = ''active''"

text \<open>\<^verbatim>\<open>UPDATE sip_browser_sessions SET state=..., updated_at=... WHERE ... AND state='active'\<close>.\<close>

definition end_sessions :: "time \<Rightarrow> string \<Rightarrow> (sip_session_row \<Rightarrow> bool) \<Rightarrow> db \<Rightarrow> db" where
  "end_sessions t new_state P d =
     d\<lparr>tbl_sip_browser_sessions := sql_update (\<lambda>r. P r \<and> is_active r)
         (\<lambda>r. r\<lparr>ss_state := new_state, ss_updated_at := t\<rparr>) (tbl_sip_browser_sessions d)\<rparr>"

definition active_sip_browser_session :: "time \<Rightarrow> time \<Rightarrow> string \<Rightarrow> db \<Rightarrow> sip_session_row option \<times> db" where
  "active_sip_browser_session t t' employee d =
     (let d' = end_sessions t ''expired'' (\<lambda>r. ss_employee_id r = employee \<and> ss_expires_at r \<le> t') d
      in (sql_first (filter (\<lambda>r. ss_employee_id r = employee \<and> is_active r)
            (tbl_sip_browser_sessions d')), d'))"

definition expire_sip_browser_session :: "time \<Rightarrow> string \<Rightarrow> db \<Rightarrow> sip_session_row option \<times> db" where
  "expire_sip_browser_session t session_id d =
     (let d' = end_sessions t ''expired'' (\<lambda>r. ss_session_id r = session_id) d
      in (sip_browser_session session_id d', d'))"

text \<open>The row to insert; the state and the two timestamps are set by the statement.\<close>

definition create_sip_browser_session ::
  "time \<Rightarrow> sip_session_row \<Rightarrow> db \<Rightarrow> sip_session_row option res \<times> db" where
  "create_sip_browser_session t values d =
     (let row = values\<lparr>ss_state := ''active'', ss_created_at := t, ss_updated_at := t\<rparr> in
      if \<exists>r \<in> set (tbl_sip_browser_sessions d).
           ss_session_id r = ss_session_id row \<or>
           ss_browser_session_binding r = ss_browser_session_binding row \<or>
           (ss_employee_id r = ss_employee_id row \<and> is_active r)
      then (Inl IntegrityError, d)
      else
        let d' = d\<lparr>tbl_sip_browser_sessions := tbl_sip_browser_sessions d @ [row]\<rparr>
        in (Inr (sip_browser_session (ss_session_id values) d'), d'))"

definition renew_sip_browser_session ::
  "time \<Rightarrow> string \<Rightarrow> string \<Rightarrow> time \<Rightarrow> db \<Rightarrow> sip_session_row option res \<times> db" where
  "renew_sip_browser_session t session_id fingerprint expires_at d =
     (let P = (\<lambda>r. ss_session_id r = session_id \<and> is_active r);
          d' = d\<lparr>tbl_sip_browser_sessions := sql_update P
                 (\<lambda>r. r\<lparr>ss_credential_fingerprint := fingerprint, ss_expires_at := expires_at,
                         ss_updated_at := t\<rparr>) (tbl_sip_browser_sessions d)\<rparr>
      in if rowcount P (tbl_sip_browser_sessions d) \<noteq> 1
         then (Inl (LookupError ''sip_browser_session_not_active''), d')
         else (Inr (sip_browser_session session_id d'), d'))"

definition revoke_sip_browser_session ::
  "time \<Rightarrow> string \<Rightarrow> db \<Rightarrow> sip_session_row option res \<times> db" where
  "revoke_sip_browser_session t session_id d =
     (let d' = end_sessions t ''revoked'' (\<lambda>r. ss_session_id r = session_id) d in
      if rowcount (\<lambda>r. ss_session_id r = session_id \<and> is_active r) (tbl_sip_browser_sessions d) \<noteq> 1
      then (case sip_browser_session session_id d' of
              Some row \<Rightarrow>
                if ss_state row = ''revoked'' then (Inr (Some row), d')
                else (Inl (LookupError ''sip_browser_session_not_active''), d')
            | None \<Rightarrow> (Inl (LookupError ''sip_browser_session_not_active''), d'))
      else (Inr (sip_browser_session session_id d'), d'))"

inductive sip_step :: "db \<Rightarrow> db \<Rightarrow> bool" where
  looks_up: "sip_step d (snd (active_sip_browser_session t t' employee d))"
| expires: "sip_step d (snd (expire_sip_browser_session t session_id d))"
| creates: "sip_step d (snd (create_sip_browser_session t row d))"
| renews: "sip_step d (snd (renew_sip_browser_session t session_id fingerprint expires_at d))"
| revokes: "sip_step d (snd (revoke_sip_browser_session t session_id d))"

text \<open>
  The keys of the table, with the partial unique index on active sessions; states are one of
  three.
\<close>

definition sip_inv :: "db \<Rightarrow> bool" where
  "sip_inv d \<longleftrightarrow>
     distinct (map ss_session_id (tbl_sip_browser_sessions d)) \<and>
     distinct (map ss_browser_session_binding (tbl_sip_browser_sessions d)) \<and>
     distinct (map ss_employee_id (filter is_active (tbl_sip_browser_sessions d))) \<and>
     list_all (\<lambda>r. ss_state r \<in> {''active'', ''expired'', ''revoked''}) (tbl_sip_browser_sessions d)"

lemma end_sessions_inv:
  assumes "sip_inv d" and "st \<in> {''expired'', ''revoked''}"
  shows "sip_inv (end_sessions t st P d)"
proof -
  let ?f = "\<lambda>r. r\<lparr>ss_state := st, ss_updated_at := t\<rparr>"
  have "filter is_active (sql_update (\<lambda>r. P r \<and> is_active r) ?f rows) =
      filter (\<lambda>r. \<not> P r) (filter is_active rows)" for rows
    using assms(2) by (induction rows) (auto simp: sql_update_def is_active_def)
  moreover have "distinct (map ss_employee_id (filter (\<lambda>r. \<not> P r) (filter is_active (tbl_sip_browser_sessions d))))"
    using assms(1) by (simp add: sip_inv_def distinct_map_filter del: filter_filter)
  moreover have "list_all (\<lambda>r. ss_state r \<in> {''active'', ''expired'', ''revoked''})
      (sql_update (\<lambda>r. P r \<and> is_active r) ?f (tbl_sip_browser_sessions d))"
    using assms unfolding sip_inv_def by (intro list_all_sql_update) auto
  ultimately show ?thesis
    using assms(1) unfolding sip_inv_def end_sessions_def by (simp add: map_sql_update)
qed

lemma sip_step_inv: "sip_step d d' \<Longrightarrow> sip_inv d \<Longrightarrow> sip_inv d'"
proof (induction rule: sip_step.induct)
  case (looks_up d t t' employee)
  then show ?case by (simp add: active_sip_browser_session_def Let_def end_sessions_inv)
next
  case (expires d t session_id)
  then show ?case by (simp add: expire_sip_browser_session_def Let_def end_sessions_inv)
next
  case (creates d t row)
  then show ?case
    by (auto simp: create_sip_browser_session_def Let_def sip_inv_def is_active_def)
next
  case (renews d t session_id fingerprint expires_at)
  let ?f = "\<lambda>r. r\<lparr>ss_credential_fingerprint := fingerprint, ss_expires_at := expires_at, ss_updated_at := t\<rparr>"
  have active: "map ss_employee_id (filter is_active (sql_update P ?f rows)) =
      map ss_employee_id (filter is_active rows)" for P rows
    by (induction rows) (auto simp: sql_update_def is_active_def)
  have "sip_inv (d\<lparr>tbl_sip_browser_sessions := sql_update (\<lambda>r. ss_session_id r = session_id \<and> is_active r) ?f
      (tbl_sip_browser_sessions d)\<rparr>)"
    using renews by (auto simp: sip_inv_def map_sql_update active intro!: list_all_sql_update)
  then show ?case by (simp add: renew_sip_browser_session_def Let_def)
next
  case (revokes d t session_id)
  have "snd (revoke_sip_browser_session t session_id d) =
      end_sessions t ''revoked'' (\<lambda>r. ss_session_id r = session_id) d"
    by (auto simp: revoke_sip_browser_session_def Let_def split: option.split)
  then show ?case using revokes by (simp add: end_sessions_inv)
qed

lemma ended_stays:
  "sip_step d d' \<Longrightarrow> r \<in> set (tbl_sip_browser_sessions d) \<Longrightarrow> \<not> is_active r \<Longrightarrow>
     r \<in> set (tbl_sip_browser_sessions d')"
proof (induction rule: sip_step.induct)
  case (revokes d t session_id)
  have "snd (revoke_sip_browser_session t session_id d) =
      end_sessions t ''revoked'' (\<lambda>r. ss_session_id r = session_id) d"
    by (auto simp: revoke_sip_browser_session_def Let_def split: option.split)
  then show ?case using revokes by (force simp: end_sessions_def sql_update_def)
qed (force simp: active_sip_browser_session_def expire_sip_browser_session_def
       create_sip_browser_session_def renew_sip_browser_session_def end_sessions_def
       sql_update_def Let_def)+

lemma sip_inv_one:
  assumes "sip_inv d"
  shows "length (filter (\<lambda>r. ss_employee_id r = employee \<and> is_active r) (tbl_sip_browser_sessions d)) \<le> 1"
  using distinct_key_filter [of ss_employee_id "filter is_active (tbl_sip_browser_sessions d)" employee] assms
  by (simp add: sip_inv_def conj_commute)

text \<open>Browser sessions, after any sequence of operations: session ids and bindings are
  unique, an employee has at most one active session, and a session that has expired or been
  revoked is never changed again.\<close>

theorem sip_sessions_exclusive:
  assumes "sip_step\<^sup>*\<^sup>* empty_db d" and "sip_step\<^sup>*\<^sup>* d d'"
  shows "sip_inv d \<and>
    length (filter (\<lambda>r. ss_employee_id r = employee \<and> is_active r) (tbl_sip_browser_sessions d)) \<le> 1 \<and>
    {r \<in> set (tbl_sip_browser_sessions d). \<not> is_active r} \<subseteq> set (tbl_sip_browser_sessions d')"
proof -
  have inv: "sip_inv d"
    using assms(1)
  proof (induction rule: rtranclp_induct)
    case base
    show ?case by (simp add: sip_inv_def)
  qed (rule sip_step_inv)
  have "r \<in> set (tbl_sip_browser_sessions d')"
    if "r \<in> set (tbl_sip_browser_sessions d)" "\<not> is_active r" for r
    using assms(2) that by (induction rule: rtranclp_induct) (auto intro: ended_stays)
  then show ?thesis using inv sip_inv_one by blast
qed

text \<open>The lookup before a session is created: it returns only a session that is active and
  not yet expired; and when it returns none, a session with a fresh id and binding can be
  created for the employee, and is then the one the lookup finds until it expires.\<close>

theorem active_lookup:
  assumes "sip_inv d" and "active_sip_browser_session t t' employee d = (found, d')"
  shows "case found of
      Some r \<Rightarrow> r \<in> set (tbl_sip_browser_sessions d') \<and> ss_employee_id r = employee \<and>
        ss_state r = ''active'' \<and> t' < ss_expires_at r
    | None \<Rightarrow> (\<forall>row now now'. ss_employee_id row = employee \<and>
          ss_session_id row \<notin> ss_session_id ` set (tbl_sip_browser_sessions d) \<and>
          ss_browser_session_binding row \<notin> ss_browser_session_binding ` set (tbl_sip_browser_sessions d) \<and>
          now' < ss_expires_at row \<longrightarrow>
          (\<exists>new d''. create_sip_browser_session now row d' = (Inr (Some new), d'') \<and>
             fst (active_sip_browser_session now now' employee d'') = Some new))"
proof -
  let ?P = "\<lambda>r. ss_employee_id r = employee \<and> ss_expires_at r \<le> t'"
  have d': "d' = end_sessions t ''expired'' ?P d"
    and found: "found = sql_first (filter (\<lambda>r. ss_employee_id r = employee \<and> is_active r)
            (tbl_sip_browser_sessions d'))"
    using assms(2) by (auto simp: active_sip_browser_session_def Let_def)
  show ?thesis
  proof (cases found)
    case (Some r)
    then have r: "r \<in> set (tbl_sip_browser_sessions d')" "ss_employee_id r = employee" "is_active r"
      using sql_first_Some_mem [of "filter (\<lambda>r. ss_employee_id r = employee \<and> is_active r)
            (tbl_sip_browser_sessions d')" r] found by auto
    have "r \<in> set (sql_update (\<lambda>r. ?P r \<and> is_active r)
        (\<lambda>r. r\<lparr>ss_state := ''expired'', ss_updated_at := t\<rparr>) (tbl_sip_browser_sessions d))"
      using r(1) by (simp add: d' end_sessions_def)
    then have "t' < ss_expires_at r"
      by (cases rule: mem_sql_updateE) (use r(2,3) in \<open>simp_all add: is_active_def\<close>)
    then show ?thesis using Some r by (simp add: is_active_def)
  next
    case None
    then have none: "\<not> (ss_employee_id r = employee \<and> is_active r)" if "r \<in> set (tbl_sip_browser_sessions d')" for r
      using found that by (auto simp: filter_empty_conv)
    have "map ss_session_id (tbl_sip_browser_sessions d') = map ss_session_id (tbl_sip_browser_sessions d)"
      "map ss_browser_session_binding (tbl_sip_browser_sessions d') =
         map ss_browser_session_binding (tbl_sip_browser_sessions d)"
      unfolding d' end_sessions_def by (simp_all add: map_sql_update)
    then have keys: "ss_session_id ` set (tbl_sip_browser_sessions d') = ss_session_id ` set (tbl_sip_browser_sessions d)"
      "ss_browser_session_binding ` set (tbl_sip_browser_sessions d') =
         ss_browser_session_binding ` set (tbl_sip_browser_sessions d)"
      unfolding list.set_map [symmetric] by simp_all
    have "\<exists>new d''. create_sip_browser_session now row d' = (Inr (Some new), d'') \<and>
             fst (active_sip_browser_session now now' employee d'') = Some new"
      if row: "ss_employee_id row = employee"
        "ss_session_id row \<notin> ss_session_id ` set (tbl_sip_browser_sessions d)"
        "ss_browser_session_binding row \<notin> ss_browser_session_binding ` set (tbl_sip_browser_sessions d)"
        "now' < ss_expires_at row" for row now now'
    proof -
      define new where "new = row\<lparr>ss_state := ''active'', ss_created_at := now, ss_updated_at := now\<rparr>"
      define d'' where "d'' = d'\<lparr>tbl_sip_browser_sessions := tbl_sip_browser_sessions d' @ [new]\<rparr>"
      have old: "ss_session_id r \<noteq> ss_session_id row"
          "ss_browser_session_binding r \<noteq> ss_browser_session_binding row"
        if "r \<in> set (tbl_sip_browser_sessions d')" for r
        using row(2,3) imageI [OF that, of ss_session_id] imageI [OF that, of ss_browser_session_binding]
        unfolding keys by auto
      have "filter (\<lambda>r. ss_session_id r = ss_session_id row) (tbl_sip_browser_sessions d') = []"
        using old(1) by (auto simp: filter_empty_conv)
      then have "sip_browser_session (ss_session_id row) d'' = Some new"
        by (simp add: sip_browser_session_def d''_def new_def)
      then have "create_sip_browser_session now row d' = (Inr (Some new), d'')"
        using old none row(1) by (auto simp: create_sip_browser_session_def Let_def new_def d''_def)
      moreover have "end_sessions now ''expired'' (\<lambda>r. ss_employee_id r = employee \<and> ss_expires_at r \<le> now') d'' = d''"
      proof -
        have "sql_update (\<lambda>r. (ss_employee_id r = employee \<and> ss_expires_at r \<le> now') \<and> is_active r)
            (\<lambda>r. r\<lparr>ss_state := ''expired'', ss_updated_at := now\<rparr>) (tbl_sip_browser_sessions d'') =
            tbl_sip_browser_sessions d''"
          by (rule sql_update_id) (use none row(4) in \<open>auto simp: d''_def new_def\<close>)
        then show ?thesis by (simp add: end_sessions_def)
      qed
      then have "fst (active_sip_browser_session now now' employee d'') = Some new"
        using none row(1)
        by (simp add: active_sip_browser_session_def Let_def d''_def new_def is_active_def filter_empty_conv)
      ultimately show ?thesis by blast
    qed
    then show ?thesis using None by auto
  qed
qed

definition sample_session :: sip_session_row where
  "sample_session =
     \<lparr>ss_session_id = ''session-1'', ss_employee_id = ''employee-0001'', ss_keycloak_subject = ''subject'',
      ss_odoo_employee_id = ''7'', ss_vicidial_username = ''agent1'', ss_endpoint = 6101,
      ss_campaign = ''TEST_SYN'', ss_role = ''AGENT'', ss_browser_session_binding = ''binding-1'',
      ss_credential_fingerprint = ''f'', ss_expires_at = 100, ss_state = ''active'', ss_created_at = 10,
      ss_updated_at = 10\<rparr>"

definition sample_session_db :: db where
  "sample_session_db = snd (create_sip_browser_session 10 sample_session empty_db)"

theorem sip_sessions_exclusive_witness:
  "length (filter (\<lambda>r. ss_employee_id r = ''employee-0001'' \<and> is_active r)
     (tbl_sip_browser_sessions sample_session_db)) \<le> 1 \<and>
   sip_inv (snd (revoke_sip_browser_session 20 ''session-1'' sample_session_db))"
proof -
  have create: "sip_step\<^sup>*\<^sup>* empty_db sample_session_db"
    unfolding sample_session_db_def by (rule r_into_rtranclp) (rule sip_step.creates)
  have "sip_step\<^sup>*\<^sup>* empty_db (snd (revoke_sip_browser_session 20 ''session-1'' sample_session_db))"
    using create by (rule rtranclp.rtrancl_into_rtrancl) (rule sip_step.revokes)
  with create show ?thesis
    using sip_sessions_exclusive [OF _ rtranclp.rtrancl_refl] by blast
qed

theorem active_lookup_witness:
  "\<exists>new d''. create_sip_browser_session 200 (sample_session\<lparr>ss_session_id := ''session-2'',
       ss_browser_session_binding := ''binding-2'', ss_expires_at := 300\<rparr>)
     (snd (active_sip_browser_session 150 150 ''employee-0001'' sample_session_db)) = (Inr (Some new), d'')"
proof -
  have "sip_step\<^sup>*\<^sup>* empty_db sample_session_db"
    unfolding sample_session_db_def by (rule r_into_rtranclp) (rule sip_step.creates)
  then have inv: "sip_inv sample_session_db"
    using sip_step_inv by (induction rule: rtranclp_induct) (auto simp: sip_inv_def)
  have "fst (active_sip_browser_session 150 150 ''employee-0001'' sample_session_db) = None" by code_simp
  then have lookup: "active_sip_browser_session 150 150 ''employee-0001'' sample_session_db =
      (None, snd (active_sip_browser_session 150 150 ''employee-0001'' sample_session_db))"
    by (simp add: prod_eq_iff)
  have table: "tbl_sip_browser_sessions sample_session_db =
      [sample_session\<lparr>ss_state := ''active'', ss_created_at := 10, ss_updated_at := 10\<rparr>]"
    by (simp add: sample_session_db_def create_sip_browser_session_def Let_def)
  let ?row = "sample_session\<lparr>ss_session_id := ''session-2'',
       ss_browser_session_binding := ''binding-2'', ss_expires_at := 300\<rparr>"
  have "ss_employee_id ?row = ''employee-0001'' \<and>
      ss_session_id ?row \<notin> ss_session_id ` set (tbl_sip_browser_sessions sample_session_db) \<and>
      ss_browser_session_binding ?row \<notin>
        ss_browser_session_binding ` set (tbl_sip_browser_sessions sample_session_db) \<and>
      (250::int) < ss_expires_at ?row"
    unfolding table by (simp add: sample_session_def)
  with active_lookup [OF inv lookup] show ?thesis
    unfolding option.case by blast
qed

end
