(* ===== verification/Secrets.thy ===== *)
theory Secrets
  imports Prelude "HOL-Library.Word"
begin

unbundle bit_operations_syntax

text \<open>
  Protected secret references (\<^verbatim>\<open>app/secrets.py\<close>). The file system is a parameter: what
  \<^verbatim>\<open>lstat\<close> and \<^verbatim>\<open>read_text\<close> give for a path; the environment is a map from names to values.
\<close>

record file_status =
  fs_symlink :: bool
  fs_is_file :: bool
  fs_mode :: "16 word"
  fs_text :: "string option" \<comment> \<open>\<open>None\<close>: reading fails\<close>

type_synonym file_system = "string \<Rightarrow> file_status option"
type_synonym environment = "string \<Rightarrow> string option"

definition permitted_mode :: "bool \<Rightarrow> 16 word" where
  "permitted_mode allow_public = (if allow_public then 0x1A4 else 0x180)"

definition read_secret_file :: "file_system \<Rightarrow> string \<Rightarrow> bool \<Rightarrow> string res" where
  "read_secret_file files path allow_public =
     (case files path of
        None \<Rightarrow> Inl (SecretReferenceError ''secret_reference_unreadable'')
      | Some metadata \<Rightarrow>
          if fs_symlink metadata \<or> \<not> fs_is_file metadata
          then Inl (SecretReferenceError ''invalid_secret_reference'')
          else if fs_mode metadata AND 0x1FF AND NOT (permitted_mode allow_public) \<noteq> 0
          then Inl (SecretReferenceError ''secret_permissions_too_broad'')
          else case fs_text metadata of
                 None \<Rightarrow> Inl (SecretReferenceError ''secret_reference_unreadable'')
               | Some text_value \<Rightarrow>
                   (let val = str_strip text_value in
                    if val = [] then Inl (SecretReferenceError ''secret_reference_empty'')
                    else Inr val))"

definition read_secret_reference ::
  "environment \<Rightarrow> file_system \<Rightarrow> string \<Rightarrow> bool \<Rightarrow> string option res" where
  "read_secret_reference env files variable required =
     (case env variable of
        Some reference \<Rightarrow>
          if reference = [] then
            (if required then Inl (SecretReferenceError (str_lower variable @ ''_not_configured''))
             else Inr None)
          else (case read_secret_file files reference False of
                  Inl e \<Rightarrow> Inl e | Inr v \<Rightarrow> Inr (Some v))
      | None \<Rightarrow>
          if required then Inl (SecretReferenceError (str_lower variable @ ''_not_configured''))
          else Inr None)"

section \<open>What an accepted secret satisfies\<close>

lemma mask_zero_iff:
  fixes m p :: "16 word"
  shows "m AND 0x1FF AND NOT p = 0 \<longleftrightarrow> (\<forall>n < 9. bit m n \<longrightarrow> bit p n)"
proof -
  have mask: "(0x1FF :: 16 word) = mask 9" by (simp add: mask_eq_exp_minus_1)
  have "m AND mask 9 AND NOT p = 0 \<longleftrightarrow> (\<forall>n < 16. \<not> bit (m AND mask 9 AND NOT p) n)"
    by (simp add: bit_eq_iff)
  also have "\<dots> \<longleftrightarrow> (\<forall>n < 9. bit m n \<longrightarrow> bit p n)"
    by (auto simp: bit_and_iff bit_not_iff bit_mask_iff dest: bit_imp_le_length)
  finally show ?thesis by (simp only: mask)
qed

text \<open>The permission bits: 8 and 7 are the owner's read and write, 5 the group's read, 2 the
  others' read.\<close>

lemma permitted_bits:
  "n < 9 \<Longrightarrow> bit (permitted_mode allow_public) n \<longleftrightarrow> n \<in> {7, 8} \<or> allow_public \<and> n \<in> {2, 5}"
proof -
  assume "n < 9"
  then have "n \<in> {0, 1, 2, 3, 4, 5, 6, 7, 8}" by auto
  then show ?thesis by (auto simp: permitted_mode_def)
qed

text \<open>A secret is read exactly from a regular file that is not a symbolic link, that no
  execute bit is set on, that nobody but the owner can write, and (unless it may be public)
  nobody but the owner can read; the value is its text without surrounding white space, and is
  not empty.\<close>

theorem read_secret_file_iff:
  "read_secret_file files path allow_public = Inr v \<longleftrightarrow>
     (\<exists>metadata t. files path = Some metadata \<and> \<not> fs_symlink metadata \<and> fs_is_file metadata \<and>
        (\<forall>n < 9. bit (fs_mode metadata) n \<longrightarrow> n \<in> {7, 8} \<or> allow_public \<and> n \<in> {2, 5}) \<and>
        fs_text metadata = Some t \<and> v = str_strip t \<and> v \<noteq> [])"
proof -
  have bits: "m AND 0x1FF AND NOT (permitted_mode allow_public) = 0 \<longleftrightarrow>
      (\<forall>n < 9. bit m n \<longrightarrow> n \<in> {7, 8} \<or> allow_public \<and> n \<in> {2, 5})" for m :: "16 word"
    unfolding mask_zero_iff using permitted_bits by blast
  show ?thesis
    unfolding read_secret_file_def Let_def
    using bits by (auto split: option.split)
qed

definition sample_files :: "nat \<Rightarrow> file_system" where
  "sample_files mode path =
     (if path = ''/run/secrets/key''
      then Some \<lparr>fs_symlink = False, fs_is_file = True, fs_mode = of_nat mode, fs_text = Some ''value ''\<rparr>
      else None)"

theorem read_secret_file_iff_witness:
  "\<exists>metadata. sample_files 384 ''/run/secrets/key'' = Some metadata \<and> \<not> bit (fs_mode metadata) 5"
proof -
  have "read_secret_file (sample_files 384) ''/run/secrets/key'' False = Inr ''value''"
    unfolding read_secret_file_def sample_files_def permitted_mode_def
    by (simp add: str_strip_def strip_by_def is_space_def)
  then obtain metadata where m: "sample_files 384 ''/run/secrets/key'' = Some metadata"
      "\<forall>n < 9. bit (fs_mode metadata) n \<longrightarrow> n \<in> {7, 8}"
    unfolding read_secret_file_iff by auto
  from m(2) have "\<not> bit (fs_mode metadata) 5" by (auto dest: spec [of _ 5])
  with m(1) show ?thesis by blast
qed

end
