(* ===== verification/Config.thy ===== *)
theory Config
  imports Contracts Secrets
begin

text \<open>
  Configuration and readiness (\<^verbatim>\<open>app/config.py\<close>): the gates, the settings loaded from the
  environment, and the list of reasons why the service is not ready. The service is ready
  exactly in the one approved configuration.
\<close>

section \<open>Text functions of the loader\<close>

text \<open>\<^verbatim>\<open>str.split(sep)\<close> for a one-character separator, and \<^verbatim>\<open>str.split()\<close>.\<close>

fun split_on :: "char \<Rightarrow> string \<Rightarrow> string \<Rightarrow> string list" where
  "split_on sep acc [] = [rev acc]"
| "split_on sep acc (c # cs) =
     (if c = sep then rev acc # split_on sep [] cs else split_on sep (c # acc) cs)"

definition str_split :: "char \<Rightarrow> string \<Rightarrow> string list" where
  "str_split sep s = split_on sep [] s"

fun words_acc :: "string \<Rightarrow> string \<Rightarrow> string list" where
  "words_acc acc [] = (if acc = [] then [] else [rev acc])"
| "words_acc acc (c # cs) =
     (if is_space c then (if acc = [] then words_acc [] cs else rev acc # words_acc [] cs)
      else words_acc (c # acc) cs)"

definition str_words :: "string \<Rightarrow> string list" where
  "str_words s = words_acc [] s"

text \<open>\<^verbatim>\<open>int(text)\<close>: white space, a sign, digits with single underscores between them.\<close>

fun digits_value :: "int \<Rightarrow> bool \<Rightarrow> string \<Rightarrow> int option" where
  "digits_value acc after_digit [] = (if after_digit then Some acc else None)"
| "digits_value acc after_digit (c # cs) =
     (if is_digit c then digits_value (acc * 10 + (of_char c - 48)) True cs
      else if c = CHR ''_'' \<and> after_digit \<and> cs \<noteq> [] then digits_value acc False cs
      else None)"

definition py_int :: "string \<Rightarrow> int res" where
  "py_int s =
     (let t = str_strip s;
          v = (case t of
                 [] \<Rightarrow> None
               | c # cs \<Rightarrow>
                   if c = CHR ''-'' then map_option uminus (digits_value 0 False cs)
                   else if c = CHR ''+'' then digits_value 0 False cs
                   else digits_value 0 False t)
      in case v of None \<Rightarrow> Inl (ValueError ''invalid literal for int()'') | Some i \<Rightarrow> Inr i)"

section \<open>Settings\<close>

definition CANONICAL_ISSUER :: string where
  "CANONICAL_ISSUER = ''https://auth.codestra.co/realms/codestra''"

definition CANONICAL_JWKS_URL :: string where
  "CANONICAL_JWKS_URL = CANONICAL_ISSUER @ ''/protocol/openid-connect/certs''"

definition MACHINE_AUDIENCE :: string where
  "MACHINE_AUDIENCE = ''codestra-provisioning-service''"

definition MACHINE_CLIENT_ID :: string where
  "MACHINE_CLIENT_ID = ''codestra-provisioning-service-staging''"

definition MACHINE_SCOPES :: "string list" where
  "MACHINE_SCOPES = [''identity:rotate'', ''provisioning:execute'', ''provisioning:read'']"

definition MAX_TOKEN_TTL_SECONDS :: int where "MAX_TOKEN_TTL_SECONDS = 300"
definition SIP_BROWSER_ENDPOINT :: int where "SIP_BROWSER_ENDPOINT = 6101"
definition SIP_BROWSER_CAMPAIGN :: string where "SIP_BROWSER_CAMPAIGN = ''TEST_SYN''"

definition GATES :: "string list" where
  "GATES =
     [''PROVISIONING_SERVICE_GATE'', ''SERVICE_AUTHENTICATION_GATE'',
      ''SERVICE_AUTHORIZATION_GATE'', ''STEP_ENGINE_GATE'', ''RETRY_GATE'', ''DEAD_LETTER_GATE'',
      ''CALLBACK_GATE'', ''RECONCILIATION_GATE'', ''SECRET_STORAGE_GATE'',
      ''RESTART_RECOVERY_GATE'']"

text \<open>\<^verbatim>\<open>os.getenv(name, default)\<close>.\<close>

definition getenv :: "environment \<Rightarrow> string \<Rightarrow> string \<Rightarrow> string" where
  "getenv env name fallback = (case env name of None \<Rightarrow> fallback | Some v \<Rightarrow> v)"

definition enabled :: "environment \<Rightarrow> string \<Rightarrow> bool" where
  "enabled env name \<longleftrightarrow>
     str_lower (str_strip (getenv env name [])) \<in> {''1'', ''true'', ''yes'', ''enabled''}"

text \<open>The sets of the settings are lists; they are compared as sets.\<close>

record settings =
  environment_name :: string
  state_database_path :: string
  jwt_issuer :: string
  jwt_audience :: string
  jwt_public_key_file :: string
  jwt_algorithms :: "string list"
  jwt_allowed_clients :: "string list"
  request_max_bytes :: int
  request_max_age_seconds :: int
  rate_limit_requests :: int
  rate_limit_window_seconds :: int
  claim_timeout_seconds :: int
  retry_base_seconds :: int
  callback_url :: "string option"
  callback_hmac_file :: string
  encryption_key_file :: string
  adapter_config_file :: string
  tls_cert_file :: string
  tls_key_file :: string
  callback_ca_file :: string
  turn_shared_secret_file :: string
  jwt_jwks_url :: string
  jwt_expected_azp :: string
  jwt_required_scopes :: "string list"
  jwt_max_token_ttl_seconds :: int
  sip_browser_endpoint :: int
  sip_browser_campaign :: string

definition nonempty_parts :: "string list \<Rightarrow> string list" where
  "nonempty_parts items = filter (\<lambda>item. item \<noteq> []) (map str_strip items)"

definition load_settings :: "environment \<Rightarrow> settings res" where
  "load_settings env =
     (let environment_name = str_lower (str_strip (getenv env ''ENVIRONMENT'' [])) in
      if environment_name \<noteq> ''staging'' then Inl (RuntimeError ''service is staging-only'')
      else
      res_bind (py_int (getenv env ''SIP_BROWSER_ENDPOINT'' (str_int SIP_BROWSER_ENDPOINT)))
        (\<lambda>endpoint.
      let campaign = str_strip (getenv env ''SIP_BROWSER_CAMPAIGN'' SIP_BROWSER_CAMPAIGN) in
      if endpoint \<noteq> SIP_BROWSER_ENDPOINT \<or> campaign \<noteq> SIP_BROWSER_CAMPAIGN
      then Inl (RuntimeError ''sip browser certification boundary invalid'')
      else
      res_bind (py_int (getenv env ''REQUEST_MAX_BYTES'' ''262144'')) (\<lambda>max_bytes.
      res_bind (py_int (getenv env ''REQUEST_MAX_AGE_SECONDS'' ''300'')) (\<lambda>max_age.
      res_bind (py_int (getenv env ''RATE_LIMIT_REQUESTS'' ''120'')) (\<lambda>rate_requests.
      res_bind (py_int (getenv env ''RATE_LIMIT_WINDOW_SECONDS'' ''60'')) (\<lambda>rate_window.
      res_bind (py_int (getenv env ''CLAIM_TIMEOUT_SECONDS'' ''120'')) (\<lambda>claim_timeout.
      res_bind (py_int (getenv env ''RETRY_BASE_SECONDS'' ''5'')) (\<lambda>retry_base.
      res_bind (py_int (getenv env ''JWT_MAX_TOKEN_TTL_SECONDS'' (str_int MAX_TOKEN_TTL_SECONDS)))
        (\<lambda>max_ttl.
      Inr \<lparr>environment_name = environment_name,
        state_database_path = getenv env ''STATE_DATABASE_PATH'' ''/var/lib/codestra/provisioning.db'',
        jwt_issuer = str_strip (getenv env ''JWT_ISSUER'' CANONICAL_ISSUER),
        jwt_audience = str_strip (getenv env ''JWT_AUDIENCE'' MACHINE_AUDIENCE),
        jwt_public_key_file = getenv env ''JWT_PUBLIC_KEY_FILE'' ''/run/secrets/jwt_public_key.pem'',
        jwt_algorithms =
          nonempty_parts (str_split (CHR '','') (getenv env ''JWT_ALGORITHMS'' ''RS256'')),
        jwt_allowed_clients =
          nonempty_parts (str_split (CHR '','') (getenv env ''JWT_ALLOWED_CLIENTS'' MACHINE_CLIENT_ID)),
        request_max_bytes = max_bytes, request_max_age_seconds = max_age,
        rate_limit_requests = rate_requests, rate_limit_window_seconds = rate_window,
        claim_timeout_seconds = claim_timeout, retry_base_seconds = retry_base,
        callback_url = (case env ''ODOO_CALLBACK_URL'' of
            None \<Rightarrow> None | Some u \<Rightarrow> if u = [] then None else Some u),
        callback_hmac_file =
          getenv env ''ODOO_CALLBACK_HMAC_SECRET_FILE'' ''/run/secrets/odoo_callback_hmac'',
        encryption_key_file =
          getenv env ''CREDENTIAL_ENCRYPTION_KEY_FILE'' ''/run/secrets/credential_encryption_key'',
        adapter_config_file = getenv env ''ADAPTER_CONFIG_FILE'' ''/run/secrets/adapter_config.json'',
        tls_cert_file = getenv env ''TLS_CERT_FILE'' ''/run/tls/server.crt'',
        tls_key_file = getenv env ''TLS_KEY_FILE'' ''/run/tls/server.key'',
        callback_ca_file =
          getenv env ''ODOO_CALLBACK_CA_FILE'' ''/run/provisioning-secrets/ca.crt'',
        turn_shared_secret_file =
          getenv env ''TURN_SHARED_SECRET_FILE'' ''/run/provisioning-secrets/turn_shared_secret'',
        jwt_jwks_url = str_strip (getenv env ''JWT_JWKS_URL'' CANONICAL_JWKS_URL),
        jwt_expected_azp = str_strip (getenv env ''JWT_EXPECTED_AZP'' MACHINE_CLIENT_ID),
        jwt_required_scopes = nonempty_parts (str_words
          (getenv env ''JWT_REQUIRED_SCOPES'' (str_join '' '' MACHINE_SCOPES))),
        jwt_max_token_ttl_seconds = max_ttl, sip_browser_endpoint = endpoint,
        sip_browser_campaign = campaign\<rparr>)))))))))"

section \<open>Readiness\<close>

text \<open>\<^verbatim>\<open>Path(path).is_file()\<close> follows symbolic links.\<close>

definition is_file :: "file_system \<Rightarrow> string \<Rightarrow> bool" where
  "is_file files path \<longleftrightarrow> (case files path of None \<Rightarrow> False | Some st \<Rightarrow> fs_is_file st)"

definition err_if :: "bool \<Rightarrow> string \<Rightarrow> string list" where
  "err_if condition err = (if condition then [err] else [])"

definition readiness_files :: "settings \<Rightarrow> (string \<times> string) list" where
  "readiness_files s =
     [(''callback_hmac'', callback_hmac_file s), (''encryption_key'', encryption_key_file s),
      (''adapter_config'', adapter_config_file s), (''tls_cert'', tls_cert_file s),
      (''tls_key'', tls_key_file s), (''turn_shared_secret'', turn_shared_secret_file s)]"

definition readiness_errors :: "environment \<Rightarrow> file_system \<Rightarrow> settings \<Rightarrow> string list" where
  "readiness_errors env files s =
     map (\<lambda>gate. str_lower gate @ ''_closed'') (filter (\<lambda>gate. \<not> enabled env gate) GATES) @
     err_if (jwt_issuer s = []) ''jwt_issuer_missing'' @
     err_if (jwt_audience s = []) ''jwt_audience_missing'' @
     err_if (jwt_issuer s \<noteq> CANONICAL_ISSUER) ''jwt_issuer_not_canonical'' @
     err_if (jwt_audience s \<noteq> MACHINE_AUDIENCE) ''jwt_audience_invalid'' @
     err_if (jwt_jwks_url s \<noteq> CANONICAL_JWKS_URL) ''jwt_jwks_not_canonical'' @
     err_if (jwt_expected_azp s \<noteq> MACHINE_CLIENT_ID) ''jwt_expected_azp_invalid'' @
     err_if (set (jwt_allowed_clients s) \<noteq> {MACHINE_CLIENT_ID}) ''jwt_allowed_clients_invalid'' @
     err_if (set (jwt_required_scopes s) \<noteq> set MACHINE_SCOPES) ''jwt_required_scopes_invalid'' @
     err_if (jwt_max_token_ttl_seconds s \<noteq> MAX_TOKEN_TTL_SECONDS) ''jwt_max_token_ttl_invalid'' @
     err_if (sip_browser_endpoint s \<noteq> SIP_BROWSER_ENDPOINT) ''sip_browser_endpoint_invalid'' @
     err_if (sip_browser_campaign s \<noteq> SIP_BROWSER_CAMPAIGN) ''sip_browser_campaign_invalid'' @
     concat (map (\<lambda>(name, path). err_if (\<not> is_file files path) (name @ ''_missing''))
       (readiness_files s)) @
     err_if (jwt_jwks_url s = [] \<and> \<not> is_file files (jwt_public_key_file s))
       ''jwt_public_key_missing''"

lemma err_if_Nil [simp]: "err_if c e = [] \<longleftrightarrow> \<not> c"
  by (simp add: err_if_def)

text \<open>Readiness: no error is reported exactly when every gate is open, the identity settings
  are the approved ones, and the six secret and certificate files are there.\<close>

theorem ready_iff:
  "readiness_errors env files s = [] \<longleftrightarrow>
     (\<forall>gate \<in> set GATES. enabled env gate) \<and>
     jwt_issuer s = CANONICAL_ISSUER \<and> jwt_audience s = MACHINE_AUDIENCE \<and>
     jwt_jwks_url s = CANONICAL_JWKS_URL \<and> jwt_expected_azp s = MACHINE_CLIENT_ID \<and>
     set (jwt_allowed_clients s) = {MACHINE_CLIENT_ID} \<and>
     set (jwt_required_scopes s) = set MACHINE_SCOPES \<and>
     jwt_max_token_ttl_seconds s = MAX_TOKEN_TTL_SECONDS \<and>
     sip_browser_endpoint s = SIP_BROWSER_ENDPOINT \<and> sip_browser_campaign s = SIP_BROWSER_CAMPAIGN \<and>
     (\<forall>(name, path) \<in> set (readiness_files s). is_file files path)"
proof -
  have canonical: "CANONICAL_ISSUER \<noteq> []" "MACHINE_AUDIENCE \<noteq> []" "CANONICAL_JWKS_URL \<noteq> []"
    by (simp_all add: CANONICAL_ISSUER_def MACHINE_AUDIENCE_def CANONICAL_JWKS_URL_def)
  have "concat (map (\<lambda>(name, path). err_if (\<not> is_file files path) (name @ ''_missing'')) xs) = [] \<longleftrightarrow>
      (\<forall>(name, path) \<in> set xs. is_file files path)" for xs
    by auto
  then show ?thesis
    unfolding readiness_errors_def using canonical by (auto simp: filter_empty_conv)
qed

section \<open>What is loaded\<close>

text \<open>The approved environment: everything defaulted, the environment named, the gates open.\<close>

definition sample_env :: environment where
  "sample_env name =
     (if name = ''ENVIRONMENT'' then Some ''Staging ''
      else if name \<in> set GATES then Some ''true'' else None)"

definition all_files :: file_system where
  "all_files path = Some \<lparr>fs_symlink = False, fs_is_file = True, fs_mode = 0x180, fs_text = Some path\<rparr>"

lemma res_bind_InrE: "res_bind m f = Inr y \<Longrightarrow> (\<And>x. m = Inr x \<Longrightarrow> f x = Inr y \<Longrightarrow> R) \<Longrightarrow> R"
  by (auto simp: res_bind_Inr)

lemma if_InrE: "(if c then Inl e else m) = Inr y \<Longrightarrow> (\<not> c \<Longrightarrow> m = Inr y \<Longrightarrow> R) \<Longrightarrow> R"
  by (auto split: if_splits)

lemma sample_env_ready:
  "case load_settings sample_env of
     Inl _ \<Rightarrow> False | Inr s \<Rightarrow> readiness_errors sample_env all_files s = []"
  by code_simp

text \<open>Settings are loaded only for the staging environment and the certified browser endpoint
  and campaign, whatever else the environment holds; with everything else left to the defaults
  and every gate open, the service is ready.\<close>

theorem load_settings_staging:
  assumes "load_settings env = Inr s"
  shows "environment_name s = ''staging'' \<and> sip_browser_endpoint s = 6101 \<and>
    sip_browser_campaign s = ''TEST_SYN'' \<and>
    str_lower (str_strip (getenv env ''ENVIRONMENT'' [])) = ''staging'' \<and>
    (\<exists>s'. load_settings sample_env = Inr s' \<and> readiness_errors sample_env all_files s' = [])"
proof -
  have "\<exists>s'. load_settings sample_env = Inr s' \<and> readiness_errors sample_env all_files s' = []"
    using sample_env_ready by (auto split: sum.splits)
  moreover have "str_lower (str_strip (getenv env ''ENVIRONMENT'' [])) = ''staging''"
    using assms by (rule contrapos_pp) (simp add: load_settings_def)
  moreover from assms have "environment_name s = str_lower (str_strip (getenv env ''ENVIRONMENT'' [])) \<and>
      sip_browser_endpoint s = SIP_BROWSER_ENDPOINT \<and> sip_browser_campaign s = SIP_BROWSER_CAMPAIGN"
    unfolding load_settings_def Let_def
    by (elim res_bind_InrE if_InrE) auto
  ultimately show ?thesis
    by (simp add: SIP_BROWSER_ENDPOINT_def SIP_BROWSER_CAMPAIGN_def)
qed

theorem load_settings_staging_witness:
  "\<exists>s. load_settings sample_env = Inr s \<and> environment_name s = ''staging'' \<and> sip_browser_endpoint s = 6101"
  using load_settings_staging [of sample_env] sample_env_ready by (auto split: sum.splits)

theorem ready_iff_witness:
  "\<exists>s. load_settings sample_env = Inr s \<and> enabled sample_env ''RETRY_GATE'' \<and>
     is_file all_files (turn_shared_secret_file s)"
proof -
  obtain s where s: "load_settings sample_env = Inr s" "readiness_errors sample_env all_files s = []"
    using sample_env_ready by (auto split: sum.splits)
  have "''RETRY_GATE'' \<in> set GATES" by (simp add: GATES_def)
  with s ready_iff [of sample_env all_files s] show ?thesis
    by (auto simp: readiness_files_def)
qed

end
