(* ===== verification/Logging.thy ===== *)
theory Logging
  imports Prelude
begin

text \<open>
  Structured logging (\<^verbatim>\<open>app/logging.py\<close>): which keys are sensitive, the redaction of credentials in
  URLs, and \<^verbatim>\<open>sanitize\<close>, which every log record passes through. The two regular expressions are
  written out as the scans they stand for. The clock and \<^verbatim>\<open>json.dumps\<close> of the formatter are outside:
  \<open>log_payload\<close> is the document that is dumped.
\<close>

section \<open>The values a log record holds\<close>

text \<open>An exception is kept as its class name; its message never leaves \<^verbatim>\<open>sanitize\<close>.\<close>

datatype log_value =
    LNone
  | LBool bool
  | LInt int
  | LFloat string
  | LStr string
  | LList "log_value list" \<comment> \<open>a list or a tuple\<close>
  | LDict "(string \<times> log_value) list"
  | LExc string string \<comment> \<open>class name, message\<close>
  | LOther string \<comment> \<open>any other object, which \<^verbatim>\<open>json.dumps\<close> writes as its \<^verbatim>\<open>str\<close>\<close>

section \<open>Sensitive keys\<close>

text \<open>\<^verbatim>\<open>a.?b\<close>: the two words with at most one character, not a newline, between them.\<close>

definition starts_gapped :: "string \<Rightarrow> string \<Rightarrow> string \<Rightarrow> bool" where
  "starts_gapped a b s \<longleftrightarrow>
     starts_with s a \<and>
     (let r = drop (length a) s in
      starts_with r b \<or> (case r of [] \<Rightarrow> False | c # r' \<Rightarrow> (of_char c :: nat) \<noteq> 10 \<and> starts_with r' b))"

fun contains_gapped :: "string \<Rightarrow> string \<Rightarrow> string \<Rightarrow> bool" where
  "contains_gapped a b [] \<longleftrightarrow> starts_gapped a b []"
| "contains_gapped a b (c # s) \<longleftrightarrow> starts_gapped a b (c # s) \<or> contains_gapped a b s"

definition SENSITIVE :: "string \<Rightarrow> bool" where
  "SENSITIVE key \<longleftrightarrow>
     (let k = str_lower key in
      list_ex (contains k)
        [''authorization'', ''password'', ''passwd'', ''secret'', ''token'', ''credential'', ''cookie''] \<or>
      contains_gapped ''private'' ''key'' k \<or> contains_gapped ''api'' ''key'' k)"

section \<open>Credentials in URLs\<close>

text \<open>
  A match of \<^verbatim>\<open>URL_CREDENTIAL\<close> starts at \<^verbatim>\<open>?\<close> or \<^verbatim>\<open>&\<close>; its name runs to the next \<^verbatim>\<open>=\<close> and holds one of
  the four words; its value is the longest non-empty run of characters other than \<^verbatim>\<open>&\<close>, \<^verbatim>\<open>#\<close> and
  white space. \<open>credential_at\<close> takes the text after the first character and gives the name with
  the \<^verbatim>\<open>=\<close>, and what follows the value. \<open>redact\<close> is \<^verbatim>\<open>URL_CREDENTIAL.sub\<close>, from left to right.
\<close>

definition name_char :: "char \<Rightarrow> bool" where
  "name_char c \<longleftrightarrow> c \<noteq> CHR ''=''"

definition value_char :: "char \<Rightarrow> bool" where
  "value_char c \<longleftrightarrow> c \<noteq> CHR ''&'' \<and> c \<noteq> CHR ''#'' \<and> \<not> is_space c"

definition credential_name :: "string \<Rightarrow> bool" where
  "credential_name name \<longleftrightarrow>
     list_ex (contains (str_lower name)) [''token'', ''password'', ''secret'', ''key'']"

definition separator :: "char \<Rightarrow> bool" where
  "separator c \<longleftrightarrow> c = CHR ''?'' \<or> c = CHR ''&''"

definition credential_at :: "string \<Rightarrow> (string \<times> string) option" where
  "credential_at s =
     (let name = takeWhile name_char s in
      case dropWhile name_char s of
        [] \<Rightarrow> None
      | e # val \<Rightarrow>
          if credential_name name \<and> takeWhile value_char val \<noteq> []
          then Some (name @ [e], dropWhile value_char val) else None)"

lemma credential_at_shorter:
  "credential_at s = Some (name, rest) \<Longrightarrow> length rest < length s"
proof -
  assume "credential_at s = Some (name, rest)"
  then obtain e val where "dropWhile name_char s = e # val" "rest = dropWhile value_char val"
    by (auto simp: credential_at_def Let_def split: list.splits if_splits)
  moreover have "length (dropWhile name_char s) \<le> length s" by (rule length_dropWhile_le)
  moreover have "length (dropWhile value_char val) \<le> length val" by (rule length_dropWhile_le)
  ultimately show ?thesis by simp
qed

definition REDACTED :: string where
  "REDACTED = ''[REDACTED]''"

function redact :: "string \<Rightarrow> string" where
  "redact [] = []"
| "redact (c # s) =
     (if separator c then
        (case credential_at s of
           None \<Rightarrow> c # redact s
         | Some (name, rest) \<Rightarrow> c # name @ REDACTED @ redact rest)
      else c # redact s)"
  by pat_completeness auto

termination
  by (relation "measure length") (auto dest!: credential_at_shorter)

section \<open>Sanitising\<close>

fun sanitize :: "log_value \<Rightarrow> string \<Rightarrow> log_value"
  and sanitize_items :: "(string \<times> log_value) list \<Rightarrow> (string \<times> log_value) list"
  and sanitize_list :: "log_value list \<Rightarrow> log_value list" where
  "sanitize v key =
     (if SENSITIVE key then LStr REDACTED
      else case v of
        LDict items \<Rightarrow> LDict (sanitize_items items)
      | LList vs \<Rightarrow> LList (sanitize_list vs)
      | LExc cls msg \<Rightarrow> LDict [(''type'', LStr cls), (''message'', LStr ''[REDACTED_EXCEPTION]'')]
      | LStr s \<Rightarrow> LStr (redact s)
      | _ \<Rightarrow> v)"
| "sanitize_items [] = []"
| "sanitize_items ((k, v) # items) = (k, sanitize v k) # sanitize_items items"
| "sanitize_list [] = []"
| "sanitize_list (v # vs) = sanitize v [] # sanitize_list vs"

text \<open>
  What \<^verbatim>\<open>JsonFormatter.format\<close> dumps: the three fixed members, the extra fields written over them,
  the exception, and all of it sanitised again.
\<close>

definition log_members ::
  "string \<Rightarrow> string \<Rightarrow> string \<Rightarrow> (string \<times> log_value) list option \<Rightarrow> log_value option \<Rightarrow>
     (string \<times> log_value) list" where
  "log_members time_stamp levelname msg fields exc =
     (let payload = [(''timestamp'', LStr time_stamp), (''severity'', LStr levelname),
                     (''message'', LStr msg)];
          payload = (case fields of None \<Rightarrow> payload | Some extra \<Rightarrow> dict_merge payload extra)
      in case exc of None \<Rightarrow> payload
         | Some e \<Rightarrow> AList.update ''exception'' (sanitize e []) payload)"

definition log_payload ::
  "string \<Rightarrow> string \<Rightarrow> string \<Rightarrow> (string \<times> log_value) list option \<Rightarrow> log_value option \<Rightarrow> log_value" where
  "log_payload time_stamp levelname msg fields exc =
     sanitize (LDict (log_members time_stamp levelname msg fields exc)) []"

section \<open>What a sanitised record cannot hold\<close>

text \<open>
  A text leaks when somewhere in it a separator and a credential's name, up to the next \<^verbatim>\<open>=\<close>, are
  followed by a value that is not the redaction mark.
\<close>

definition leak_here :: "string \<Rightarrow> bool" where
  "leak_here s \<longleftrightarrow>
     (\<exists>name v val. s = name @ ''='' @ v # val \<and> list_all name_char name \<and> credential_name name \<and>
        value_char v \<and> \<not> starts_with (v # val) REDACTED)"

definition leaks :: "string \<Rightarrow> bool" where
  "leaks s \<longleftrightarrow> (\<exists>a c b. s = a @ c # b \<and> separator c \<and> leak_here b)"

lemma leaks_simps [simp]:
  "\<not> leaks []"
  "leaks (c # s) \<longleftrightarrow> separator c \<and> leak_here s \<or> leaks s"
  by (auto simp: leaks_def Cons_eq_append_conv)

lemma separator_name_char: "separator c \<Longrightarrow> name_char c"
  by (auto simp: separator_def name_char_def)

text \<open>The name of a leak is the text up to the first \<^verbatim>\<open>=\<close>.\<close>

lemma leak_here_iff:
  assumes "list_all name_char name" and "\<not> name_char e"
  shows "leak_here (name @ e # val) \<longleftrightarrow>
    credential_name name \<and> (\<exists>v val'. val = v # val' \<and> value_char v) \<and> \<not> starts_with val REDACTED"
proof -
  have tw: "takeWhile name_char (name' @ CHR ''='' # r) = name' \<and>
      dropWhile name_char (name' @ CHR ''='' # r) = CHR ''='' # r"
    if "list_all name_char name'" for name' r
    using that by (auto simp: name_char_def list_all_iff)
  have e: "e = CHR ''=''" using assms(2) by (simp add: name_char_def)
  have "name @ e # val = name' @ ''='' @ r \<longleftrightarrow> name' = name \<and> r = val"
    if "list_all name_char name'" for name' r
    using tw [OF that, of r] tw [OF assms(1), of val] e
    by (metis append_Cons append_Nil list.inject)
  then show ?thesis unfolding leak_here_def using assms(1) by metis
qed

lemma leak_here_no_equals: "list_all name_char s \<Longrightarrow> \<not> leak_here s"
  by (auto simp: leak_here_def name_char_def)

lemma no_leak_in_name:
  assumes "list_all name_char name" and "\<not> name_char e"
    and "\<And>a c b. name = a @ c # b \<Longrightarrow> separator c \<Longrightarrow> \<not> leak_here (b @ e # val)"
  shows "leaks (name @ e # val) \<longleftrightarrow> leaks val"
  using assms(1,3)
proof (induction name)
  case Nil
  have "\<not> separator e" using assms(2) separator_name_char by blast
  then show ?case by simp
next
  case (Cons c name)
  have "leaks (name @ e # val) \<longleftrightarrow> leaks val"
    using Cons.prems by (intro Cons.IH) (auto simp: Cons_eq_append_conv)
  moreover have "\<not> (separator c \<and> leak_here (name @ e # val))"
    using Cons.prems(2) [of "[]" c name] by auto
  ultimately show ?case by auto
qed

lemma not_separator_redacted: "list_all (\<lambda>c. \<not> separator c) REDACTED"
  by (simp add: REDACTED_def separator_def)

lemma leaks_skip: "list_all (\<lambda>c. \<not> separator c) p \<Longrightarrow> leaks (p @ s) \<longleftrightarrow> leaks s"
  by (induction p) auto

lemma credential_at_SomeD:
  assumes "credential_at s = Some (name, rest)"
  shows "\<exists>n e val. s = n @ e # val \<and> name = n @ [e] \<and> list_all name_char n \<and> \<not> name_char e \<and>
    rest = dropWhile value_char val"
proof -
  obtain e val where ev: "dropWhile name_char s = e # val"
      "name = takeWhile name_char s @ [e]" "rest = dropWhile value_char val"
    using assms by (auto simp: credential_at_def Let_def split: list.splits if_splits)
  have "s = takeWhile name_char s @ e # val"
    using ev(1) by (metis takeWhile_dropWhile_id)
  moreover have "\<not> name_char e" using ev(1) by (metis hd_dropWhile list.distinct(1) list.sel(1))
  moreover have "list_all name_char (takeWhile name_char s)"
    by (auto simp: list_all_iff dest: set_takeWhileD)
  ultimately show ?thesis using ev by blast
qed

text \<open>Redaction keeps the first character, and a text without \<^verbatim>\<open>=\<close> as it is.\<close>

lemma redact_head: "redact (c # s) = c # tl (redact (c # s))"
  by (simp split: option.split)

lemma credential_at_None: "list_all name_char s \<Longrightarrow> credential_at s = None"
  by (simp add: credential_at_def Let_def list_all_iff dropWhile_eq_Nil_conv [THEN iffD2])

lemma redact_no_equals: "list_all name_char s \<Longrightarrow> redact s = s"
  by (induction s) (auto simp: credential_at_None)

lemma redact_name:
  assumes "list_all name_char name" and "\<not> name_char e" and "\<not> credential_name name \<or> takeWhile value_char val = []"
  shows "redact (name @ e # val) = name @ e # redact val"
  using assms(1,3)
proof (induction name)
  case Nil
  have "\<not> separator e" using assms(2) separator_name_char by blast
  then show ?case by simp
next
  case (Cons c name)
  have weaker: "\<not> credential_name name \<or> takeWhile value_char val = []"
    using Cons.prems(2) by (auto simp: credential_name_def str_lower_def list_ex_iff)
  have "takeWhile name_char (name @ e # val) = name" "dropWhile name_char (name @ e # val) = e # val"
    using Cons.prems(1) assms(2) by (auto simp: list_all_iff takeWhile_append2 dropWhile_append2)
  then have "credential_at (name @ e # val) = None"
    using weaker by (auto simp: credential_at_def)
  then show ?case using Cons.IH [OF _ weaker] Cons.prems(1) by simp
qed

lemma no_value_redact: "takeWhile value_char val = [] \<Longrightarrow> redact val = v # val' \<Longrightarrow> \<not> value_char v"
  by (cases val) (auto simp: redact_head split: if_splits option.splits)

lemma credential_at_NoneD:
  assumes "credential_at s = None"
  shows "list_all name_char s \<or> (\<exists>n e val. s = n @ e # val \<and> list_all name_char n \<and> \<not> name_char e \<and>
    (\<not> credential_name n \<or> takeWhile value_char val = []))"
proof (cases "dropWhile name_char s")
  case Nil
  then show ?thesis by (auto simp: dropWhile_eq_Nil_conv list_all_iff)
next
  case (Cons e val)
  then have "s = takeWhile name_char s @ e # val" "\<not> name_char e"
    by (metis takeWhile_dropWhile_id, metis hd_dropWhile list.distinct(1) list.sel(1))
  moreover have "list_all name_char (takeWhile name_char s)"
    by (auto simp: list_all_iff dest: set_takeWhileD)
  moreover have "\<not> credential_name (takeWhile name_char s) \<or> takeWhile value_char val = []"
    using assms Cons by (auto simp: credential_at_def Let_def split: if_splits)
  ultimately show ?thesis by blast
qed

lemma starts_with_append [simp]: "starts_with (p @ s) p"
  by (simp add: starts_with_def)

lemma unmatched_no_leak: "credential_at s = None \<Longrightarrow> \<not> leak_here (redact s)"
proof (drule credential_at_NoneD, elim disjE exE conjE)
  assume "list_all name_char s"
  then show "\<not> leak_here (redact s)" by (simp add: redact_no_equals leak_here_no_equals)
next
  fix n e val
  assume s: "s = n @ e # val" "list_all name_char n" "\<not> name_char e" "\<not> credential_name n"
  then show "\<not> leak_here (redact s)" by (simp add: redact_name leak_here_iff)
next
  fix n e val
  assume s: "s = n @ e # val" "list_all name_char n" "\<not> name_char e" "takeWhile value_char val = []"
  then show "\<not> leak_here (redact s)" using no_value_redact [OF s(4)]
    by (auto simp: redact_name leak_here_iff)
qed

lemma redact_no_leak: "\<not> leaks (redact s)"
proof (induction s rule: redact.induct)
  case (2 c s)
  show ?case
  proof (cases "credential_at s")
    case None
    then show ?thesis using 2 unmatched_no_leak [OF None] by auto
  next
    case (Some p)
    obtain name rest where p: "p = (name, rest)" by (cases p)
    from Some p obtain n e val where s: "name = n @ [e]" "list_all name_char n" "\<not> name_char e"
      using credential_at_SomeD by blast
    let ?val = "REDACTED @ redact rest"
    have here: "\<not> leak_here (b @ e # ?val)" if "list_all name_char b" for b
      using that s(3) by (simp add: leak_here_iff)
    have "leaks (n @ e # ?val) \<longleftrightarrow> leaks ?val"
      by (rule no_leak_in_name [OF s(2,3)], rule here) (use s(2) in auto)
    moreover have "\<not> leaks (redact rest)" if "separator c" using 2 that Some p by auto
    ultimately show ?thesis using 2 Some p s here [OF s(2)]
      by (auto simp: leaks_skip [OF not_separator_redacted])
  qed
qed simp

text \<open>
  \<open>sealed\<close>: at every depth a sensitive member is the redaction mark, and no exception is left.
  \<open>texts\<close>: every text of the dumped document, at every depth: the names of members, the values, and
  what \<^verbatim>\<open>default=str\<close> writes for an object that is not JSON.
\<close>

fun sealed :: "log_value \<Rightarrow> bool"
  and sealed_items :: "(string \<times> log_value) list \<Rightarrow> bool"
  and sealed_list :: "log_value list \<Rightarrow> bool" where
  "sealed (LDict items) \<longleftrightarrow> sealed_items items"
| "sealed (LList vs) \<longleftrightarrow> sealed_list vs"
| "sealed (LExc _ _) \<longleftrightarrow> False"
| "sealed _ \<longleftrightarrow> True"
| "sealed_items [] \<longleftrightarrow> True"
| "sealed_items ((k, v) # items) \<longleftrightarrow>
     (SENSITIVE k \<longrightarrow> v = LStr REDACTED) \<and> sealed v \<and> sealed_items items"
| "sealed_list [] \<longleftrightarrow> True"
| "sealed_list (v # vs) \<longleftrightarrow> sealed v \<and> sealed_list vs"

fun texts :: "log_value \<Rightarrow> string list"
  and texts_items :: "(string \<times> log_value) list \<Rightarrow> string list"
  and texts_list :: "log_value list \<Rightarrow> string list" where
  "texts (LStr s) = [s]"
| "texts (LFloat s) = [s]"
| "texts (LOther s) = [s]"
| "texts (LExc cls msg) = [msg]"
| "texts (LDict items) = texts_items items"
| "texts (LList vs) = texts_list vs"
| "texts _ = []"
| "texts_items [] = []"
| "texts_items ((k, v) # items) = k # texts v @ texts_items items"
| "texts_list [] = []"
| "texts_list (v # vs) = texts v @ texts_list vs"

text \<open>
  The texts of a record that sanitising writes as they are: outside of sensitive members, the names of
  members, the class names of exceptions, and the \<^verbatim>\<open>repr\<close> or \<^verbatim>\<open>str\<close> of a value that is neither a text nor a
  container.
\<close>

fun untouched_texts :: "log_value \<Rightarrow> string \<Rightarrow> string list"
  and untouched_items :: "(string \<times> log_value) list \<Rightarrow> string list"
  and untouched_list :: "log_value list \<Rightarrow> string list" where
  "untouched_texts v key =
     (if SENSITIVE key then []
      else case v of
        LDict items \<Rightarrow> untouched_items items
      | LList vs \<Rightarrow> untouched_list vs
      | LExc cls msg \<Rightarrow> [cls]
      | LFloat s \<Rightarrow> [s]
      | LOther s \<Rightarrow> [s]
      | _ \<Rightarrow> [])"
| "untouched_items [] = []"
| "untouched_items ((k, v) # items) = k # untouched_texts v k @ untouched_items items"
| "untouched_list [] = []"
| "untouched_list (v # vs) = untouched_texts v [] @ untouched_list vs"

declare untouched_texts.simps [simp del]
declare sanitize.simps [simp del]

lemma leaks_literal [simp]:
  "\<not> leaks REDACTED" "\<not> leaks ''[REDACTED_EXCEPTION]''"
  by (simp_all add: REDACTED_def separator_def)

lemma fixed_names: "\<not> leaks ''type''" "\<not> leaks ''message''"
  by (simp_all add: separator_def)

lemma fixed_keys: "\<not> SENSITIVE ''type''" "\<not> SENSITIVE ''message''" "\<not> SENSITIVE []"
  by code_simp+

lemma sanitize_sealed:
  "sealed (sanitize v key) \<and> (SENSITIVE key \<longrightarrow> sanitize v key = LStr REDACTED)"
  "sealed_items (sanitize_items items)"
  "sealed_list (sanitize_list vs)"
proof (induction v key and items and vs rule: sanitize_sanitize_items_sanitize_list.induct)
  case (1 v key)
  show ?case
  proof (cases "SENSITIVE key")
    case False
    then show ?thesis
      using 1 fixed_keys by (cases v) (auto simp: sanitize.simps)
  qed (simp add: sanitize.simps)
qed auto

text \<open>The texts that leak after sanitising are those that it does not touch.\<close>

lemma sanitize_leaks:
  "filter leaks (texts (sanitize v key)) = filter leaks (untouched_texts v key)"
  "filter leaks (texts_items (sanitize_items items)) = filter leaks (untouched_items items)"
  "filter leaks (texts_list (sanitize_list vs)) = filter leaks (untouched_list vs)"
proof (induction v key and items and vs rule: sanitize_sanitize_items_sanitize_list.induct)
  case (1 v key)
  show ?case
  proof (cases "SENSITIVE key")
    case True
    then show ?thesis by (simp only: sanitize.simps untouched_texts.simps if_True texts.simps) simp
  next
    case False
    then show ?thesis
      using 1 fixed_names by (cases v) (auto simp: sanitize.simps untouched_texts.simps redact_no_leak simp del: leaks_simps)
  qed
qed (auto simp del: leaks_simps)

text \<open>C31. Logs: whatever a caller logs, in the document the formatter dumps every sensitive member is, at
  every depth, the redaction mark, no exception appears with its message, and the texts that hold a URL
  parameter whose name says it is a credential with a value other than the mark are, one by one, those
  among the texts that sanitising does not look into: member names, class names of exceptions, and
  objects that are written as their \<^verbatim>\<open>str\<close>. So no text value leaks, and a record without such a name or
  object does not leak at all.\<close>

theorem log_payload_sealed:
  "\<exists>items. log_payload time_stamp levelname msg fields exc = LDict items \<and> sealed_items items \<and>
     filter leaks (texts_items items) =
       filter leaks (untouched_items (log_members time_stamp levelname msg fields exc))"
proof -
  let ?members = "log_members time_stamp levelname msg fields exc"
  have "log_payload time_stamp levelname msg fields exc = LDict (sanitize_items ?members)"
    using fixed_keys by (simp add: log_payload_def sanitize.simps)
  then show ?thesis using sanitize_sealed(2) [of ?members] sanitize_leaks(2) [of ?members] by blast
qed

text \<open>Such names and objects are dumped as they are: the token of a URL in one of them is not redacted.\<close>

lemma url_token_leaks: "leaks ''/x?token=abc''"
proof -
  have "credential_name ''token''" by code_simp
  then have "leak_here ''token=abc''"
    using leak_here_iff [of "''token''" "CHR ''=''" "''abc''"]
    by (simp add: name_char_def value_char_def starts_with_def REDACTED_def is_space_def)
  then show ?thesis by (simp add: separator_def)
qed

theorem names_and_objects_leak:
  "log_payload ''t'' ''INFO'' ''m'' (Some [(''/x?token=abc'', LNone), (''url'', LOther ''/x?token=abc''),
       (''text'', LStr ''/x?token=abc'')]) None =
     LDict [(''timestamp'', LStr ''t''), (''severity'', LStr ''INFO''), (''message'', LStr ''m''),
       (''/x?token=abc'', LStr REDACTED), (''url'', LOther ''/x?token=abc''),
       (''text'', LStr ''/x?token=[REDACTED]'')] \<and>
   leaks ''/x?token=abc''"
proof
  show "leaks ''/x?token=abc''" by (rule url_token_leaks)
qed code_simp

end
