(* ===== verification/World.thy ===== *)
theory World
  imports Session_Store Config Json_Text
begin

text \<open>
  What the running service acts on: the database, and an environment of unknown type that stands
  for everything outside the process (the clock, the file system, the process environment, random
  numbers, and the remote systems behind the HTTP client). \<open>services\<close> are the calls the code makes
  on it; they are parameters of every definition that uses them. An action may fail as the adapters
  do, with a retryable or a permanent error, or with any other exception.
\<close>

section \<open>Services\<close>

datatype http_body =
    JsonBody json
  | RawBody string
  | FormBody "(string \<times> string) list"
  | NoBody

record http_request =
  rq_method :: string
  rq_url :: string
  rq_params :: "(string \<times> string) list"
  rq_headers :: "(string \<times> string) list"
  rq_body :: http_body

text \<open>
  The outcome of a request: a response (status, content, the body as JSON if it parses, and the
  location header), a timeout or network error, another \<^verbatim>\<open>HTTPError\<close>, or any other exception
  (the CA file of the client cannot be loaded, say).
\<close>

datatype http_reply =
    HttpResponse int string "json option" "string option"
  | NetworkFailure
  | OtherHttpFailure
  | ClientRaised repo_error

record 'e services =
  sv_now :: "'e \<Rightarrow> time \<times> 'e"
  sv_http :: "http_request \<Rightarrow> 'e \<Rightarrow> http_reply \<times> 'e"
  sv_uuid4 :: "'e \<Rightarrow> string \<times> 'e" \<comment> \<open>\<^verbatim>\<open>str(uuid4())\<close>\<close>
  sv_token :: "'e \<Rightarrow> string \<times> 'e" \<comment> \<open>\<^verbatim>\<open>secrets.token_urlsafe(32)\<close>\<close>
  sv_encrypt :: "string \<Rightarrow> string \<Rightarrow> 'e \<Rightarrow> string \<times> 'e" \<comment> \<open>Fernet: key, plain text\<close>
  sv_files :: "'e \<Rightarrow> file_system"
  sv_env :: "'e \<Rightarrow> environment"
  sv_sha256 :: "string \<Rightarrow> string" \<comment> \<open>hexadecimal digest\<close>
  sv_hmac :: "string \<Rightarrow> string \<Rightarrow> string" \<comment> \<open>HMAC-SHA256 in hexadecimal: key, message\<close>
  sv_turn_hmac :: "string \<Rightarrow> string \<Rightarrow> string" \<comment> \<open>HMAC-SHA1 in base64: key, message\<close>
  sv_uuid5 :: "string \<Rightarrow> string" \<comment> \<open>in the URL name space\<close>
  sv_fernet_key :: "string \<Rightarrow> bool" \<comment> \<open>a key \<^verbatim>\<open>Fernet\<close> accepts\<close>
  sv_json_loads :: "string \<Rightarrow> json option"
  sv_json_time :: "time \<Rightarrow> string" \<comment> \<open>a datetime in a model's JSON dump\<close>

record 'e world =
  w_db :: db
  w_env :: 'e

section \<open>Adapter actions\<close>

datatype 'a outcome =
    Returned 'a
  | RetryableAdapterError string
  | PermanentAdapterError string
  | OtherError repo_error

type_synonym ('e, 'a) action = "'e world \<Rightarrow> 'a outcome \<times> 'e world"

definition areturn :: "'a \<Rightarrow> ('e, 'a) action" where
  "areturn x w = (Returned x, w)"

definition permanent :: "string \<Rightarrow> ('e, 'a) action" where
  "permanent code w = (PermanentAdapterError code, w)"

definition abind :: "('e, 'a) action \<Rightarrow> ('a \<Rightarrow> ('e, 'b) action) \<Rightarrow> ('e, 'b) action" where
  "abind m f w =
     (case m w of
        (Returned x, w') \<Rightarrow> f x w'
      | (RetryableAdapterError code, w') \<Rightarrow> (RetryableAdapterError code, w')
      | (PermanentAdapterError code, w') \<Rightarrow> (PermanentAdapterError code, w')
      | (OtherError e, w') \<Rightarrow> (OtherError e, w'))"

text \<open>A computation that does not touch the world and may raise.\<close>

definition alift :: "'a res \<Rightarrow> ('e, 'a) action" where
  "alift r w = (case r of Inl e \<Rightarrow> (OtherError e, w) | Inr x \<Rightarrow> (Returned x, w))"

fun amap :: "('a \<Rightarrow> ('e, 'b) action) \<Rightarrow> 'a list \<Rightarrow> ('e, 'b list) action" where
  "amap f [] = areturn []"
| "amap f (x # xs) = abind (f x) (\<lambda>y. abind (amap f xs) (\<lambda>ys. areturn (y # ys)))"

text \<open>A call on the environment.\<close>

definition on_env :: "('e \<Rightarrow> 'a \<times> 'e) \<Rightarrow> ('e, 'a) action" where
  "on_env f w = (let (x, e) = f (w_env w) in (Returned x, w\<lparr>w_env := e\<rparr>))"

definition read_secret :: "'e services \<Rightarrow> string \<Rightarrow> ('e, string) action" where
  "read_secret sv path w = alift (read_secret_file (sv_files sv (w_env w)) path False) w"

section \<open>Handlers\<close>

text \<open>
  The engine and the routes raise exceptions; a handler returns the exception or its value, and
  the world either way: what was committed before the exception stays.
\<close>

type_synonym ('e, 'a) handler = "'e world \<Rightarrow> 'a res \<times> 'e world"

definition hreturn :: "'a \<Rightarrow> ('e, 'a) handler" where
  "hreturn x w = (Inr x, w)"

definition hraise :: "repo_error \<Rightarrow> ('e, 'a) handler" where
  "hraise e w = (Inl e, w)"

definition hbind :: "('e, 'a) handler \<Rightarrow> ('a \<Rightarrow> ('e, 'b) handler) \<Rightarrow> ('e, 'b) handler" where
  "hbind m f w = (case m w of (Inl e, w') \<Rightarrow> (Inl e, w') | (Inr x, w') \<Rightarrow> f x w')"

definition hlift :: "'a res \<Rightarrow> ('e, 'a) handler" where
  "hlift r w = (r, w)"

text \<open>A gate of the process environment.\<close>

definition gate_open :: "'e services \<Rightarrow> string \<Rightarrow> 'e world \<Rightarrow> bool" where
  "gate_open sv name w \<longleftrightarrow> enabled (sv_env sv (w_env w)) name"

text \<open>
  One, two or three readings of the clock. The repository's methods read it themselves; where a
  method does not reach its reading, the model reads it all the same: a reading changes nothing
  but the state of the clock.
\<close>

definition tick :: "'e services \<Rightarrow> 'e world \<Rightarrow> time \<times> 'e world" where
  "tick sv w = (let (t, e) = sv_now sv (w_env w) in (t, w\<lparr>w_env := e\<rparr>))"

definition with_clock :: "'e services \<Rightarrow> (time \<Rightarrow> db \<Rightarrow> 'a \<times> db) \<Rightarrow> 'e world \<Rightarrow> 'a \<times> 'e world" where
  "with_clock sv f w =
     (let (t, w1) = tick sv w; (x, d) = f t (w_db w1) in (x, w1\<lparr>w_db := d\<rparr>))"

definition with_clock2 ::
  "'e services \<Rightarrow> (time \<Rightarrow> time \<Rightarrow> db \<Rightarrow> 'a \<times> db) \<Rightarrow> 'e world \<Rightarrow> 'a \<times> 'e world" where
  "with_clock2 sv f w = (let (t, w1) = tick sv w in with_clock sv (f t) w1)"

definition with_clock3 ::
  "'e services \<Rightarrow> (time \<Rightarrow> time \<Rightarrow> time \<Rightarrow> db \<Rightarrow> 'a \<times> db) \<Rightarrow> 'e world \<Rightarrow> 'a \<times> 'e world" where
  "with_clock3 sv f w = (let (t, w1) = tick sv w in with_clock2 sv (f t) w1)"

text \<open>A timed write to the database, within an adapter.\<close>

definition awrite :: "'e services \<Rightarrow> (time \<Rightarrow> db \<Rightarrow> db) \<Rightarrow> ('e, unit) action" where
  "awrite sv f w = (Returned (), snd (with_clock sv (\<lambda>t d. ((), f t d)) w))"

section \<open>Rules\<close>

lemma abind_simps [simp]:
  "abind (areturn x) f = f x"
  "abind (permanent c) f = permanent c"
  by (auto simp: abind_def areturn_def permanent_def fun_eq_iff)

lemma abind_Returned: "m w = (Returned x, w') \<Longrightarrow> abind m f w = f x w'"
  by (simp add: abind_def)

lemma hbind_simps [simp]:
  "hbind (hreturn x) f = f x"
  "hbind (hraise e) f = hraise e"
  by (auto simp: hbind_def hreturn_def hraise_def fun_eq_iff)

lemma hbind_InrE:
  assumes "hbind m f w = (Inr y, w'')"
  obtains x w' where "m w = (Inr x, w')" "f x w' = (Inr y, w'')"
  using assms by (auto simp: hbind_def split: prod.splits sum.splits)

lemma tick_db [simp]: "w_db (snd (tick sv w)) = w_db w"
  by (simp add: tick_def split: prod.split)

lemma tick_eqD: "tick sv w = (t, w') \<Longrightarrow> w_db w' = w_db w"
  using tick_db [of sv w] by simp

lemma with_clockE:
  assumes "with_clock sv f w = (x, w')"
  obtains t w1 d where "tick sv w = (t, w1)" "f t (w_db w1) = (x, d)" "w' = w1\<lparr>w_db := d\<rparr>" "w_db w1 = w_db w"
  using assms by (auto simp: with_clock_def Let_def split: prod.splits dest: tick_eqD)

text \<open>
  An action keeps a relation between databases when it holds between the database before and
  after it, whatever its outcome; the actions of this theory keep every reflexive one, and
  sequencing keeps every reflexive and transitive one.
\<close>

definition keeps :: "(db \<Rightarrow> db \<Rightarrow> bool) \<Rightarrow> ('e world \<Rightarrow> 'a \<times> 'e world) \<Rightarrow> bool" where
  "keeps R m \<longleftrightarrow> (\<forall>w. R (w_db w) (w_db (snd (m w))))"

named_theorems keeps_intros \<open>which actions keep a relation\<close>

lemma keepsI: "(\<And>w. R (w_db w) (w_db (snd (m w)))) \<Longrightarrow> keeps R m"
  by (simp add: keeps_def)

lemma keepsD: "keeps R m \<Longrightarrow> m w = (x, w') \<Longrightarrow> R (w_db w) (w_db w')"
  by (metis keeps_def snd_conv)

lemma keeps_pure [keeps_intros]:
  assumes "reflp R"
  shows "keeps R (areturn x)" and "keeps R (permanent c)" and "keeps R (alift r)"
    and "keeps R (on_env f)" and "keeps R (read_secret sv path)" and "keeps R (hreturn x)"
    and "keeps R (hraise e)" and "keeps R (hlift r')"
  using assms
  by (auto simp: keeps_def areturn_def permanent_def alift_def on_env_def read_secret_def hreturn_def
      hraise_def hlift_def reflp_def split: prod.split sum.split)

lemma keeps_abind [keeps_intros]:
  assumes "transp R" and "keeps R m" and "\<And>x. keeps R (f x)"
  shows "keeps R (abind m f)"
proof (rule keepsI)
  fix w
  obtain r w' where m: "m w = (r, w')" by (cases "m w")
  then have "R (w_db w) (w_db w')" using assms(2) by (rule keepsD [rotated])
  moreover have "R (w_db w') (w_db (snd (f x w')))" for x using assms(3) by (simp add: keeps_def)
  ultimately show "R (w_db w) (w_db (snd (abind m f w)))"
    using assms(1) by (auto simp: abind_def m dest: transpD split: outcome.split)
qed

lemma keeps_hbind [keeps_intros]:
  assumes "transp R" and "keeps R m" and "\<And>x. keeps R (f x)"
  shows "keeps R (hbind m f)"
proof (rule keepsI)
  fix w
  obtain r w' where m: "m w = (r, w')" by (cases "m w")
  then have "R (w_db w) (w_db w')" using assms(2) by (rule keepsD [rotated])
  moreover have "R (w_db w') (w_db (snd (f x w')))" for x using assms(3) by (simp add: keeps_def)
  ultimately show "R (w_db w) (w_db (snd (hbind m f w)))"
    using assms(1) by (auto simp: hbind_def m dest: transpD split: sum.split)
qed

lemma keeps_amap [keeps_intros]:
  assumes "reflp R" and "transp R" and "\<And>x. x \<in> set xs \<Longrightarrow> keeps R (f x)"
  shows "keeps R (amap f xs)"
  using assms(3) by (induction xs) (auto intro!: keeps_intros assms(1,2))

lemma keeps_if [keeps_intros]: "keeps R m \<Longrightarrow> keeps R m' \<Longrightarrow> keeps R (if c then m else m')"
  by simp

lemma keeps_tick [keeps_intros]: "reflp R \<Longrightarrow> keeps R (\<lambda>w. let (t, w') = tick sv w in (f t, w'))"
  by (simp add: keeps_def split_beta reflpD)

lemma keeps_read [keeps_intros]: "reflp R \<Longrightarrow> keeps R (\<lambda>w. (f w, w))"
  by (simp add: keeps_def reflpD)

lemma keeps_clock [keeps_intros]:
  "(\<And>t d. R d (snd (f t d))) \<Longrightarrow> keeps R (with_clock sv f)"
  by (auto simp: keeps_def with_clock_def Let_def split_beta)

lemma keeps_clock2 [keeps_intros]:
  assumes "\<And>t t' d. R d (snd (f t t' d))"
  shows "keeps R (with_clock2 sv f)"
proof (rule keepsI)
  fix w
  obtain t w1 where w1: "tick sv w = (t, w1)" by (cases "tick sv w")
  have "keeps R (with_clock sv (f t))" using assms by (rule keeps_clock)
  then have "R (w_db w1) (w_db (snd (with_clock sv (f t) w1)))" by (simp add: keeps_def)
  then show "R (w_db w) (w_db (snd (with_clock2 sv f w)))"
    by (simp add: with_clock2_def w1 tick_eqD [OF w1])
qed

lemma keeps_clock3 [keeps_intros]:
  assumes "\<And>t t' t'' d. R d (snd (f t t' t'' d))"
  shows "keeps R (with_clock3 sv f)"
proof (rule keepsI)
  fix w
  obtain t w1 where w1: "tick sv w = (t, w1)" by (cases "tick sv w")
  have "keeps R (with_clock2 sv (f t))" using assms by (rule keeps_clock2)
  then have "R (w_db w1) (w_db (snd (with_clock2 sv (f t) w1)))" by (simp add: keeps_def)
  then show "R (w_db w) (w_db (snd (with_clock3 sv f w)))"
    by (simp add: with_clock3_def w1 tick_eqD [OF w1])
qed

lemma keeps_prod [keeps_intros]:
  "(\<And>x y. keeps R (f x y)) \<Longrightarrow> keeps R (case p of (x, y) \<Rightarrow> f x y)"
  by (cases p) simp

lemma keeps_option [keeps_intros]:
  "keeps R m \<Longrightarrow> (\<And>x. keeps R (f x)) \<Longrightarrow> keeps R (case v of None \<Rightarrow> m | Some x \<Rightarrow> f x)"
  by (cases v) simp_all

lemma keeps_awrite [keeps_intros]: "(\<And>t d. R d (f t d)) \<Longrightarrow> keeps R (awrite sv f)"
  by (auto simp: keeps_def awrite_def with_clock_def Let_def split_beta)

text \<open>The three tables of the step machine are as they were.\<close>

definition same_steps :: "db \<Rightarrow> db \<Rightarrow> bool" where
  "same_steps d d' \<longleftrightarrow>
     tbl_executions d' = tbl_executions d \<and> tbl_steps d' = tbl_steps d \<and>
     tbl_dead_letters d' = tbl_dead_letters d"

lemma same_steps_preorder [simp, keeps_intros]: "reflp same_steps" "transp same_steps"
  by (auto simp: same_steps_def reflp_def transp_def)

lemma same_steps_run: "same_steps d d' \<Longrightarrow> (store_step sha 0)\<^sup>*\<^sup>* d d'"
  by (auto simp: same_steps_def intro: store_step.elsewhere)

text \<open>
  What an adapter may change of the store: the credentials and the mailbox mock.
\<close>

definition adapter_frame :: "db \<Rightarrow> db \<Rightarrow> bool" where
  "adapter_frame d d' \<longleftrightarrow>
     tbl_executions d' = tbl_executions d \<and> tbl_steps d' = tbl_steps d \<and>
     tbl_dead_letters d' = tbl_dead_letters d \<and> tbl_callback_events d' = tbl_callback_events d \<and>
     tbl_replay_jti d' = tbl_replay_jti d \<and> tbl_rate_windows d' = tbl_rate_windows d \<and>
     tbl_compensation_actions d' = tbl_compensation_actions d \<and>
     tbl_verification_records d' = tbl_verification_records d \<and>
     tbl_sip_browser_sessions d' = tbl_sip_browser_sessions d"

lemma adapter_frame_preorder [simp, keeps_intros]: "reflp adapter_frame" "transp adapter_frame"
  by (auto simp: adapter_frame_def reflp_def transp_def)

lemma adapter_frame_steps: "adapter_frame d d' \<Longrightarrow> same_steps d d'"
  by (simp add: adapter_frame_def same_steps_def)

lemma keeps_weaken: "keeps R m \<Longrightarrow> (\<And>d d'. R d d' \<Longrightarrow> R' d d') \<Longrightarrow> keeps R' m"
  by (simp add: keeps_def)

section \<open>A sample environment\<close>

text \<open>
  The services the concrete instances of the properties run on: a clock that stands still, the
  approved process environment, a secret in every file, and the HTTP side as given.
\<close>

definition sample_services :: "(http_request \<Rightarrow> 'e \<Rightarrow> http_reply \<times> 'e) \<Rightarrow> 'e services" where
  "sample_services http =
     \<lparr>sv_now = (\<lambda>e. (seconds 1000, e)), sv_http = http,
      sv_uuid4 = (\<lambda>e. (''00000000-0000-4000-8000-000000000000'', e)),
      sv_token = (\<lambda>e. (''token'', e)), sv_encrypt = (\<lambda>key text e. (key @ text, e)),
      sv_files = (\<lambda>_ path. Some \<lparr>fs_symlink = False, fs_is_file = True, fs_mode = 0x180,
        fs_text = Some ''secret''\<rparr>),
      sv_env = (\<lambda>_. sample_env), sv_sha256 = (\<lambda>s. s), sv_hmac = (\<lambda>key s. key @ s),
      sv_turn_hmac = (\<lambda>key s. key @ s), sv_uuid5 = (\<lambda>s. s), sv_fernet_key = (\<lambda>_. True),
      sv_json_loads = (\<lambda>_. None), sv_json_time = iso_text\<rparr>"

end
