(* ===== verification/Provider_Adapters.thy ===== *)
theory Provider_Adapters
  imports World
begin

text \<open>
  The provider adapters (\<^verbatim>\<open>app/adapters.py\<close>) apart from Keycloak's: the disabled adapter, the generic
  HTTP adapter and the hosted-mail boundary on top of it, the telephony boundary, the mailbox mock
  and the secret storage. An adapter is the table of its methods, indexed by the operation; the
  remote side of every call is the HTTP service of the environment.
\<close>

section \<open>The adapter interface\<close>

type_synonym 'e adapter = "operation \<Rightarrow> step_command \<Rightarrow> ('e, dict) action"

text \<open>
  \<^verbatim>\<open>ProvisioningAdapter.execute\<close> looks the method up by the operation's value; no adapter has one
  for \<^verbatim>\<open>cancel\<close>.
\<close>

definition execute :: "'e adapter \<Rightarrow> step_command \<Rightarrow> ('e, dict) action" where
  "execute a command =
     (if operation command = Cancel then permanent ''unsupported_adapter_operation''
      else a (operation command) command)"

definition disabled_adapter :: "string \<Rightarrow> 'e adapter" where
  "disabled_adapter system oper command = permanent (system @ ''_adapter_not_configured'')"

section \<open>What the HTTP adapters share\<close>

text \<open>The command as \<^verbatim>\<open>model_dump(mode="json")\<close> gives it.\<close>

definition envelope_items :: "(time \<Rightarrow> string) \<Rightarrow> 'a request_envelope_scheme \<Rightarrow> dict" where
  "envelope_items json_time e =
     [(''schema_version'', JStr (schema_version e)), (''request_id'', JStr (request_id e)),
      (''correlation_id'', JStr (correlation_id e)), (''idempotency_key'', JStr (idempotency_key e)),
      (''employee_id'', JStr (employee_id e)),
      (''target_system'', JStr (target_value (target_system e))),
      (''operation'', JStr (operation_value (operation e))),
      (''timestamp'', JStr (json_time (timestamp e)))]"

definition command_json :: "(time \<Rightarrow> string) \<Rightarrow> step_command \<Rightarrow> json" where
  "command_json json_time c =
     JObj (envelope_items json_time c @
       [(''payload'', JObj (payload c)), (''step_id'', JStr (step_id c)),
        (''sequence'', JInt (sequence c)), (''max_attempts'', JInt (max_attempts c)),
        (''mandatory'', JBool (mandatory c))])"

definition retryable_status :: "int \<Rightarrow> bool" where
  "retryable_status status \<longleftrightarrow> status \<in> {408, 425, 429} \<or> 500 \<le> status"

text \<open>
  The POST, with the two transport errors under the adapter's code origin; the status check, with the
  statuses an adapter gives a code of their own; and the check that the body is an object.
\<close>

definition transport ::
  "'e services \<Rightarrow> string \<Rightarrow> http_request \<Rightarrow> ('e, int \<times> string \<times> json option \<times> string option) action" where
  "transport sv origin request w =
     (case sv_http sv request (w_env w) of
        (HttpResponse status content body loc, e) \<Rightarrow>
          (Returned (status, content, body, loc), w\<lparr>w_env := e\<rparr>)
      | (NetworkFailure, e) \<Rightarrow>
          (RetryableAdapterError (origin @ ''_transport_unavailable''), w\<lparr>w_env := e\<rparr>)
      | (OtherHttpFailure, e) \<Rightarrow>
          (PermanentAdapterError (origin @ ''_transport_rejected''), w\<lparr>w_env := e\<rparr>)
      | (ClientRaised err, e) \<Rightarrow> (OtherError err, w\<lparr>w_env := e\<rparr>))"

definition check_status :: "string \<Rightarrow> (int \<times> string) list \<Rightarrow> int \<Rightarrow> ('e, unit) action" where
  "check_status origin special status w =
     (if retryable_status status
      then (RetryableAdapterError (origin @ ''_http_'' @ str_int status), w)
      else case map_of special status of
        Some code \<Rightarrow> (PermanentAdapterError code, w)
      | None \<Rightarrow>
          if 400 \<le> status then (PermanentAdapterError (origin @ ''_http_'' @ str_int status), w)
          else (Returned (), w))"

definition object_body :: "string \<Rightarrow> json option \<Rightarrow> ('e, dict) action" where
  "object_body origin body =
     (case body of
        Some (JObj d) \<Rightarrow> areturn d
      | _ \<Rightarrow> permanent (origin @ ''_invalid_response''))"

section \<open>The generic HTTP adapter\<close>

record http_config =
  hc_system :: string
  hc_base_url :: string
  hc_credential_file :: string
  hc_ca_file :: string
  hc_routes :: "(string \<times> json) list"

text \<open>The constructor; a route of the configuration overrides the default, the operation itself.\<close>

definition default_routes :: "(string \<times> json) list" where
  "default_routes = map (\<lambda>oper. (operation_value oper, JStr (operation_value oper))) all_operations"

definition new_http_adapter ::
  "string \<Rightarrow> string \<Rightarrow> string \<Rightarrow> string \<Rightarrow> dict option \<Rightarrow> http_config res" where
  "new_http_adapter system base_url credential_file ca_file routes =
     res_bind (urlsplit base_url) (\<lambda>parsed.
     if \<not> credential_free_https parsed
     then Inl (ValueError ''adapter URL must be credential-free HTTPS'')
     else Inr \<lparr>hc_system = system, hc_base_url = rstrip_slash base_url,
       hc_credential_file = credential_file, hc_ca_file = ca_file,
       hc_routes = dict_merge default_routes (case routes of None \<Rightarrow> [] | Some r \<Rightarrow> r)\<rparr>)"

text \<open>A route that is not a text has no \<^verbatim>\<open>lstrip\<close>.\<close>

definition route_text :: "http_config \<Rightarrow> step_command \<Rightarrow> string res" where
  "route_text hc c =
     (case dict_get_default (hc_routes hc) (operation_value (operation c))
             (JStr (operation_value (operation c))) of
        JStr route \<Rightarrow> Inr route
      | _ \<Rightarrow> Inl AttributeError)"

definition http_call :: "'e services \<Rightarrow> http_config \<Rightarrow> step_command \<Rightarrow> ('e, dict) action" where
  "http_call sv hc c =
     abind (read_secret sv (hc_credential_file hc)) (\<lambda>credential.
     abind (alift (route_text hc c)) (\<lambda>route.
     abind (transport sv (hc_system hc)
       \<lparr>rq_method = ''POST'', rq_url = hc_base_url hc @ ''/'' @ lstrip_slash route, rq_params = [],
        rq_headers =
          [(''Authorization'', ''Bearer '' @ credential), (''Idempotency-Key'', idempotency_key c),
           (''X-Correlation-ID'', correlation_id c),
           (''X-Codestra-Schema-Version'', schema_version c)],
        rq_body = JsonBody (command_json (sv_json_time sv) c)\<rparr>) (\<lambda>(status, content, body, loc).
     abind (check_status (hc_system hc) [] status) (\<lambda>_.
     abind (object_body (hc_system hc) body) (\<lambda>body.
     areturn
       [(''state'', dict_get_default body ''state''
           (JStr (if operation c = Verify then ''verified'' else ''succeeded''))),
        (''external_id'', dict_get body ''external_id''),
        (''external_reference'', dict_get body ''external_reference''),
        (''credential_reference'', dict_get body ''credential_reference''),
        (''response_hash'', JStr (sv_sha256 sv (compact_json (JObj body))))])))))"

definition http_adapter :: "'e services \<Rightarrow> http_config \<Rightarrow> 'e adapter" where
  "http_adapter sv hc oper c = http_call sv hc c"

section \<open>The hosted-mail boundary\<close>

definition mailbox_routes :: "(string \<times> string) list" where
  "mailbox_routes =
     [(''check_availability'', ''mailboxes/check-availability''),
      (''reserve_address'', ''mailboxes/reserve''),
      (''create_mailbox_disabled'', ''mailboxes/create-disabled''),
      (''assign_license'', ''mailboxes/assign-license''),
      (''create_alias'', ''mailboxes/create-alias''),
      (''send_activation'', ''mailboxes/send-activation''),
      (''verify_mailbox'', ''mailboxes/verify''),
      (''activate_mailbox'', ''mailboxes/activate''),
      (''suspend_mailbox'', ''mailboxes/suspend''),
      (''reactivate_mailbox'', ''mailboxes/reactivate''),
      (''terminate_mailbox'', ''mailboxes/terminate''),
      (''reconcile_mailbox'', ''mailboxes/reconcile'')]"

definition forbidden_keys :: "string list" where
  "forbidden_keys =
     [''password'', ''password_hash'', ''temporary_password'', ''token'', ''secret'', ''private_key'',
      ''recovery_code'']"

definition assert_secret_free :: "dict \<Rightarrow> ('e, unit) action" where
  "assert_secret_free d =
     (if list_ex (\<lambda>k. k \<in> set forbidden_keys) (walk_keys (JObj d))
      then permanent ''email_provider_returned_forbidden_secret'' else areturn ())"

definition mailbox_call ::
  "'e services \<Rightarrow> http_config \<Rightarrow> string \<Rightarrow> dict \<Rightarrow> string \<Rightarrow> ('e, dict) action" where
  "mailbox_call sv hc oper body key =
     abind (assert_secret_free body) (\<lambda>_.
     abind (read_secret sv (hc_credential_file hc)) (\<lambda>credential.
     abind (alift (case map_of mailbox_routes oper of None \<Rightarrow> Inl KeyError | Some r \<Rightarrow> Inr r)) (\<lambda>route.
     abind (transport sv ''email_provider''
       \<lparr>rq_method = ''POST'', rq_url = hc_base_url hc @ ''/'' @ route, rq_params = [],
        rq_headers = [(''Authorization'', ''Bearer '' @ credential),
          (''Idempotency-Key'', key), (''X-Correlation-ID'', key)],
        rq_body = JsonBody (JObj body)\<rparr>) (\<lambda>(status, content, reply, loc).
     abind (check_status ''email_provider''
       [(409, ''email_address_collision''), (402, ''email_license_exhausted'')] status) (\<lambda>_.
     abind (object_body ''email_provider'' reply) (\<lambda>reply.
     abind (assert_secret_free reply) (\<lambda>_. areturn reply)))))))"

text \<open>
  The methods of the provider contract; the three groups take an address, a mailbox, and a mailbox
  with one more value.
\<close>

definition address_call ::
  "'e services \<Rightarrow> http_config \<Rightarrow> string \<Rightarrow> string \<Rightarrow> string \<Rightarrow> ('e, dict) action" where
  "address_call sv hc oper email_address key =
     mailbox_call sv hc oper [(''email_address'', JStr email_address)] key"

definition external_call ::
  "'e services \<Rightarrow> http_config \<Rightarrow> string \<Rightarrow> string \<Rightarrow> string \<Rightarrow> ('e, dict) action" where
  "external_call sv hc oper external_mailbox_id key =
     mailbox_call sv hc oper [(''external_mailbox_id'', JStr external_mailbox_id)] key"

definition create_alias ::
  "'e services \<Rightarrow> http_config \<Rightarrow> string \<Rightarrow> string \<Rightarrow> string \<Rightarrow> ('e, dict) action" where
  "create_alias sv hc external_mailbox_id alias key =
     mailbox_call sv hc ''create_alias''
       [(''external_mailbox_id'', JStr external_mailbox_id), (''alias'', JStr alias)] key"

definition send_activation ::
  "'e services \<Rightarrow> http_config \<Rightarrow> string \<Rightarrow> string \<Rightarrow> string \<Rightarrow> ('e, dict) action" where
  "send_activation sv hc external_mailbox_id activation_recipient key =
     mailbox_call sv hc ''send_activation''
       [(''external_mailbox_id'', JStr external_mailbox_id),
        (''activation_recipient'', JStr activation_recipient),
        (''activation_method'', JStr ''provider_one_time_reset'')] key"

section \<open>The mailbox mock\<close>

text \<open>
  \<^verbatim>\<open>payload.get("email_address")\<close> may be any JSON value: a falsy one is no address, and a value that
  is not a text fails when a new mailbox would be derived from it, and conflicts with an existing
  one.
\<close>

definition mock_transition :: "'e services \<Rightarrow> step_command \<Rightarrow> ('e, mock_mailbox_row) action" where
  "mock_transition sv c w =
     (let oper = operation_value (operation c);
          transition = (\<lambda>email. with_clock sv
            (\<lambda>t. transition_mock_mailbox (sv_sha256 sv) t (employee_id c) oper email) w);
          settle = (\<lambda>(r, w'). case r of
              Inr row \<Rightarrow> (Returned row, w')
            | Inl (IdempotencyConflict code) \<Rightarrow> (PermanentAdapterError code, w')
            | Inl (ValueError code) \<Rightarrow> (PermanentAdapterError code, w')
            | Inl (LookupError code) \<Rightarrow> (PermanentAdapterError code, w')
            | Inl e \<Rightarrow> (OtherError e, w'))
      in case dict_get (payload c) ''email_address'' of
           JStr s \<Rightarrow> settle (transition (Some s))
         | v \<Rightarrow>
             if truthy v \<and> oper = ''create_disabled''
             then (case mailbox_of (employee_id c) (w_db w) of
                     None \<Rightarrow> (OtherError AttributeError, w)
                   | Some _ \<Rightarrow> (PermanentAdapterError ''mock_mailbox_identity_conflict'', w))
             else settle (transition None))"

definition mailbox_mock :: "'e services \<Rightarrow> 'e adapter" where
  "mailbox_mock sv oper c =
     (if oper = Update then permanent ''mock_mailbox_update_unsupported''
      else if oper = RotateCredentials then permanent ''mock_mailbox_has_no_credentials''
      else abind (mock_transition sv c) (\<lambda>row.
        areturn
          [(''state'', JStr
              (if operation c = Verify then ''verified''
               else if operation c = Reconcile then ''aligned'' else mm_provisioning_state row)),
           (''actual_state'', JStr (mm_provisioning_state row)),
           (''external_id'', JStr (mm_external_mailbox_id row)),
           (''external_reference'', JStr ''deterministic_internal_mock''),
           (''credential_reference'', JStr (mm_credential_reference row))]))"

section \<open>The telephony boundary\<close>

record telephony_config =
  tc_system :: string
  tc_base_url :: string
  tc_hmac_key_file :: string
  tc_ca_file :: string
  tc_client_cert_file :: string
  tc_client_key_file :: string
  tc_service_identity :: string
  tc_required_scope :: string

definition operation_map :: "string \<Rightarrow> (operation \<times> string) list option" where
  "operation_map system =
     map_of
       [(''vicidial'',
          [(CreateDisabled, ''create_user_disabled''), (Update, ''update_user''),
           (Verify, ''verify_user''), (Activate, ''activate_user''), (Suspend, ''disable_user''),
           (Reactivate, ''activate_user''), (Terminate, ''disable_user''), (Reconcile, ''reconcile'')]),
        (''sip'',
          [(CreateDisabled, ''create_phone_disabled''), (Update, ''update_phone''),
           (Verify, ''verify_phone''), (Activate, ''activate_phone''), (Suspend, ''disable_phone''),
           (Reactivate, ''activate_phone''), (Terminate, ''revoke_sip_secret''),
           (RotateCredentials, ''rotate_sip_secret''), (Reconcile, ''reconcile'')])] system"

definition new_telephony_adapter ::
  "string \<Rightarrow> string \<Rightarrow> string \<Rightarrow> string \<Rightarrow> string \<Rightarrow> string \<Rightarrow> string \<Rightarrow> string \<Rightarrow> telephony_config res" where
  "new_telephony_adapter system base_url hmac_key_file ca_file client_cert_file client_key_file
       service_identity required_scope =
     res_bind (urlsplit base_url) (\<lambda>parsed.
     if \<not> credential_free_https parsed
     then Inl (ValueError ''telephony adapter URL must be credential-free HTTPS'')
     else if operation_map system = None then Inl (ValueError ''unsupported telephony target'')
     else Inr \<lparr>tc_system = system, tc_base_url = rstrip_slash base_url,
       tc_hmac_key_file = hmac_key_file, tc_ca_file = ca_file,
       tc_client_cert_file = client_cert_file, tc_client_key_file = client_key_file,
       tc_service_identity = service_identity, tc_required_scope = required_scope\<rparr>)"

text \<open>The signed headers: \<open>stamp\<close> is the time in seconds, \<open>raw\<close> the serialised payload.\<close>

definition telephony_headers ::
  "'e services \<Rightarrow> telephony_config \<Rightarrow> string \<Rightarrow> string \<Rightarrow> string \<Rightarrow> string \<Rightarrow> string \<Rightarrow> (string \<times> string) list" where
  "telephony_headers sv tc key stamp nonce raw idempotency =
     (let newline = [char_of (10::nat)];
          msg = stamp @ newline @ nonce @ newline @ sv_sha256 sv raw
      in [(''X-Service-Identity'', tc_service_identity tc), (''X-Service-Scopes'', tc_required_scope tc),
          (''X-Request-Timestamp'', stamp), (''X-Request-Nonce'', nonce),
          (''X-Request-Signature'', sv_hmac sv key msg), (''Idempotency-Key'', idempotency),
          (''Content-Type'', ''application/json'')])"

text \<open>The state reported for an operation of Server B, and the mandatory members of the result.\<close>

definition telephony_state :: "string \<Rightarrow> dict \<Rightarrow> json" where
  "telephony_state oper body =
     (if oper = ''reconcile''
      then JStr (if equals_zero (dict_get body ''count'') then ''aligned'' else ''drift_detected'')
      else if starts_with oper ''verify_''
      then JStr (if truthy (dict_get body ''present'') then ''verified'' else ''failed'')
      else dict_get body ''state'')"

definition telephony_result :: "'e services \<Rightarrow> string \<Rightarrow> string \<Rightarrow> string \<Rightarrow> dict \<Rightarrow> dict" where
  "telephony_result sv oper raw content body =
     (let external_id = py_or (dict_get body ''username'') (dict_get body ''extension'') in
      [(''state'', py_or (telephony_state oper body) (JStr ''succeeded'')),
       (''external_id'', if external_id = JNull then JNull else JStr (py_str external_id)),
       (''external_reference'', JStr oper),
       (''response_hash'', JStr (sv_sha256 sv (raw @ content)))])"

text \<open>The temporary credential of a browser session: \<^verbatim>\<open>True\<close> is an \<^verbatim>\<open>int\<close>, but not in the range.\<close>

definition temporary_credential :: "telephony_config \<Rightarrow> dict \<Rightarrow> (string \<times> int) option" where
  "temporary_credential tc body =
     (case (dict_get body ''temporary_sip_credential'', dict_get body ''expires_in_seconds'') of
        (JStr credential, JInt expires_in) \<Rightarrow>
          if tc_system tc \<noteq> target_value Sip \<or> length credential < 32 \<or>
             expires_in < 60 \<or> 900 < expires_in
          then None else Some (credential, expires_in)
      | _ \<Rightarrow> None)"

definition telephony_call ::
  "'e services \<Rightarrow> telephony_config \<Rightarrow> bool \<Rightarrow> step_command \<Rightarrow> ('e, dict) action" where
  "telephony_call sv tc include_temporary c =
     abind (alift (case operation_map (tc_system tc) of None \<Rightarrow> Inl KeyError | Some ops \<Rightarrow> Inr ops)) (\<lambda>ops.
     case map_of ops (operation c) of
       None \<Rightarrow> permanent ''unsupported_telephony_operation''
     | Some oper \<Rightarrow>
     (let raw = compact_json (JObj (payload c)); origin = tc_system tc @ ''_provisioning'' in
     abind (on_env (sv_now sv)) (\<lambda>now.
     abind (on_env (sv_uuid4 sv)) (\<lambda>nonce.
     abind (read_secret sv (tc_hmac_key_file tc)) (\<lambda>key.
     abind (transport sv origin
       \<lparr>rq_method = ''POST'', rq_url = tc_base_url tc @ ''/v1/provisioning/'' @ oper, rq_params = [],
        rq_headers = telephony_headers sv tc key (str_int (epoch_seconds now))
          (filter (\<lambda>ch. ch \<noteq> CHR ''-'') nonce) raw (idempotency_key c),
        rq_body = RawBody raw\<rparr>) (\<lambda>(status, content, body, loc).
     abind (check_status origin [(403, origin @ ''_authorization_rejected'')] status) (\<lambda>_.
     abind (object_body origin body) (\<lambda>body.
     let result = telephony_result sv oper raw content body in
     if include_temporary
     then (case temporary_credential tc body of
             None \<Rightarrow> permanent ''sip_browser_credential_response_invalid''
           | Some (credential, expires_in) \<Rightarrow>
               areturn (result @ [(''temporary_sip_credential'', JStr credential),
                 (''expires_in_seconds'', JInt expires_in)]))
     else areturn result))))))))"

definition issue_browser_credential ::
  "'e services \<Rightarrow> telephony_config \<Rightarrow> step_command \<Rightarrow> ('e, dict) action" where
  "issue_browser_credential sv tc c =
     (if tc_system tc \<noteq> target_value Sip \<or> operation c \<noteq> RotateCredentials \<or>
         \<not> truthy (dict_get (payload c) ''browser_session_binding'')
      then permanent ''sip_browser_credential_request_invalid''
      else telephony_call sv tc True c)"

definition telephony_adapter :: "'e services \<Rightarrow> telephony_config \<Rightarrow> 'e adapter" where
  "telephony_adapter sv tc oper c = telephony_call sv tc False c"

section \<open>Secret storage\<close>

text \<open>The constructor reads the gate and the key; \<open>key\<close> is the key it holds.\<close>

definition new_secret_storage :: "'e services \<Rightarrow> string \<Rightarrow> ('e, string) handler" where
  "new_secret_storage sv key_file w =
     (if \<not> gate_open sv ''SECRET_STORAGE_GATE'' w
      then (Inl (RuntimeError ''secret_storage_gate_closed''), w)
      else case read_secret_file (sv_files sv (w_env w)) key_file False of
        Inl e \<Rightarrow> (Inl e, w)
      | Inr key \<Rightarrow>
          if sv_fernet_key sv key then (Inr key, w)
          else (Inl (ValueError ''invalid Fernet key''), w))"

definition create_credential :: "'e services \<Rightarrow> string \<Rightarrow> step_command \<Rightarrow> ('e, dict) action" where
  "create_credential sv key c =
     (let reference = ''vault:provisioning/'' @ employee_id c @ ''/'' @ step_id c in
      abind (on_env (sv_token sv)) (\<lambda>plaintext.
      abind (on_env (sv_encrypt sv key plaintext)) (\<lambda>ciphertext.
      abind (awrite sv (\<lambda>t. store_encrypted_credential t reference ciphertext
                    (sv_sha256 sv plaintext))) (\<lambda>_.
      areturn [(''state'', JStr ''succeeded''), (''credential_reference'', JStr reference),
        (''external_reference'', JStr (sv_sha256 sv plaintext))]))))"

definition terminate_credential :: "'e services \<Rightarrow> step_command \<Rightarrow> ('e, dict) action" where
  "terminate_credential sv c =
     (let reference = dict_get (payload c) ''credential_reference'' in
      abind (case reference of
          JStr r \<Rightarrow> awrite sv (\<lambda>t. revoke_credential t r)
        | _ \<Rightarrow> areturn ()) (\<lambda>_.
      areturn [(''state'', JStr ''succeeded''), (''credential_reference'', reference)]))"

definition secret_storage :: "'e services \<Rightarrow> string \<Rightarrow> 'e adapter" where
  "secret_storage sv key oper c =
     (case oper of
        CreateDisabled \<Rightarrow> create_credential sv key c
      | RotateCredentials \<Rightarrow> create_credential sv key c
      | Terminate \<Rightarrow> terminate_credential sv c
      | Verify \<Rightarrow> areturn [(''state'', JStr ''verified'')]
      | Reconcile \<Rightarrow> areturn [(''state'', JStr ''verified'')]
      | _ \<Rightarrow> permanent ''secret_storage_operation_unsupported'')"

section \<open>The contract of an adapter\<close>

text \<open>
  The engine relies on an adapter for one thing: whatever a method does and however it ends, it has
  touched nothing of the store but the credentials and the mailbox mock.
\<close>

locale provider_adapter =
  fixes methods :: "'e adapter"
  assumes frame: "keeps adapter_frame (methods oper c)"
begin

lemma execute_frame: "keeps adapter_frame (execute methods c)"
  by (simp add: execute_def frame keeps_pure)

lemma leaves_steps: "keeps same_steps (methods oper c)"
  using frame by (rule keeps_weaken) (rule adapter_frame_steps)

lemma execute_leaves_steps: "keeps same_steps (execute methods c)"
  using execute_frame by (rule keeps_weaken) (rule adapter_frame_steps)

end

lemma keeps_transport [keeps_intros]: "keeps adapter_frame (transport sv origin request)"
  by (auto simp: keeps_def transport_def adapter_frame_def split: prod.split http_reply.split)

lemma keeps_check_status [keeps_intros]: "keeps adapter_frame (check_status origin special status)"
  by (auto simp: keeps_def check_status_def adapter_frame_def split: option.split)

lemma keeps_object_body [keeps_intros]: "keeps adapter_frame (object_body origin body)"
  by (auto simp: keeps_def object_body_def areturn_def permanent_def adapter_frame_def
      split: option.split json.split)

lemma keeps_assert_secret_free [keeps_intros]: "keeps adapter_frame (assert_secret_free d)"
  by (auto simp: keeps_def assert_secret_free_def areturn_def permanent_def adapter_frame_def)

interpretation disabled: provider_adapter "disabled_adapter system"
  by unfold_locales (simp add: disabled_adapter_def keeps_pure)

interpretation http: provider_adapter "http_adapter sv hc"
  by unfold_locales (unfold http_adapter_def http_call_def, intro keeps_intros)

lemma keeps_mailbox_call [keeps_intros]: "keeps adapter_frame (mailbox_call sv hc oper body key)"
  unfolding mailbox_call_def by (intro keeps_intros)

lemma transition_leaves_steps: "adapter_frame d (snd (transition_mock_mailbox sha t e oper email d))"
  by (auto simp: adapter_frame_def transition_mock_mailbox_def create_mock_mailbox_def
      move_mock_mailbox_def insert_mailbox_def split: option.splits sum.splits if_splits)

lemma keeps_mock_transition [keeps_intros]: "keeps adapter_frame (mock_transition sv c)"
proof (rule keepsI)
  fix w
  have "adapter_frame (w_db w) (w_db (snd (with_clock sv
      (\<lambda>t. transition_mock_mailbox (sv_sha256 sv) t (employee_id c) oper email) w)))" for oper email
    using keeps_clock [of adapter_frame "\<lambda>t. transition_mock_mailbox (sv_sha256 sv) t (employee_id c) oper email" sv]
      transition_leaves_steps by (simp add: keeps_def)
  then show "adapter_frame (w_db w) (w_db (snd (mock_transition sv c w)))"
    using adapter_frame_preorder(1)
    by (auto simp: mock_transition_def Let_def split_beta reflp_def split: json.split option.split
        sum.split repo_error.split)
qed

interpretation mock: provider_adapter "mailbox_mock sv"
  by unfold_locales (unfold mailbox_mock_def, intro keeps_intros)

lemma keeps_telephony_call [keeps_intros]: "keeps adapter_frame (telephony_call sv tc temporary c)"
  unfolding telephony_call_def Let_def by (intro keeps_intros)

interpretation telephony: provider_adapter "telephony_adapter sv tc"
  by unfold_locales (unfold telephony_adapter_def, intro keeps_intros)

lemma credential_leaves_steps:
  "adapter_frame d (store_encrypted_credential t reference ciphertext fingerprint d)"
  "adapter_frame d (revoke_credential t reference d)"
  by (simp_all add: adapter_frame_def store_encrypted_credential_def revoke_credential_def)

lemma keeps_terminate_credential: "keeps adapter_frame (terminate_credential sv c)"
  unfolding terminate_credential_def Let_def
  by (cases "dict_get (payload c) ''credential_reference''")
     (auto intro!: keeps_intros credential_leaves_steps)

interpretation storage: provider_adapter "secret_storage sv key"
proof
  show "keeps adapter_frame (secret_storage sv key oper c)" for oper c
    by (cases oper)
       (auto simp: secret_storage_def create_credential_def Let_def keeps_terminate_credential
         intro!: keeps_intros credential_leaves_steps)
qed

end
