(* ===== verification/Keycloak.thy ===== *)
theory Keycloak
  imports Provider_Adapters
begin

text \<open>
  The Keycloak adapter (\<^verbatim>\<open>app/keycloak.py\<close>). Every method is a sequence of admin requests, each with a
  fresh token; the server's answers are JSON of unknown shape, and reading a member that is not
  there, or a document of another shape than the Admin API's, raises. Where Python would go on with
  an ill-typed answer (iterating over the characters of a text, say), the model raises as well.
  Entitlements are checked against the allowlists before the first request that grants one.
\<close>

section \<open>Reading JSON documents\<close>

definition as_object :: "json \<Rightarrow> dict res" where
  "as_object v = (case v of JObj d \<Rightarrow> Inr d | _ \<Rightarrow> Inl AttributeError)"

definition as_list :: "json \<Rightarrow> json list res" where
  "as_list v = (case v of JList vs \<Rightarrow> Inr vs | _ \<Rightarrow> Inl TypeError)"

definition as_string :: "json \<Rightarrow> string res" where
  "as_string v = (case v of JStr s \<Rightarrow> Inr s | _ \<Rightarrow> Inl TypeError)"

definition string_list :: "json \<Rightarrow> string list res" where
  "string_list v = res_bind (as_list v) (map_res as_string)"

text \<open>\<^verbatim>\<open>d[k]\<close>, \<^verbatim>\<open>v.get(k, default)\<close> and \<^verbatim>\<open>v[k]\<close>.\<close>

definition member :: "dict \<Rightarrow> string \<Rightarrow> json res" where
  "member d k = (case map_of d k of None \<Rightarrow> Inl KeyError | Some v \<Rightarrow> Inr v)"

definition get_or :: "json \<Rightarrow> string \<Rightarrow> json \<Rightarrow> json res" where
  "get_or v k fallback = res_bind (as_object v) (\<lambda>d. Inr (dict_get_default d k fallback))"

definition item :: "json \<Rightarrow> string \<Rightarrow> json res" where
  "item v k = res_bind (as_object v) (\<lambda>d. member d k)"

text \<open>\<^verbatim>\<open>x in keys\<close> for a text \<open>x\<close>.\<close>

definition py_in :: "string \<Rightarrow> json \<Rightarrow> bool res" where
  "py_in x keys =
     (case keys of
        JList vs \<Rightarrow> Inr (JStr x \<in> set vs)
      | JStr s \<Rightarrow> Inr (contains s x)
      | JObj d \<Rightarrow> Inr (x \<in> fst ` set d)
      | _ \<Rightarrow> Inl TypeError)"

text \<open>
  \<^verbatim>\<open>==\<close> on JSON values: members in any order, \<^verbatim>\<open>True\<close> is 1 and \<^verbatim>\<open>False\<close> is 0, a whole float is its
  integer.
\<close>

fun py_norm :: "json \<Rightarrow> json"
  and norm_items :: "dict \<Rightarrow> dict"
  and norm_list :: "json list \<Rightarrow> json list" where
  "py_norm (JBool b) = JInt (if b then 1 else 0)"
| "py_norm (JInt i) = JFloat (str_int i @ ''.0'')"
| "py_norm (JList vs) = JList (norm_list vs)"
| "py_norm (JObj kvs) = JObj (sort_key fst (norm_items kvs))"
| "py_norm v = v"
| "norm_items [] = []"
| "norm_items ((k, v) # kvs) = (k, py_norm v) # norm_items kvs"
| "norm_list [] = []"
| "norm_list (v # vs) = py_norm v # norm_list vs"

definition py_eq :: "json \<Rightarrow> json \<Rightarrow> bool" where
  "py_eq v w \<longleftrightarrow> py_norm v = py_norm w"

text \<open>\<^verbatim>\<open>urllib.parse.quote(s, safe)\<close>.\<close>

definition hex_upper :: "nat \<Rightarrow> char" where
  "hex_upper n = (if n < 10 then char_of (48 + n) else char_of (55 + n))"

definition url_quote :: "char set \<Rightarrow> string \<Rightarrow> string" where
  "url_quote safe s =
     concat (map (\<lambda>c.
       if is_word_char c \<or> c \<in> {CHR ''.'', CHR ''~''} \<or> c \<in> safe then [c]
       else let n = (of_char c :: nat) in [CHR ''%'', hex_upper (n div 16), hex_upper (n mod 16)]) s)"

definition quote :: "string \<Rightarrow> string" where
  "quote s = url_quote {CHR ''/''} s"

section \<open>The configuration\<close>

definition IDENTITY_ATTRIBUTES :: "string list" where
  "IDENTITY_ATTRIBUTES =
     [''employee_id'', ''company_id'', ''business_unit_id'', ''department_id'', ''team_id'',
      ''supervisor_id'', ''campaign_ids'', ''role_template'', ''agent_desktop_roles'']"

definition REQUIRED_ACTIONS :: "string list" where
  "REQUIRED_ACTIONS = [''CONFIGURE_TOTP'', ''UPDATE_PASSWORD'']"

record keycloak_config =
  kc_base_url :: string
  kc_realm :: string
  kc_client_id :: string
  kc_client_secret_file :: string
  kc_group_prefixes :: "string list"
  kc_realm_roles :: "string list"
  kc_client_roles :: "(string \<times> string list) list"
  kc_activation_clients :: "(string \<times> string list) list"

definition new_keycloak_adapter ::
  "string \<Rightarrow> string \<Rightarrow> string \<Rightarrow> string \<Rightarrow> string list \<Rightarrow> string list \<Rightarrow> (string \<times> string list) list \<Rightarrow>
     (string \<times> string list) list option \<Rightarrow> keycloak_config res" where
  "new_keycloak_adapter base_url realm client_id secret_file approved_group_prefixes
       approved_realm_roles approved_client_roles activation_clients =
     res_bind (urlsplit base_url) (\<lambda>parsed.
     if url_scheme parsed \<notin> {''http'', ''https''} \<or> url_username parsed \<noteq> [] \<or> url_password parsed \<noteq> []
     then Inl (ValueError ''invalid Keycloak URL'')
     else if url_scheme parsed = ''http'' \<and>
             url_hostname parsed \<notin> {''keycloak'', ''localhost'', ''127.0.0.1''}
     then Inl (ValueError ''plaintext Keycloak URL is restricted to the private staging network'')
     else Inr \<lparr>kc_base_url = rstrip_slash base_url, kc_realm = realm, kc_client_id = client_id,
       kc_client_secret_file = secret_file,
       kc_group_prefixes = map (\<lambda>p. rstrip_slash p @ ''/'') approved_group_prefixes,
       kc_realm_roles = approved_realm_roles, kc_client_roles = approved_client_roles,
       kc_activation_clients = (case activation_clients of None \<Rightarrow> [] | Some m \<Rightarrow> m)\<rparr>)"

section \<open>Requests\<close>

text \<open>A response: status, location header, and the body if it parses.\<close>

type_synonym kc_response = "int \<times> json option \<times> string option"

definition kc_transport ::
  "'e services \<Rightarrow> string \<Rightarrow> http_request \<Rightarrow> ('e, kc_response) action" where
  "kc_transport sv code request w =
     (case sv_http sv request (w_env w) of
        (HttpResponse status content body loc, e) \<Rightarrow> (Returned (status, body, loc), w\<lparr>w_env := e\<rparr>)
      | (NetworkFailure, e) \<Rightarrow> (RetryableAdapterError code, w\<lparr>w_env := e\<rparr>)
      | (OtherHttpFailure, e) \<Rightarrow> (OtherError (RuntimeError ''HTTPError''), w\<lparr>w_env := e\<rparr>)
      | (ClientRaised err, e) \<Rightarrow> (OtherError err, w\<lparr>w_env := e\<rparr>))"

text \<open>\<^verbatim>\<open>response.json()\<close>.\<close>

definition body_json :: "json option \<Rightarrow> json res" where
  "body_json body = (case body of None \<Rightarrow> Inl (ValueError ''invalid JSON'') | Some v \<Rightarrow> Inr v)"

definition raise_retryable :: "string \<Rightarrow> ('e, 'a) action" where
  "raise_retryable code w = (RetryableAdapterError code, w)"

definition kc_token :: "'e services \<Rightarrow> keycloak_config \<Rightarrow> ('e, string) action" where
  "kc_token sv kc =
     abind (read_secret sv (kc_client_secret_file kc)) (\<lambda>secret.
     abind (kc_transport sv ''keycloak_token_transport_unavailable''
       \<lparr>rq_method = ''POST'',
        rq_url = kc_base_url kc @ ''/realms/'' @ quote (kc_realm kc) @ ''/protocol/openid-connect/token'',
        rq_params = [], rq_headers = [],
        rq_body = FormBody [(''grant_type'', ''client_credentials''),
          (''client_id'', kc_client_id kc), (''client_secret'', secret)]\<rparr>) (\<lambda>(status, body, loc).
     if retryable_status status then raise_retryable ''keycloak_token_unavailable''
     else if status \<noteq> 200 then permanent ''keycloak_client_authentication_failed''
     else
     abind (alift (res_bind (body_json body) (\<lambda>v. get_or v ''access_token'' JNull))) (\<lambda>token.
     case token of JStr t \<Rightarrow> areturn t | _ \<Rightarrow> permanent ''keycloak_token_invalid'')))"

definition kc_request ::
  "'e services \<Rightarrow> keycloak_config \<Rightarrow> string \<Rightarrow> string \<Rightarrow> (string \<times> string) list \<Rightarrow> http_body \<Rightarrow>
     int list \<Rightarrow> ('e, kc_response) action" where
  "kc_request sv kc verb path params body expected =
     abind (kc_token sv kc) (\<lambda>token.
     abind (kc_transport sv ''keycloak_admin_transport_unavailable''
       \<lparr>rq_method = verb,
        rq_url = kc_base_url kc @ ''/admin/realms/'' @ quote (kc_realm kc) @ ''/'' @ lstrip_slash path,
        rq_params = params, rq_headers = [(''Authorization'', ''Bearer '' @ token)],
        rq_body = body\<rparr>) (\<lambda>(status, reply, loc).
     if retryable_status status then raise_retryable (''keycloak_admin_http_'' @ str_int status)
     else if status = 403 then permanent ''keycloak_admin_scope_missing''
     else if status \<notin> set expected then permanent (''keycloak_admin_http_'' @ str_int status)
     else areturn (status, reply, loc)))"

definition kc_get ::
  "'e services \<Rightarrow> keycloak_config \<Rightarrow> string \<Rightarrow> (string \<times> string) list \<Rightarrow> ('e, json) action" where
  "kc_get sv kc path params =
     abind (kc_request sv kc ''GET'' path params NoBody [200]) (\<lambda>(status, reply, loc).
     alift (body_json reply))"

definition kc_send ::
  "'e services \<Rightarrow> keycloak_config \<Rightarrow> string \<Rightarrow> string \<Rightarrow> http_body \<Rightarrow> ('e, unit) action" where
  "kc_send sv kc verb path body =
     abind (kc_request sv kc verb path [] body [204]) (\<lambda>_. areturn ())"

section \<open>Checks of the payload\<close>

definition attribute_values :: "json \<Rightarrow> json list" where
  "attribute_values v = (case v of JList vs \<Rightarrow> vs | _ \<Rightarrow> [v])"

definition attribute_ok :: "json \<Rightarrow> bool" where
  "attribute_ok v \<longleftrightarrow> (case v of JStr _ \<Rightarrow> True | JInt _ \<Rightarrow> True | JBool _ \<Rightarrow> True | _ \<Rightarrow> False)"

definition kc_attributes :: "dict \<Rightarrow> string \<Rightarrow> ('e, dict) action" where
  "kc_attributes body key =
     (case dict_get body ''attributes'' of
        JObj raw \<Rightarrow>
          if \<not> set IDENTITY_ATTRIBUTES \<subseteq> fst ` set raw
          then permanent ''keycloak_identity_attributes_incomplete''
          else if list_ex (\<lambda>k. let values = attribute_values (dict_get raw k)
                               in values = [] \<or> list_ex (\<lambda>v. \<not> attribute_ok v) values) IDENTITY_ATTRIBUTES
          then permanent ''keycloak_identity_attribute_invalid''
          else areturn
            (map (\<lambda>k. (k, JList (map (\<lambda>v. JStr (py_str v)) (attribute_values (dict_get raw k)))))
               IDENTITY_ATTRIBUTES @
             [(''provisioning_idempotency_key'', JList [JStr key]),
              (''lifecycle_state'', JList [JStr ''activation_pending''])])
      | _ \<Rightarrow> permanent ''keycloak_identity_attributes_required'')"

definition group_approved :: "keycloak_config \<Rightarrow> json \<Rightarrow> bool" where
  "group_approved kc v \<longleftrightarrow>
     (case v of JStr path \<Rightarrow> list_ex (starts_with path) (kc_group_prefixes kc) | _ \<Rightarrow> False)"

text \<open>\<^verbatim>\<open>isinstance(roles, list) and set(roles) <= approved\<close>; a set of lists raises.\<close>

definition roles_within :: "string list \<Rightarrow> json \<Rightarrow> bool res" where
  "roles_within approved roles =
     (case roles of
        JList vs \<Rightarrow>
          if list_ex (\<lambda>v. \<not> hashable v) vs then Inl TypeError
          else Inr (list_all (\<lambda>v. v \<in> JStr ` set approved) vs)
      | _ \<Rightarrow> Inr False)"

fun client_roles_within :: "keycloak_config \<Rightarrow> dict \<Rightarrow> bool res" where
  "client_roles_within kc [] = Inr True"
| "client_roles_within kc ((client_id, roles) # rest) =
     (case map_of (kc_client_roles kc) client_id of
        None \<Rightarrow> Inr False
      | Some approved \<Rightarrow>
          res_bind (roles_within approved roles) (\<lambda>ok.
          if ok then client_roles_within kc rest else Inr False))"

definition validate_entitlements :: "keycloak_config \<Rightarrow> dict \<Rightarrow> ('e, unit) action" where
  "validate_entitlements kc body =
     (let groups = dict_get_default body ''groups'' (JList []);
          realm_roles = dict_get_default body ''realm_roles'' (JList []);
          client_roles = dict_get_default body ''client_roles'' (JObj [])
      in if \<not> (case groups of JList vs \<Rightarrow> list_all (group_approved kc) vs | _ \<Rightarrow> False)
         then permanent ''keycloak_group_not_approved''
         else abind (alift (roles_within (kc_realm_roles kc) realm_roles)) (\<lambda>ok.
           if \<not> ok then permanent ''keycloak_realm_role_not_approved''
           else case client_roles of
             JObj d \<Rightarrow> abind (alift (client_roles_within kc d)) (\<lambda>ok.
               if ok then areturn () else permanent ''keycloak_client_role_not_approved'')
           | _ \<Rightarrow> permanent ''keycloak_client_role_not_approved''))"

section \<open>Users and entitlements\<close>

definition find_users ::
  "'e services \<Rightarrow> keycloak_config \<Rightarrow> (string \<times> string) list \<Rightarrow> ('e, json list) action" where
  "find_users sv kc params =
     abind (kc_get sv kc ''users'' ((''max'', ''20'') # params)) (\<lambda>users.
     case users of JList us \<Rightarrow> areturn us | _ \<Rightarrow> permanent ''keycloak_user_search_invalid'')"

definition by_username :: "'e services \<Rightarrow> keycloak_config \<Rightarrow> string \<Rightarrow> ('e, json list) action" where
  "by_username sv kc username =
     find_users sv kc [(''username'', username), (''exact'', ''true'')]"

definition by_employee :: "'e services \<Rightarrow> keycloak_config \<Rightarrow> string \<Rightarrow> ('e, json list) action" where
  "by_employee sv kc employee = find_users sv kc [(''q'', ''employee_id:'' @ employee)]"

definition user_for_command ::
  "'e services \<Rightarrow> keycloak_config \<Rightarrow> step_command \<Rightarrow> ('e, json) action" where
  "user_for_command sv kc c =
     abind (by_employee sv kc (employee_id c)) (\<lambda>users.
     case users of
       [] \<Rightarrow> permanent ''keycloak_identity_not_found''
     | [user] \<Rightarrow> areturn user
     | _ \<Rightarrow> permanent ''keycloak_duplicate_identity'')"

text \<open>\<^verbatim>\<open>f"{user['id']}"\<close>.\<close>

definition user_id_of :: "json \<Rightarrow> string res" where
  "user_id_of user = res_bind (item user ''id'') (\<lambda>v. Inr (py_str v))"

definition client_by_id :: "'e services \<Rightarrow> keycloak_config \<Rightarrow> string \<Rightarrow> ('e, json) action" where
  "client_by_id sv kc client_id =
     abind (kc_get sv kc ''clients'' [(''clientId'', client_id)]) (\<lambda>clients.
     case clients of
       JList [c] \<Rightarrow> areturn c
     | _ \<Rightarrow> permanent ''keycloak_entitlement_client_not_found'')"

definition grant_group ::
  "'e services \<Rightarrow> keycloak_config \<Rightarrow> string \<Rightarrow> string \<Rightarrow> ('e, unit) action" where
  "grant_group sv kc user_id path =
     abind (kc_get sv kc (''group-by-path/'' @ url_quote {} path) []) (\<lambda>group.
     abind (alift (user_id_of group)) (\<lambda>group_id.
     kc_send sv kc ''PUT'' (''users/'' @ user_id @ ''/groups/'' @ group_id) NoBody))"

definition grant_client ::
  "'e services \<Rightarrow> keycloak_config \<Rightarrow> string \<Rightarrow> string \<times> json \<Rightarrow> ('e, unit) action" where
  "grant_client sv kc user_id = (\<lambda>(client_id, names).
     abind (client_by_id sv kc client_id) (\<lambda>target.
     abind (alift (string_list names)) (\<lambda>names.
     abind (amap (\<lambda>name.
         abind (alift (user_id_of target)) (\<lambda>target_id.
         kc_get sv kc (''clients/'' @ target_id @ ''/roles/'' @ quote name) [])) names) (\<lambda>roles.
     if roles = [] then areturn ()
     else abind (alift (user_id_of target)) (\<lambda>target_id.
       kc_send sv kc ''POST''
         (''users/'' @ user_id @ ''/role-mappings/clients/'' @ target_id) (JsonBody (JList roles)))))))"

definition apply_entitlements ::
  "'e services \<Rightarrow> keycloak_config \<Rightarrow> string \<Rightarrow> dict \<Rightarrow> ('e, unit) action" where
  "apply_entitlements sv kc user_id body =
     abind (validate_entitlements kc body) (\<lambda>_.
     abind (alift (string_list (dict_get_default body ''groups'' (JList [])))) (\<lambda>groups.
     abind (amap (grant_group sv kc user_id) groups) (\<lambda>_.
     abind (alift (string_list (dict_get_default body ''realm_roles'' (JList [])))) (\<lambda>names.
     abind (amap (\<lambda>name. kc_get sv kc (''roles/'' @ quote name) []) names) (\<lambda>realm_roles.
     abind (if realm_roles = [] then areturn ()
            else kc_send sv kc ''POST'' (''users/'' @ user_id @ ''/role-mappings/realm'')
              (JsonBody (JList realm_roles))) (\<lambda>_.
     abind (alift (as_object (dict_get_default body ''client_roles'' (JObj [])))) (\<lambda>client_roles.
     abind (amap (grant_client sv kc user_id) client_roles) (\<lambda>_. areturn ()))))))))"

text \<open>\<^verbatim>\<open>_result\<close>; without evidence, or with an empty one, the state is the evidence.\<close>

definition kc_result :: "'e services \<Rightarrow> json \<Rightarrow> string \<Rightarrow> dict \<Rightarrow> dict" where
  "kc_result sv user_id state evidence =
     [(''state'', JStr state), (''external_id'', user_id), (''external_reference'', JStr state),
      (''response_hash'', JStr (sv_sha256 sv (default_json
         (JObj (if evidence = [] then [(''state'', JStr state)] else evidence)))))]"

section \<open>The methods\<close>

definition last_segment :: "string \<Rightarrow> string" where
  "last_segment loc = rev (takeWhile (\<lambda>c. c \<noteq> CHR ''/'') (rev (rstrip_slash loc)))"

text \<open>The user a repeated creation finds under its name: taken over if the key is the same.\<close>

definition resume_creation ::
  "'e services \<Rightarrow> step_command \<Rightarrow> json \<Rightarrow> ('e, dict) action" where
  "resume_creation sv c user =
     abind (alift (res_bind (get_or user ''attributes'' (JObj [])) (\<lambda>attributes.
            res_bind (get_or attributes ''provisioning_idempotency_key'' (JList []))
              (py_in (idempotency_key c))))) (\<lambda>known.
     if known
     then abind (alift (item user ''id'')) (\<lambda>uid. areturn (kc_result sv uid ''activation_pending'' []))
     else permanent ''keycloak_duplicate_username'')"

definition new_user :: "string \<Rightarrow> dict \<Rightarrow> dict \<Rightarrow> dict" where
  "new_user username body attributes =
     [(''username'', JStr username), (''email'', dict_get body ''email''),
      (''firstName'', dict_get body ''first_name''), (''lastName'', dict_get body ''last_name''),
      (''enabled'', JBool False), (''emailVerified'', JBool False),
      (''requiredActions'', JList (map JStr REQUIRED_ACTIONS)), (''attributes'', JObj attributes)]"

definition kc_create_disabled ::
  "'e services \<Rightarrow> keycloak_config \<Rightarrow> step_command \<Rightarrow> ('e, dict) action" where
  "kc_create_disabled sv kc c =
     (case dict_get (payload c) ''username'' of
        JStr username \<Rightarrow>
          if username = [] then permanent ''keycloak_username_required''
          else
          abind (validate_entitlements kc (payload c)) (\<lambda>_.
          abind (by_username sv kc username) (\<lambda>same_username.
          case same_username of
            user # _ \<Rightarrow> resume_creation sv c user
          | [] \<Rightarrow>
          abind (by_employee sv kc (employee_id c)) (\<lambda>same_identity.
          if same_identity \<noteq> [] then permanent ''keycloak_duplicate_identity''
          else
          abind (kc_attributes (payload c) (idempotency_key c)) (\<lambda>attributes.
          abind (kc_request sv kc ''POST'' ''users'' []
                   (JsonBody (JObj (new_user username (payload c) attributes))) [201])
            (\<lambda>(status, reply, loc).
          let uid = last_segment (case loc of None \<Rightarrow> [] | Some l \<Rightarrow> l) in
          abind (if uid \<noteq> [] then areturn (JStr uid)
                 else abind (by_username sv kc username) (\<lambda>created.
                   case created of
                     [user] \<Rightarrow> alift (item user ''id'')
                   | _ \<Rightarrow> permanent ''keycloak_created_user_not_found'')) (\<lambda>uid.
          abind (apply_entitlements sv kc (py_str uid) (payload c)) (\<lambda>_.
          areturn (kc_result sv uid ''activation_pending'' []))))))))
      | _ \<Rightarrow> permanent ''keycloak_username_required'')"

definition changed_fields :: "dict \<Rightarrow> dict" where
  "changed_fields body =
     concat (map (\<lambda>(source, target).
         case map_of body source of None \<Rightarrow> [] | Some v \<Rightarrow> [(target, v)])
       [(''email'', ''email''), (''first_name'', ''firstName''), (''last_name'', ''lastName'')])"

definition kc_update :: "'e services \<Rightarrow> keycloak_config \<Rightarrow> step_command \<Rightarrow> ('e, dict) action" where
  "kc_update sv kc c =
     abind (user_for_command sv kc c) (\<lambda>user.
     abind (validate_entitlements kc (payload c)) (\<lambda>_.
     abind (if map_of (payload c) ''attributes'' = None then areturn []
            else abind (kc_attributes (payload c) (idempotency_key c)) (\<lambda>attributes.
              areturn [(''attributes'', JObj attributes)])) (\<lambda>attributes.
     let representation = attributes @ changed_fields (payload c) in
     abind (if representation = [] then areturn ()
            else abind (alift (user_id_of user)) (\<lambda>uid.
              kc_send sv kc ''PUT'' (''users/'' @ uid) (JsonBody (JObj representation)))) (\<lambda>_.
     abind (alift (item user ''id'')) (\<lambda>uid.
     abind (apply_entitlements sv kc (py_str uid) (payload c)) (\<lambda>_.
     areturn (kc_result sv uid ''updated'' [])))))))"

text \<open>\<open>{**user.get("attributes", {}), "lifecycle_state": [state]}\<close>.\<close>

definition with_lifecycle :: "json \<Rightarrow> string \<Rightarrow> dict res" where
  "with_lifecycle user state =
     res_bind (get_or user ''attributes'' (JObj [])) (\<lambda>v.
     case v of
       JObj attributes \<Rightarrow> Inr (AList.update ''lifecycle_state'' (JList [JStr state]) attributes)
     | _ \<Rightarrow> Inl TypeError)"

definition redirect_approved :: "keycloak_config \<Rightarrow> dict \<Rightarrow> bool res" where
  "redirect_approved kc body =
     (case dict_get body ''activation_client'' of
        JStr client_id \<Rightarrow>
          (case map_of (kc_activation_clients kc) client_id of
             None \<Rightarrow> Inr False
           | Some uris \<Rightarrow> Inr (dict_get body ''redirect_uri'' \<in> JStr ` set uris))
      | v \<Rightarrow> if hashable v then Inr False else Inl TypeError)"

definition kc_activate :: "'e services \<Rightarrow> keycloak_config \<Rightarrow> step_command \<Rightarrow> ('e, dict) action" where
  "kc_activate sv kc c =
     abind (user_for_command sv kc c) (\<lambda>user.
     abind (alift (item user ''id'')) (\<lambda>uid.
     abind (alift (with_lifecycle user ''activation_pending'')) (\<lambda>attributes.
     abind (kc_send sv kc ''PUT'' (''users/'' @ py_str uid) (JsonBody (JObj
         [(''enabled'', JBool True), (''requiredActions'', JList (map JStr REQUIRED_ACTIONS)),
          (''attributes'', JObj attributes)]))) (\<lambda>_.
     abind (if truthy (dict_get (payload c) ''send_activation_link'')
            then abind (alift (redirect_approved kc (payload c))) (\<lambda>ok.
              if \<not> ok then permanent ''keycloak_activation_redirect_not_approved''
              else abind (kc_request sv kc ''PUT'' (''users/'' @ py_str uid @ ''/execute-actions-email'')
                  [(''client_id'', py_str (dict_get (payload c) ''activation_client'')),
                   (''redirect_uri'', py_str (dict_get (payload c) ''redirect_uri'')),
                   (''lifespan'', ''900'')]
                  (JsonBody (JList (map JStr REQUIRED_ACTIONS))) [204]) (\<lambda>_. areturn ()))
            else areturn ()) (\<lambda>_.
     areturn (kc_result sv uid ''awaiting_required_actions'' []))))))"

definition kc_set_enabled ::
  "'e services \<Rightarrow> keycloak_config \<Rightarrow> step_command \<Rightarrow> bool \<Rightarrow> string \<Rightarrow> ('e, dict) action" where
  "kc_set_enabled sv kc c on lifecycle_state =
     abind (user_for_command sv kc c) (\<lambda>user.
     abind (alift (item user ''id'')) (\<lambda>uid.
     abind (alift (with_lifecycle user lifecycle_state)) (\<lambda>attributes.
     abind (kc_send sv kc ''PUT'' (''users/'' @ py_str uid)
         (JsonBody (JObj [(''enabled'', JBool on), (''attributes'', JObj attributes)]))) (\<lambda>_.
     abind (if on then areturn ()
            else kc_send sv kc ''POST'' (''users/'' @ py_str uid @ ''/logout'') NoBody) (\<lambda>_.
     areturn (kc_result sv uid lifecycle_state []))))))"

definition kc_rotate :: "'e services \<Rightarrow> keycloak_config \<Rightarrow> step_command \<Rightarrow> ('e, dict) action" where
  "kc_rotate sv kc c =
     abind (user_for_command sv kc c) (\<lambda>user.
     abind (alift (item user ''id'')) (\<lambda>uid.
     abind (alift (res_bind (get_or user ''requiredActions'' (JList [])) string_list)) (\<lambda>actions.
     abind (kc_send sv kc ''PUT'' (''users/'' @ py_str uid) (JsonBody (JObj [(''requiredActions'',
         JList (map JStr (sort (remdups (actions @ REQUIRED_ACTIONS)))))]))) (\<lambda>_.
     abind (kc_send sv kc ''POST'' (''users/'' @ py_str uid @ ''/logout'') NoBody) (\<lambda>_.
     areturn (kc_result sv uid ''credential_actions_required'' []))))))"

section \<open>Snapshot, reconciliation and verification\<close>

record kc_snapshot =
  sn_enabled :: bool
  sn_required_actions :: "string list"
  sn_attributes :: json
  sn_groups :: "string list"
  sn_realm_roles :: "string list"
  sn_client_roles :: "(string \<times> string list) list"

text \<open>\<^verbatim>\<open>sorted(x.get(k) for x in v)\<close>.\<close>

definition sorted_members :: "json \<Rightarrow> string \<Rightarrow> string list res" where
  "sorted_members v k =
     res_bind (as_list v) (\<lambda>xs.
     res_bind (map_res (\<lambda>x. res_bind (get_or x k JNull) as_string) xs) (\<lambda>names. Inr (sort names)))"

definition snapshot_json :: "kc_snapshot \<Rightarrow> dict" where
  "snapshot_json s =
     [(''enabled'', JBool (sn_enabled s)),
      (''required_actions'', JList (map JStr (sn_required_actions s))),
      (''attributes'', sn_attributes s), (''groups'', JList (map JStr (sn_groups s))),
      (''realm_roles'', JList (map JStr (sn_realm_roles s))),
      (''client_roles'', JObj (map (\<lambda>(k, names). (k, JList (map JStr names))) (sn_client_roles s)))]"

definition kc_snapshot :: "'e services \<Rightarrow> keycloak_config \<Rightarrow> json \<Rightarrow> ('e, kc_snapshot) action" where
  "kc_snapshot sv kc user =
     abind (alift (user_id_of user)) (\<lambda>uid.
     abind (kc_get sv kc (''users/'' @ uid @ ''/groups'') []) (\<lambda>groups.
     abind (kc_get sv kc (''users/'' @ uid @ ''/role-mappings/realm'') []) (\<lambda>realm_roles.
     abind (kc_get sv kc (''users/'' @ uid @ ''/role-mappings'') []) (\<lambda>mappings.
     alift (
       res_bind (get_or mappings ''clientMappings'' (JObj [])) (\<lambda>cm.
       res_bind (as_object cm) (\<lambda>client_mappings.
       res_bind (get_or user ''enabled'' JNull) (\<lambda>is_enabled.
       res_bind (get_or user ''requiredActions'' (JList [])) (\<lambda>ra.
       res_bind (string_list ra) (\<lambda>required.
       res_bind (get_or user ''attributes'' (JObj [])) (\<lambda>attributes.
       res_bind (sorted_members groups ''path'') (\<lambda>group_paths.
       res_bind (sorted_members realm_roles ''name'') (\<lambda>role_names.
       res_bind (map_res (\<lambda>(client_id, mapping).
           res_bind (get_or mapping ''mappings'' (JList [])) (\<lambda>ms.
           res_bind (sorted_members ms ''name'') (\<lambda>names. Inr (client_id, names)))) client_mappings)
         (\<lambda>client_roles.
       Inr \<lparr>sn_enabled = truthy is_enabled, sn_required_actions = sort required,
         sn_attributes = attributes, sn_groups = group_paths, sn_realm_roles = role_names,
         sn_client_roles = client_roles\<rparr>))))))))))))))"

definition drift_entry :: "json \<Rightarrow> json \<Rightarrow> json" where
  "drift_entry expected actual = JObj [(''expected'', expected), (''actual'', actual)]"

definition member_drift :: "dict \<Rightarrow> dict \<Rightarrow> string \<Rightarrow> dict" where
  "member_drift desired snapshot key =
     (case map_of desired key of
        None \<Rightarrow> []
      | Some v \<Rightarrow> if py_eq v (dict_get snapshot key) then []
                 else [(key, drift_entry v (dict_get snapshot key))])"

text \<open>The attributes are compared one by one, and only those that are desired.\<close>

definition attribute_drift :: "dict \<Rightarrow> json \<Rightarrow> dict res" where
  "attribute_drift desired actual =
     (case map_of desired ''attributes'' of
        None \<Rightarrow> Inr []
      | Some v \<Rightarrow>
          res_bind (as_object v) (\<lambda>wanted.
          res_bind (if wanted = [] then Inr [] else as_object actual) (\<lambda>present.
          let differing = filter (\<lambda>(k, x). \<not> py_eq (dict_get present k) x) wanted in
          Inr (if differing = [] then []
               else [(''attributes'', JObj (map (\<lambda>(k, x). (k, drift_entry x (dict_get present k)))
                       differing))]))))"

definition kc_drift :: "json \<Rightarrow> kc_snapshot \<Rightarrow> dict res" where
  "kc_drift desired s =
     (case desired of
        JObj wanted \<Rightarrow>
          res_bind (attribute_drift wanted (sn_attributes s)) (\<lambda>attributes.
          Inr (concat (map (member_drift wanted (snapshot_json s))
                 [''enabled'', ''required_actions'', ''groups'', ''realm_roles'']) @
               attributes @ member_drift wanted (snapshot_json s) ''client_roles''))
      | _ \<Rightarrow> Inr [])"

definition kc_reconcile :: "'e services \<Rightarrow> keycloak_config \<Rightarrow> step_command \<Rightarrow> ('e, dict) action" where
  "kc_reconcile sv kc c =
     abind (user_for_command sv kc c) (\<lambda>user.
     abind (kc_snapshot sv kc user) (\<lambda>snapshot.
     abind (alift (kc_drift (dict_get_default (payload c) ''desired'' (JObj [])) snapshot)) (\<lambda>drift.
     abind (alift (item user ''id'')) (\<lambda>uid.
     areturn (kc_result sv uid (if drift = [] then ''aligned'' else ''privilege_drift'')
       [(''snapshot'', JObj (snapshot_json snapshot)), (''drift'', JObj drift)])))))"

definition kc_verify :: "'e services \<Rightarrow> keycloak_config \<Rightarrow> step_command \<Rightarrow> ('e, dict) action" where
  "kc_verify sv kc c =
     abind (user_for_command sv kc c) (\<lambda>user.
     abind (kc_snapshot sv kc user) (\<lambda>snapshot.
     if \<not> set REQUIRED_ACTIONS \<subseteq> set (sn_required_actions snapshot)
     then permanent ''keycloak_required_actions_missing''
     else abind (alift (item user ''id'')) (\<lambda>uid.
       areturn (kc_result sv uid ''verified'' (snapshot_json snapshot)))))"

definition keycloak_adapter :: "'e services \<Rightarrow> keycloak_config \<Rightarrow> 'e adapter" where
  "keycloak_adapter sv kc oper c =
     (case oper of
        CreateDisabled \<Rightarrow> kc_create_disabled sv kc c
      | Update \<Rightarrow> kc_update sv kc c
      | Verify \<Rightarrow> kc_verify sv kc c
      | Activate \<Rightarrow> kc_activate sv kc c
      | Suspend \<Rightarrow> kc_set_enabled sv kc c False ''suspended''
      | Reactivate \<Rightarrow> kc_set_enabled sv kc c True ''active''
      | Terminate \<Rightarrow> kc_set_enabled sv kc c False ''terminated''
      | RotateCredentials \<Rightarrow> kc_rotate sv kc c
      | Reconcile \<Rightarrow> kc_reconcile sv kc c
      | Cancel \<Rightarrow> permanent ''unsupported_adapter_operation'')"

section \<open>The contract\<close>

lemma keeps_raise_retryable [keeps_intros]: "reflp R \<Longrightarrow> keeps R (raise_retryable code)"
  by (simp add: keeps_def raise_retryable_def reflp_def)

lemma keeps_kc_transport [keeps_intros]: "keeps adapter_frame (kc_transport sv code request)"
  by (auto simp: keeps_def kc_transport_def adapter_frame_def split: prod.split http_reply.split)

lemma keeps_json [keeps_intros]:
  "(\<And>x. keeps R (a x)) \<Longrightarrow> keeps R b \<Longrightarrow> keeps R (case v of JStr x \<Rightarrow> a x | _ \<Rightarrow> b)"
  "(\<And>x. keeps R (a' x)) \<Longrightarrow> keeps R b \<Longrightarrow> keeps R (case v of JList x \<Rightarrow> a' x | _ \<Rightarrow> b)"
  "(\<And>x. keeps R (a'' x)) \<Longrightarrow> keeps R b \<Longrightarrow> keeps R (case v of JObj x \<Rightarrow> a'' x | _ \<Rightarrow> b)"
  by (cases v; simp)+

lemma keeps_list [keeps_intros]:
  "keeps R a \<Longrightarrow> (\<And>x xs. keeps R (b x xs)) \<Longrightarrow> keeps R (case v of [] \<Rightarrow> a | x # xs \<Rightarrow> b x xs)"
  by (cases v) simp_all

lemma keeps_kc_token [keeps_intros]: "keeps adapter_frame (kc_token sv kc)"
  unfolding kc_token_def by (intro keeps_intros)

lemma keeps_kc_request [keeps_intros]: "keeps adapter_frame (kc_request sv kc verb path params body expected)"
  unfolding kc_request_def by (intro keeps_intros)

lemma keeps_kc_get [keeps_intros]: "keeps adapter_frame (kc_get sv kc path params)"
  unfolding kc_get_def by (intro keeps_intros)

lemma keeps_kc_send [keeps_intros]: "keeps adapter_frame (kc_send sv kc verb path body)"
  unfolding kc_send_def by (intro keeps_intros)

lemma keeps_find_users [keeps_intros]:
  "keeps adapter_frame (by_username sv kc username)" "keeps adapter_frame (by_employee sv kc employee)"
  unfolding by_username_def by_employee_def find_users_def by (intro keeps_intros)+

lemma keeps_user_for_command [keeps_intros]: "keeps adapter_frame (user_for_command sv kc c)"
  unfolding user_for_command_def by (intro keeps_intros)

lemma keeps_kc_checks [keeps_intros]:
  "keeps adapter_frame (kc_attributes d key)" "keeps adapter_frame (validate_entitlements kc d)"
  unfolding kc_attributes_def validate_entitlements_def Let_def by (intro keeps_intros)+

lemma keeps_client_by_id [keeps_intros]: "keeps adapter_frame (client_by_id sv kc client_id)"
  unfolding client_by_id_def by (intro keeps_intros)

lemma keeps_grants [keeps_intros]:
  "keeps adapter_frame (grant_group sv kc uid path)" "keeps adapter_frame (grant_client sv kc uid p)"
  unfolding grant_group_def grant_client_def by (intro keeps_intros)+

lemma keeps_apply_entitlements [keeps_intros]: "keeps adapter_frame (apply_entitlements sv kc uid d)"
  unfolding apply_entitlements_def by (intro keeps_intros)

lemma keeps_resume_creation [keeps_intros]: "keeps adapter_frame (resume_creation sv c user)"
  unfolding resume_creation_def by (intro keeps_intros)

lemma keeps_kc_snapshot [keeps_intros]: "keeps adapter_frame (kc_snapshot sv kc user)"
  unfolding kc_snapshot_def by (intro keeps_intros)

lemma keeps_kc_methods [keeps_intros]:
  "keeps adapter_frame (kc_create_disabled sv kc c)" "keeps adapter_frame (kc_update sv kc c)"
  "keeps adapter_frame (kc_activate sv kc c)" "keeps adapter_frame (kc_set_enabled sv kc c on state)"
  "keeps adapter_frame (kc_rotate sv kc c)" "keeps adapter_frame (kc_reconcile sv kc c)"
  "keeps adapter_frame (kc_verify sv kc c)"
  unfolding kc_create_disabled_def kc_update_def kc_activate_def kc_set_enabled_def kc_rotate_def
    kc_reconcile_def kc_verify_def Let_def by (intro keeps_intros)+

interpretation keycloak: provider_adapter "keycloak_adapter sv kc"
proof
  show "keeps adapter_frame (keycloak_adapter sv kc oper c)" for oper c
    by (cases oper) (simp_all add: keycloak_adapter_def keeps_intros)
qed

section \<open>Entitlements come from the allowlists\<close>

text \<open>What the allowlists approve.\<close>

definition json_strings_in :: "string list \<Rightarrow> json \<Rightarrow> bool" where
  "json_strings_in approved v \<longleftrightarrow>
     (case v of JList vs \<Rightarrow> list_all (\<lambda>x. \<exists>s \<in> set approved. x = JStr s) vs | _ \<Rightarrow> False)"

definition entitlements_approved :: "keycloak_config \<Rightarrow> dict \<Rightarrow> bool" where
  "entitlements_approved kc body \<longleftrightarrow>
     (case dict_get_default body ''groups'' (JList []) of
        JList vs \<Rightarrow> list_all (\<lambda>x. \<exists>path p. x = JStr path \<and> p \<in> set (kc_group_prefixes kc) \<and>
          starts_with path p) vs
      | _ \<Rightarrow> False) \<and>
     json_strings_in (kc_realm_roles kc) (dict_get_default body ''realm_roles'' (JList [])) \<and>
     (case dict_get_default body ''client_roles'' (JObj []) of
        JObj d \<Rightarrow> list_all (\<lambda>(client_id, roles). \<exists>approved.
          map_of (kc_client_roles kc) client_id = Some approved \<and> json_strings_in approved roles) d
      | _ \<Rightarrow> False)"

lemma group_approved_iff:
  "group_approved kc x \<longleftrightarrow>
     (\<exists>path p. x = JStr path \<and> p \<in> set (kc_group_prefixes kc) \<and> starts_with path p)"
  by (auto simp: group_approved_def list_ex_iff split: json.split)

lemma roles_within_iff: "roles_within approved v = Inr True \<longleftrightarrow> json_strings_in approved v"
proof (cases v)
  case (JList vs)
  have "list_all hashable vs" if "list_all (\<lambda>x. \<exists>s \<in> set approved. x = JStr s) vs"
    using that by (auto simp: list_all_iff hashable_def split: json.split)
  then show ?thesis
    by (auto simp: JList roles_within_def json_strings_in_def list_all_iff list_ex_iff image_iff)
qed (simp_all add: roles_within_def json_strings_in_def)

lemma client_roles_within_iff:
  "client_roles_within kc d = Inr True \<longleftrightarrow>
     list_all (\<lambda>(client_id, roles). \<exists>approved.
       map_of (kc_client_roles kc) client_id = Some approved \<and> roles_within approved roles = Inr True) d"
  by (induction d rule: client_roles_within.induct)
     (auto simp: res_bind_Inr split: option.split if_splits)

lemma alift_bind:
  "abind (alift r) f w = (case r of Inl e \<Rightarrow> (OtherError e, w) | Inr x \<Rightarrow> f x w)"
  by (simp add: abind_def alift_def split: sum.split)

lemma validate_entitlements_world: "snd (validate_entitlements kc body w) = w"
  by (auto simp: validate_entitlements_def Let_def alift_bind permanent_def areturn_def
      split: json.split sum.split)

lemma validate_entitlements_iff:
  "fst (validate_entitlements kc body w) = Returned () \<longleftrightarrow> entitlements_approved kc body"
proof -
  have approved: "group_approved kc = (\<lambda>x. \<exists>path p. x = JStr path \<and>
      p \<in> set (kc_group_prefixes kc) \<and> starts_with path p)"
    by (rule ext) (rule group_approved_iff)
  show ?thesis
    unfolding entitlements_approved_def approved [symmetric] roles_within_iff [symmetric]
      client_roles_within_iff [symmetric] validate_entitlements_def Let_def
    by (auto simp: alift_bind permanent_def areturn_def split: json.split sum.split)
qed

text \<open>C28. A Keycloak identity whose payload asks for a group, realm role or client role outside the
  allowlists is refused before any request is made: \<open>create_disabled\<close> leaves the world untouched, and
  \<open>update\<close> does nothing beyond the search for the user. Entitlements are granted only if all of them
  are approved.\<close>

theorem unapproved_entitlements_refused:
  assumes "\<not> entitlements_approved kc (payload c)"
  shows "snd (kc_create_disabled sv kc c w) = w \<and>
    (\<forall>result. fst (kc_create_disabled sv kc c w) \<noteq> Returned result) \<and>
    snd (kc_update sv kc c w) = snd (user_for_command sv kc c w) \<and>
    (\<forall>result. fst (kc_update sv kc c w) \<noteq> Returned result) \<and>
    snd (apply_entitlements sv kc uid (payload c) w) = w"
proof -
  have validated: "\<exists>r. validate_entitlements kc (payload c) v = (r, v) \<and> r \<noteq> Returned ()" for v :: "'a world"
    using assms validate_entitlements_world [of kc "payload c" v]
      validate_entitlements_iff [of kc "payload c" v] by (metis prod.collapse)
  have stops: "\<exists>r. abind (validate_entitlements kc (payload c)) f v = (r, v) \<and> (\<forall>x. r \<noteq> Returned x)"
    for f :: "unit \<Rightarrow> ('a, 'b) action" and v
    using validated [of v] by (auto simp: abind_def split: outcome.split)
  have "\<exists>r. kc_create_disabled sv kc c w = (r, w) \<and> (\<forall>x. r \<noteq> Returned x)"
    unfolding kc_create_disabled_def using stops
    by (auto simp: permanent_def split: json.split)
  moreover have "\<exists>r. kc_update sv kc c w = (r, snd (user_for_command sv kc c w)) \<and> (\<forall>x. r \<noteq> Returned x)"
    unfolding kc_update_def using stops
    by (subst abind_def) (auto split: prod.split outcome.split)
  moreover have "snd (apply_entitlements sv kc uid (payload c) w) = w"
    unfolding apply_entitlements_def using stops [of _ w] by (metis snd_conv)
  ultimately show ?thesis by (metis fst_conv snd_conv)
qed

text \<open>A server with one user, which is enabled or not; the requests it knows are those of an activation.\<close>

definition sample_keycloak :: "http_request \<Rightarrow> bool \<Rightarrow> http_reply \<times> bool" where
  "sample_keycloak request on =
     (if rq_method request = ''GET''
      then (HttpResponse 200 [] (Some (JList [JObj [(''id'', JStr ''user-1''), (''enabled'', JBool on)]])) None, on)
      else case rq_body request of
        FormBody _ \<Rightarrow> (HttpResponse 200 [] (Some (JObj [(''access_token'', JStr ''token'')])) None, on)
      | JsonBody (JObj d) \<Rightarrow>
          (HttpResponse 204 [] None None, (case map_of d ''enabled'' of Some (JBool b) \<Rightarrow> b | _ \<Rightarrow> on))
      | _ \<Rightarrow> (HttpResponse 400 [] None None, on))"

definition sample_kc :: keycloak_config where
  "sample_kc = \<lparr>kc_base_url = ''http://keycloak'', kc_realm = ''codestra'', kc_client_id = ''service'',
     kc_client_secret_file = ''/run/secrets/kc'', kc_group_prefixes = [''/staff/''],
     kc_realm_roles = [''agent''], kc_client_roles = [], kc_activation_clients = []\<rparr>"

definition sample_identity :: "operation \<Rightarrow> dict \<Rightarrow> step_command" where
  "sample_identity oper body =
     (sample_step ''request-1'' ''step-a-00'' 0 Keycloak oper 3)\<lparr>payload := body\<rparr>"

section \<open>A refused activation\<close>

text \<open>No run of a method is refused with this code.\<close>

definition never_refuses :: "string \<Rightarrow> ('e, 'a) action \<Rightarrow> bool" where
  "never_refuses code m \<longleftrightarrow> (\<forall>w w'. m w \<noteq> (PermanentAdapterError code, w'))"

lemma never_refuses_intros:
  "never_refuses code (areturn x)" "never_refuses code (alift r)" "never_refuses code (raise_retryable code')"
  "never_refuses code (read_secret sv path)" "never_refuses code (kc_transport sv code' request)"
  "code' \<noteq> code \<Longrightarrow> never_refuses code (permanent code')"
  "never_refuses code m \<Longrightarrow> (\<And>x. never_refuses code (f x)) \<Longrightarrow> never_refuses code (abind m f)"
  "(b \<Longrightarrow> never_refuses code m) \<Longrightarrow> (\<not> b \<Longrightarrow> never_refuses code m') \<Longrightarrow> never_refuses code (if b then m else m')"
  by (auto simp: never_refuses_def areturn_def alift_def raise_retryable_def read_secret_def kc_transport_def
      permanent_def abind_def split: sum.split prod.split http_reply.split outcome.split)

lemma never_refusesD: "never_refuses code m \<Longrightarrow> m w = (PermanentAdapterError code, w') \<Longrightarrow> False"
  by (simp add: never_refuses_def)

lemma abind_refusedE:
  assumes "abind m f w = (PermanentAdapterError code, w')" and "never_refuses code m"
  obtains x w1 where "m w = (Returned x, w1)" and "f x w1 = (PermanentAdapterError code, w')"
  using assms by (auto simp: abind_def never_refuses_def split: prod.splits outcome.splits)

abbreviation redirect_refusal :: string where
  "redirect_refusal \<equiv> ''keycloak_activation_redirect_not_approved''"

lemma requests_never_redirect:
  "never_refuses redirect_refusal (kc_token sv kc)"
  "never_refuses redirect_refusal (kc_request sv kc verb path params body expected)"
  "never_refuses redirect_refusal (kc_get sv kc path params)"
  "never_refuses redirect_refusal (kc_send sv kc verb path body)"
  "never_refuses redirect_refusal (user_for_command sv kc c)"
proof -
  show token: "never_refuses redirect_refusal (kc_token sv kc)"
    unfolding kc_token_def by (intro never_refuses_intros) (auto intro!: never_refuses_intros split: json.split)
  show request: "never_refuses redirect_refusal (kc_request sv kc verb path params body expected)"
    for verb path params body expected
    unfolding kc_request_def by (intro never_refuses_intros token) (auto intro!: never_refuses_intros)
  show get: "never_refuses redirect_refusal (kc_get sv kc path params)" for path params
    unfolding kc_get_def by (intro never_refuses_intros request) (auto intro!: never_refuses_intros)
  show "never_refuses redirect_refusal (kc_send sv kc verb path body)"
    unfolding kc_send_def by (intro never_refuses_intros request)
  show "never_refuses redirect_refusal (user_for_command sv kc c)"
    unfolding user_for_command_def by_employee_def find_users_def
    by (intro never_refuses_intros get) (auto intro!: never_refuses_intros split: json.split list.split)
qed

text \<open>An accepted request was the last one its sender made.\<close>

lemma kc_send_accepted:
  assumes "kc_send sv kc verb path body w = (Returned (), w')"
  shows "\<exists>token w1 content reply loc. kc_token sv kc w = (Returned token, w1) \<and>
    sv_http sv \<lparr>rq_method = verb,
        rq_url = kc_base_url kc @ ''/admin/realms/'' @ quote (kc_realm kc) @ ''/'' @ lstrip_slash path,
        rq_params = [], rq_headers = [(''Authorization'', ''Bearer '' @ token)], rq_body = body\<rparr> (w_env w1) =
      (HttpResponse 204 content reply loc, w_env w')"
  using assms unfolding kc_send_def kc_request_def
  by (auto simp: abind_def areturn_def raise_retryable_def permanent_def kc_transport_def
      split: prod.splits outcome.splits http_reply.splits if_splits)

text \<open>The request of an activation that enables the identity.\<close>

definition enabling_request :: "keycloak_config \<Rightarrow> string \<Rightarrow> json \<Rightarrow> dict \<Rightarrow> http_request" where
  "enabling_request kc token uid attributes =
     \<lparr>rq_method = ''PUT'',
      rq_url = kc_base_url kc @ ''/admin/realms/'' @ quote (kc_realm kc) @ ''/'' @
        lstrip_slash (''users/'' @ py_str uid),
      rq_params = [], rq_headers = [(''Authorization'', ''Bearer '' @ token)],
      rq_body = JsonBody (JObj
         [(''enabled'', JBool True), (''requiredActions'', JList (map JStr REQUIRED_ACTIONS)),
          (''attributes'', JObj attributes)])\<rparr>"

text \<open>C29. The check of the redirect URI of an activation link comes after the request that enables
  the identity: every activation that is refused for its redirect has found the identity of its employee,
  and its last request was the one that enables this identity, which the server has accepted with a
  204.\<close>

theorem refused_activation_enables:
  assumes "kc_activate sv kc c w = (PermanentAdapterError ''keycloak_activation_redirect_not_approved'', w')"
  shows "\<exists>user uid attributes token w1 w2 content reply loc.
    user_for_command sv kc c w = (Returned user, w1) \<and> item user ''id'' = Inr uid \<and>
    kc_token sv kc w1 = (Returned token, w2) \<and>
    sv_http sv (enabling_request kc token uid attributes) (w_env w2) =
      (HttpResponse 204 content reply loc, w_env w')"
proof -
  note never = requests_never_redirect never_refuses_intros(2)
  obtain user uid attributes w1 w2 where
    found: "user_for_command sv kc c w = (Returned user, w1)" "item user ''id'' = Inr uid"
    and enabled: "kc_send sv kc ''PUT'' (''users/'' @ py_str uid) (JsonBody (JObj
         [(''enabled'', JBool True), (''requiredActions'', JList (map JStr REQUIRED_ACTIONS)),
          (''attributes'', JObj attributes)])) w1 = (Returned (), w2)"
    and rest: "abind (if truthy (dict_get (payload c) ''send_activation_link'')
            then abind (alift (redirect_approved kc (payload c))) (\<lambda>ok.
              if \<not> ok then permanent ''keycloak_activation_redirect_not_approved''
              else abind (kc_request sv kc ''PUT'' (''users/'' @ py_str uid @ ''/execute-actions-email'')
                  [(''client_id'', py_str (dict_get (payload c) ''activation_client'')),
                   (''redirect_uri'', py_str (dict_get (payload c) ''redirect_uri'')),
                   (''lifespan'', ''900'')]
                  (JsonBody (JList (map JStr REQUIRED_ACTIONS))) [204]) (\<lambda>_. areturn ()))
            else areturn ()) (\<lambda>_.
     areturn (kc_result sv uid ''awaiting_required_actions'' [])) w2 =
       (PermanentAdapterError redirect_refusal, w')"
    using assms unfolding kc_activate_def
    by (elim abind_refusedE [OF _ never(5)] abind_refusedE [OF _ never(4)] abind_refusedE [OF _ never(6)])
       (auto simp: alift_def split: sum.splits)
  have "w' = w2"
    using rest
    by (auto simp: abind_def areturn_def alift_def permanent_def
        split: if_splits outcome.splits prod.splits sum.splits dest: never_refusesD [OF never(2)])
  then show ?thesis using found kc_send_accepted [OF enabled] unfolding enabling_request_def by blast
qed

theorem refused_activation_enables_witness:
  "\<exists>w'. kc_activate (sample_services sample_keycloak) sample_kc
      (sample_identity Activate [(''send_activation_link'', JBool True),
         (''redirect_uri'', JStr ''https://elsewhere'')]) \<lparr>w_db = empty_db, w_env = False\<rparr> =
      (PermanentAdapterError ''keycloak_activation_redirect_not_approved'', w') \<and>
    (\<exists>token uid attributes e content reply loc.
       sample_keycloak (enabling_request sample_kc token uid attributes) e =
         (HttpResponse 204 content reply loc, w_env w')) \<and> w_env w'"
proof -
  let ?run = "kc_activate (sample_services sample_keycloak) sample_kc
      (sample_identity Activate [(''send_activation_link'', JBool True),
         (''redirect_uri'', JStr ''https://elsewhere'')]) \<lparr>w_db = empty_db, w_env = False\<rparr>"
  have "fst ?run = PermanentAdapterError ''keycloak_activation_redirect_not_approved''" and on: "w_env (snd ?run)"
    by code_simp+
  then have run: "?run = (PermanentAdapterError ''keycloak_activation_redirect_not_approved'', snd ?run)"
    by (metis prod.collapse)
  have http: "sv_http (sample_services sample_keycloak) = sample_keycloak" by (simp add: sample_services_def)
  from refused_activation_enables [OF run] obtain token uid attributes e content reply loc where
    "sample_keycloak (enabling_request sample_kc token uid attributes) e =
       (HttpResponse 204 content reply loc, w_env (snd ?run))"
    unfolding http by blast
  then show ?thesis using run on by blast
qed

theorem unapproved_entitlements_refused_witness:
  "snd (kc_create_disabled (sample_services sample_keycloak) sample_kc
     (sample_identity CreateDisabled [(''username'', JStr ''u''), (''groups'', JList [JStr ''/admin/x''])])
     \<lparr>w_db = empty_db, w_env = False\<rparr>) = \<lparr>w_db = empty_db, w_env = False\<rparr>"
proof -
  have "\<not> entitlements_approved sample_kc (payload
      (sample_identity CreateDisabled [(''username'', JStr ''u''), (''groups'', JList [JStr ''/admin/x''])]))"
    unfolding validate_entitlements_iff [where w = "\<lparr>w_db = empty_db, w_env = False\<rparr>", symmetric] by code_simp
  from unapproved_entitlements_refused [OF this] show ?thesis by blast
qed

end
