(* ===== verification/Adapters.thy ===== *)
theory Adapters
  imports Keycloak
begin

text \<open>
  The adapters of a running service (\<^verbatim>\<open>load_adapters\<close> in \<^verbatim>\<open>app/adapters.py\<close>): the configuration file
  is a JSON object with one member per system, a system that is not enabled there gets the disabled
  adapter, and every target system gets one adapter. A member that is missing or not of its
  documented type stops the start; where Python would only fail at the first use of an ill-typed
  member, the model already refuses it here.
\<close>

datatype adapter_object =
    DisabledAdapter string
  | HttpAdapter http_config
  | EmailProviderAdapter http_config
  | DeterministicMailboxMockAdapter
  | TelephonyProvisioningAdapter telephony_config
  | KeycloakAdminAdapter keycloak_config
  | SecretStorageAdapter string

fun adapter_methods :: "'e services \<Rightarrow> adapter_object \<Rightarrow> 'e adapter" where
  "adapter_methods sv (DisabledAdapter system) = disabled_adapter system"
| "adapter_methods sv (HttpAdapter hc) = http_adapter sv hc"
| "adapter_methods sv (EmailProviderAdapter hc) = http_adapter sv hc"
| "adapter_methods sv DeterministicMailboxMockAdapter = mailbox_mock sv"
| "adapter_methods sv (TelephonyProvisioningAdapter tc) = telephony_adapter sv tc"
| "adapter_methods sv (KeycloakAdminAdapter kc) = keycloak_adapter sv kc"
| "adapter_methods sv (SecretStorageAdapter key) = secret_storage sv key"

section \<open>Loading\<close>

text \<open>A text member, and the members of the allowlists.\<close>

definition text_member :: "dict \<Rightarrow> string \<Rightarrow> string res" where
  "text_member d k = res_bind (member d k) as_string"

definition string_lists :: "json \<Rightarrow> (string \<times> string list) list res" where
  "string_lists v =
     res_bind (as_object v)
       (map_res (\<lambda>(k, vs). res_bind (string_list vs) (\<lambda>names. Inr (k, names))))"

text \<open>The configuration of a system, if it is an object that enables the system.\<close>

definition enabled_config :: "dict \<Rightarrow> string \<Rightarrow> dict option" where
  "enabled_config document system =
     (case dict_get_default document system (JObj []) of
        JObj config \<Rightarrow> if truthy (dict_get config ''enabled'') then Some config else None
      | _ \<Rightarrow> None)"

definition configured_keycloak :: "dict \<Rightarrow> keycloak_config res" where
  "configured_keycloak config =
     res_bind (text_member config ''base_url'') (\<lambda>base_url.
     res_bind (text_member config ''realm'') (\<lambda>realm.
     res_bind (text_member config ''client_id'') (\<lambda>client_id.
     res_bind (text_member config ''client_secret_file'') (\<lambda>secret_file.
     res_bind (res_bind (member config ''approved_group_prefixes'') string_list) (\<lambda>prefixes.
     res_bind (res_bind (member config ''approved_realm_roles'') string_list) (\<lambda>realm_roles.
     res_bind (res_bind (member config ''approved_client_roles'') string_lists) (\<lambda>client_roles.
     res_bind (let v = dict_get config ''activation_clients'' in
               if truthy v then res_bind (string_lists v) (\<lambda>m. Inr (Some m)) else Inr None) (\<lambda>clients.
     new_keycloak_adapter base_url realm client_id secret_file prefixes realm_roles
       client_roles clients))))))))"

definition load_keycloak :: "dict \<Rightarrow> adapter_object res" where
  "load_keycloak document =
     (case enabled_config document ''keycloak'' of
        None \<Rightarrow> Inr (DisabledAdapter ''keycloak'')
      | Some config \<Rightarrow>
          res_bind (configured_keycloak config) (\<lambda>kc. Inr (KeycloakAdminAdapter kc)))"

definition load_telephony :: "dict \<Rightarrow> string \<Rightarrow> adapter_object res" where
  "load_telephony document system =
     (case enabled_config document system of
        None \<Rightarrow> Inr (DisabledAdapter system)
      | Some config \<Rightarrow>
          res_bind (text_member config ''base_url'') (\<lambda>base_url.
          res_bind (text_member config ''hmac_key_file'') (\<lambda>hmac_key.
          res_bind (text_member config ''ca_file'') (\<lambda>ca_file.
          res_bind (text_member config ''client_cert_file'') (\<lambda>cert_file.
          res_bind (text_member config ''client_key_file'') (\<lambda>key_file.
          res_bind (text_member config ''service_identity'') (\<lambda>service_identity.
          res_bind (text_member config ''required_scope'') (\<lambda>required_scope.
          res_bind (new_telephony_adapter system base_url hmac_key ca_file cert_file key_file
                      service_identity required_scope) (\<lambda>tc.
          Inr (TelephonyProvisioningAdapter tc))))))))))"

definition load_http :: "dict \<Rightarrow> target_system \<Rightarrow> adapter_object res" where
  "load_http document target =
     (let system = target_value target in
      case enabled_config document system of
        None \<Rightarrow> Inr (DisabledAdapter system)
      | Some config \<Rightarrow>
          if target = EmailProvider \<and>
             dict_get config ''provider'' = JStr ''deterministic_internal_mock''
          then Inr DeterministicMailboxMockAdapter
          else
          res_bind (text_member config ''base_url'') (\<lambda>base_url.
          res_bind (text_member config ''credential_file'') (\<lambda>credential_file.
          res_bind (text_member config ''ca_file'') (\<lambda>ca_file.
          res_bind (let v = dict_get config ''routes'' in
                    if truthy v then res_bind (as_object v) (\<lambda>r. Inr (Some r)) else Inr None) (\<lambda>routes.
          res_bind (new_http_adapter system base_url credential_file ca_file routes) (\<lambda>hc.
          Inr (if target = EmailProvider then EmailProviderAdapter hc else HttpAdapter hc)))))))"

definition load_adapters ::
  "'e services \<Rightarrow> string \<Rightarrow> string \<Rightarrow> ('e, (string \<times> adapter_object) list) handler" where
  "load_adapters sv config_file key_file =
     hbind (\<lambda>w. (read_secret_file (sv_files sv (w_env w)) config_file False, w)) (\<lambda>raw.
     hbind (hlift (case sv_json_loads sv raw of
         None \<Rightarrow> Inl (ValueError ''invalid JSON'')
       | Some (JObj d) \<Rightarrow> Inr d
       | Some _ \<Rightarrow> Inl TypeError)) (\<lambda>document.
     hbind (hlift (load_keycloak document)) (\<lambda>keycloak.
     hbind (hlift (load_telephony document ''vicidial'')) (\<lambda>vicidial.
     hbind (hlift (load_telephony document ''sip'')) (\<lambda>sip.
     hbind (hlift (load_http document Odoo)) (\<lambda>odoo.
     hbind (hlift (load_http document AgentDesktop)) (\<lambda>agent_desktop.
     hbind (hlift (load_http document EmailProvider)) (\<lambda>email_provider.
     hbind (hlift (load_http document N8nEvent)) (\<lambda>n8n_event.
     hbind (new_secret_storage sv key_file) (\<lambda>key.
     hreturn
       [(''keycloak'', keycloak), (''vicidial'', vicidial), (''sip'', sip), (''odoo'', odoo),
        (''agent_desktop'', agent_desktop), (''email_provider'', email_provider),
        (''n8n_event'', n8n_event), (''secret_storage'', SecretStorageAdapter key),
        (''verification'', DisabledAdapter ''verification''),
        (''reconciliation'', DisabledAdapter ''reconciliation'')]))))))))))"

text \<open>The adapters as the engine looks them up.\<close>

definition adapter_table ::
  "'e services \<Rightarrow> (string \<times> adapter_object) list \<Rightarrow> string \<Rightarrow> 'e adapter option" where
  "adapter_table sv objects system = map_option (adapter_methods sv) (map_of objects system)"

section \<open>What is loaded\<close>

text \<open>Every adapter keeps the contract of the engine.\<close>

interpretation loaded: provider_adapter "adapter_methods sv object"
proof
  show "keeps adapter_frame (adapter_methods sv object oper c)" for oper c
    by (cases object) (simp_all add: disabled.frame http.frame mock.frame
        telephony.frame keycloak.frame storage.frame)
qed

lemma hlift_bind: "hbind (hlift r) f w = (case r of Inl e \<Rightarrow> (Inl e, w) | Inr x \<Rightarrow> f x w)"
  by (simp add: hbind_def hlift_def split: sum.split)

text \<open>
  What the configuration document says of a system, read off its members: that it enables the system,
  the addresses its constructor admits, and the values of the adapters.
\<close>

definition enables :: "dict \<Rightarrow> string \<Rightarrow> dict \<Rightarrow> bool" where
  "enables document system config \<longleftrightarrow>
     map_of document system = Some (JObj config) \<and> (\<exists>v. map_of config ''enabled'' = Some v \<and> truthy v)"

definition has_text :: "dict \<Rightarrow> string \<Rightarrow> string \<Rightarrow> bool" where
  "has_text config k s \<longleftrightarrow> map_of config k = Some (JStr s)"

definition private_url :: "string \<Rightarrow> bool" where
  "private_url url \<longleftrightarrow>
     (\<exists>u. urlsplit url = Inr u \<and> url_scheme u = ''https'' \<and> url_username u = [] \<and> url_password u = [] \<and>
        url_query u = [] \<and> url_fragment u = [])"

definition keycloak_url :: "string \<Rightarrow> bool" where
  "keycloak_url url \<longleftrightarrow>
     (\<exists>u. urlsplit url = Inr u \<and> url_username u = [] \<and> url_password u = [] \<and>
        (url_scheme u = ''https'' \<or>
         url_scheme u = ''http'' \<and> url_hostname u \<in> {''keycloak'', ''localhost'', ''127.0.0.1''}))"

definition routes_configured :: "dict \<Rightarrow> dict \<Rightarrow> bool" where
  "routes_configured config routes \<longleftrightarrow>
     (if truthy (dict_get config ''routes'')
      then \<exists>r. dict_get config ''routes'' = JObj r \<and> routes = dict_merge default_routes r
      else routes = default_routes)"

definition http_configured :: "dict \<Rightarrow> http_config \<Rightarrow> bool" where
  "http_configured config hc \<longleftrightarrow>
     (\<exists>url. has_text config ''base_url'' url \<and> private_url url \<and> hc_base_url hc = rstrip_slash url) \<and>
     has_text config ''credential_file'' (hc_credential_file hc) \<and>
     has_text config ''ca_file'' (hc_ca_file hc) \<and> routes_configured config (hc_routes hc)"

definition telephony_configured :: "dict \<Rightarrow> telephony_config \<Rightarrow> bool" where
  "telephony_configured config tc \<longleftrightarrow>
     (\<exists>url. has_text config ''base_url'' url \<and> private_url url \<and> tc_base_url tc = rstrip_slash url) \<and>
     has_text config ''hmac_key_file'' (tc_hmac_key_file tc) \<and>
     has_text config ''ca_file'' (tc_ca_file tc) \<and>
     has_text config ''client_cert_file'' (tc_client_cert_file tc) \<and>
     has_text config ''client_key_file'' (tc_client_key_file tc) \<and>
     has_text config ''service_identity'' (tc_service_identity tc) \<and>
     has_text config ''required_scope'' (tc_required_scope tc)"

text \<open>A list of texts, and a dictionary of such lists, as they stand in the document.\<close>

definition text_list :: "string list \<Rightarrow> json" where
  "text_list names = JList (map JStr names)"

definition text_lists :: "(string \<times> string list) list \<Rightarrow> json" where
  "text_lists m = JObj (map (\<lambda>(k, names). (k, text_list names)) m)"

definition keycloak_configured :: "dict \<Rightarrow> keycloak_config \<Rightarrow> bool" where
  "keycloak_configured config kc \<longleftrightarrow>
     (\<exists>url. has_text config ''base_url'' url \<and> keycloak_url url \<and> kc_base_url kc = rstrip_slash url) \<and>
     has_text config ''realm'' (kc_realm kc) \<and> has_text config ''client_id'' (kc_client_id kc) \<and>
     has_text config ''client_secret_file'' (kc_client_secret_file kc) \<and>
     (\<exists>approved. map_of config ''approved_group_prefixes'' = Some (text_list approved) \<and>
        kc_group_prefixes kc = map (\<lambda>p. rstrip_slash p @ ''/'') approved) \<and>
     map_of config ''approved_realm_roles'' = Some (text_list (kc_realm_roles kc)) \<and>
     map_of config ''approved_client_roles'' = Some (text_lists (kc_client_roles kc)) \<and>
     (if truthy (dict_get config ''activation_clients'')
      then dict_get config ''activation_clients'' = text_lists (kc_activation_clients kc)
      else kc_activation_clients kc = [])"

text \<open>
  The adapter a configuration document asks for: the disabled one exactly for a system it does not
  enable, and otherwise the one of the system, with the values configured.
\<close>

definition mocked :: "dict \<Rightarrow> bool" where
  "mocked config \<longleftrightarrow> has_text config ''provider'' ''deterministic_internal_mock''"

definition adapter_of :: "string \<Rightarrow> dict \<Rightarrow> adapter_object \<Rightarrow> bool" where
  "adapter_of system config a \<longleftrightarrow>
     (case a of
        HttpAdapter hc \<Rightarrow>
          system \<in> {''odoo'', ''agent_desktop'', ''n8n_event''} \<and> hc_system hc = system \<and> http_configured config hc
      | EmailProviderAdapter hc \<Rightarrow>
          system = ''email_provider'' \<and> \<not> mocked config \<and> hc_system hc = system \<and> http_configured config hc
      | DeterministicMailboxMockAdapter \<Rightarrow> system = ''email_provider'' \<and> mocked config
      | TelephonyProvisioningAdapter tc \<Rightarrow>
          system \<in> {''vicidial'', ''sip''} \<and> tc_system tc = system \<and> telephony_configured config tc
      | KeycloakAdminAdapter kc \<Rightarrow> system = ''keycloak'' \<and> keycloak_configured config kc
      | _ \<Rightarrow> False)"

definition configured_adapter :: "dict \<Rightarrow> string \<Rightarrow> adapter_object \<Rightarrow> bool" where
  "configured_adapter document system a \<longleftrightarrow>
     (if \<exists>config. enables document system config
      then \<exists>config. enables document system config \<and> adapter_of system config a
      else a = DisabledAdapter system)"

lemma enabled_config_iff: "enabled_config document system = Some config \<longleftrightarrow> enables document system config"
  by (auto simp: enabled_config_def enables_def dict_get_default_def dict_get_def split: option.splits json.splits)

lemma configured_adapter_cases:
  "configured_adapter document system a \<longleftrightarrow>
     (case enabled_config document system of
        None \<Rightarrow> a = DisabledAdapter system | Some config \<Rightarrow> adapter_of system config a)"
proof (cases "enabled_config document system")
  case None
  then have "\<not> enables document system config" for config
    using enabled_config_iff [of document system config] by simp
  then show ?thesis by (simp add: configured_adapter_def None)
next
  case (Some config)
  then have "enables document system config' \<longleftrightarrow> config' = config" for config'
    using enabled_config_iff [of document system config'] by auto
  then show ?thesis by (simp add: configured_adapter_def Some)
qed

lemma text_member_iff: "text_member config k = Inr s \<longleftrightarrow> has_text config k s"
  by (auto simp: text_member_def has_text_def member_def as_string_def split: option.splits json.splits)

lemma string_list_iff: "string_list v = Inr names \<longleftrightarrow> v = text_list names"
proof -
  have "map_res as_string vs = Inr names \<longleftrightarrow> vs = map JStr names" for vs
    by (induction vs arbitrary: names)
       (auto simp: res_bind_Inr as_string_def Cons_eq_map_conv split: json.splits)
  then show ?thesis by (auto simp: string_list_def as_list_def text_list_def split: json.splits)
qed

lemma string_lists_iff: "string_lists v = Inr m \<longleftrightarrow> v = text_lists m"
proof -
  have "map_res (\<lambda>(k, vs). res_bind (string_list vs) (\<lambda>names. Inr (k, names))) kvs = Inr m \<longleftrightarrow>
      kvs = map (\<lambda>(k, names). (k, text_list names)) m" for kvs
    by (induction kvs arbitrary: m) (auto simp: res_bind_Inr string_list_iff Cons_eq_map_conv)
  then show ?thesis by (auto simp: string_lists_def as_object_def text_lists_def split: json.splits)
qed

lemma new_http_adapter_ok:
  assumes "new_http_adapter system base_url credential_file ca_file routes = Inr hc"
  shows "hc_system hc = system \<and> private_url base_url \<and> hc_base_url hc = rstrip_slash base_url \<and>
    hc_credential_file hc = credential_file \<and> hc_ca_file hc = ca_file \<and>
    hc_routes hc = dict_merge default_routes (case routes of None \<Rightarrow> [] | Some r \<Rightarrow> r)"
  using assms unfolding new_http_adapter_def private_url_def credential_free_https_def
  by (elim res_bind_InrE if_InrE) auto

lemma new_telephony_adapter_ok:
  assumes "new_telephony_adapter system base_url hf ca cf kf si rs = Inr tc"
  shows "tc_system tc = system \<and> private_url base_url \<and> tc_base_url tc = rstrip_slash base_url \<and>
    tc_hmac_key_file tc = hf \<and> tc_ca_file tc = ca \<and> tc_client_cert_file tc = cf \<and>
    tc_client_key_file tc = kf \<and> tc_service_identity tc = si \<and> tc_required_scope tc = rs"
  using assms unfolding new_telephony_adapter_def private_url_def credential_free_https_def
  by (elim res_bind_InrE if_InrE) auto

lemma new_keycloak_adapter_ok:
  assumes "new_keycloak_adapter base_url realm client secret approved realm_roles client_roles clients = Inr kc"
  shows "keycloak_url base_url \<and> kc_base_url kc = rstrip_slash base_url \<and> kc_realm kc = realm \<and>
    kc_client_id kc = client \<and> kc_client_secret_file kc = secret \<and>
    kc_group_prefixes kc = map (\<lambda>p. rstrip_slash p @ ''/'') approved \<and> kc_realm_roles kc = realm_roles \<and>
    kc_client_roles kc = client_roles \<and> kc_activation_clients kc = (case clients of None \<Rightarrow> [] | Some m \<Rightarrow> m)"
  using assms unfolding new_keycloak_adapter_def keycloak_url_def
  by (elim res_bind_InrE if_InrE) auto

lemma dict_merge_Nil: "dict_merge d [] = d"
  by (simp add: dict_merge_def)

lemma mocked_iff: "dict_get config ''provider'' = JStr ''deterministic_internal_mock'' \<longleftrightarrow> mocked config"
  by (auto simp: mocked_def has_text_def dict_get_def split: option.splits)

lemma routes_read:
  "(let v = dict_get config ''routes'' in
      if truthy v then res_bind (as_object v) (\<lambda>r. Inr (Some r)) else Inr None) = Inr routes \<Longrightarrow>
   routes_configured config (dict_merge default_routes (case routes of None \<Rightarrow> [] | Some r \<Rightarrow> r))"
  by (auto simp: routes_configured_def Let_def as_object_def dict_merge_Nil split: if_splits json.splits)

lemma load_http_configured:
  assumes "load_http d target = Inr a" and "target \<in> {Odoo, AgentDesktop, EmailProvider, N8nEvent}"
  shows "configured_adapter d (target_value target) a"
proof (cases "enabled_config d (target_value target)")
  case None
  then show ?thesis using assms(1) by (simp add: configured_adapter_cases load_http_def)
next
  case (Some config)
  show ?thesis
  proof (cases "target = EmailProvider \<and> mocked config")
    case True
    then show ?thesis
      using assms(1) Some by (simp add: configured_adapter_cases load_http_def adapter_of_def mocked_iff)
  next
    case False
    then obtain base_url credential_file ca_file routes hc where
      texts: "has_text config ''base_url'' base_url" "has_text config ''credential_file'' credential_file"
        "has_text config ''ca_file'' ca_file"
      and routes: "(let v = dict_get config ''routes'' in
          if truthy v then res_bind (as_object v) (\<lambda>r. Inr (Some r)) else Inr None) = Inr routes"
      and hc: "new_http_adapter (target_value target) base_url credential_file ca_file routes = Inr hc"
      and a: "a = (if target = EmailProvider then EmailProviderAdapter hc else HttpAdapter hc)"
      using assms(1) Some unfolding load_http_def Let_def
      by (auto simp: mocked_iff text_member_iff elim!: res_bind_InrE)
    have "http_configured config hc" and "hc_system hc = target_value target"
      using new_http_adapter_ok [OF hc] texts routes_read [OF routes] by (auto simp: http_configured_def)
    then show ?thesis
      using assms(2) False by (auto simp: configured_adapter_cases Some adapter_of_def a)
  qed
qed

lemma load_telephony_configured:
  "load_telephony d system = Inr a \<Longrightarrow> system \<in> {''vicidial'', ''sip''} \<Longrightarrow> configured_adapter d system a"
  unfolding load_telephony_def configured_adapter_cases adapter_of_def telephony_configured_def
  by (auto simp: text_member_iff split: option.splits elim!: res_bind_InrE dest!: new_telephony_adapter_ok)

lemma load_keycloak_configured:
  assumes "load_keycloak d = Inr a"
  shows "configured_adapter d ''keycloak'' a"
proof (cases "enabled_config d ''keycloak''")
  case None
  then show ?thesis using assms by (simp add: configured_adapter_cases load_keycloak_def)
next
  case (Some config)
  then obtain kc where kc: "configured_keycloak config = Inr kc" and a: "a = KeycloakAdminAdapter kc"
    using assms by (auto simp: load_keycloak_def elim: res_bind_InrE)
  obtain base_url realm client secret approved realm_roles client_roles clients where
    members: "has_text config ''base_url'' base_url" "has_text config ''realm'' realm"
      "has_text config ''client_id'' client" "has_text config ''client_secret_file'' secret"
      "map_of config ''approved_group_prefixes'' = Some (text_list approved)"
      "map_of config ''approved_realm_roles'' = Some (text_list realm_roles)"
      "map_of config ''approved_client_roles'' = Some (text_lists client_roles)"
    and clients: "(let v = dict_get config ''activation_clients'' in
        if truthy v then res_bind (string_lists v) (\<lambda>m. Inr (Some m)) else Inr None) = Inr clients"
    and new: "new_keycloak_adapter base_url realm client secret approved realm_roles client_roles clients = Inr kc"
    using kc unfolding configured_keycloak_def
    by (elim res_bind_InrE) (auto simp: text_member_iff string_list_iff string_lists_iff member_def split: option.splits)
  have "if truthy (dict_get config ''activation_clients'')
      then dict_get config ''activation_clients'' = text_lists (kc_activation_clients kc)
      else kc_activation_clients kc = []"
    using clients new_keycloak_adapter_ok [OF new]
    by (auto simp: Let_def string_lists_iff split: if_splits elim!: res_bind_InrE)
  then have "keycloak_configured config kc"
    using members new_keycloak_adapter_ok [OF new] unfolding keycloak_configured_def by auto
  then show ?thesis by (simp add: configured_adapter_cases Some adapter_of_def a)
qed

definition configurable_systems :: "string list" where
  "configurable_systems =
     map target_value [Keycloak, Vicidial, Sip, Odoo, AgentDesktop, EmailProvider, N8nEvent]"


text \<open>A configuration that enables Odoo only.\<close>

definition sample_document :: json where
  "sample_document = JObj [(''odoo'', JObj [(''enabled'', JBool True), (''base_url'', JStr ''https://odoo''),
     (''credential_file'', JStr ''/secrets/odoo''), (''ca_file'', JStr ''/tls/ca'')])]"

definition sample_loading :: "unit services" where
  "sample_loading = (sample_services (\<lambda>_ e. (NetworkFailure, e)))\<lparr>sv_json_loads := (\<lambda>_. Some sample_document)\<rparr>"


end
