(* ===== verification/Dispatcher.thy ===== *)
theory Dispatcher
  imports Adapters
begin

text \<open>
  The callback dispatcher on the running service (\<^verbatim>\<open>app/callbacks.py\<close>): the event as it is stored and
  sent, one delivery with its reading of the secret, its signature and its POST, and the pass over
  the due events. The bookkeeping of a delivery is \<^const>\<open>dispatch_callback\<close> of the outbox.
\<close>

section \<open>The event document\<close>

text \<open>\<^verbatim>\<open>model_dump(mode="json")\<close> of the results and of the event.\<close>

definition opt_json :: "string option \<Rightarrow> json" where
  "opt_json v = (case v of None \<Rightarrow> JNull | Some s \<Rightarrow> JStr s)"

definition step_result_json :: "(time \<Rightarrow> string) \<Rightarrow> step_result \<Rightarrow> json" where
  "step_result_json json_time r =
     JObj
       [(''step_id'', JStr (sr_step_id r)),
        (''target_system'', JStr (target_value (sr_target_system r))),
        (''operation'', JStr (operation_value (sr_operation r))),
        (''state'', JStr (state_value (sr_state r))),
        (''attempt_count'', JInt (sr_attempt_count r)),
        (''external_id'', opt_json (sr_external_id r)),
        (''external_reference'', opt_json (sr_external_reference r)),
        (''credential_reference'', opt_json (sr_credential_reference r)),
        (''evidence_hash'', opt_json (sr_evidence_hash r)),
        (''error_code'', opt_json (sr_error_code r)),
        (''retry_at'', opt_json (map_option json_time (sr_retry_at r))),
        (''replayed'', JBool (sr_replayed r))]"

definition event_json :: "(time \<Rightarrow> string) \<Rightarrow> callback_event \<Rightarrow> json" where
  "event_json json_time e =
     JObj
       [(''event_id'', JStr (ce_event_id e)), (''schema_version'', JStr (ce_schema_version e)),
        (''request_id'', JStr (ce_request_id e)), (''employee_id'', JStr (ce_employee_id e)),
        (''correlation_id'', JStr (ce_correlation_id e)),
        (''idempotency_key'', JStr (ce_idempotency_key e)),
        (''target_system'', JStr (target_value (ce_target_system e))),
        (''operation'', JStr (operation_value (ce_operation e))), (''state'', JStr (ce_state e)),
        (''step_results'', JList (map (step_result_json json_time) (ce_step_results e))),
        (''timestamp'', JStr (json_time (ce_timestamp e)))]"

section \<open>Delivery\<close>

text \<open>How the POST ended, for the bookkeeping; an exception of the client is not an HTTP outcome.\<close>

fun callback_outcome :: "http_reply \<Rightarrow> http_outcome res" where
  "callback_outcome (HttpResponse status content body loc) = Inr (HttpStatus status)"
| "callback_outcome NetworkFailure = Inr TransportError"
| "callback_outcome OtherHttpFailure = Inr TransportError"
| "callback_outcome (ClientRaised e) = Inl e"

definition callback_request :: "'e services \<Rightarrow> string \<Rightarrow> string \<Rightarrow> string \<Rightarrow> string \<Rightarrow> json \<Rightarrow> http_request" where
  "callback_request sv url secret stamp event_id event =
     (let raw = compact_json event in
      \<lparr>rq_method = ''POST'', rq_url = url, rq_params = [],
       rq_headers = callback_headers (sv_hmac sv) secret stamp raw event_id,
       rq_body = RawBody raw\<rparr>)"

definition deliver ::
  "'e services \<Rightarrow> settings \<Rightarrow> string \<Rightarrow> json \<Rightarrow> int \<Rightarrow> ('e, bool) handler" where
  "deliver sv s event_id event attempts =
     (case callback_url s of
        Some url \<Rightarrow>
          if url = []
          then with_clock2 sv (\<lambda>t t'. dispatch_callback (Some []) (Inr []) TransportError t t' event_id attempts)
          else
          hbind (\<lambda>w. (read_secret_file (sv_files sv (w_env w)) (callback_hmac_file s) False, w)) (\<lambda>secret.
          hbind (\<lambda>w. case tick sv w of (t, w') \<Rightarrow> (Inr t, w')) (\<lambda>now.
          hbind (\<lambda>w. case sv_http sv (callback_request sv url secret (str_int (epoch_seconds now))
                   event_id event) (w_env w) of (reply, e) \<Rightarrow> (callback_outcome reply, w\<lparr>w_env := e\<rparr>))
            (\<lambda>outcome.
          with_clock2 sv (\<lambda>t t'. dispatch_callback (Some url) (Inr secret) outcome t t' event_id attempts))))
      | None \<Rightarrow>
          with_clock2 sv (\<lambda>t t'. dispatch_callback None (Inr []) TransportError t t' event_id attempts))"

definition enqueue_and_dispatch :: "'e services \<Rightarrow> settings \<Rightarrow> callback_event \<Rightarrow> ('e, bool) handler" where
  "enqueue_and_dispatch sv s event =
     (let document = event_json (sv_json_time sv) event in
      hbind (with_clock sv (\<lambda>t d. (Inr (), enqueue_callback t (ce_event_id event) document d))) (\<lambda>_.
      deliver sv s (ce_event_id event) document 0))"

fun dispatch_rows :: "'e services \<Rightarrow> settings \<Rightarrow> callback_row list \<Rightarrow> ('e, unit) handler" where
  "dispatch_rows sv s [] = hreturn ()"
| "dispatch_rows sv s (row # rows) =
     hbind (deliver sv s (cb_event_id row) (cb_payload row) (cb_attempt_count row))
       (\<lambda>_. dispatch_rows sv s rows)"

definition dispatch_due :: "'e services \<Rightarrow> settings \<Rightarrow> ('e, unit) handler" where
  "dispatch_due sv s =
     hbind (with_clock sv (\<lambda>t d. (Inr (due_callbacks t 20 d), d))) (dispatch_rows sv s)"

section \<open>Deliveries leave the step machine alone\<close>

lemma dispatch_leaves_steps:
  "same_steps d (snd (dispatch_callback url secret outcome t t' event_id attempts d))"
  by (auto simp: same_steps_def dispatch_callback_def mark_callback_def Let_def
      split: sum.split http_outcome.split)

lemma keeps_deliver [keeps_intros]: "keeps same_steps (deliver sv s event_id event attempts)"
proof -
  have "keeps same_steps (\<lambda>w. (r w, w))" for r :: "'a world \<Rightarrow> 'b"
    by (simp add: keeps_def same_steps_def)
  moreover have "keeps same_steps (\<lambda>w. case tick sv w of (t, w') \<Rightarrow> (Inr t, w'))"
    by (simp add: keeps_def split_beta same_steps_def)
  moreover have "keeps same_steps (\<lambda>w. case sv_http sv rq (w_env w) of
      (reply, e) \<Rightarrow> (callback_outcome reply, w\<lparr>w_env := e\<rparr>))" for rq
    by (simp add: keeps_def split_beta same_steps_def)
  ultimately show ?thesis
    unfolding deliver_def by (intro keeps_intros dispatch_leaves_steps)
qed

lemma keeps_enqueue_and_dispatch [keeps_intros]: "keeps same_steps (enqueue_and_dispatch sv s event)"
  unfolding enqueue_and_dispatch_def Let_def
  by (intro keeps_intros) (simp add: same_steps_def enqueue_callback_def)

lemma keeps_dispatch_rows [keeps_intros]: "keeps same_steps (dispatch_rows sv s rows)"
  by (induction rows) (auto intro!: keeps_intros)

lemma keeps_dispatch_due [keeps_intros]: "keeps same_steps (dispatch_due sv s)"
  unfolding dispatch_due_def by (intro keeps_intros) (simp_all add: same_steps_def)

end
