(* ===== verification/Engine.thy ===== *)
theory Engine
  imports Dispatcher
begin

text \<open>
  The provisioning engine (\<^verbatim>\<open>app/engine.py\<close>): the submission of an execution, the loop that runs its
  steps, compensation, retry, cancellation, verification, the identity life cycle, reconciliation,
  recovery after a restart and the worker's pass. The adapters are a table from system names to
  adapters. A call of the engine runs alone here; \<^verbatim>\<open>asyncio\<close> may interleave other calls at its
  awaits, which the employee and request locks keep away from the request, and the contract of the
  adapters in the theory Engine\_Runs allows the calls they await to move the rest of the store.
  Logging has no effect.
\<close>

section \<open>Hashes\<close>

definition hashed_key :: "(string \<Rightarrow> string) \<Rightarrow> string \<Rightarrow> string" where
  "hashed_key sha v = ''sha256:'' @ sha v"

text \<open>
  The document of an execution; a step that is mandatory does not say so, as before the field
  existed.
\<close>

definition canonical_step :: "(time \<Rightarrow> string) \<Rightarrow> step_command \<Rightarrow> json" where
  "canonical_step json_time c =
     (case command_json json_time c of
        JObj d \<Rightarrow> JObj (if mandatory c then filter (\<lambda>(k, v). k \<noteq> ''mandatory'') d else d)
      | v \<Rightarrow> v)"

definition canonical_document :: "(time \<Rightarrow> string) \<Rightarrow> request_execution \<Rightarrow> json" where
  "canonical_document json_time ex =
     JObj (envelope_items json_time ex @
       [(''steps'', JList (map (canonical_step json_time) (steps ex)))])"

definition canonical_hash :: "'e services \<Rightarrow> request_execution \<Rightarrow> string" where
  "canonical_hash sv ex =
     sv_sha256 sv (compact_json (canonical_document (sv_json_time sv) ex))"

text \<open>Validated again, with hashed keys.\<close>

definition normalize_keys :: "(string \<Rightarrow> string) \<Rightarrow> request_execution \<Rightarrow> request_execution res" where
  "normalize_keys sha ex =
     parse_execution (ex\<lparr>idempotency_key := hashed_key sha (idempotency_key ex),
       steps := map (\<lambda>s. s\<lparr>idempotency_key := hashed_key sha (idempotency_key s)\<rparr>) (steps ex)\<rparr>)"

section \<open>Reading a result\<close>

definition the_result :: "'e services \<Rightarrow> string \<Rightarrow> bool \<Rightarrow> ('e, execution_result option) handler" where
  "the_result sv request replayed =
     with_clock2 sv (\<lambda>t t'. request_result t t' request replayed)"

text \<open>The result if there is one, else an exception.\<close>

definition required_result :: "'e services \<Rightarrow> string \<Rightarrow> int \<Rightarrow> string \<Rightarrow> ('e, execution_result) handler" where
  "required_result sv request status code =
     hbind (the_result sv request False) (\<lambda>r.
     case r of None \<Rightarrow> hraise (EngineError status code) | Some x \<Rightarrow> hreturn x)"

definition validate_freshness :: "'e services \<Rightarrow> settings \<Rightarrow> time \<Rightarrow> ('e, unit) handler" where
  "validate_freshness sv s stamp w =
     (let (now, w') = tick sv w in
      (if seconds (request_max_age_seconds s) < \<bar>now - stamp\<bar>
       then Inl (EngineError 422 ''request_timestamp_outside_window'') else Inr (), w'))"

section \<open>Compensation\<close>

definition compensation_operation :: "step_command \<Rightarrow> operation" where
  "compensation_operation original = (if target_system original = Odoo then Update else Suspend)"

definition compensation_payload :: "step_command \<Rightarrow> dict" where
  "compensation_payload original =
     [(''compensation'', JStr
        (if compensation_operation original = Update then ''remove_excess_access''
         else if target_system original = AgentDesktop then ''revoke_sessions'' else ''suspend''))]"

definition compensation_command :: "(string \<Rightarrow> string) \<Rightarrow> string \<Rightarrow> step_command \<Rightarrow> step_command" where
  "compensation_command sha request original =
     original\<lparr>operation := compensation_operation original,
       idempotency_key := hashed_key sha (''compensate:'' @ request @ '':'' @ step_id original @ '':'' @
         operation_value (compensation_operation original)),
       payload := compensation_payload original\<rparr>"

text \<open>Looking an adapter up raises when there is none.\<close>

definition adapter_for :: "(string \<Rightarrow> 'e adapter option) \<Rightarrow> target_system \<Rightarrow> 'e adapter res" where
  "adapter_for adapters system =
     (case adapters (target_value system) of None \<Rightarrow> Inl KeyError | Some a \<Rightarrow> Inr a)"

definition call_adapter ::
  "(string \<Rightarrow> 'e adapter option) \<Rightarrow> step_command \<Rightarrow> ('e, dict) action" where
  "call_adapter adapters c = abind (alift (adapter_for adapters (target_system c))) (\<lambda>a. execute a c)"

definition record_outcome ::
  "'e services \<Rightarrow> string \<Rightarrow> string \<Rightarrow> operation \<Rightarrow> string \<Rightarrow> string option \<Rightarrow> string option \<Rightarrow> int option \<Rightarrow>
     'e world \<Rightarrow> 'e world" where
  "record_outcome sv request step oper state evidence code delay w =
     snd (with_clock2 sv (\<lambda>t t' d.
       ((), record_compensation t t' request step (operation_value oper) state evidence code delay d)) w)"

definition compensate_step ::
  "'e services \<Rightarrow> settings \<Rightarrow> (string \<Rightarrow> 'e adapter option) \<Rightarrow> string \<Rightarrow> step_command \<Rightarrow> 'e world \<Rightarrow> 'e world" where
  "compensate_step sv s adapters request original w =
     (if operation original \<notin> {CreateDisabled, Update, Activate} then w
      else
        let oper = compensation_operation original in
        if compensation_superseded request (step_id original) (target_value (target_system original)) (w_db w)
        then record_outcome sv request (step_id original) oper ''superseded'' None
               (Some ''newer_employee_operation'') None w
        else
          case call_adapter adapters (compensation_command (sv_sha256 sv) request original) w of
            (Returned result, w') \<Rightarrow>
              record_outcome sv request (step_id original) oper ''succeeded''
                (Some (sv_sha256 sv (default_json (JObj result)))) None None w'
          | (RetryableAdapterError code, w') \<Rightarrow>
              record_outcome sv request (step_id original) oper ''failed'' None (Some code)
                (Some (retry_base_seconds s)) w'
          | (PermanentAdapterError code, w') \<Rightarrow>
              record_outcome sv request (step_id original) oper ''failed'' None (Some code)
                (Some (retry_base_seconds s)) w'
          | (OtherError e, w') \<Rightarrow>
              record_outcome sv request (step_id original) oper ''failed'' None
                (Some ''compensation_unclassified_failure'') (Some (retry_base_seconds s)) w')"

definition compensate ::
  "'e services \<Rightarrow> settings \<Rightarrow> (string \<Rightarrow> 'e adapter option) \<Rightarrow> string \<Rightarrow> 'e world \<Rightarrow> 'e world" where
  "compensate sv s adapters request w =
     fold (compensate_step sv s adapters request) (successful_commands request (w_db w)) w"

section \<open>Running the steps of a request\<close>

definition is_access_enabling :: "operation \<Rightarrow> bool" where
  "is_access_enabling oper \<longleftrightarrow> oper \<in> {Activate, Reactivate}"

definition fail_claimed ::
  "'e services \<Rightarrow> string \<Rightarrow> string \<Rightarrow> string \<Rightarrow> time option \<Rightarrow> ('e, step_state) handler" where
  "fail_claimed sv step code retry_class retry_at =
     with_clock2 sv (\<lambda>t t'. fail_step t t' step code retry_class retry_at)"

text \<open>What a step that returned leaves in its row.\<close>

definition step_evidence :: "(string \<Rightarrow> string) \<Rightarrow> step_command \<Rightarrow> dict \<Rightarrow> dict" where
  "step_evidence sha c raw =
     [(''target_system'', JStr (target_value (target_system c))),
      (''operation'', JStr (operation_value (operation c))),
      (''external_id'', dict_get raw ''external_id''),
      (''external_reference'', dict_get raw ''external_reference''),
      (''credential_reference'', dict_get raw ''credential_reference''),
      (''evidence_hash'', JStr (sha (compact_json (JObj raw))))]"

definition done_state :: "operation \<Rightarrow> step_state" where
  "done_state oper = (if oper \<in> {Verify, Reconcile} then Verified else Succeeded)"

text \<open>The attempt the retry time is computed from: that of the step in the request's result.\<close>

definition attempt_of :: "string \<Rightarrow> execution_result \<Rightarrow> int" where
  "attempt_of step result =
     (case find (\<lambda>r. sr_step_id r = step) (er_step_results result) of
        None \<Rightarrow> 1 | Some r \<Rightarrow> sr_attempt_count r)"

definition retry_time ::
  "'e services \<Rightarrow> settings \<Rightarrow> step_command \<Rightarrow> string \<Rightarrow> ('e, time) handler" where
  "retry_time sv s c request =
     hbind (the_result sv request False) (\<lambda>current.
     case current of
       None \<Rightarrow> hraise AttributeError
     | Some result \<Rightarrow>
         (\<lambda>w. let (t, w') = tick sv w in
           (Inr (t + seconds (step_retry_seconds (retry_base_seconds s) (attempt_of (step_id c) result))), w')))"

text \<open>The three ways a claimed step ends; the loop goes on only after the first.\<close>

definition unclassified_failure ::
  "'e services \<Rightarrow> settings \<Rightarrow> (string \<Rightarrow> 'e adapter option) \<Rightarrow> step_command \<Rightarrow> string \<Rightarrow> ('e, bool) handler" where
  "unclassified_failure sv s adapters c request =
     hbind (fail_claimed sv (step_id c) ''adapter_unclassified_failure'' ''permanent'' None) (\<lambda>_ w.
     (Inr False, compensate sv s adapters request w))"

definition adapter_failure ::
  "'e services \<Rightarrow> settings \<Rightarrow> (string \<Rightarrow> 'e adapter option) \<Rightarrow> step_command \<Rightarrow> string \<Rightarrow> string \<Rightarrow>
     string \<Rightarrow> time option \<Rightarrow> ('e, bool) handler" where
  "adapter_failure sv s adapters c request code retry_class retry_at =
     hbind (fail_claimed sv (step_id c) code retry_class retry_at) (\<lambda>state w.
     if state = DeadLetter then
       (if \<not> gate_open sv ''DEAD_LETTER_GATE'' w
        then (Inl (EngineError 503 ''dead_letter_gate_closed''), w)
        else (Inr False, compensate sv s adapters request w))
     else (Inr False, w))"

definition settle_step ::
  "'e services \<Rightarrow> settings \<Rightarrow> (string \<Rightarrow> 'e adapter option) \<Rightarrow> step_command \<Rightarrow> string \<Rightarrow>
     dict outcome \<Rightarrow> ('e, bool) handler" where
  "settle_step sv s adapters c request result =
     (case result of
        Returned raw \<Rightarrow>
          (\<lambda>w. case with_clock sv (\<lambda>t. complete_step t (step_id c) (done_state (operation c))
                      (step_evidence (sv_sha256 sv) c raw)) w of
             (Inr _, w') \<Rightarrow> (Inr True, w')
           | (Inl e, w') \<Rightarrow> unclassified_failure sv s adapters c request w')
      | RetryableAdapterError code \<Rightarrow>
          hbind (retry_time sv s c request) (\<lambda>t.
          adapter_failure sv s adapters c request code ''transient'' (Some t))
      | PermanentAdapterError code \<Rightarrow>
          adapter_failure sv s adapters c request code ''permanent'' None
      | OtherError e \<Rightarrow> unclassified_failure sv s adapters c request)"

text \<open>One turn of the loop: claim, check the activation, call the adapter, settle.\<close>

definition run_claimed ::
  "'e services \<Rightarrow> settings \<Rightarrow> (string \<Rightarrow> 'e adapter option) \<Rightarrow> string \<Rightarrow> step_command \<Rightarrow> ('e, bool) handler" where
  "run_claimed sv s adapters request c w =
     (if is_access_enabling (operation c) \<and>
         activation_blockers (employee_id c) [target_value (target_system c)] (w_db w) \<noteq> []
      then (Inr False, snd (with_clock3 sv (\<lambda>t t' t'' d.
              ((), release_activation_claim t t' t'' (step_id c) d)) w))
      else case adapters (target_value (target_system c)) of
        None \<Rightarrow>
          hbind (fail_claimed sv (step_id c) ''adapter_not_registered'' ''permanent'' None) (\<lambda>state w.
          (Inr False, if state = DeadLetter then compensate sv s adapters request w else w)) w
      | Some a \<Rightarrow>
          (case execute a c w of
             (result, w') \<Rightarrow> settle_step sv s adapters c request result w'))"

definition run_step ::
  "'e services \<Rightarrow> settings \<Rightarrow> (string \<Rightarrow> 'e adapter option) \<Rightarrow> string \<Rightarrow> ('e, bool) handler" where
  "run_step sv s adapters request w =
     (case with_clock sv (\<lambda>t. claim_next t request) w of
        (None, w') \<Rightarrow> (Inr False, w')
      | (Some c, w') \<Rightarrow> run_claimed sv s adapters request c w')"

text \<open>
  The loop, with fuel; \<^const>\<open>None\<close> is running out of it. \<open>run_request\<close> gives it one turn more than the
  request has waiting steps, which is enough (Engine\_Runs).
\<close>

fun run_loop ::
  "nat \<Rightarrow> 'e services \<Rightarrow> settings \<Rightarrow> (string \<Rightarrow> 'e adapter option) \<Rightarrow> string \<Rightarrow> 'e world \<Rightarrow>
     (unit res \<times> 'e world) option" where
  "run_loop 0 sv s adapters request w = None"
| "run_loop (Suc fuel) sv s adapters request w =
     (case run_step sv s adapters request w of
        (Inl e, w') \<Rightarrow> Some (Inl e, w')
      | (Inr goes_on, w') \<Rightarrow>
          if goes_on then run_loop fuel sv s adapters request w' else Some (Inr (), w'))"

definition waiting_count :: "string \<Rightarrow> db \<Rightarrow> nat" where
  "waiting_count request d =
     length (filter (\<lambda>r. st_request_id r = request \<and> is_waiting (st_state r)) (tbl_steps d))"

definition run_request ::
  "'e services \<Rightarrow> settings \<Rightarrow> (string \<Rightarrow> 'e adapter option) \<Rightarrow> string \<Rightarrow> ('e, unit) handler" where
  "run_request sv s adapters request w =
     (case run_loop (Suc (waiting_count request (w_db w))) sv s adapters request w of
        Some r \<Rightarrow> r
      | None \<Rightarrow> (Inr (), w))"

text \<open>Called without the employee's lock, the result is read first.\<close>

definition run_unlocked ::
  "'e services \<Rightarrow> settings \<Rightarrow> (string \<Rightarrow> 'e adapter option) \<Rightarrow> string \<Rightarrow> ('e, unit) handler" where
  "run_unlocked sv s adapters request =
     hbind (the_result sv request False) (\<lambda>current.
     if current = None then hreturn () else run_request sv s adapters request)"

definition compensate_due ::
  "'e services \<Rightarrow> settings \<Rightarrow> (string \<Rightarrow> 'e adapter option) \<Rightarrow> string \<Rightarrow> ('e, unit) handler" where
  "compensate_due sv s adapters request =
     hbind (the_result sv request False) (\<lambda>current w.
     (Inr (), if current = None then w else compensate sv s adapters request w))"

section \<open>Callbacks\<close>

definition result_event ::
  "'e services \<Rightarrow> 'a request_envelope_scheme \<Rightarrow> execution_result \<Rightarrow> time \<Rightarrow> callback_event" where
  "result_event sv envelope r now =
     \<lparr>ce_event_id = sv_uuid5 sv (er_request_id r @ '':'' @ er_state r @ '':'' @ iso_text (er_updated_at r)),
      ce_schema_version = ''1.0'', ce_request_id = er_request_id r, ce_employee_id = er_employee_id r,
      ce_correlation_id = er_correlation_id r,
      ce_idempotency_key = hashed_key (sv_sha256 sv) (idempotency_key envelope),
      ce_target_system = Odoo, ce_operation = Update, ce_state = er_state r,
      ce_step_results = er_step_results r, ce_timestamp = now\<rparr>"

definition callback ::
  "'e services \<Rightarrow> settings \<Rightarrow> 'a request_envelope_scheme \<Rightarrow> execution_result \<Rightarrow> ('e, unit) handler" where
  "callback sv s envelope r w =
     (if \<not> gate_open sv ''CALLBACK_GATE'' w then (Inr (), w)
      else let (now, w1) = tick sv w in
        hbind (enqueue_and_dispatch sv s (result_event sv envelope r now)) (\<lambda>_. hreturn ()) w1)"

section \<open>Submission\<close>

text \<open>The conflict of an idempotency key is the engine's 409.\<close>

definition conflict_409 :: "'a res \<Rightarrow> 'a res" where
  "conflict_409 r =
     (case r of Inl (IdempotencyConflict code) \<Rightarrow> Inl (EngineError 409 code) | _ \<Rightarrow> r)"

text \<open>The answer to a replay: the stored result, or the result as it is now.\<close>

definition replay_answer ::
  "'e services \<Rightarrow> string \<Rightarrow> execution_result option \<Rightarrow> ('e, execution_result option) handler" where
  "replay_answer sv request existing =
     (case existing of
        Some r \<Rightarrow> hreturn (Some (r\<lparr>er_replayed := True\<rparr>))
      | None \<Rightarrow>
          hbind (the_result sv request True) (\<lambda>current.
          hreturn (map_option (\<lambda>r. r\<lparr>er_replayed := True\<rparr>) current)))"

definition fresh_execution ::
  "'e services \<Rightarrow> settings \<Rightarrow> (string \<Rightarrow> 'e adapter option) \<Rightarrow> string \<Rightarrow> request_execution \<Rightarrow>
     ('e, execution_result) handler" where
  "fresh_execution sv s adapters request normalized =
     hbind (run_request sv s adapters request) (\<lambda>_.
     hbind (required_result sv request 500 ''execution_state_missing'') (\<lambda>r.
     hbind (callback sv s normalized r) (\<lambda>_. hreturn r)))"

definition begin_and_run ::
  "'e services \<Rightarrow> settings \<Rightarrow> (string \<Rightarrow> 'e adapter option) \<Rightarrow> string \<Rightarrow> request_execution \<Rightarrow> string \<Rightarrow>
     ('e, execution_result) handler" where
  "begin_and_run sv s adapters request normalized request_hash =
     hbind (with_clock sv (\<lambda>t d. case begin_execution (sv_sha256 sv) t normalized request_hash d of
         (r, d') \<Rightarrow> (conflict_409 r, d'))) (\<lambda>(existing, replayed).
     hbind (if replayed then replay_answer sv request existing else hreturn None) (\<lambda>answer.
     case answer of
       Some r \<Rightarrow> hreturn r
     | None \<Rightarrow> fresh_execution sv s adapters request normalized))"

definition access_enabling_steps :: "request_execution \<Rightarrow> step_command list" where
  "access_enabling_steps ex = filter (\<lambda>c. is_access_enabling (operation c)) (steps ex)"

definition check_blockers :: "request_execution \<Rightarrow> ('e, unit) handler" where
  "check_blockers ex w =
     (if access_enabling_steps ex \<noteq> [] \<and>
         activation_blockers (employee_id ex)
           (map (\<lambda>c. target_value (target_system c)) (access_enabling_steps ex)) (w_db w) \<noteq> []
      then (Inl (EngineError 409 ''mandatory_verification_incomplete''), w) else (Inr (), w))"

definition admit ::
  "'e services \<Rightarrow> settings \<Rightarrow> string \<Rightarrow> request_execution \<Rightarrow> ('e, unit) handler" where
  "admit sv s request ex w =
     (if \<not> gate_open sv ''PROVISIONING_SERVICE_GATE'' w \<or> \<not> gate_open sv ''STEP_ENGINE_GATE'' w
      then (Inl (EngineError 503 ''provisioning_engine_gate_closed''), w)
      else if request_id ex \<noteq> request then (Inl (EngineError 422 ''request_id_mismatch''), w)
      else hbind (validate_freshness sv s (timestamp ex)) (\<lambda>_.
        if access_enabling_steps ex \<noteq> [] \<and> length (access_enabling_steps ex) \<noteq> length (steps ex)
        then hraise (EngineError 422 ''mixed_activation_execution_forbidden'') else hreturn ()) w)"

definition submit ::
  "'e services \<Rightarrow> settings \<Rightarrow> (string \<Rightarrow> 'e adapter option) \<Rightarrow> string \<Rightarrow> request_execution \<Rightarrow>
     ('e, execution_result) handler" where
  "submit sv s adapters request ex =
     hbind (admit sv s request ex) (\<lambda>_.
     hbind (hlift (normalize_keys (sv_sha256 sv) ex)) (\<lambda>normalized.
     let request_hash = canonical_hash sv normalized in
     hbind (\<lambda>w. (conflict_409 (existing_execution (sv_sha256 sv) normalized request_hash (w_db w)), w))
       (\<lambda>(existing, replayed).
     hbind (if replayed then replay_answer sv request existing else hreturn None) (\<lambda>answer.
     case answer of
       Some r \<Rightarrow> hreturn r
     | None \<Rightarrow>
         hbind (check_blockers ex) (\<lambda>_.
         begin_and_run sv s adapters request normalized request_hash)))))"

section \<open>Retry and cancellation\<close>

definition found_result :: "'e services \<Rightarrow> string \<Rightarrow> ('e, execution_result) handler" where
  "found_result sv request = required_result sv request 404 ''request_not_found''"

definition guard :: "bool \<Rightarrow> repo_error \<Rightarrow> ('e, unit) handler" where
  "guard ok e = (if ok then hreturn () else hraise e)"

definition retry_gate :: "'e services \<Rightarrow> ('e, unit) handler" where
  "retry_gate sv w = guard (gate_open sv ''RETRY_GATE'' w) (EngineError 503 ''retry_gate_closed'') w"

definition not_cancelled :: "string \<Rightarrow> ('e, unit) handler" where
  "not_cancelled request w =
     guard (\<not> is_cancelled request (w_db w)) (EngineError 409 ''cancelled_execution_retry_forbidden'') w"

definition retry ::
  "'e services \<Rightarrow> settings \<Rightarrow> (string \<Rightarrow> 'e adapter option) \<Rightarrow> string \<Rightarrow> action_request \<Rightarrow>
     ('e, execution_result) handler" where
  "retry sv s adapters request action =
     hbind (retry_gate sv) (\<lambda>_.
     hbind (guard (request_id action = request \<and> operation action = Update)
       (EngineError 422 ''retry_envelope_mismatch'')) (\<lambda>_.
     hbind (validate_freshness sv s (timestamp action)) (\<lambda>_.
     hbind (found_result sv request) (\<lambda>_.
     hbind (not_cancelled request) (\<lambda>_.
     hbind (with_clock3 sv (\<lambda>t t' t'' d. case schedule_step_retry t t' t'' request d of
         (scheduled, d') \<Rightarrow> (Inr scheduled, d'))) (\<lambda>scheduled.
     if \<not> scheduled
     then hbind (the_result sv request True) (\<lambda>current.
       case current of
         None \<Rightarrow> hraise (EngineError 404 ''request_not_found'')
       | Some r \<Rightarrow> hbind (callback sv s action r) (\<lambda>_. hreturn r))
     else
       hbind (run_request sv s adapters request) (\<lambda>_.
       hbind (found_result sv request) (\<lambda>r.
       hbind (callback sv s action r) (\<lambda>_. hreturn r)))))))))"

definition cancel ::
  "'e services \<Rightarrow> settings \<Rightarrow> (string \<Rightarrow> 'e adapter option) \<Rightarrow> string \<Rightarrow> action_request \<Rightarrow>
     ('e, execution_result) handler" where
  "cancel sv s adapters request action =
     hbind (guard (request_id action = request \<and> operation action = Cancel)
       (EngineError 422 ''cancel_operation_required'')) (\<lambda>_.
     hbind (validate_freshness sv s (timestamp action)) (\<lambda>_.
     hbind (found_result sv request) (\<lambda>_.
     hbind (with_clock sv (\<lambda>t d. (Inr (), snd (cancel_pending t request d)))) (\<lambda>_.
     hbind (with_clock2 sv (\<lambda>t t' d. (Inr (), mark_cancelled t t' request d))) (\<lambda>_.
     hbind (\<lambda>w. (Inr (), compensate sv s adapters request w)) (\<lambda>_.
     required_result sv request 500 ''execution_state_missing''))))))"

section \<open>Verification\<close>

definition verification_command :: "(string \<Rightarrow> string) \<Rightarrow> action_request \<Rightarrow> step_command \<Rightarrow> step_command" where
  "verification_command sha action original =
     original\<lparr>operation := Verify,
       idempotency_key := hashed_key sha
         (''verify:'' @ idempotency_key action @ '':'' @ step_id original),
       payload := AList.update ''external_verification'' (JBool True) (payload original)\<rparr>"

text \<open>
  Whether an answer confirms: a member that is \<^verbatim>\<open>True\<close>, or a state of the given ones (a state that
  cannot be a member of a set raises).
\<close>

definition confirms :: "string list \<Rightarrow> string list \<Rightarrow> dict \<Rightarrow> bool res" where
  "confirms flags states raw =
     (if list_ex (\<lambda>k. dict_get raw k = JBool True) flags then Inr True
      else if \<not> hashable (dict_get raw ''state'') then Inl TypeError
      else Inr (dict_get raw ''state'' \<in> JStr ` set states))"

definition verified_answer :: "dict \<Rightarrow> bool res" where
  "verified_answer raw =
     confirms [''verified'', ''aligned''] [''verified'', ''aligned'', ''succeeded''] raw"

text \<open>The results are copies of the first result of the request.\<close>

definition copied_result ::
  "execution_result \<Rightarrow> step_command \<Rightarrow> step_state \<Rightarrow> string option option \<Rightarrow> string option \<Rightarrow>
     step_result res" where
  "copied_result current c state evidence code =
     (case er_step_results current of
        [] \<Rightarrow> Inl (LookupError ''list index out of range'')
      | first # _ \<Rightarrow>
          Inr (first\<lparr>sr_step_id := step_id c, sr_target_system := target_system c,
            sr_operation := Verify, sr_state := state,
            sr_evidence_hash := (case evidence of None \<Rightarrow> sr_evidence_hash first | Some e \<Rightarrow> e),
            sr_error_code := code\<rparr>))"

definition confirm_verification ::
  "'e services \<Rightarrow> execution_result \<Rightarrow> step_command \<Rightarrow> dict \<Rightarrow> ('e, step_result) handler" where
  "confirm_verification sv current c raw =
     (let evidence = sv_sha256 sv (default_json (JObj raw)) in
      hbind (hlift (verified_answer raw)) (\<lambda>verified.
      if \<not> verified
      then hlift (copied_result current c step_state.Failed (Some (Some evidence))
             (Some ''verification_not_confirmed''))
      else
        hbind (with_clock sv (\<lambda>t d. case record_verification t (er_employee_id current)
                 (target_value (target_system c)) (step_id c) evidence d of
               (accepted, d') \<Rightarrow> (Inr accepted, d'))) (\<lambda>accepted.
        if \<not> accepted then hraise (EngineError 409 ''stale_verification_conflict'')
        else hlift (copied_result current c Verified (Some (Some evidence)) None))))"

definition verify_one ::
  "'e services \<Rightarrow> (string \<Rightarrow> 'e adapter option) \<Rightarrow> action_request \<Rightarrow> execution_result \<Rightarrow> step_command \<Rightarrow>
     ('e, step_result) handler" where
  "verify_one sv adapters action current original w =
     (let c = verification_command (sv_sha256 sv) action original in
      case abind (alift (adapter_for adapters (target_system c))) (\<lambda>a. a Verify c) w of
        (Returned raw, w') \<Rightarrow> confirm_verification sv current c raw w'
      | (RetryableAdapterError code, w') \<Rightarrow>
          (copied_result current c step_state.Failed None (Some code), w')
      | (PermanentAdapterError code, w') \<Rightarrow>
          (copied_result current c step_state.Failed None (Some code), w')
      | (OtherError e, w') \<Rightarrow> (Inl e, w'))"

fun hmap :: "('a \<Rightarrow> ('e, 'b) handler) \<Rightarrow> 'a list \<Rightarrow> ('e, 'b list) handler" where
  "hmap f [] = hreturn []"
| "hmap f (x # xs) = hbind (f x) (\<lambda>y. hbind (hmap f xs) (\<lambda>ys. hreturn (y # ys)))"

definition all_verified :: "step_result list \<Rightarrow> bool" where
  "all_verified results \<longleftrightarrow> results \<noteq> [] \<and> list_all (\<lambda>r. sr_state r = Verified) results"

definition verify_locked ::
  "'e services \<Rightarrow> (string \<Rightarrow> 'e adapter option) \<Rightarrow> string \<Rightarrow> action_request \<Rightarrow> execution_result \<Rightarrow>
     ('e, execution_result) handler" where
  "verify_locked sv adapters request action current w =
     (let originals = verification_commands request (w_db w) in
      if list_ex (\<lambda>c. \<not> is_current_verification_candidate (er_employee_id current)
            (target_value (target_system c)) (step_id c) (w_db w)) originals
      then (Inl (EngineError 409 ''stale_verification_conflict''), w)
      else hbind (hmap (verify_one sv adapters action current) originals) (\<lambda>results.
        hreturn (current\<lparr>er_state := (if all_verified results then ''verified'' else ''verification_failed''),
          er_step_results := results\<rparr>)) w)"

definition verify ::
  "'e services \<Rightarrow> settings \<Rightarrow> (string \<Rightarrow> 'e adapter option) \<Rightarrow> string \<Rightarrow> action_request \<Rightarrow>
     ('e, execution_result) handler" where
  "verify sv s adapters request action =
     hbind (guard (request_id action = request \<and> operation action = Verify)
       (EngineError 422 ''verify_operation_required'')) (\<lambda>_.
     hbind (validate_freshness sv s (timestamp action)) (\<lambda>_.
     hbind (found_result sv request) (\<lambda>current.
     verify_locked sv adapters request action current)))"

section \<open>Identity life cycle and reconciliation\<close>

text \<open>Each step's payload over that of the last command of its system.\<close>

definition enrich_step :: "step_command list \<Rightarrow> step_command \<Rightarrow> step_command" where
  "enrich_step commands c =
     (case find (\<lambda>p. target_system p = target_system c) (rev commands) of
        None \<Rightarrow> c
      | Some previous \<Rightarrow> c\<lparr>payload := dict_merge (payload previous) (payload c)\<rparr>)"

definition lifecycle ::
  "'e services \<Rightarrow> settings \<Rightarrow> (string \<Rightarrow> 'e adapter option) \<Rightarrow> string \<Rightarrow> operation \<Rightarrow> request_execution \<Rightarrow>
     ('e, execution_result) handler" where
  "lifecycle sv s adapters employee oper ex =
     hbind (guard (employee_id ex = employee) (EngineError 422 ''employee_id_mismatch'')) (\<lambda>_.
     hbind (guard (operation ex = oper \<and> list_all (\<lambda>c. operation c = oper) (steps ex))
       (EngineError 422 ''operation_mismatch'')) (\<lambda>_.
     hbind (\<lambda>w. (parse_execution (ex\<lparr>steps :=
         map (enrich_step (employee_commands employee (w_db w))) (steps ex)\<rparr>), w)) (\<lambda>enriched.
     submit sv s adapters (request_id enriched) enriched)))"

definition reconciliation_command :: "(string \<Rightarrow> string) \<Rightarrow> action_request \<Rightarrow> step_command \<Rightarrow> step_command" where
  "reconciliation_command sha action original =
     original\<lparr>operation := Reconcile,
       idempotency_key := hashed_key sha
         (''reconcile:'' @ idempotency_key action @ '':'' @ step_id original),
       payload := AList.update ''expected_state_check'' (JBool True) (payload original)\<rparr>"

definition aligned_answer :: "dict \<Rightarrow> bool res" where
  "aligned_answer raw = confirms [''aligned''] [''aligned'', ''verified''] raw"

definition reconcile_row ::
  "step_command \<Rightarrow> step_state \<Rightarrow> string option \<Rightarrow> string option \<Rightarrow> string option \<Rightarrow> string option \<Rightarrow>
     step_result" where
  "reconcile_row c state external_id external_reference evidence code =
     \<lparr>sr_step_id = step_id c, sr_target_system = target_system c, sr_operation = Reconcile,
      sr_state = state, sr_attempt_count = 1, sr_external_id = external_id,
      sr_external_reference = external_reference, sr_credential_reference = None,
      sr_evidence_hash = evidence, sr_error_code = code, sr_retry_at = None, sr_replayed = False\<rparr>"

definition reconcile_result :: "'e services \<Rightarrow> step_command \<Rightarrow> dict \<Rightarrow> step_result res" where
  "reconcile_result sv c raw =
     res_bind (aligned_answer raw) (\<lambda>aligned.
     res_bind (opt_str_field (dict_get raw ''external_id'')) (\<lambda>external_id.
     res_bind (opt_str_field (dict_get raw ''external_reference'')) (\<lambda>external_reference.
     Inr (reconcile_row c (if aligned then Verified else step_state.Failed) external_id
       external_reference (Some (sv_sha256 sv (default_json (JObj raw))))
       (if aligned then None else Some ''reconciliation_drift'')))))"

definition reconcile_one ::
  "'e services \<Rightarrow> (string \<Rightarrow> 'e adapter option) \<Rightarrow> action_request \<Rightarrow> step_command \<Rightarrow>
     ('e, step_result) handler" where
  "reconcile_one sv adapters action original w =
     (let c = reconciliation_command (sv_sha256 sv) action original in
      case abind (alift (adapter_for adapters (target_system c))) (\<lambda>a. a Reconcile c) w of
        (Returned raw, w') \<Rightarrow> (reconcile_result sv c raw, w')
      | (RetryableAdapterError code, w') \<Rightarrow>
          (Inr (reconcile_row c step_state.Failed None None None (Some code)), w')
      | (PermanentAdapterError code, w') \<Rightarrow>
          (Inr (reconcile_row c step_state.Failed None None None (Some code)), w')
      | (OtherError e, w') \<Rightarrow> (Inl e, w'))"

definition reconcile ::
  "'e services \<Rightarrow> settings \<Rightarrow> (string \<Rightarrow> 'e adapter option) \<Rightarrow> string \<Rightarrow> action_request \<Rightarrow>
     ('e, reconciliation_result) handler" where
  "reconcile sv s adapters employee action =
     hbind (\<lambda>w. guard (gate_open sv ''RECONCILIATION_GATE'' w)
       (EngineError 503 ''reconciliation_gate_closed'') w) (\<lambda>_.
     hbind (guard (employee_id action = employee \<and> operation action = Reconcile)
       (EngineError 422 ''reconciliation_envelope_mismatch'')) (\<lambda>_.
     hbind (validate_freshness sv s (timestamp action)) (\<lambda>_.
     hbind (\<lambda>w. hmap (reconcile_one sv adapters action) (employee_commands employee (w_db w)) w) (\<lambda>results.
     hreturn \<lparr>rr_employee_id = employee,
       rr_state = (if all_verified results then ''aligned'' else ''drift_or_unavailable''),
       rr_systems = results\<rparr>))))"

section \<open>Recovery and the worker\<close>

fun heach :: "('a \<Rightarrow> ('e, unit) handler) \<Rightarrow> 'a list \<Rightarrow> ('e, unit) handler" where
  "heach f [] = hreturn ()"
| "heach f (x # xs) = hbind (f x) (\<lambda>_. heach f xs)"

text \<open>Both lists are read when their loop starts.\<close>

definition run_pending ::
  "'e services \<Rightarrow> settings \<Rightarrow> (string \<Rightarrow> 'e adapter option) \<Rightarrow> ('e, unit) handler" where
  "run_pending sv s adapters =
     hbind (with_clock sv (\<lambda>t d. (Inr (pending_request_ids t d), d)))
       (heach (run_unlocked sv s adapters))"

definition compensate_pending ::
  "'e services \<Rightarrow> settings \<Rightarrow> (string \<Rightarrow> 'e adapter option) \<Rightarrow> ('e, unit) handler" where
  "compensate_pending sv s adapters =
     hbind (with_clock sv (\<lambda>t d. (Inr (due_compensation_request_ids t d), d)))
       (heach (compensate_due sv s adapters))"

definition recover ::
  "'e services \<Rightarrow> settings \<Rightarrow> (string \<Rightarrow> 'e adapter option) \<Rightarrow> ('e, unit) handler" where
  "recover sv s adapters =
     hbind (\<lambda>w. guard (gate_open sv ''RESTART_RECOVERY_GATE'' w)
       (EngineError 503 ''restart_recovery_gate_closed'') w) (\<lambda>_.
     hbind (with_clock3 sv (\<lambda>t t' t'' d.
       (Inr (), snd (recover_stale t t' t'' (claim_timeout_seconds s) d)))) (\<lambda>_.
     hbind (run_pending sv s adapters) (\<lambda>_.
     compensate_pending sv s adapters)))"

text \<open>
  One pass of the worker's loop, alone: no lock is taken. An exception in a pass ends the worker.
\<close>

definition worker_pass ::
  "'e services \<Rightarrow> settings \<Rightarrow> (string \<Rightarrow> 'e adapter option) \<Rightarrow> ('e, unit) handler" where
  "worker_pass sv s adapters =
     hbind (run_pending sv s adapters) (\<lambda>_.
     hbind (compensate_pending sv s adapters) (\<lambda>_.
     dispatch_due sv s))"

text \<open>
  The background task: a pass, a second's wait in which the rest of the service goes on (a change of
  the world), and the next pass, until the service is stopped. The list has one member for each pass
  that begins before that.
\<close>

fun worker ::
  "'e services \<Rightarrow> settings \<Rightarrow> (string \<Rightarrow> 'e adapter option) \<Rightarrow> ('e world \<Rightarrow> 'e world) list \<Rightarrow>
     ('e, unit) handler" where
  "worker sv s adapters [] = hreturn ()"
| "worker sv s adapters (meanwhile # waits) =
     hbind (worker_pass sv s adapters) (\<lambda>_ w. worker sv s adapters waits (meanwhile w))"

end
