(* ===== verification/Engine_Runs.thy ===== *)
theory Engine_Runs
  imports Engine Step_Outcomes
begin

text \<open>
  The engine runs on the step machine: every call of the engine moves the store by a run of the
  transitions of the theory Step\_Machine, and the loop over the steps of a request ends. Both hold
  under the contract \<open>engine_adapters\<close> of what an adapter may do to the store while the engine
  waits for it, and the adapters the service loads meet that contract.
\<close>

section \<open>Runs\<close>

text \<open>
  From a consistent store, the second database is reached from the first by transitions of the
  step machine, none of them a restart recovery.
\<close>

definition run_of :: "(string \<Rightarrow> string) \<Rightarrow> db \<Rightarrow> db \<Rightarrow> bool" where
  "run_of sha d d' \<longleftrightarrow> ((\<exists>n. machine_inv n d) \<longrightarrow> (store_step sha 0)\<^sup>*\<^sup>* d d')"

lemma store_steps_inv:
  assumes "(store_step sha 0)\<^sup>*\<^sup>* d d'" and "machine_inv n d"
  shows "machine_inv n d'"
  using assms
proof (induction rule: rtranclp_induct)
  case (step y z)
  then show ?case using store_step_inv [of sha 0 y z n] by simp
qed

lemma run_of_inv: "run_of sha d d' \<Longrightarrow> machine_inv n d \<Longrightarrow> machine_inv n d'"
  unfolding run_of_def by (blast intro: store_steps_inv)

lemma run_of_step: "store_step sha 0 d d' \<Longrightarrow> run_of sha d d'"
  by (simp add: run_of_def r_into_rtranclp)

lemma run_of_trans: "run_of sha d d' \<Longrightarrow> run_of sha d' d'' \<Longrightarrow> run_of sha d d''"
  unfolding run_of_def by (blast intro: store_steps_inv rtranclp_trans)

lemma run_of_preorder [simp, keeps_intros]: "reflp (run_of sha)" "transp (run_of sha)"
  by (auto simp: reflp_def run_of_def) (blast intro: transpI run_of_trans)

lemma same_steps_run_of: "same_steps d d' \<Longrightarrow> run_of sha d d'"
  by (auto simp: run_of_def intro: same_steps_run)

lemmas keeps_run_of_same = keeps_weaken [OF _ same_steps_run_of]

text \<open>
  What an adapter may do to the store during a call for a request: it may use its own tables, and
  other calls of the service may be served meanwhile, but none of the steps of the request change.
\<close>

definition adapter_run :: "(string \<Rightarrow> string) \<Rightarrow> string \<Rightarrow> db \<Rightarrow> db \<Rightarrow> bool" where
  "adapter_run sha request d d' \<longleftrightarrow> run_of sha d d' \<and> rows_of request d' = rows_of request d"

lemma adapter_frame_run: "adapter_frame d d' \<Longrightarrow> adapter_run sha request d d'"
  using same_steps_run_of [OF adapter_frame_steps]
  by (auto simp: adapter_run_def adapter_frame_def rows_of_def)

text \<open>A step that runs stays the only row of its identifier while its request's rows stay.\<close>

lemma in_flight_rows_of:
  assumes inv: "machine_inv n d'" and rows: "rows_of request d' = rows_of request d"
    and row: "s \<in> set (tbl_steps d)" "st_request_id s = request" "st_step_id s = step"
    and flight: "in_flight step d"
  shows "in_flight step d'"
proof -
  have "s \<in> set (rows_of request d')" using row by (simp add: rows) (simp add: rows_of_def)
  then have s: "s \<in> set (tbl_steps d')" by (simp add: rows_of_def)
  have "distinct (map st_step_id (tbl_steps d'))"
    using inv by (simp add: machine_inv_def store_inv_distinct)
  then show ?thesis
    using s row(1,3) flight by (auto simp: in_flight_def dest: unique_key_eq)
qed

lemma normalized_steps_belong:
  assumes "normalize_keys sha ex = Inr normalized"
  shows "steps_belong normalized"
proof -
  obtain e where valid: "validate_execution e = Inr normalized"
    using assms by (simp add: normalize_keys_def parse_execution_def)
  then have "normalized = e" using validate_execution_cases [of e] by auto
  then show ?thesis using valid validated_steps_belong by simp
qed

text \<open>The row of a claimed step.\<close>

lemma claimed_row:
  assumes "store_inv d" and "claim_next t request d = (Some c, d1)"
  shows "\<exists>row \<in> set (tbl_steps d1). st_command row = c \<and> st_step_id row = step_id c \<and>
    st_request_id row = request \<and> st_state row = Running"
proof (rule claim_next_Some [OF assms], goal_cases)
  case row: (1 row)
  let ?run = "row\<lparr>st_state := Running, st_attempt_count := st_attempt_count row + 1,
    st_claimed_at := Some t, st_updated_at := t\<rparr>"
  have "?run \<in> set (tbl_steps d1)"
    unfolding row(6) using row(1,4) by (auto simp: sql_update_def)
  then show ?case using runnableD(1) [OF row(2)] row(3,4) by (intro bexI [of _ ?run]) simp_all
qed

section \<open>The contract of the adapters\<close>

locale engine_adapters =
  fixes sv :: "'e services" and adapters :: "string \<Rightarrow> 'e adapter option"
  assumes call_runs:
    "adapters system = Some a \<Longrightarrow> keeps (adapter_run (sv_sha256 sv) (request_id c)) (a oper c)"
begin

abbreviation run :: "db \<Rightarrow> db \<Rightarrow> bool" where
  "run \<equiv> run_of (sv_sha256 sv)"

lemma execute_runs:
  assumes "adapters system = Some a"
  shows "keeps (adapter_run (sv_sha256 sv) (request_id c)) (execute a c)"
proof (cases "operation c = Cancel")
  case True
  then show ?thesis
    by (simp add: execute_def keeps_def permanent_def adapter_run_def run_of_def)
next
  case False
  then show ?thesis using call_runs [OF assms] by (simp add: execute_def)
qed

lemma method_run: "adapters system = Some a \<Longrightarrow> keeps run (a oper c)"
  by (rule keeps_weaken [OF call_runs]) (simp_all add: adapter_run_def)

lemma execute_run: "adapters system = Some a \<Longrightarrow> keeps run (execute a c)"
  by (rule keeps_weaken [OF execute_runs]) (simp_all add: adapter_run_def)

lemma keeps_looked_up:
  assumes "\<And>a. adapters (target_value system) = Some a \<Longrightarrow> keeps run (m a)"
  shows "keeps run (abind (alift (adapter_for adapters system)) m)"
proof (cases "adapters (target_value system)")
  case None
  then show ?thesis
    by (simp add: keeps_def abind_def alift_def adapter_for_def run_of_def)
next
  case (Some a)
  then show ?thesis using assms
    by (simp add: keeps_def abind_def alift_def adapter_for_def)
qed

lemma call_adapter_run: "keeps run (call_adapter adapters c)"
  unfolding call_adapter_def by (rule keeps_looked_up) (rule execute_run)

section \<open>Compensation\<close>

lemma record_outcome_run:
  "run (w_db w) (w_db (record_outcome sv request step oper state evidence code delay w))"
proof -
  have "keeps run (with_clock2 sv (\<lambda>t t' d.
      ((), record_compensation t t' request step (operation_value oper) state evidence code delay d)))"
    by (rule keeps_run_of_same) (auto intro!: keeps_intros simp: same_steps_def record_compensation_def Let_def)
  then show ?thesis by (simp add: keeps_def record_outcome_def)
qed

lemma compensate_step_run: "run (w_db w) (w_db (compensate_step sv s adapters request original w))"
proof -
  obtain r w' where call: "call_adapter adapters (compensation_command (sv_sha256 sv) request original) w = (r, w')"
    by (cases "call_adapter adapters (compensation_command (sv_sha256 sv) request original) w")
  then have "run (w_db w) (w_db w')" using call_adapter_run by (rule keepsD [rotated])
  moreover have "run d d" for d by (simp add: run_of_def)
  ultimately show ?thesis
    by (auto simp: compensate_step_def call Let_def intro: record_outcome_run
        run_of_trans [OF _ record_outcome_run] split: outcome.split)
qed

lemma compensate_run: "run (w_db w) (w_db (compensate sv s adapters request w))"
proof -
  have "run (w_db w) (w_db (fold (compensate_step sv s adapters request) cs w))" for cs
    by (induction cs arbitrary: w)
       (auto simp: run_of_def [of _ d d for d] intro: run_of_trans [OF compensate_step_run])
  then show ?thesis by (simp add: compensate_def)
qed

section \<open>A claimed step\<close>

lemma settled_run: "in_flight step d \<Longrightarrow> store_step sha 0 d d' \<Longrightarrow> run_of sha d d'"
  by (rule run_of_step)

lemma fail_claimed_run:
  assumes "in_flight step (w_db w)"
  shows "run (w_db w) (w_db (snd (fail_claimed sv step code cls at w)))"
proof -
  have "keeps (\<lambda>d d'. in_flight step d \<longrightarrow> run d d') (fail_claimed sv step code cls at)"
    unfolding fail_claimed_def by (intro keeps_intros) (auto intro: run_of_step store_step.fails)
  then show ?thesis using assms by (simp add: keeps_def)
qed

lemma compensate_keeps [keeps_intros]: "keeps run (\<lambda>w. (r, compensate sv s adapters request w))"
  by (simp add: keeps_def compensate_run)

lemma run_then:
  assumes "run (w_db w) (w_db (snd (m w)))" and "\<And>x. keeps run (f x)"
  shows "run (w_db w) (w_db (snd (hbind m f w)))"
proof -
  obtain r w' where m: "m w = (r, w')" by (cases "m w")
  have "run (w_db w') (w_db (snd (f x w')))" for x using assms(2) by (simp add: keeps_def)
  then show ?thesis using assms(1) run_of_trans
    by (auto simp: hbind_def m split: sum.split)
qed

lemma unclassified_failure_run:
  assumes "in_flight (step_id c) (w_db w)"
  shows "run (w_db w) (w_db (snd (unclassified_failure sv s adapters c request w)))"
  unfolding unclassified_failure_def
  by (rule run_then, rule fail_claimed_run [OF assms], rule compensate_keeps)

lemma adapter_failure_run:
  assumes "in_flight (step_id c) (w_db w)"
  shows "run (w_db w) (w_db (snd (adapter_failure sv s adapters c request code cls at w)))"
  unfolding adapter_failure_def
  by (rule run_then, rule fail_claimed_run [OF assms])
     (simp add: keeps_def compensate_run run_of_def [of _ d d for d])

lemma done_state_done [simp]: "is_done (done_state oper)"
  by (simp add: done_state_def)

lemma settle_returned:
  "settle_step sv s adapters c request (Returned raw) w =
     (Inr True, snd (with_clock sv (\<lambda>t. complete_step t (step_id c) (done_state (operation c))
        (step_evidence (sv_sha256 sv) c raw)) w))"
  by (simp add: settle_step_def with_clock_def complete_step_def Let_def split: prod.split)

lemma retry_time_steps:
  assumes "retry_time sv s c request w = (r, w')"
  shows "run (w_db w) (w_db w') \<and> tbl_steps (w_db w') = tbl_steps (w_db w)"
proof -
  have "keeps (\<lambda>d d'. run d d' \<and> tbl_steps d' = tbl_steps d) (retry_time sv s c request)"
    unfolding retry_time_def the_result_def
    by (intro keeps_intros)
       (auto simp: reflp_def transp_def keeps_def split_beta request_result_tables run_of_def [of _ d d for d]
         intro: run_of_trans run_of_step store_step.reads)
  then show ?thesis using assms by (auto simp: keeps_def dest: spec [of _ w])
qed

lemma settle_step_run:
  assumes flight: "in_flight (step_id c) (w_db w)"
  shows "run (w_db w) (w_db (snd (settle_step sv s adapters c request result w)))"
proof (cases result)
  case (Returned raw)
  have "keeps (\<lambda>d d'. in_flight (step_id c) d \<longrightarrow> run d d')
     (with_clock sv (\<lambda>t. complete_step t (step_id c) (done_state (operation c))
        (step_evidence (sv_sha256 sv) c raw)))"
    by (intro keeps_intros) (auto intro: run_of_step store_step.completes)
  then show ?thesis using flight by (simp add: Returned settle_returned keeps_def)
next
  case (RetryableAdapterError code)
  obtain r w' where time: "retry_time sv s c request w = (r, w')" by (cases "retry_time sv s c request w")
  have "in_flight (step_id c) (w_db w')"
    using retry_time_steps [OF time] flight by (simp add: in_flight_def)
  then show ?thesis
    using retry_time_steps [OF time]
    by (auto simp: RetryableAdapterError settle_step_def hbind_def time split: sum.split
        intro: run_of_trans adapter_failure_run)
qed (simp_all add: settle_step_def adapter_failure_run unclassified_failure_run flight)

lemma run_claimed_run:
  assumes inv: "machine_inv n (w_db w)" and flight: "in_flight (step_id c) (w_db w)"
    and row: "r \<in> set (tbl_steps (w_db w))" "st_command r = c"
  shows "run (w_db w) (w_db (snd (run_claimed sv s adapters request c w)))"
proof -
  have wf: "st_request_id r = request_id c" "st_step_id r = step_id c"
    using inv row by (auto simp: machine_inv_def store_inv_def ident_inv_def list_all_iff step_row_wf_def)
  have release: "run (w_db w) (w_db (snd (with_clock3 sv (\<lambda>t t' t'' d.
      ((), release_activation_claim t t' t'' (step_id c) d)) w)))"
  proof -
    have "keeps run (with_clock3 sv (\<lambda>t t' t'' d. ((), release_activation_claim t t' t'' (step_id c) d)))"
      by (intro keeps_intros) (auto intro: run_of_step store_step.releases)
    then show ?thesis by (simp add: keeps_def)
  qed
  have missing: "run (w_db w) (w_db (snd (hbind (fail_claimed sv (step_id c) ''adapter_not_registered''
      ''permanent'' None) (\<lambda>state w. (Inr False, if state = DeadLetter
        then compensate sv s adapters request w else w)) w)))"
    by (rule run_then, rule fail_claimed_run [OF flight])
       (simp add: keeps_def compensate_run run_of_def [of _ d d for d])
  have called: "run (w_db w) (w_db (snd (settle_step sv s adapters c request result w')))"
    if a: "adapters (target_value (target_system c)) = Some a" and call: "execute a c w = (result, w')"
    for a result w'
  proof -
    have moved: "adapter_run (sv_sha256 sv) (request_id c) (w_db w) (w_db w')"
      by (rule keepsD [OF execute_runs [OF a] call])
    then have "machine_inv n (w_db w')" using inv by (auto simp: adapter_run_def intro: run_of_inv)
    then have "in_flight (step_id c) (w_db w')"
      using moved in_flight_rows_of [OF _ _ row(1) wf flight] by (simp add: adapter_run_def)
    then show ?thesis
      using moved settle_step_run by (auto simp: adapter_run_def intro: run_of_trans)
  qed
  show ?thesis
    using release missing called by (auto simp: run_claimed_def split: option.split prod.split)
qed

lemma run_step_run:
  assumes inv: "machine_inv n (w_db w)"
  shows "run (w_db w) (w_db (snd (run_step sv s adapters request w)))"
proof -
  obtain r w1 where claim: "with_clock sv (\<lambda>t. claim_next t request) w = (r, w1)"
    by (cases "with_clock sv (\<lambda>t. claim_next t request) w")
  then obtain t where claimed: "claim_next t request (w_db w) = (r, w_db w1)"
    by (auto simp: with_clock_def Let_def split: prod.splits dest!: tick_eqD)
  then have moved: "run (w_db w) (w_db w1)"
    using store_step.claims [of "sv_sha256 sv" "w_db w" t request] by (simp add: run_of_step)
  show ?thesis
  proof (cases r)
    case None
    then show ?thesis using moved by (simp add: run_step_def claim)
  next
    case (Some c)
    have store: "store_inv (w_db w)" using inv by (simp add: machine_inv_def)
    obtain row where "row \<in> set (tbl_steps (w_db w1))" "st_command row = c"
      using claimed_row [OF store claimed [unfolded Some]] by blast
    then have "run (w_db w1) (w_db (snd (run_claimed sv s adapters request c w1)))"
      using run_claimed_run [OF run_of_inv [OF moved inv]
          claim_in_flight [OF store claimed [unfolded Some]]] by blast
    then show ?thesis using moved by (auto simp: run_step_def claim Some intro: run_of_trans)
  qed
qed

section \<open>The entry points\<close>

lemma keeps_run_consistent:
  assumes "\<And>n w. machine_inv n (w_db w) \<Longrightarrow> run (w_db w) (w_db (snd (m w)))"
  shows "keeps run m"
  using assms by (auto simp: keeps_def run_of_def)

lemma keeps_run_step: "keeps run (run_step sv s adapters request)"
  by (rule keeps_run_consistent) (rule run_step_run)

lemma run_loop_run:
  "run_loop fuel sv s adapters request w = Some (r, w') \<Longrightarrow> run (w_db w) (w_db w')"
proof (induction fuel arbitrary: w)
  case (Suc fuel)
  obtain x w1 where one: "run_step sv s adapters request w = (x, w1)"
    by (cases "run_step sv s adapters request w")
  have "run (w_db w) (w_db w1)" using keeps_run_step one by (rule keepsD)
  then show ?case using Suc by (auto simp: one split: sum.splits if_splits intro: run_of_trans)
qed simp

lemma keeps_run_request [keeps_intros]: "keeps run (run_request sv s adapters request)"
  by (auto simp: keeps_def run_request_def run_of_def [of _ d d for d] simp del: run_loop.simps
      dest: run_loop_run split: option.split)

lemma keeps_look [keeps_intros]: "keeps run (\<lambda>w. (r w, w))"
  by (simp add: keeps_def run_of_def)

lemma keeps_branch [keeps_intros]:
  "keeps run m \<Longrightarrow> keeps run m' \<Longrightarrow> keeps run (\<lambda>w. if b w then m w else m' w)"
  by (simp add: keeps_def)

lemma keeps_guarded_look [keeps_intros]: "keeps run (\<lambda>w. guard (b w) e w)"
  by (simp add: keeps_def run_of_def guard_def hreturn_def hraise_def)

lemma keeps_guard [keeps_intros]: "keeps run (guard b e)"
  by (rule keeps_guarded_look)

lemma keeps_result [keeps_intros]:
  "keeps run (the_result sv request replayed)" "keeps run (required_result sv request st code)"
  "keeps run (found_result sv request)"
proof -
  show the: "keeps run (the_result sv request replayed)" for request replayed
    unfolding the_result_def by (intro keeps_intros) (auto intro: run_of_step store_step.reads)
  show required: "keeps run (required_result sv request st code)" for st code
    unfolding required_result_def by (intro keeps_intros the)
  show "keeps run (found_result sv request)"
    unfolding found_result_def by (rule required)
qed

lemma keeps_freshness [keeps_intros]: "keeps run (validate_freshness sv s stamp)"
  by (simp add: keeps_def validate_freshness_def split_beta run_of_def)

lemma keeps_run_unlocked [keeps_intros]: "keeps run (run_unlocked sv s adapters request)"
  unfolding run_unlocked_def by (intro keeps_intros)

lemma keeps_compensate_due [keeps_intros]: "keeps run (compensate_due sv s adapters request)"
  unfolding compensate_due_def
  by (intro keeps_intros) (simp add: keeps_def compensate_run run_of_def [of _ d d for d])

lemma keeps_callback [keeps_intros]: "keeps run (callback sv s envelope r)"
proof -
  have "keeps run (hbind (enqueue_and_dispatch sv s event) (\<lambda>_. hreturn ()))" for event
    by (intro keeps_intros) (rule keeps_run_of_same [OF keeps_enqueue_and_dispatch])
  then have "run (w_db (snd (tick sv w))) (w_db (snd (hbind (enqueue_and_dispatch sv s event)
      (\<lambda>_. hreturn ()) (snd (tick sv w)))))" for event w
    unfolding keeps_def by blast
  then show ?thesis
    by (simp add: keeps_def callback_def split_beta run_of_def [of _ d d for d])
qed

lemma keeps_admit [keeps_intros]: "keeps run (admit sv s request ex)"
  unfolding admit_def by (intro keeps_intros)

lemma keeps_check_blockers [keeps_intros]: "keeps run (check_blockers ex)"
  by (simp add: keeps_def check_blockers_def run_of_def)

lemma keeps_replay_answer [keeps_intros]: "keeps run (replay_answer sv request existing)"
  unfolding replay_answer_def by (intro keeps_intros)

lemma keeps_fresh_execution [keeps_intros]:
  "keeps run (fresh_execution sv s adapters request normalized)"
  unfolding fresh_execution_def by (intro keeps_intros)

lemma keeps_begin_and_run:
  assumes "steps_belong normalized"
  shows "keeps run (begin_and_run sv s adapters request normalized request_hash)"
proof -
  have "run d (snd (case begin_execution (sv_sha256 sv) t normalized request_hash d of
      (r, d') \<Rightarrow> (conflict_409 r, d')))" for t d
    by (auto simp: split_beta intro: run_of_step store_step.begins [OF assms])
  then show ?thesis
    unfolding begin_and_run_def by (intro keeps_intros)
qed

lemma keeps_hlift_bind:
  assumes "\<And>x. r = Inr x \<Longrightarrow> keeps run (f x)"
  shows "keeps run (hbind (hlift r) f)"
  using assms by (cases r) (simp_all add: keeps_def hbind_def hlift_def run_of_def)

lemma keeps_submit [keeps_intros]: "keeps run (submit sv s adapters request ex)"
proof -
  have "keeps run (begin_and_run sv s adapters request normalized h)"
    if "normalize_keys (sv_sha256 sv) ex = Inr normalized" for normalized h
    by (rule keeps_begin_and_run) (rule normalized_steps_belong [OF that])
  then show ?thesis
    unfolding submit_def Let_def by (intro keeps_intros keeps_hlift_bind)
qed

lemma keeps_retry [keeps_intros]: "keeps run (retry sv s adapters request action)"
proof -
  have "run d (snd (case schedule_step_retry t t' t'' request d of (scheduled, d') \<Rightarrow> (Inr scheduled, d')))"
    for t t' t'' d
    by (simp add: split_beta run_of_step store_step.retries)
  then show ?thesis
    unfolding retry_def retry_gate_def not_cancelled_def by (intro keeps_intros)
qed

lemma keeps_cancel [keeps_intros]: "keeps run (cancel sv s adapters request action)"
  unfolding cancel_def
  by (intro keeps_intros) (auto intro: run_of_step store_step.cancels store_step.marks)

lemma keeps_verify [keeps_intros]: "keeps run (verify sv s adapters request action)"
proof -
  have recorded: "run d (snd (case record_verification t e system step evidence d of
      (accepted, d') \<Rightarrow> (Inr accepted, d')))" for t e system step evidence d
    by (rule same_steps_run_of)
       (simp add: same_steps_def record_verification_def upsert_verification_def)
  have confirmed: "keeps run (confirm_verification sv current c raw)" for current c raw
    unfolding confirm_verification_def Let_def by (intro keeps_intros recorded)
  have one: "keeps run (verify_one sv adapters action current original)" for current original
  proof (rule keepsI)
    fix w
    let ?c = "verification_command (sv_sha256 sv) action original"
    let ?m = "abind (alift (adapter_for adapters (target_system ?c))) (\<lambda>a. a Verify ?c)"
    obtain r w' where call: "?m w = (r, w')" by (cases "?m w")
    have "keeps run ?m" by (rule keeps_looked_up) (rule method_run)
    then have "run (w_db w) (w_db w')" using call by (rule keepsD)
    moreover have "run (w_db w') (w_db (snd (confirm_verification sv current ?c raw w')))" for raw
      using confirmed by (simp add: keeps_def)
    ultimately show "run (w_db w) (w_db (snd (verify_one sv adapters action current original w)))"
      by (auto simp: verify_one_def Let_def call intro: run_of_trans split: outcome.split)
  qed
  have "keeps run (hmap (verify_one sv adapters action current) originals)" for current originals
    by (induction originals) (auto intro!: keeps_intros one)
  then have "keeps run (hbind (hmap (verify_one sv adapters action current) originals)
      (\<lambda>results. hreturn (g results)))" for current originals and g :: "step_result list \<Rightarrow> execution_result"
    by (intro keeps_intros)
  then have "keeps run (verify_locked sv adapters request action current)" for current
    by (simp add: keeps_def verify_locked_def Let_def run_of_def [of _ d d for d])
  then show ?thesis unfolding verify_def by (intro keeps_intros)
qed

lemma keeps_lifecycle [keeps_intros]: "keeps run (lifecycle sv s adapters employee oper ex)"
  unfolding lifecycle_def by (intro keeps_intros)

lemma keeps_reconcile [keeps_intros]: "keeps run (reconcile sv s adapters employee action)"
proof -
  have one: "keeps run (reconcile_one sv adapters action original)" for original
  proof (rule keepsI)
    fix w
    let ?c = "reconciliation_command (sv_sha256 sv) action original"
    let ?m = "abind (alift (adapter_for adapters (target_system ?c))) (\<lambda>a. a Reconcile ?c)"
    obtain r w' where call: "?m w = (r, w')" by (cases "?m w")
    have "keeps run ?m" by (rule keeps_looked_up) (rule method_run)
    then have "run (w_db w) (w_db w')" using call by (rule keepsD)
    then show "run (w_db w) (w_db (snd (reconcile_one sv adapters action original w)))"
      by (auto simp: reconcile_one_def Let_def call split: outcome.split)
  qed
  have all: "keeps run (hmap (reconcile_one sv adapters action) originals)" for originals
    by (induction originals) (auto intro!: keeps_intros one)
  have "keeps run (\<lambda>w. hmap (reconcile_one sv adapters action) (employee_commands employee (w_db w)) w)"
    using all by (simp add: keeps_def)
  then show ?thesis
    unfolding reconcile_def by (intro keeps_intros)
qed

lemma keeps_heach [keeps_intros]: "(\<And>x. keeps run (f x)) \<Longrightarrow> keeps run (heach f xs)"
  by (induction xs) (auto intro!: keeps_intros)

lemma keeps_listed [keeps_intros]: "keeps run (with_clock sv (\<lambda>t d. (f t d, d)))"
  by (intro keeps_intros) (simp add: run_of_def)

lemma keeps_pending [keeps_intros]:
  "keeps run (run_pending sv s adapters)" "keeps run (compensate_pending sv s adapters)"
  unfolding run_pending_def compensate_pending_def
  by (rule keeps_hbind, simp, rule keeps_listed, intro keeps_intros)+

lemma keeps_worker_pass [keeps_intros]: "keeps run (worker_pass sv s adapters)"
  unfolding worker_pass_def
  by (intro keeps_intros) (rule keeps_run_of_same [OF keeps_dispatch_due])

text \<open>The recovery at the start is one restart recovery followed by a run.\<close>

lemma recover_reaches:
  assumes "machine_inv n (w_db w)" and "recover sv s adapters w = (r, w')"
  shows "\<exists>d1. (d1 = w_db w \<or> store_step (sv_sha256 sv) 1 (w_db w) d1) \<and>
    (store_step (sv_sha256 sv) 0)\<^sup>*\<^sup>* d1 (w_db w')"
proof -
  let ?scan = "with_clock3 sv (\<lambda>t t' t'' d.
    (Inr () :: unit res, snd (recover_stale t t' t'' (claim_timeout_seconds s) d)))"
  let ?rest = "hbind (run_pending sv s adapters) (\<lambda>_. compensate_pending sv s adapters)"
  show ?thesis
  proof (cases "gate_open sv ''RESTART_RECOVERY_GATE'' w")
    case False
    then have "w' = w"
      using assms(2) by (simp add: recover_def hbind_def guard_def hraise_def)
    then show ?thesis by auto
  next
    case True
    obtain x w1 where scan: "?scan w = (x, w1)" by (cases "?scan w")
    obtain t t' t'' where recovered: "w_db w1 = snd (recover_stale t t' t'' (claim_timeout_seconds s) (w_db w))"
        and x: "x = Inr ()"
      using scan by (auto simp: with_clock_def with_clock2_def with_clock3_def Let_def split: prod.splits
          dest!: tick_eqD)
    have step: "store_step (sv_sha256 sv) 1 (w_db w) (w_db w1)"
      unfolding recovered by (rule store_step.recovers)
    then have "machine_inv (n + 1) (w_db w1)" using assms(1) by (rule store_step_inv)
    moreover have keep: "keeps run ?rest" by (intro keeps_intros)
    moreover have rest: "?rest w1 = (r, w')"
      using assms(2) True scan x by (simp add: recover_def hbind_def guard_def hreturn_def)
    ultimately have "(store_step (sv_sha256 sv) 0)\<^sup>*\<^sup>* (w_db w1) (w_db w')"
      using keepsD [OF keep rest] unfolding run_of_def by blast
    then show ?thesis using step by blast
  qed
qed

section \<open>The loop ends\<close>

text \<open>An update that leaves no waiting step among the updated rows.\<close>

definition waits :: "string \<Rightarrow> step_row \<Rightarrow> bool" where
  "waits request x \<longleftrightarrow> st_request_id x = request \<and> is_waiting (st_state x)"

lemma waiting_update:
  assumes "\<And>x. \<not> is_waiting (st_state (f x))"
  shows "length (filter (waits request) (sql_update P f xs)) \<le> length (filter (waits request) xs)"
  by (induction xs) (auto simp: sql_update_def waits_def assms)

lemma waiting_update_less:
  assumes "\<And>x. \<not> is_waiting (st_state (f x))" and "x \<in> set xs" "P x" "waits request x"
  shows "length (filter (waits request) (sql_update P f xs)) < length (filter (waits request) xs)"
  using assms(2-)
proof (induction xs)
  case (Cons y ys)
  have "\<not> waits request (f y)" by (simp add: waits_def assms(1))
  then show ?case using Cons waiting_update [of f request P ys, OF assms(1)]
    by (cases "x = y") (auto simp: sql_update_def)
qed simp

lemma waiting_count_waits: "waiting_count request d = length (filter (waits request) (tbl_steps d))"
  by (simp add: waiting_count_def waits_def [abs_def])

lemma waiting_count_rows:
  "waiting_count request d = length (filter (\<lambda>s. is_waiting (st_state s)) (rows_of request d))"
  by (simp add: waiting_count_def rows_of_def conj_commute)

lemma settle_goes_on:
  assumes "settle_step sv s adapters c request result w = (Inr True, w')"
  shows "\<exists>raw t. result = Returned raw \<and> w_db w' =
    snd (complete_step t (step_id c) (done_state (operation c)) (step_evidence (sv_sha256 sv) c raw) (w_db w))"
proof (cases result)
  case (Returned raw)
  obtain t w1 where "tick sv w = (t, w1)" by (cases "tick sv w")
  then have "w_db w' = snd (complete_step t (step_id c) (done_state (operation c))
      (step_evidence (sv_sha256 sv) c raw) (w_db w))"
    using assms by (auto simp: Returned settle_returned with_clock_def split_beta dest!: tick_eqD)
  then show ?thesis using Returned by blast
qed (use assms in \<open>auto simp: settle_step_def unclassified_failure_def adapter_failure_def
       split: if_splits elim!: hbind_InrE\<close>)

lemma run_claimed_goes_on:
  assumes "run_claimed sv s adapters request c w = (Inr True, w')"
  shows "\<exists>a result w2. adapters (target_value (target_system c)) = Some a \<and>
    execute a c w = (result, w2) \<and> settle_step sv s adapters c request result w2 = (Inr True, w')"
proof (cases "adapters (target_value (target_system c))")
  case None
  then show ?thesis using assms
    by (auto simp: run_claimed_def hbind_def split: if_splits sum.splits prod.splits)
next
  case (Some a)
  then show ?thesis using assms
    by (cases "execute a c w") (auto simp: run_claimed_def split: if_splits)
qed

lemma run_step_decreases:
  assumes inv: "machine_inv n (w_db w)" and step: "run_step sv s adapters request w = (Inr True, w')"
  shows "waiting_count request (w_db w') < waiting_count request (w_db w)"
proof -
  obtain r w1 where claim: "with_clock sv (\<lambda>t. claim_next t request) w = (r, w1)"
    by (cases "with_clock sv (\<lambda>t. claim_next t request) w")
  obtain c where r: "r = Some c" using step by (cases r) (simp_all add: run_step_def claim)
  obtain t where claimed: "claim_next t request (w_db w) = (Some c, w_db w1)"
    using claim r by (auto simp: with_clock_def Let_def split: prod.splits dest!: tick_eqD)
  have store: "store_inv (w_db w)" using inv by (simp add: machine_inv_def)
  have less: "waiting_count request (w_db w1) < waiting_count request (w_db w)"
  proof (rule claim_next_Some [OF store claimed], goal_cases)
    case row: (1 row)
    have "waits request row" using runnableD(1,2) [OF row(2)] by (simp add: waits_def)
    then show ?case
      unfolding waiting_count_waits row(6)
      by (intro waiting_update_less [where x = row]) (simp_all add: row(1,4) is_waiting_def)
  qed
  obtain a result w2 where a: "adapters (target_value (target_system c)) = Some a"
      and call: "execute a c w1 = (result, w2)"
      and settled: "settle_step sv s adapters c request result w2 = (Inr True, w')"
    using run_claimed_goes_on step by (simp add: run_step_def claim r) blast
  from settle_goes_on [OF settled] obtain raw t' where ended: "w_db w' =
      snd (complete_step t' (step_id c) (done_state (operation c)) (step_evidence (sv_sha256 sv) c raw) (w_db w2))"
    by blast
  have "request_id c = request"
  proof (rule claim_next_Some [OF store claimed], goal_cases)
    case row: (1 row)
    have "step_row_wf row"
      using store row(1) by (simp add: store_inv_def ident_inv_def list_all_iff)
    then show ?case using runnableD(1) [OF row(2)] by (simp add: row(3) step_row_wf_def)
  qed
  then have "rows_of request (w_db w2) = rows_of request (w_db w1)"
    using keepsD [OF execute_runs [OF a] call] by (simp add: adapter_run_def)
  then have "waiting_count request (w_db w2) = waiting_count request (w_db w1)"
    by (simp add: waiting_count_rows)
  moreover have "waiting_count request (w_db w') \<le> waiting_count request (w_db w2)"
    unfolding waiting_count_waits ended
    by (auto simp: complete_step_def done_state_def is_waiting_def intro!: waiting_update)
  ultimately show ?thesis using less by simp
qed

lemma run_loop_ends:
  assumes "machine_inv n (w_db w)" and "waiting_count request (w_db w) < fuel"
  shows "\<exists>r. run_loop fuel sv s adapters request w = Some r"
  using assms
proof (induction fuel arbitrary: w)
  case (Suc fuel)
  obtain x w1 where one: "run_step sv s adapters request w = (x, w1)"
    by (cases "run_step sv s adapters request w")
  show ?case
  proof (cases "x = Inr True")
    case True
    have "machine_inv n (w_db w1)"
      using run_of_inv [OF keepsD [OF keeps_run_step one]] Suc.prems(1) by blast
    then show ?thesis
      using Suc run_step_decreases [OF Suc.prems(1) one [unfolded True]] by (simp add: one True)
  qed (auto simp: one split: sum.split)
qed simp

lemma run_loop_more_fuel:
  "run_loop fuel sv s adapters request w = Some r \<Longrightarrow> fuel \<le> fuel' \<Longrightarrow>
     run_loop fuel' sv s adapters request w = Some r"
proof (induction fuel arbitrary: fuel' w)
  case (Suc fuel)
  then obtain k where "fuel' = Suc k" "fuel \<le> k" by (cases fuel') auto
  then show ?case using Suc by (auto split: prod.splits sum.splits if_splits)
qed simp

lemma run_loop_is_run_request:
  assumes "machine_inv n (w_db w)" and "waiting_count request (w_db w) < fuel"
  shows "run_loop fuel sv s adapters request w = Some (run_request sv s adapters request w)"
proof -
  obtain r where "run_loop (Suc (waiting_count request (w_db w))) sv s adapters request w = Some r"
    using run_loop_ends [OF assms(1)] by blast
  then show ?thesis
    using run_loop_more_fuel [of _ s request w r fuel] assms(2)
    by (simp add: run_request_def del: run_loop.simps)
qed

end

text \<open>Reading a result is a call of the store with two readings of the clock.\<close>

lemma the_resultE:
  assumes "the_result sv request replayed w = (x, w')"
  obtains t t' where "request_result t t' request replayed (w_db w) = (x, w_db w')"
proof -
  obtain t w1 where t: "tick sv w = (t, w1)" by (cases "tick sv w")
  obtain t' w2 where t': "tick sv w1 = (t', w2)" by (cases "tick sv w1")
  have "request_result t t' request replayed (w_db w) = (x, w_db w')"
    using assms tick_eqD [OF t] tick_eqD [OF t']
    by (auto simp: the_result_def with_clock2_def with_clock_def t t' split: prod.splits)
  then show thesis by (rule that)
qed

end
