(* ===== verification/Engine_Properties.thy ===== *)
theory Engine_Properties
  imports Engine_Runs Samples
begin

text \<open>
  The properties of the engine over whole histories: any sequence of its calls runs on the step
  machine, the loop over a request's steps ends, an activation reaches an adapter only when nothing
  blocks it, and compensation sends nothing but reductions of access.
\<close>

section \<open>The adapters of the service\<close>

locale framed_adapters =
  fixes sv :: "'e services" and adapters :: "string \<Rightarrow> 'e adapter option"
  assumes frame: "adapters system = Some a \<Longrightarrow> keeps adapter_frame (a oper c)"

sublocale framed_adapters \<subseteq> engine_adapters sv adapters
proof
  fix system a c oper assume "adapters system = Some a"
  then show "keeps (adapter_run (sv_sha256 sv) (request_id c)) (a oper c)"
    by (rule keeps_weaken [OF frame]) (rule adapter_frame_run)
qed

interpretation table: framed_adapters sv "adapter_table sv objects"
proof
  fix system a oper c assume "adapter_table sv objects system = Some a"
  then obtain object where "a = adapter_methods sv object" by (auto simp: adapter_table_def)
  then show "keeps adapter_frame (a oper c)" by (simp add: loaded.frame)
qed

section \<open>Histories\<close>

text \<open>A call that reaches the engine: from a route, from the worker, or from the start of the service.\<close>

datatype engine_call =
    Submit string request_execution
  | Retry string action_request
  | CancelRequest string action_request
  | VerifyRequest string action_request
  | Lifecycle string operation request_execution
  | ReconcileEmployee string action_request
  | WorkerPass
  | Start

fun perform ::
  "'e services \<Rightarrow> settings \<Rightarrow> (string \<Rightarrow> 'e adapter option) \<Rightarrow> engine_call \<Rightarrow> 'e world \<Rightarrow> 'e world" where
  "perform sv s adapters (Submit request ex) w = snd (submit sv s adapters request ex w)"
| "perform sv s adapters (Retry request action) w = snd (retry sv s adapters request action w)"
| "perform sv s adapters (CancelRequest request action) w = snd (cancel sv s adapters request action w)"
| "perform sv s adapters (VerifyRequest request action) w = snd (verify sv s adapters request action w)"
| "perform sv s adapters (Lifecycle employee oper ex) w = snd (lifecycle sv s adapters employee oper ex w)"
| "perform sv s adapters (ReconcileEmployee employee action) w =
     snd (reconcile sv s adapters employee action w)"
| "perform sv s adapters WorkerPass w = snd (worker_pass sv s adapters w)"
| "perform sv s adapters Start w = snd (recover sv s adapters w)"

definition history ::
  "'e services \<Rightarrow> settings \<Rightarrow> (string \<Rightarrow> 'e adapter option) \<Rightarrow> engine_call list \<Rightarrow> 'e world \<Rightarrow> 'e world" where
  "history sv s adapters calls w = fold (perform sv s adapters) calls w"

definition starts :: "engine_call list \<Rightarrow> nat" where
  "starts calls = length (filter (\<lambda>c. c = Start) calls)"

lemma reachable_steps:
  "(store_step sha 0)\<^sup>*\<^sup>* d d' \<Longrightarrow> reachable sha n d \<Longrightarrow> reachable sha n d'"
proof (induction rule: rtranclp_induct)
  case (step y z)
  then show ?case using reachable.moves [of sha n y 0 z] by simp
qed

lemma steps_transitions:
  assumes "(store_step sha k)\<^sup>*\<^sup>* d d'"
  shows "(transition sha)\<^sup>*\<^sup>* d d'"
proof -
  have "store_step sha k \<le> transition sha" by (auto simp: transition_def)
  then show ?thesis using assms rtranclp_mono by blast
qed

lemma transitions_machine_inv:
  "(transition sha)\<^sup>*\<^sup>* d d' \<Longrightarrow> machine_inv n d \<Longrightarrow> \<exists>m. machine_inv m d'"
proof (induction rule: rtranclp_induct)
  case (step y z)
  then show ?case by (auto simp: transition_def dest: store_step_inv)
qed blast

context engine_adapters begin

lemma run_reachable: "run d d' \<Longrightarrow> reachable (sv_sha256 sv) n d \<Longrightarrow> reachable (sv_sha256 sv) n d'"
  using reachable_machine_inv reachable_steps unfolding run_of_def by blast

lemma perform_run: "call \<noteq> Start \<Longrightarrow> run (w_db w) (w_db (perform sv s adapters call w))"
  using keeps_submit keeps_retry keeps_cancel keeps_verify keeps_lifecycle keeps_reconcile
    keeps_worker_pass
  by (cases call) (auto simp: keeps_def)

lemma perform_reachable:
  assumes "reachable (sv_sha256 sv) n (w_db w)"
  shows "\<exists>k. k \<le> starts [call] \<and> reachable (sv_sha256 sv) (n + k) (w_db (perform sv s adapters call w))"
proof (cases "call = Start")
  case True
  obtain r w' where start: "recover sv s adapters w = (r, w')" by (cases "recover sv s adapters w")
  from recover_reaches [OF reachable_machine_inv [OF assms] start] obtain d1 where
    d1: "d1 = w_db w \<or> store_step (sv_sha256 sv) 1 (w_db w) d1"
    and rest: "(store_step (sv_sha256 sv) 0)\<^sup>*\<^sup>* d1 (w_db w')"
    by blast
  from d1 have "\<exists>k \<le> 1. reachable (sv_sha256 sv) (n + k) d1"
    using assms reachable.moves [OF assms] by (metis add_0_right le_refl zero_le)
  then show ?thesis using reachable_steps [OF rest] True start by (auto simp: starts_def)
next
  case False
  then show ?thesis using run_reachable [OF perform_run assms]
    by (intro exI [of _ 0]) (simp add: starts_def)
qed

lemma run_transitions: "run d d' \<Longrightarrow> machine_inv n d \<Longrightarrow> (transition (sv_sha256 sv))\<^sup>*\<^sup>* d d'"
  unfolding run_of_def by (blast intro: steps_transitions)

lemma perform_transitions:
  assumes "machine_inv n (w_db w)"
  shows "(transition (sv_sha256 sv))\<^sup>*\<^sup>* (w_db w) (w_db (perform sv s adapters call w))"
proof (cases "call = Start")
  case True
  obtain r w' where start: "recover sv s adapters w = (r, w')" by (cases "recover sv s adapters w")
  from recover_reaches [OF assms start] obtain d1 where
    d1: "d1 = w_db w \<or> store_step (sv_sha256 sv) 1 (w_db w) d1"
    and rest: "(store_step (sv_sha256 sv) 0)\<^sup>*\<^sup>* d1 (w_db w')"
    by blast
  have "(transition (sv_sha256 sv))\<^sup>*\<^sup>* (w_db w) d1"
    using d1 transition_def [of "sv_sha256 sv" "w_db w" d1] by blast
  moreover have "(transition (sv_sha256 sv))\<^sup>*\<^sup>* d1 (w_db w')"
    using rest by (rule steps_transitions)
  ultimately show ?thesis using True start by simp
next
  case False
  then show ?thesis using run_transitions [OF perform_run assms] by blast
qed

lemma history_transitions:
  "machine_inv n (w_db w) \<Longrightarrow>
     (transition (sv_sha256 sv))\<^sup>*\<^sup>* (w_db w) (w_db (history sv s adapters calls w))"
proof (induction calls arbitrary: n w)
  case (Cons call calls)
  let ?w1 = "perform sv s adapters call w"
  have first: "(transition (sv_sha256 sv))\<^sup>*\<^sup>* (w_db w) (w_db ?w1)"
    by (rule perform_transitions [OF Cons.prems])
  then obtain m where "machine_inv m (w_db ?w1)"
    using transitions_machine_inv [OF first Cons.prems] by blast
  from rtranclp_trans [OF first Cons.IH [OF this]] show ?case
    by (simp add: history_def)
qed (simp add: history_def)

lemma history_reachable:
  "reachable (sv_sha256 sv) n (w_db w) \<Longrightarrow>
     \<exists>k. k \<le> starts calls \<and> reachable (sv_sha256 sv) (n + k) (w_db (history sv s adapters calls w))"
proof (induction calls arbitrary: n w)
  case (Cons call calls)
  obtain k where k: "k \<le> starts [call]"
      "reachable (sv_sha256 sv) (n + k) (w_db (perform sv s adapters call w))"
    using perform_reachable [OF Cons.prems] by blast
  obtain k' where "k' \<le> starts calls" "reachable (sv_sha256 sv) (n + k + k')
      (w_db (history sv s adapters calls (perform sv s adapters call w)))"
    using Cons.IH [OF k(2)] by blast
  then show ?case using k(1)
    by (intro exI [of _ "k + k'"]) (auto simp: history_def starts_def ac_simps)
qed (auto simp: history_def starts_def intro: exI [of _ 0])

end

text \<open>
  A service to run on: no time passes, every gate is open, the remote side never answers, and no
  adapter is configured; a submission to it, and its store when the submission has begun with a
  given request hash.
\<close>

definition sample_sv :: "unit services" where
  "sample_sv = (sample_services (\<lambda>_ e. (NetworkFailure, e)))\<lparr>sv_env := (\<lambda>_ _. Some ''true'')\<rparr>"

definition sample_settings :: settings where
  "sample_settings =
     \<lparr>environment_name = ''staging'', state_database_path = ''/state/db'', jwt_issuer = CANONICAL_ISSUER,
      jwt_audience = MACHINE_AUDIENCE, jwt_public_key_file = [], jwt_algorithms = [''RS256''],
      jwt_allowed_clients = [MACHINE_CLIENT_ID], request_max_bytes = 1000, request_max_age_seconds = 300,
      rate_limit_requests = 2, rate_limit_window_seconds = 60, claim_timeout_seconds = 300,
      retry_base_seconds = 5, callback_url = None, callback_hmac_file = ''/secrets/hmac'',
      encryption_key_file = ''/secrets/key'', adapter_config_file = ''/config/adapters'',
      tls_cert_file = ''/tls/cert'', tls_key_file = ''/tls/key'', callback_ca_file = ''/tls/ca'',
      turn_shared_secret_file = ''/secrets/turn'', jwt_jwks_url = CANONICAL_JWKS_URL,
      jwt_expected_azp = MACHINE_CLIENT_ID, jwt_required_scopes = MACHINE_SCOPES,
      jwt_max_token_ttl_seconds = MAX_TOKEN_TTL_SECONDS, sip_browser_endpoint = SIP_BROWSER_ENDPOINT,
      sip_browser_campaign = SIP_BROWSER_CAMPAIGN\<rparr>"

definition sample_world :: "unit world" where
  "sample_world = \<lparr>w_db = empty_db, w_env = ()\<rparr>"

definition sample_submission :: request_execution where
  "sample_submission = sample_one\<lparr>timestamp := seconds 1000\<rparr>"

definition sample_normalized :: request_execution where
  "sample_normalized = (case normalize_keys (\<lambda>s. s) sample_submission of Inr n \<Rightarrow> n)"

definition sample_begun :: "string \<Rightarrow> unit world" where
  "sample_begun h =
     \<lparr>w_db = snd (begin_execution (\<lambda>s. s) (seconds 1000) sample_normalized h empty_db), w_env = ()\<rparr>"

lemma sample_sv_sha [simp]: "sv_sha256 sample_sv = (\<lambda>s. s)"
  by (simp add: sample_sv_def sample_services_def)

lemma sample_world_reachable: "reachable (sv_sha256 sample_sv) 0 (w_db sample_world)"
  by (simp add: sample_world_def reachable.initial)

lemma sample_normalized: "normalize_keys (sv_sha256 sample_sv) sample_submission = Inr sample_normalized"
proof -
  have "case normalize_keys (\<lambda>s. s) sample_submission of Inr _ \<Rightarrow> True | Inl _ \<Rightarrow> False"
    by code_simp
  then show ?thesis by (auto simp: sample_normalized_def split: sum.splits)
qed

lemma sample_begun_reachable: "reachable (sv_sha256 sample_sv) 0 (w_db (sample_begun h))"
  using reachable.moves [OF reachable.initial store_step.begins [OF normalized_steps_belong [OF sample_normalized]]]
  by (simp add: sample_begun_def)

text \<open>Refinement: whatever sequence of submissions, retries, cancellations, verifications, life-cycle
  operations, reconciliations, worker passes and starts the service performs with the adapters it has
  loaded, however the remote side answers, its store stays a reachable store of the step machine; only
  a start recovers interrupted steps, at most once. So every property of reachable stores holds of the
  running engine.\<close>

theorem engine_refines_machine:
  assumes "reachable (sv_sha256 sv) n (w_db w)"
  shows "\<exists>k. k \<le> starts calls \<and>
    reachable (sv_sha256 sv) (n + k) (w_db (history sv s (adapter_table sv objects) calls w))"
  using assms by (rule table.history_reachable)

theorem engine_refines_machine_witness:
  "\<exists>k. k \<le> 1 \<and> reachable (\<lambda>s. s) (0 + k) (w_db (history sample_sv sample_settings
     (adapter_table sample_sv []) [Submit ''request-2'' sample_submission, Start, WorkerPass] sample_world))"
  using engine_refines_machine [OF sample_world_reachable, of
      "[Submit ''request-2'' sample_submission, Start, WorkerPass]" sample_settings "[]"]
  by (simp add: starts_def)

text \<open>C18. Termination: the loop over the steps of a request ends after at most one turn more than the
  request has waiting steps, and any larger bound gives the same outcome.\<close>

theorem run_request_terminates:
  assumes "reachable (sv_sha256 sv) n (w_db w)" and "waiting_count request (w_db w) < fuel"
  shows "run_loop fuel sv s (adapter_table sv objects) request w =
    Some (run_request sv s (adapter_table sv objects) request w)"
  using reachable_machine_inv [OF assms(1)] assms(2) by (rule table.run_loop_is_run_request)

theorem run_request_terminates_witness:
  "run_loop 2 sample_sv sample_settings (adapter_table sample_sv []) ''request-2'' (sample_begun ''hash'') =
   Some (run_request sample_sv sample_settings (adapter_table sample_sv []) ''request-2'' (sample_begun ''hash''))"
proof (rule run_request_terminates [OF sample_begun_reachable])
  show "waiting_count ''request-2'' (w_db (sample_begun ''hash'')) < 2"
    by code_simp
qed

section \<open>What the engine asks of the adapters\<close>

text \<open>The adapters with the calls outside a given set refused.\<close>

definition restrict_adapters ::
  "(operation \<Rightarrow> step_command \<Rightarrow> 'e world \<Rightarrow> bool) \<Rightarrow> (string \<Rightarrow> 'e adapter option) \<Rightarrow>
     string \<Rightarrow> 'e adapter option" where
  "restrict_adapters ok adapters system =
     map_option (\<lambda>a oper c w. if ok oper c w then a oper c w else permanent ''refused'' w) (adapters system)"

text \<open>An activation that nothing blocks at the moment of the call.\<close>

definition activation_ok :: "operation \<Rightarrow> step_command \<Rightarrow> 'e world \<Rightarrow> bool" where
  "activation_ok oper c w \<longleftrightarrow>
     (is_access_enabling oper \<longrightarrow>
        activation_blockers (employee_id c) [target_value (target_system c)] (w_db w) = [])"

text \<open>A suspension, or the removal of excess access from Odoo.\<close>

definition reduces_access :: "operation \<Rightarrow> step_command \<Rightarrow> 'e world \<Rightarrow> bool" where
  "reduces_access oper c w \<longleftrightarrow> oper = operation c \<and> payload c \<in>
     (if target_system c = Odoo then {[(''compensation'', JStr ''remove_excess_access'')]}
      else {[(''compensation'', JStr ''suspend'')], [(''compensation'', JStr ''revoke_sessions'')]}) \<and>
     oper = (if target_system c = Odoo then Update else Suspend)"

lemma execute_restricted:
  assumes "ok (operation c) c w"
  shows "execute (\<lambda>oper c w. if ok oper c w then a oper c w else permanent ''refused'' w) c w =
    execute a c w"
  using assms by (simp add: execute_def)

lemma call_restricted:
  assumes "ok (operation c) c w"
  shows "call_adapter (restrict_adapters ok adapters) c w = call_adapter adapters c w"
proof (cases "adapters (target_value (target_system c))")
  case None
  then show ?thesis
    by (simp add: call_adapter_def abind_def alift_def adapter_for_def restrict_adapters_def)
next
  case (Some a)
  then show ?thesis using execute_restricted [of ok c w a] assms
    by (simp add: call_adapter_def abind_def alift_def adapter_for_def restrict_adapters_def)
qed

lemma method_restricted:
  assumes "ok oper c w"
  shows "abind (alift (adapter_for (restrict_adapters ok adapters) (target_system c))) (\<lambda>a. a oper c) w =
    abind (alift (adapter_for adapters (target_system c))) (\<lambda>a. a oper c) w"
  using assms by (cases "adapters (target_value (target_system c))")
    (simp_all add: abind_def alift_def adapter_for_def restrict_adapters_def)

lemma compensate_step_restricted:
  assumes "\<And>w. ok (compensation_operation original)
    (compensation_command (sv_sha256 sv) request original) w"
  shows "compensate_step sv s (restrict_adapters ok adapters) request original w =
    compensate_step sv s adapters request original w"
proof -
  have "call_adapter (restrict_adapters ok adapters) (compensation_command (sv_sha256 sv) request original) w =
    call_adapter adapters (compensation_command (sv_sha256 sv) request original) w"
    using assms by (intro call_restricted) (simp add: compensation_command_def)
  then show ?thesis unfolding compensate_step_def Let_def by (simp only:)
qed

lemma compensate_restricted:
  assumes "\<And>original w. ok (compensation_operation original)
    (compensation_command (sv_sha256 sv) request original) w"
  shows "compensate sv s (restrict_adapters ok adapters) request w = compensate sv s adapters request w"
proof -
  have "compensate_step sv s (restrict_adapters ok adapters) request = compensate_step sv s adapters request"
    by (intro ext compensate_step_restricted assms)
  then show ?thesis by (simp add: compensate_def)
qed

text \<open>C14. Safety of compensation: it sends an adapter nothing but the suspension of an account, the
  revocation of desktop sessions or, to Odoo, the removal of excess access: refusing every other call
  would make no difference.\<close>

theorem compensation_only_reduces:
  "compensate sv s (restrict_adapters reduces_access adapters) request w = compensate sv s adapters request w"
  by (rule compensate_restricted)
     (auto simp: reduces_access_def compensation_command_def compensation_payload_def
       compensation_operation_def)

text \<open>The engine with activations gated.\<close>

abbreviation gated :: "(string \<Rightarrow> 'e adapter option) \<Rightarrow> string \<Rightarrow> 'e adapter option" where
  "gated \<equiv> restrict_adapters activation_ok"

lemma compensate_gated: "compensate sv s (gated adapters) request = compensate sv s adapters request"
  by (intro ext compensate_restricted)
     (simp add: activation_ok_def is_access_enabling_def compensation_operation_def)

lemma settle_step_gated:
  "settle_step sv s (gated adapters) c request = settle_step sv s adapters c request"
  by (intro ext) (simp only: settle_step_def unclassified_failure_def adapter_failure_def compensate_gated)

lemma run_claimed_gated:
  "run_claimed sv s (gated adapters) request c w = run_claimed sv s adapters request c w"
proof (cases "adapters (target_value (target_system c))")
  case None
  then have "gated adapters (target_value (target_system c)) = None" by (simp add: restrict_adapters_def)
  with None show ?thesis
    unfolding run_claimed_def by (simp only: option.case compensate_gated)
next
  case (Some a)
  show ?thesis
  proof (cases "is_access_enabling (operation c) \<and>
      activation_blockers (employee_id c) [target_value (target_system c)] (w_db w) \<noteq> []")
    case True
    then show ?thesis by (simp add: run_claimed_def)
  next
    case False
    then have "activation_ok (operation c) c w" by (simp add: activation_ok_def)
    then have "execute (\<lambda>oper c w. if activation_ok oper c w then a oper c w else permanent ''refused'' w) c w =
        execute a c w"
      by (rule execute_restricted)
    moreover have "gated adapters (target_value (target_system c)) =
        Some (\<lambda>oper c w. if activation_ok oper c w then a oper c w else permanent ''refused'' w)"
      using Some by (simp add: restrict_adapters_def)
    ultimately show ?thesis
      using Some unfolding run_claimed_def by (simp only: option.case settle_step_gated)
  qed
qed

lemma run_step_gated: "run_step sv s (gated adapters) request = run_step sv s adapters request"
  by (intro ext) (simp only: run_step_def run_claimed_gated)

lemma run_request_gated: "run_request sv s (gated adapters) request = run_request sv s adapters request"
proof (intro ext)
  fix w
  have "run_loop fuel sv s (gated adapters) request w = run_loop fuel sv s adapters request w" for fuel w
    by (induction fuel arbitrary: w) (simp_all add: run_step_gated split: prod.split sum.split)
  then show "run_request sv s (gated adapters) request w = run_request sv s adapters request w"
    by (simp only: run_request_def)
qed

lemma submit_gated: "submit sv s (gated adapters) request ex = submit sv s adapters request ex"
  by (simp only: submit_def begin_and_run_def fresh_execution_def run_request_gated)

lemma verify_gated: "verify sv s (gated adapters) request action = verify sv s adapters request action"
proof -
  have "verify_one sv (gated adapters) action current original w =
      verify_one sv adapters action current original w" for current original w
    unfolding verify_one_def Let_def
    by (subst method_restricted) (simp_all add: activation_ok_def is_access_enabling_def)
  then have "verify_one sv (gated adapters) action = verify_one sv adapters action" by (intro ext)
  then show ?thesis by (simp only: verify_def verify_locked_def [abs_def])
qed

lemma reconcile_gated:
  "reconcile sv s (gated adapters) employee action = reconcile sv s adapters employee action"
proof -
  have "reconcile_one sv (gated adapters) action original w =
      reconcile_one sv adapters action original w" for original w
    unfolding reconcile_one_def Let_def
    by (subst method_restricted) (simp_all add: activation_ok_def is_access_enabling_def)
  then have "reconcile_one sv (gated adapters) action = reconcile_one sv adapters action" by (intro ext)
  then show ?thesis by (simp only: reconcile_def)
qed

lemma worker_gated:
  "run_unlocked sv s (gated adapters) = run_unlocked sv s adapters"
  "compensate_due sv s (gated adapters) = compensate_due sv s adapters"
  by (intro ext, simp only: run_unlocked_def run_request_gated)
     (intro ext, simp only: compensate_due_def compensate_gated)

lemma perform_gated: "perform sv s (gated adapters) call w = perform sv s adapters call w"
  by (cases call)
     (simp_all only: perform.simps submit_gated verify_gated reconcile_gated retry_def cancel_def lifecycle_def
       recover_def worker_pass_def run_pending_def compensate_pending_def worker_gated
       run_request_gated compensate_gated)

text \<open>C11. Safety of activation: in any history, an adapter is asked to activate or reactivate an
  employee in a system only at a moment when nothing blocks it, that is, when every required or
  provisioned system of the employee is created and verified: refusing every other activation would
  make no difference.\<close>

theorem activation_gated:
  "history sv s (restrict_adapters activation_ok adapters) calls w = history sv s adapters calls w"
proof -
  have "perform sv s (gated adapters) = perform sv s adapters" by (intro ext perform_gated)
  then show ?thesis by (simp add: history_def)
qed

end
