(* ===== verification/Engine_Submission.thy ===== *)
theory Engine_Submission
  imports Engine_Properties
begin

text \<open>
  Submissions from the caller's side: which ones are refused and how, and that sending one again is
  harmless, whatever the service has done in between.
\<close>

section \<open>Refusals\<close>

lemma validate_freshness_eq:
  "validate_freshness sv s stamp w =
     (if seconds (request_max_age_seconds s) < \<bar>fst (tick sv w) - stamp\<bar>
      then Inl (EngineError 422 ''request_timestamp_outside_window'') else Inr (), snd (tick sv w))"
  by (simp add: validate_freshness_def split_beta)

text \<open>The gates, the identifier, the age and the mix of steps, in this order.\<close>

lemma admit_eq:
  "admit sv s request ex w =
     (if \<not> gate_open sv ''PROVISIONING_SERVICE_GATE'' w \<or> \<not> gate_open sv ''STEP_ENGINE_GATE'' w
      then (Inl (EngineError 503 ''provisioning_engine_gate_closed''), w)
      else if request_id ex \<noteq> request then (Inl (EngineError 422 ''request_id_mismatch''), w)
      else if seconds (request_max_age_seconds s) < \<bar>fst (tick sv w) - timestamp ex\<bar>
      then (Inl (EngineError 422 ''request_timestamp_outside_window''), snd (tick sv w))
      else if access_enabling_steps ex \<noteq> [] \<and> length (access_enabling_steps ex) \<noteq> length (steps ex)
      then (Inl (EngineError 422 ''mixed_activation_execution_forbidden''), snd (tick sv w))
      else (Inr (), snd (tick sv w)))"
  by (simp add: admit_def hbind_def validate_freshness_eq hreturn_def hraise_def)

lemma admit_db: "admit sv s request ex w = (r, w') \<Longrightarrow> w_db w' = w_db w"
  by (auto simp: admit_eq split: if_splits)

lemma submit_after_admission:
  assumes "admit sv s request ex w = (Inr (), w')" and "normalize_keys (sv_sha256 sv) ex = Inr normalized"
  shows "submit sv s adapters request ex w =
    (case conflict_409 (existing_execution (sv_sha256 sv) normalized (canonical_hash sv normalized) (w_db w')) of
       Inl e \<Rightarrow> (Inl e, w')
     | Inr (existing, replayed) \<Rightarrow>
         hbind (if replayed then replay_answer sv request existing else hreturn None) (\<lambda>answer.
         case answer of
           Some r \<Rightarrow> hreturn r
         | None \<Rightarrow>
             hbind (check_blockers ex) (\<lambda>_.
             begin_and_run sv s adapters request normalized (canonical_hash sv normalized))) w')"
  by (simp add: submit_def hbind_def assms hlift_def Let_def split: sum.split prod.split)

lemma existing_recorded:
  "existing_execution sha ex h d =
     (case recorded_hash d (digest sha (idempotency_key ex)) of
        None \<Rightarrow> Inr (None, False)
      | Some h' \<Rightarrow>
          if h' \<noteq> h then Inl (IdempotencyConflict ''idempotency_payload_conflict'')
          else Inr (ex_result (the (sql_first (filter
            (\<lambda>r. ex_idempotency_hash r = digest sha (idempotency_key ex)) (tbl_executions d)))), True))"
  by (simp add: existing_execution_def recorded_hash_def split: option.split)

text \<open>
  The checks a submission goes through before anything is stored, and the error of each: those on
  the request itself, and those on its document against the store.
\<close>

definition admission_refusal ::
  "'e services \<Rightarrow> settings \<Rightarrow> string \<Rightarrow> request_execution \<Rightarrow> 'e world \<Rightarrow> repo_error option" where
  "admission_refusal sv s request ex w =
     (if \<not> (gate_open sv ''PROVISIONING_SERVICE_GATE'' w \<and> gate_open sv ''STEP_ENGINE_GATE'' w)
      then Some (EngineError 503 ''provisioning_engine_gate_closed'')
      else if request_id ex \<noteq> request then Some (EngineError 422 ''request_id_mismatch'')
      else if seconds (request_max_age_seconds s) < \<bar>fst (tick sv w) - timestamp ex\<bar>
      then Some (EngineError 422 ''request_timestamp_outside_window'')
      else if list_ex (\<lambda>c. is_access_enabling (operation c)) (steps ex) \<and>
              list_ex (\<lambda>c. \<not> is_access_enabling (operation c)) (steps ex)
      then Some (EngineError 422 ''mixed_activation_execution_forbidden'')
      else None)"

definition document_refusal :: "'e services \<Rightarrow> request_execution \<Rightarrow> db \<Rightarrow> repo_error option" where
  "document_refusal sv ex d =
     (case normalize_keys (sv_sha256 sv) ex of
        Inl e \<Rightarrow> Some e
      | Inr normalized \<Rightarrow>
          (case recorded_hash d (digest (sv_sha256 sv) (idempotency_key normalized)) of
             Some h \<Rightarrow> if h = canonical_hash sv normalized then None
                       else Some (EngineError 409 ''idempotency_payload_conflict'')
           | None \<Rightarrow>
               if list_ex (\<lambda>c. is_access_enabling (operation c)) (steps ex) \<and>
                  activation_blockers (employee_id ex)
                    (map (\<lambda>c. target_value (target_system c)) (access_enabling_steps ex)) d \<noteq> []
               then Some (EngineError 409 ''mandatory_verification_incomplete'') else None))"

definition submission_refusal ::
  "'e services \<Rightarrow> settings \<Rightarrow> string \<Rightarrow> request_execution \<Rightarrow> 'e world \<Rightarrow> repo_error option" where
  "submission_refusal sv s request ex w =
     (case admission_refusal sv s request ex w of
        Some e \<Rightarrow> Some e
      | None \<Rightarrow> document_refusal sv ex (w_db w))"

lemma access_enabling_steps_some:
  "access_enabling_steps ex \<noteq> [] \<longleftrightarrow> list_ex (\<lambda>c. is_access_enabling (operation c)) (steps ex)"
  by (auto simp: access_enabling_steps_def filter_empty_conv list_ex_iff)

lemma access_enabling_steps_all:
  "length (access_enabling_steps ex) \<noteq> length (steps ex) \<longleftrightarrow>
     list_ex (\<lambda>c. \<not> is_access_enabling (operation c)) (steps ex)"
proof -
  have "length (filter P xs) = length xs \<longleftrightarrow> list_all P xs" for P and xs :: "step_command list"
    by (metis filter_id_conv length_filter_less list_all_iff nat_neq_iff)
  then show ?thesis by (simp add: access_enabling_steps_def list_ex_iff list_all_iff)
qed

lemma admit_refusal:
  "fst (admit sv s request ex w) =
     (case admission_refusal sv s request ex w of Some e \<Rightarrow> Inl e | None \<Rightarrow> Inr ())"
  by (simp add: admission_refusal_def admit_eq access_enabling_steps_some access_enabling_steps_all)

text \<open>C17. Refused submissions: a submission whose gate is closed, that is for another request, too old
  or ahead of time, mixed or invalid, whose key belongs to another document, or that would activate
  an employee who is not verified, is refused with its own error, and the store stays as it was. A
  submission that passes is a replay, if its key is recorded, or begins and runs.\<close>

theorem submission_refusals:
  "case submission_refusal sv s request ex w of
     Some e \<Rightarrow> \<exists>w'. submit sv s adapters request ex w = (Inl e, w') \<and> w_db w' = w_db w
   | None \<Rightarrow> \<exists>normalized w'. normalize_keys (sv_sha256 sv) ex = Inr normalized \<and> w_db w' = w_db w \<and>
       (recorded_hash (w_db w) (digest (sv_sha256 sv) (idempotency_key normalized)) =
          Some (canonical_hash sv normalized) \<or>
        submit sv s adapters request ex w =
          begin_and_run sv s adapters request normalized (canonical_hash sv normalized) w')"
proof (cases "admit sv s request ex w")
  case (Pair admitted w')
  have db: "w_db w' = w_db w" using Pair by (rule admit_db)
  show ?thesis
  proof (cases "admission_refusal sv s request ex w")
    case (Some e)
    then show ?thesis using Pair db admit_refusal [of sv s request ex w]
      by (auto simp: submission_refusal_def submit_def hbind_def)
  next
    case None
    then have admitted: "admit sv s request ex w = (Inr (), w')"
      using Pair admit_refusal [of sv s request ex w] by simp
    show ?thesis
    proof (cases "normalize_keys (sv_sha256 sv) ex")
      case (Inl e)
      then show ?thesis using admitted db
        by (simp add: submission_refusal_def None document_refusal_def submit_def hbind_def hlift_def)
    next
      case (Inr normalized)
      then show ?thesis using db
        by (auto simp: submission_refusal_def None document_refusal_def access_enabling_steps_some [symmetric]
            submit_after_admission [OF admitted Inr] existing_recorded conflict_409_def
            hbind_def hreturn_def check_blockers_def split: option.split)
    qed
  qed
qed

section \<open>Sending a submission again\<close>

text \<open>Whether a request is known.\<close>

definition known_request :: "db \<Rightarrow> string \<Rightarrow> string option" where
  "known_request d request =
     map_option ex_employee_id (sql_first (filter (\<lambda>e. ex_request_id e = request) (tbl_executions d)))"

lemma known_request_begin:
  assumes "known_request d request = Some v"
  shows "known_request (snd (begin_execution sha t ex h d)) request = Some v"
proof (cases rule: begin_cases [of sha t ex h d])
  case (fresh d')
  then show ?thesis using assms
    by (auto simp: begin_fresh(2) [OF fresh] known_request_def dest: sql_first_append)
qed (use assms in simp_all)

lemma known_request_ident:
  "map exec_ident (tbl_executions d') = map exec_ident (tbl_executions d) \<Longrightarrow>
     known_request d' = known_request d"
  unfolding known_request_def
  by (rule ext)
     (rule sql_first_map_cong [where Q = "\<lambda>(r, e, c, k', h). r = k" and h = "\<lambda>(r, e, c, k, h). e" for k],
      auto simp: exec_ident_def)

interpretation known: write_once known_request "transition sha" "\<lambda>d. \<exists>n. machine_inv n d"
proof unfold_locales
  fix d d' :: db and k v
  assume "transition sha d d'" and "\<exists>n. machine_inv n d" and v: "known_request d k = Some v"
  then obtain n where "store_step sha n d d'" "store_inv d"
    by (auto simp: transition_def machine_inv_def)
  from store_step_exec_ident [OF this] show "known_request d' k = Some v"
    using known_request_begin [OF v] known_request_ident v by metis
next
  fix d d' :: db
  assume "transition sha d d'" and "\<exists>n. machine_inv n d"
  then show "\<exists>n. machine_inv n d'" by (rule transition_machine_inv)
qed

lemma request_result_known:
  "request_result t t' request replayed d = (Inr (Some r), d') \<Longrightarrow> known_request d request \<noteq> None"
  by (auto simp: request_result_def known_request_def split: option.splits)

context engine_adapters begin

text \<open>A first submission that is answered has left its key, its hash and its request in the store.\<close>

lemma answered_submission_recorded:
  assumes inv: "machine_inv n (w_db w)" and normalized: "normalize_keys (sv_sha256 sv) ex = Inr normalized"
    and fresh: "recorded_hash (w_db w) (digest (sv_sha256 sv) (idempotency_key normalized)) = None"
    and submitted: "submit sv s adapters request ex w = (Inr r, w')"
  shows "(\<exists>m. machine_inv m (w_db w')) \<and>
    recorded_hash (w_db w') (digest (sv_sha256 sv) (idempotency_key normalized)) =
      Some (canonical_hash sv normalized) \<and>
    known_request (w_db w') request \<noteq> None"
proof -
  let ?h = "canonical_hash sv normalized"
  obtain wa where admitted: "admit sv s request ex w = (Inr (), wa)"
    using submitted unfolding submit_def by (elim hbind_InrE) simp
  have db: "w_db wa = w_db w" using admitted by (rule admit_db)
  have "begin_and_run sv s adapters request normalized ?h wa = (Inr r, w')"
    using submitted unfolding submit_after_admission [OF admitted normalized] existing_recorded db fresh
    by (auto simp: conflict_409_def hbind_def hreturn_def check_blockers_def split: if_splits)
  then obtain existing replayed wb answer wc where
    begun: "with_clock sv (\<lambda>t d. case begin_execution (sv_sha256 sv) t normalized ?h d of
        (r, d') \<Rightarrow> (conflict_409 r, d')) wa = (Inr (existing, replayed), wb)"
    and answer: "(if replayed then replay_answer sv request existing else hreturn None) wb = (Inr answer, wc)"
    and rest: "(case answer of Some r \<Rightarrow> hreturn r
       | None \<Rightarrow> fresh_execution sv s adapters request normalized) wc = (Inr r, w')"
    unfolding begin_and_run_def
    by (elim hbind_InrE) (simp split: prod.splits, elim hbind_InrE, blast)
  obtain t where "begin_execution (sv_sha256 sv) t normalized ?h (w_db w) = (Inr (existing, replayed), w_db wb)"
    using begun db
    by (auto simp: with_clock_def conflict_409_def split: prod.splits sum.splits repo_error.splits dest!: tick_eqD)
  moreover have "\<not> replayed"
    using calculation fresh
    by (auto simp: begin_execution_def recorded_hash_def split: option.splits sum.splits)
  ultimately have recorded: "recorded_hash (w_db wb) (digest (sv_sha256 sv) (idempotency_key normalized)) = Some ?h"
      and stepped: "store_step (sv_sha256 sv) 0 (w_db w) (w_db wb)"
      and wc: "wc = wb" "answer = None"
    using answer begin_recorded store_step.begins [OF normalized_steps_belong [OF normalized]]
    by (auto simp: hreturn_def) (metis snd_conv)
  have inv': "machine_inv n (w_db wb)" using store_step_inv [OF stepped inv] by simp
  have ran: "fresh_execution sv s adapters request normalized wb = (Inr r, w')"
    using rest by (simp add: wc)
  have moved: "run (w_db wb) (w_db w')" by (rule keepsD [OF keeps_fresh_execution ran])
  have after: "machine_inv n (w_db w')" by (rule run_of_inv [OF moved inv'])
  have "recorded_hash (w_db w') (digest (sv_sha256 sv) (idempotency_key normalized)) = Some ?h"
    using hashes.persists_run [OF run_transitions [OF moved inv'] _ recorded] inv' by blast
  moreover have "known_request (w_db w') request \<noteq> None"
  proof -
    obtain wd we where found: "required_result sv request 500 ''execution_state_missing'' wd = (Inr r, we)"
        and called: "callback sv s normalized r we = (Inr (), w')"
        and before: "run_request sv s adapters request wb = (Inr (), wd)"
      using ran unfolding fresh_execution_def by (elim hbind_InrE) (auto simp: hreturn_def)
    obtain t t' where "request_result t t' request False (w_db wd) = (Inr (Some r), w_db we)"
      using found unfolding required_result_def
      by (elim hbind_InrE) (auto simp: hraise_def hreturn_def elim: the_resultE split: option.splits)
    then have "known_request (w_db wd) request \<noteq> None" by (rule request_result_known)
    moreover have "machine_inv n (w_db wd)"
      using keepsD [OF keeps_run_request before] inv' by (rule run_of_inv)
    moreover have "run (w_db wd) (w_db w')"
      using keepsD [OF keeps_result(2) found] keepsD [OF keeps_callback called] by (rule run_of_trans)
    ultimately show ?thesis
      using known.persists_run [OF run_transitions] by blast
  qed
  ultimately show ?thesis using after by blast
qed

end

text \<open>A replay: the adapters are not asked, and the answer says that it is one.\<close>

lemma resubmission_answer:
  assumes admitted: "admit sv s request ex w = (Inr (), w')"
    and normalized: "normalize_keys (sv_sha256 sv) ex = Inr normalized"
    and recorded: "recorded_hash (w_db w) (digest (sv_sha256 sv) (idempotency_key normalized)) =
      Some (canonical_hash sv normalized)"
    and known: "known_request (w_db w) request \<noteq> None"
  shows "\<exists>answer w''. (\<forall>adapters. submit sv s adapters request ex w = (answer, w'')) \<and>
    tbl_steps (w_db w'') = tbl_steps (w_db w) \<and>
    tbl_dead_letters (w_db w'') = tbl_dead_letters (w_db w) \<and>
    (case answer of
       Inr r \<Rightarrow> er_replayed r
     | Inl e \<Rightarrow> \<exists>row. row \<in> set (rows_of request (w_db w)) \<and> step_result_of row True = Inl e)"
proof -
  have db: "w_db w' = w_db w" using admitted by (rule admit_db)
  define stored where "stored = ex_result (the (sql_first (filter
    (\<lambda>r. ex_idempotency_hash r = digest (sv_sha256 sv) (idempotency_key normalized)) (tbl_executions (w_db w)))))"
  have submit: "submit sv s adapters request ex w =
      hbind (replay_answer sv request stored) (\<lambda>answer.
         case answer of
           Some r \<Rightarrow> hreturn r
         | None \<Rightarrow>
             hbind (check_blockers ex) (\<lambda>_.
             begin_and_run sv s adapters request normalized (canonical_hash sv normalized))) w'" for adapters
    by (simp add: submit_after_admission [OF admitted normalized] existing_recorded db recorded
        stored_def conflict_409_def)
  show ?thesis
  proof (cases stored)
    case (Some r)
    then have "submit sv s adapters request ex w = (Inr (r\<lparr>er_replayed := True\<rparr>), w')" for adapters
      by (simp add: submit replay_answer_def hreturn_def hbind_def)
    then show ?thesis using db by (intro exI [of _ "Inr (r\<lparr>er_replayed := True\<rparr>)"] exI [of _ w']) simp
  next
    case None
    obtain x wb where result: "the_result sv request True w' = (x, wb)"
      by (cases "the_result sv request True w'")
    obtain t t' where rr: "request_result t t' request True (w_db w) = (x, w_db wb)"
      by (rule the_resultE [OF result]) (auto simp: db)
    show ?thesis
    proof (cases x)
      case (Inl e)
      then obtain row where "row \<in> set (rows_of request (w_db w))" "step_result_of row True = Inl e"
        using rr by (auto simp: request_result_def rows_of_def Let_def
            dest!: map_res_InlD split: option.splits sum.splits)
      moreover have "submit sv s adapters request ex w = (Inl e, wb)" for adapters
        using result by (simp add: submit None replay_answer_def hbind_def Inl)
      moreover have "tbl_steps (w_db wb) = tbl_steps (w_db w)" "tbl_dead_letters (w_db wb) = tbl_dead_letters (w_db w)"
        using request_result_tables [of t t' request True "w_db w"] rr by simp_all
      ultimately show ?thesis by (intro exI [of _ "Inl e"] exI [of _ wb]) auto
    next
      case (Inr found)
      then obtain r where found: "found = Some r"
        using rr known
        by (auto simp: request_result_def known_request_def Let_def split: option.splits sum.splits)
      have "submit sv s adapters request ex w = (Inr (r\<lparr>er_replayed := True\<rparr>), wb)" for adapters
        using result by (simp add: submit None replay_answer_def hbind_def Inr found hreturn_def)
      moreover have "tbl_steps (w_db wb) = tbl_steps (w_db w)" "tbl_dead_letters (w_db wb) = tbl_dead_letters (w_db w)"
        using request_result_tables [of t t' request True "w_db w"] rr by simp_all
      ultimately show ?thesis
        by (intro exI [of _ "Inr (r\<lparr>er_replayed := True\<rparr>)"] exI [of _ wb]) auto
    qed
  qed
qed

text \<open>A submission that is not admitted raises before anything is read or stored.\<close>

lemma submission_not_admitted:
  assumes "admission_refusal sv s request ex w = Some e"
  shows "\<exists>w'. (\<forall>adapters. submit sv s adapters request ex w = (Inl e, w')) \<and> w_db w' = w_db w"
proof (cases "admit sv s request ex w")
  case (Pair r w')
  then have "r = Inl e" using admit_refusal [of sv s request ex w] assms by simp
  then show ?thesis using Pair admit_db [OF Pair] by (auto simp: submit_def hbind_def)
qed

text \<open>C12. Exactly once: after a submission has been answered, and after whatever the service has done
  since, sending it again asks no adapter for anything, whichever adapters there are, and changes no
  step. If it is not admitted again (a gate has been closed, its timestamp is too old by now), it is
  refused with the error of the admission and the store stays as it is. If it is, the answer is marked
  as a replay; it is an error only if the stored outcome of a step cannot be read.\<close>

theorem resubmission_is_replay:
  assumes "reachable (sv_sha256 sv) n (w_db w)"
    and "normalize_keys (sv_sha256 sv) ex = Inr normalized"
    and "recorded_hash (w_db w) (digest (sv_sha256 sv) (idempotency_key normalized)) = None"
    and "submit sv s (adapter_table sv objects) request ex w = (Inr r, w1)"
    and "w2 = history sv s (adapter_table sv objects) calls w1"
  shows "\<exists>answer w3. (\<forall>adapters. submit sv s adapters request ex w2 = (answer, w3)) \<and>
    tbl_steps (w_db w3) = tbl_steps (w_db w2) \<and>
    tbl_dead_letters (w_db w3) = tbl_dead_letters (w_db w2) \<and>
    (case admission_refusal sv s request ex w2 of
       Some e \<Rightarrow> answer = Inl e \<and> w_db w3 = w_db w2
     | None \<Rightarrow>
         (case answer of
            Inr r' \<Rightarrow> er_replayed r'
          | Inl e \<Rightarrow> \<exists>row. row \<in> set (rows_of request (w_db w2)) \<and> step_result_of row True = Inl e))"
proof (cases "admission_refusal sv s request ex w2")
  case (Some e)
  from submission_not_admitted [OF this] obtain w3
    where "\<forall>adapters. submit sv s adapters request ex w2 = (Inl e, w3)" and "w_db w3 = w_db w2"
    by blast
  then show ?thesis by (intro exI [of _ "Inl e"] exI [of _ w3]) (simp add: Some)
next
  case None
  from table.answered_submission_recorded [OF reachable_machine_inv [OF assms(1)] assms(2-4)]
  obtain m where m: "machine_inv m (w_db w1)"
    and recorded: "recorded_hash (w_db w1) (digest (sv_sha256 sv) (idempotency_key normalized)) =
      Some (canonical_hash sv normalized)"
    and known: "known_request (w_db w1) request \<noteq> None"
    by blast
  have run: "(transition (sv_sha256 sv))\<^sup>*\<^sup>* (w_db w1) (w_db w2)"
    unfolding assms(5) by (rule table.history_transitions [OF m])
  obtain w' where "admit sv s request ex w2 = (Inr (), w')"
    using admit_refusal [of sv s request ex w2] None
    by (cases "admit sv s request ex w2") simp
  moreover have "recorded_hash (w_db w2) (digest (sv_sha256 sv) (idempotency_key normalized)) =
      Some (canonical_hash sv normalized)" and "known_request (w_db w2) request \<noteq> None"
    using hashes.persists_run [OF run _ recorded] known.persists_run [OF run] known m by blast+
  ultimately have "\<exists>answer w3. (\<forall>adapters. submit sv s adapters request ex w2 = (answer, w3)) \<and>
    tbl_steps (w_db w3) = tbl_steps (w_db w2) \<and>
    tbl_dead_letters (w_db w3) = tbl_dead_letters (w_db w2) \<and>
    (case answer of
       Inr r' \<Rightarrow> er_replayed r'
     | Inl e \<Rightarrow> \<exists>row. row \<in> set (rows_of request (w_db w2)) \<and> step_result_of row True = Inl e)"
    by (rule resubmission_answer [OF _ assms(2)])
  then show ?thesis by (simp only: None option.simps(4))
qed

lemma sample_admitted: "admission_refusal sample_sv sample_settings ''request-2'' sample_submission w = None"
  unfolding admission_refusal_def gate_open_def tick_def by (simp add: sample_sv_def sample_services_def) code_simp

lemma sample_submit:
  obtains r w1 where "submit sample_sv sample_settings (adapter_table sample_sv []) ''request-2''
    sample_submission sample_world = (Inr r, w1)"
proof -
  let ?h = "canonical_hash sample_sv sample_normalized"
  have tick: "tick sample_sv sample_world = (seconds 1000, sample_world)"
    by (simp add: tick_def sample_sv_def sample_services_def sample_world_def)
  have admitted: "admit sample_sv sample_settings ''request-2'' sample_submission sample_world = (Inr (), sample_world)"
    using admit_refusal [of sample_sv sample_settings "''request-2''" sample_submission sample_world] tick
    by (simp add: sample_admitted admit_eq split: if_splits)
  have "fst (begin_execution (\<lambda>s. s) (seconds 1000) sample_normalized h empty_db) = Inr (None, False)" for h
    by code_simp
  then have begun: "begin_execution (\<lambda>s. s) (seconds 1000) sample_normalized h empty_db =
      (Inr (None, False), w_db (sample_begun h))" for h
    by (simp add: sample_begun_def prod_eq_iff)
  have world: "w_db sample_world = empty_db"
      "sample_world\<lparr>w_db := w_db (sample_begun h)\<rparr> = sample_begun h" for h
    by (simp_all add: sample_world_def sample_begun_def)
  have "access_enabling_steps sample_submission = []" by code_simp
  then have "submit sample_sv sample_settings (adapter_table sample_sv []) ''request-2'' sample_submission sample_world =
      fresh_execution sample_sv sample_settings (adapter_table sample_sv []) ''request-2'' sample_normalized
        (sample_begun ?h)"
    using tick begun
    by (simp add: submit_after_admission [OF admitted sample_normalized] existing_recorded recorded_hash_def
        conflict_409_def hbind_def hreturn_def check_blockers_def begin_and_run_def with_clock_def world)
  moreover have "case fst (fresh_execution sample_sv sample_settings (adapter_table sample_sv []) ''request-2''
      sample_normalized (sample_begun h)) of Inr _ \<Rightarrow> True | Inl _ \<Rightarrow> False" for h
    by code_simp
  note this [of ?h]
  ultimately show thesis
    using that by (cases "fresh_execution sample_sv sample_settings (adapter_table sample_sv []) ''request-2''
      sample_normalized (sample_begun ?h)") (auto split: sum.splits)
qed

theorem resubmission_is_replay_witness:
  "\<exists>r w1 answer w3. let w2 = history sample_sv sample_settings (adapter_table sample_sv []) [WorkerPass] w1 in
     submit sample_sv sample_settings (adapter_table sample_sv []) ''request-2'' sample_submission sample_world =
       (Inr r, w1) \<and>
     submit sample_sv sample_settings (\<lambda>_. None) ''request-2'' sample_submission w2 = (answer, w3) \<and>
     tbl_steps (w_db w3) = tbl_steps (w_db w2) \<and>
     (case answer of
        Inr r' \<Rightarrow> er_replayed r'
      | Inl e \<Rightarrow> \<exists>row. row \<in> set (rows_of ''request-2'' (w_db w2)) \<and> step_result_of row True = Inl e)"
proof (rule sample_submit)
  fix r w1
  assume submitted: "submit sample_sv sample_settings (adapter_table sample_sv []) ''request-2''
    sample_submission sample_world = (Inr r, w1)"
  have fresh: "recorded_hash (w_db sample_world)
      (digest (sv_sha256 sample_sv) (idempotency_key sample_normalized)) = None"
    by (simp add: sample_world_def recorded_hash_def)
  let ?w2 = "history sample_sv sample_settings (adapter_table sample_sv []) [WorkerPass] w1"
  obtain answer w3 where
    "submit sample_sv sample_settings (\<lambda>_. None) ''request-2'' sample_submission ?w2 = (answer, w3)"
    "tbl_steps (w_db w3) = tbl_steps (w_db ?w2)"
    "case answer of
       Inr r' \<Rightarrow> er_replayed r'
     | Inl e \<Rightarrow> \<exists>row. row \<in> set (rows_of ''request-2'' (w_db ?w2)) \<and> step_result_of row True = Inl e"
    using resubmission_is_replay [OF sample_world_reachable sample_normalized fresh submitted refl, of "[WorkerPass]"]
    unfolding sample_admitted option.simps(4) by blast
  then show ?thesis
    using submitted by (intro exI [of _ r] exI [of _ w1] exI [of _ answer] exI [of _ w3]) (simp only: Let_def simp_thms)
qed

end
