(* ===== verification/Engine_Outcomes.thy ===== *)
theory Engine_Outcomes
  imports Engine_Properties
begin

text \<open>
  How a step, a verification and a worker's pass end: the row that each answer of an adapter leaves,
  what a confirmed verification has recorded, and what stops the worker.
\<close>

section \<open>How a step ends\<close>

definition gate_verdict :: "bool res \<Rightarrow> bool" where
  "gate_verdict r \<longleftrightarrow> r \<in> {Inr False, Inl (EngineError 503 ''dead_letter_gate_closed'')}"

text \<open>
  The row and the verdict on the loop that each answer of the adapter leads to. For a transient
  failure the engine reads the result of the request (\<open>current\<close>) and then the clock (\<open>now\<close>); when the
  result cannot be read it raises, and the step is left running, for the next recovery.
\<close>

fun settled_as ::
  "'e services \<Rightarrow> settings \<Rightarrow> step_command \<Rightarrow> execution_result option res \<Rightarrow> time \<Rightarrow> dict outcome \<Rightarrow>
     bool res \<Rightarrow> step_row \<Rightarrow> bool" where
  "settled_as sv s c current now (Returned raw) r row \<longleftrightarrow>
     r = Inr True \<and> st_state row = done_state (operation c) \<and> st_error_code row = None \<and>
     st_result row = Some (step_evidence (sv_sha256 sv) c raw)"
| "settled_as sv s c current now (PermanentAdapterError code) r row \<longleftrightarrow>
     gate_verdict r \<and> st_state row = DeadLetter \<and> st_error_code row = Some code \<and>
     st_retry_class row = Some ''permanent''"
| "settled_as sv s c current now (OtherError e) r row \<longleftrightarrow>
     r = Inr False \<and> st_state row = DeadLetter \<and>
     st_error_code row = Some ''adapter_unclassified_failure'' \<and> st_retry_class row = Some ''permanent''"
| "settled_as sv s c current now (RetryableAdapterError code) r row \<longleftrightarrow>
     (case current of
        Inl e \<Rightarrow> r = Inl e \<and> st_state row = Running
      | Inr _ \<Rightarrow>
          st_error_code row = Some code \<and> st_retry_class row = Some ''transient'' \<and>
          (if st_max_attempts row \<le> st_attempt_count row
           then gate_verdict r \<and> st_state row = DeadLetter
           else r = Inr False \<and> st_state row = RetryWait \<and>
             st_next_retry_at row =
               Some (now + seconds (min (retry_base_seconds s * 2 ^ nat (st_attempt_count row - 1)) 300))))"

text \<open>A failure of the only row of a step.\<close>

lemma fail_claimed_row:
  assumes dist: "distinct (map st_step_id (tbl_steps (w_db w)))"
    and row: "row \<in> set (tbl_steps (w_db w))" "st_step_id row = step"
    and failed: "fail_claimed sv step code cls at w = (r, w')"
  obtains row' where
    "r = Inr (fail_state row cls)"
    "tbl_steps (w_db w') = sql_update (\<lambda>x. st_step_id x = step) (\<lambda>_. row') (tbl_steps (w_db w))"
    "st_state row' = fail_state row cls" "st_error_code row' = Some code" "st_retry_class row' = Some cls"
    "st_next_retry_at row' = (if fail_state row cls = RetryWait then at else None)"
    "st_attempt_count row' = st_attempt_count row" "st_max_attempts row' = st_max_attempts row"
proof -
  obtain t w1 where t: "tick sv w = (t, w1)" by (cases "tick sv w")
  obtain t' w2 where t': "tick sv w1 = (t', w2)" by (cases "tick sv w1")
  have fail: "fail_step t t' step code cls at (w_db w) = (r, w_db w')"
    using failed tick_eqD [OF t] tick_eqD [OF t']
    by (auto simp: fail_claimed_def with_clock2_def with_clock_def t t' split: prod.splits)
  have first: "sql_first (filter (\<lambda>x. st_step_id x = step) (tbl_steps (w_db w))) = Some row"
    using sql_first_key [OF dist row(1)] row(2) by simp
  let ?f = "\<lambda>x. x\<lparr>st_state := fail_state row cls, st_retry_class := Some cls,
    st_error_code := Some code,
    st_next_retry_at := (if fail_state row cls = RetryWait then at else None),
    st_claimed_at := None, st_updated_at := t\<rparr>"
  have "tbl_steps (w_db w') = sql_update (\<lambda>x. st_step_id x = step) ?f (tbl_steps (w_db w))"
    using fail_step_tables(2) [of t t' step code cls at "w_db w"] fail by (simp add: first)
  also have "\<dots> = sql_update (\<lambda>x. st_step_id x = step) (\<lambda>_. ?f row) (tbl_steps (w_db w))"
    by (rule sql_update_const) (use unique_key_eq [OF dist _ row(1)] row(2) in auto)
  finally have "tbl_steps (w_db w') = \<dots>" .
  moreover have "r = Inr (fail_state row cls)"
    using fail by (simp add: fail_step_def first Let_def)
  ultimately show thesis by (intro that [of "?f row"]) simp_all
qed

lemma list_all2_mem1: "list_all2 R xs ys \<Longrightarrow> x \<in> set xs \<Longrightarrow> \<exists>y \<in> set ys. R x y"
  by (induction rule: list_all2_induct) auto

lemma list_all2_mem2: "list_all2 R xs ys \<Longrightarrow> y \<in> set ys \<Longrightarrow> \<exists>x \<in> set xs. R x y"
  by (induction rule: list_all2_induct) auto

text \<open>The attempt the engine counts with is that of the row.\<close>

lemma attempt_of_row:
  assumes dist: "distinct (map st_step_id (tbl_steps d))"
    and row: "row \<in> set (tbl_steps d)" "st_step_id row = step" "st_request_id row = request"
    and result: "request_result t t' request replayed d = (Inr (Some out), d')"
  shows "attempt_of step out = st_attempt_count row"
proof (rule request_result_SomeE [OF result], goal_cases)
  case (1 execution results)
  have "\<exists>r \<in> set results. sr_step_id r = step \<and> sr_attempt_count r = st_attempt_count row"
  proof -
    have "row \<in> set (order_by st_sequence (rows_of request d))"
      using row by (simp add: rows_of_def)
    then obtain r where "r \<in> set results" "step_result_of row replayed = Inr r"
      using list_all2_mem1 [OF 1(2)] by blast
    then show ?thesis using step_result_of_fields row(2) by (intro bexI [of _ r]) metis+
  qed
  moreover have "sr_attempt_count r = st_attempt_count row"
    if r: "r \<in> set results" "sr_step_id r = step" for r
  proof -
    obtain x where x: "x \<in> set (order_by st_sequence (rows_of request d))" "step_result_of x replayed = Inr r"
      using list_all2_mem2 [OF 1(2) r(1)] by blast
    then have "x \<in> set (tbl_steps d)" by (simp add: rows_of_def)
    moreover have "st_step_id x = st_step_id row" using step_result_of_fields [OF x(2)] r(2) row(2) by metis
    ultimately have "x = row" using unique_key_eq [OF dist _ row(1)] by blast
    then show ?thesis using step_result_of_fields [OF x(2)] by metis
  qed
  moreover obtain r where found: "find (\<lambda>r. sr_step_id r = step) results = Some r"
    using calculation by (cases "find (\<lambda>r. sr_step_id r = step) results") (auto simp: find_None_iff)
  then have "r \<in> set results" "sr_step_id r = step" by (auto simp: find_Some_iff)
  ultimately have "sr_attempt_count r = st_attempt_count row" by blast
  then show ?case by (simp add: attempt_of_def 1(3) found)
qed

lemma retry_time_row:
  assumes dist: "distinct (map st_step_id (tbl_steps (w_db w)))"
    and row: "row \<in> set (tbl_steps (w_db w))" "st_step_id row = step_id c" "st_request_id row = request"
    and time: "retry_time sv s c request w = (Inr t, w')"
    and current: "the_result sv request False w = (current, w1)"
  shows "isl current = False \<and>
    t = fst (tick sv w1) + seconds (step_retry_seconds (retry_base_seconds s) (st_attempt_count row))"
proof -
  obtain found where found: "current = Inr found"
    and rest: "(case found of None \<Rightarrow> hraise AttributeError | Some result \<Rightarrow>
      (\<lambda>w. let (t, w') = tick sv w in (Inr (t + seconds (step_retry_seconds (retry_base_seconds s)
        (attempt_of (step_id c) result))), w'))) w1 = (Inr t, w')"
    using time unfolding retry_time_def by (elim hbind_InrE) (use current in auto)
  obtain out where out: "found = Some out"
    using rest by (cases found) (simp_all add: hraise_def)
  obtain t1 t2 where "request_result t1 t2 request False (w_db w) = (Inr (Some out), w_db w1)"
    using the_resultE [OF current] found out by blast
  then have "attempt_of (step_id c) out = st_attempt_count row"
    by (rule attempt_of_row [OF dist row])
  then show ?thesis
    using rest by (auto simp: found out Let_def split: prod.splits)
qed

text \<open>The retry time cannot be computed exactly when the result cannot be read: the request has a step.\<close>

lemma retry_time_raises:
  assumes row: "row \<in> set (tbl_steps (w_db w))" "st_request_id row = request"
    and owned: "request \<in> ex_request_id ` set (tbl_executions (w_db w))"
    and time: "retry_time sv s c request w = (Inl e, w')"
    and current: "the_result sv request False w = (current, w1)"
  shows "current = Inl e"
proof (cases current)
  case (Inl e')
  then show ?thesis using time current by (simp add: retry_time_def hbind_def)
next
  case (Inr found)
  then obtain t1 t2 where "request_result t1 t2 request False (w_db w) = (Inr found, w_db w1)"
    using the_resultE [OF current] by blast
  then have "found \<noteq> None"
    using owned by (auto simp: request_result_def Let_def filter_empty_conv split: option.splits sum.splits)
  then show ?thesis
    using time current by (auto simp: Inr retry_time_def hbind_def Let_def split: prod.splits option.splits)
qed

context framed_adapters begin

lemma execute_frame:
  assumes "adapters system = Some a"
  shows "keeps adapter_frame (execute a c)"
proof (cases "operation c = Cancel")
  case True
  then show ?thesis by (simp add: execute_def keeps_def permanent_def adapter_frame_def)
next
  case False
  then show ?thesis using frame [OF assms] by (simp add: execute_def)
qed

lemma compensate_steps: "tbl_steps (w_db (compensate sv s adapters request w)) = tbl_steps (w_db w)"
proof -
  have recorded: "tbl_steps (w_db (record_outcome sv request step oper state evidence code delay w)) =
      tbl_steps (w_db w)" for step oper state evidence code delay w
    by (simp add: record_outcome_def with_clock2_def with_clock_def split_beta record_compensation_def Let_def)
  have "tbl_steps (w_db (compensate_step sv s adapters request original w)) = tbl_steps (w_db w)" for original w
  proof -
    let ?c = "compensation_command (sv_sha256 sv) request original"
    obtain r w' where call: "call_adapter adapters ?c w = (r, w')" by (cases "call_adapter adapters ?c w")
    have "keeps adapter_frame (call_adapter adapters ?c)"
    proof (cases "adapters (target_value (target_system ?c))")
      case None
      then show ?thesis
        by (simp add: keeps_def call_adapter_def abind_def alift_def adapter_for_def adapter_frame_def)
    next
      case (Some a)
      then show ?thesis using execute_frame [OF Some, of ?c]
        by (simp add: keeps_def call_adapter_def abind_def alift_def adapter_for_def)
    qed
    then have "tbl_steps (w_db w') = tbl_steps (w_db w)"
      using call by (auto simp: adapter_frame_def dest: keepsD)
    then show ?thesis
      by (auto simp: compensate_step_def Let_def call recorded split: outcome.split)
  qed
  then have "tbl_steps (w_db (fold (compensate_step sv s adapters request) cs w)) = tbl_steps (w_db w)" for cs w
    by (induction cs arbitrary: w) simp_all
  then show ?thesis by (simp add: compensate_def)
qed

lemma unclassified_row:
  assumes "distinct (map st_step_id (tbl_steps (w_db w)))"
    and "row \<in> set (tbl_steps (w_db w))" "st_step_id row = step_id c"
    and "unclassified_failure sv s adapters c request w = (r, w')"
  shows "\<exists>row'. tbl_steps (w_db w') = sql_update (\<lambda>x. st_step_id x = step_id c) (\<lambda>_. row') (tbl_steps (w_db w)) \<and>
    settled_as sv s c current now (OtherError e) r row'"
proof -
  obtain x w1 where failed: "fail_claimed sv (step_id c) ''adapter_unclassified_failure'' ''permanent'' None w = (x, w1)"
    by (cases "fail_claimed sv (step_id c) ''adapter_unclassified_failure'' ''permanent'' None w")
  show ?thesis
  proof (rule fail_claimed_row [OF assms(1-3) failed], goal_cases)
    case (1 row')
    then show ?thesis using assms(4)
      by (intro exI [of _ row'])
         (auto simp: unclassified_failure_def hbind_def failed compensate_steps fail_state_def)
  qed
qed

lemma adapter_failure_row:
  assumes "distinct (map st_step_id (tbl_steps (w_db w)))"
    and "row \<in> set (tbl_steps (w_db w))" "st_step_id row = step_id c"
    and "adapter_failure sv s adapters c request code cls at w = (r, w')"
  obtains row' where
    "tbl_steps (w_db w') = sql_update (\<lambda>x. st_step_id x = step_id c) (\<lambda>_. row') (tbl_steps (w_db w))"
    "st_state row' = fail_state row cls" "st_error_code row' = Some code" "st_retry_class row' = Some cls"
    "st_next_retry_at row' = (if fail_state row cls = RetryWait then at else None)"
    "st_attempt_count row' = st_attempt_count row" "st_max_attempts row' = st_max_attempts row"
    "if fail_state row cls = DeadLetter then gate_verdict r else r = Inr False"
proof -
  obtain x w1 where failed: "fail_claimed sv (step_id c) code cls at w = (x, w1)"
    by (cases "fail_claimed sv (step_id c) code cls at w")
  show thesis
  proof (rule fail_claimed_row [OF assms(1-3) failed], goal_cases)
    case (1 row')
    have "if fail_state row cls = DeadLetter then gate_verdict r else r = Inr False"
      using assms(4) 1(1)
      by (auto simp: adapter_failure_def hbind_def failed gate_verdict_def split: if_splits)
    moreover have "tbl_steps (w_db w') = tbl_steps (w_db w1)"
      using assms(4) 1(1)
      by (auto simp: adapter_failure_def hbind_def failed compensate_steps split: if_splits)
    ultimately show thesis using 1 by (intro that [of row']) simp_all
  qed
qed

lemma settle_row:
  assumes dist: "distinct (map st_step_id (tbl_steps (w_db w)))"
    and row: "row \<in> set (tbl_steps (w_db w))" "st_step_id row = step_id c" "st_request_id row = request"
    and running: "st_state row = Running"
    and owned: "request \<in> ex_request_id ` set (tbl_executions (w_db w))"
    and current: "the_result sv request False w = (current, w0)"
    and settled: "settle_step sv s adapters c request result w = (r, w')"
  shows "\<exists>row'. tbl_steps (w_db w') = sql_update (\<lambda>x. st_step_id x = step_id c) (\<lambda>_. row') (tbl_steps (w_db w)) \<and>
    settled_as sv s c current (fst (tick sv w0)) result r row'"
proof (cases result)
  case (Returned raw)
  obtain t w1 where t: "tick sv w = (t, w1)" by (cases "tick sv w")
  let ?f = "\<lambda>x. x\<lparr>st_state := done_state (operation c),
    st_result := Some (step_evidence (sv_sha256 sv) c raw), st_error_code := None,
    st_next_retry_at := None, st_claimed_at := None, st_updated_at := t\<rparr>"
  have "r = Inr True \<and> tbl_steps (w_db w') = sql_update (\<lambda>x. st_step_id x = step_id c) ?f (tbl_steps (w_db w))"
    using settled tick_eqD [OF t]
    by (auto simp: Returned settle_returned with_clock_def t complete_step_def)
  moreover have "sql_update (\<lambda>x. st_step_id x = step_id c) ?f (tbl_steps (w_db w)) =
      sql_update (\<lambda>x. st_step_id x = step_id c) (\<lambda>_. ?f row) (tbl_steps (w_db w))"
    by (rule sql_update_const) (use unique_key_eq [OF dist _ row(1)] row(2) in auto)
  ultimately show ?thesis by (intro exI [of _ "?f row"]) (simp add: Returned)
next
  case (RetryableAdapterError code)
  obtain x w1 where time: "retry_time sv s c request w = (x, w1)" by (cases "retry_time sv s c request w")
  have steps: "tbl_steps (w_db w1) = tbl_steps (w_db w)" using retry_time_steps [OF time] by simp
  show ?thesis
  proof (cases x)
    case (Inl e)
    have "sql_update (\<lambda>x. st_step_id x = step_id c) (\<lambda>_. row) (tbl_steps (w_db w)) = tbl_steps (w_db w)"
      using unique_key_eq [OF dist _ row(1)] row(2) by (auto simp: sql_update_def intro!: map_idI)
    moreover have "current = Inl e"
      using retry_time_raises [OF row(1,3) owned _ current] time Inl by blast
    ultimately show ?thesis using settled time steps running
      by (intro exI [of _ row]) (auto simp: RetryableAdapterError settle_step_def hbind_def Inl)
  next
    case (Inr at)
    then have at: "at = fst (tick sv w0) + seconds (step_retry_seconds (retry_base_seconds s) (st_attempt_count row))"
      and read: "\<not> isl current"
      using retry_time_row [OF dist row _ current] time by blast+
    obtain found where current': "current = Inr found" using read by (cases current) simp_all
    have failed: "adapter_failure sv s adapters c request code ''transient'' (Some at) w1 = (r, w')"
      using settled by (simp add: RetryableAdapterError settle_step_def hbind_def time Inr)
    show ?thesis
    proof (rule adapter_failure_row [OF _ _ row(2) failed, unfolded steps, OF dist row(1)], goal_cases)
      case row': (1 row')
      have "settled_as sv s c current (fst (tick sv w0)) result r row'"
      proof (cases "st_max_attempts row \<le> st_attempt_count row")
        case True
        then show ?thesis using row' by (simp add: RetryableAdapterError fail_state_def current')
      next
        case False
        then show ?thesis using row'
          by (auto simp: RetryableAdapterError fail_state_def current' at step_retry_seconds_def max_def)
      qed
      then show ?case using row'(1) by blast
    qed
  qed
next
  case (PermanentAdapterError code)
  then have failed: "adapter_failure sv s adapters c request code ''permanent'' None w = (r, w')"
    using settled by (simp add: settle_step_def)
  show ?thesis
    by (rule adapter_failure_row [OF dist row(1,2) failed])
       (auto simp: PermanentAdapterError fail_state_def)
next
  case (OtherError e)
  then show ?thesis
    using settled unclassified_row [OF dist row(1,2), of s request r w' current "fst (tick sv w0)" e] by (simp add: settle_step_def)
qed

end

text \<open>C13. A claimed step whose adapter is called ends as the adapter answers: success stores the evidence
  and goes on; a permanent or unknown failure dead-letters the step and stops; a transient failure
  dead-letters it on its last attempt, and otherwise schedules the next one at the time read after the
  answer plus the base delay doubled for each earlier attempt, 300 seconds at most; if the stored result
  of the request cannot be read then, the engine raises and the step is left running. No other step of
  the store changes.\<close>

theorem step_settled:
  assumes "reachable (sv_sha256 sv) n (w_db w)"
    and "with_clock sv (\<lambda>t. claim_next t request) w = (Some c, w1)"
    and "is_access_enabling (operation c) \<Longrightarrow>
      activation_blockers (employee_id c) [target_value (target_system c)] (w_db w1) = []"
    and "adapter_table sv objects (target_value (target_system c)) = Some a"
    and "execute a c w1 = (result, w2)"
    and "run_step sv s (adapter_table sv objects) request w = (r, w')"
    and "the_result sv request False w2 = (current, w3)"
  shows "\<exists>row. tbl_steps (w_db w') =
      sql_update (\<lambda>x. st_step_id x = step_id c) (\<lambda>_. row) (tbl_steps (w_db w1)) \<and>
    settled_as sv s c current (fst (tick sv w3)) result r row"
proof -
  have inv: "machine_inv n (w_db w)" by (rule reachable_machine_inv [OF assms(1)])
  then have store: "store_inv (w_db w)" by (simp add: machine_inv_def)
  obtain t where claimed: "claim_next t request (w_db w) = (Some c, w_db w1)"
    using assms(2) by (auto simp: with_clock_def Let_def split: prod.splits dest!: tick_eqD)
  have "store_step (sv_sha256 sv) 0 (w_db w) (w_db w1)"
    using store_step.claims [of "sv_sha256 sv" "w_db w" t request] claimed by simp
  then have inv1: "machine_inv n (w_db w1)" using store_step_inv inv by fastforce
  have steps: "tbl_steps (w_db w2) = tbl_steps (w_db w1)"
    and executions: "tbl_executions (w_db w2) = tbl_executions (w_db w1)"
    using keepsD [OF table.execute_frame [OF assms(4)] assms(5)] by (simp_all add: adapter_frame_def)
  have "settle_step sv s (adapter_table sv objects) c request result w2 = (r, w')"
    using assms(3,6) by (auto simp: run_step_def assms(2,4,5) run_claimed_def split: if_splits)
  note settle = table.settle_row [OF _ _ _ _ _ _ assms(7) this, unfolded steps executions]
  from claimed_row [OF store claimed] obtain row where
    row: "row \<in> set (tbl_steps (w_db w1))" "st_step_id row = step_id c" "st_request_id row = request"
      "st_state row = Running"
    by blast
  have "distinct (map st_step_id (tbl_steps (w_db w1)))"
    using inv1 by (simp add: machine_inv_def store_inv_distinct)
  moreover have "request \<in> ex_request_id ` set (tbl_executions (w_db w1))"
    using inv1 row(1,3) by (auto simp: machine_inv_def store_inv_def ident_inv_def list_all_iff)
  ultimately show ?thesis by (rule settle [OF _ row])
qed

text \<open>A claimed step whose adapter is the disabled one.\<close>

definition disabled_objects :: "(string \<times> adapter_object) list" where
  "disabled_objects = [(''odoo'', DisabledAdapter ''odoo'')]"

lemma sample_claimed:
  obtains c w1 where "with_clock sample_sv (\<lambda>t. claim_next t ''request-2'') (sample_begun ''hash'') = (Some c, w1)"
    "operation c = CreateDisabled" "target_system c = Odoo"
proof -
  have "case fst (with_clock sample_sv (\<lambda>t. claim_next t ''request-2'') (sample_begun ''hash'')) of
      None \<Rightarrow> False | Some c \<Rightarrow> operation c = CreateDisabled \<and> target_system c = Odoo"
    by code_simp
  then show thesis
    using that by (cases "with_clock sample_sv (\<lambda>t. claim_next t ''request-2'') (sample_begun ''hash'')")
      (auto split: option.splits)
qed

theorem step_settled_witness:
  "\<exists>c current now r row. settled_as sample_sv sample_settings c current now (PermanentAdapterError ''odoo_adapter_not_configured'') r row \<and>
     row \<in> set (tbl_steps (w_db (snd (run_step sample_sv sample_settings
       (adapter_table sample_sv disabled_objects) ''request-2'' (sample_begun ''hash'')))))"
proof (rule sample_claimed)
  fix c w1
  assume claim: "with_clock sample_sv (\<lambda>t. claim_next t ''request-2'') (sample_begun ''hash'') = (Some c, w1)"
    and oper: "operation c = CreateDisabled" and system: "target_system c = Odoo"
  let ?A = "adapter_table sample_sv disabled_objects"
  have a: "?A (target_value (target_system c)) = Some (disabled_adapter ''odoo'')"
    by (simp add: system adapter_table_def disabled_objects_def)
  have call: "execute (disabled_adapter ''odoo'') c w1 = (PermanentAdapterError ''odoo_adapter_not_configured'', w1)"
    by (simp add: execute_def oper disabled_adapter_def permanent_def)
  obtain r w' where run: "run_step sample_sv sample_settings ?A ''request-2'' (sample_begun ''hash'') = (r, w')"
    by (cases "run_step sample_sv sample_settings ?A ''request-2'' (sample_begun ''hash'')")
  obtain current w3 where read: "the_result sample_sv ''request-2'' False w1 = (current, w3)"
    by (cases "the_result sample_sv ''request-2'' False w1")
  have "\<exists>row. tbl_steps (w_db w') =
      sql_update (\<lambda>x. st_step_id x = step_id c) (\<lambda>_. row) (tbl_steps (w_db w1)) \<and>
    settled_as sample_sv sample_settings c current (fst (tick sample_sv w3))
      (PermanentAdapterError ''odoo_adapter_not_configured'') r row"
    by (rule step_settled [OF sample_begun_reachable claim _ a call run read]) (simp add: oper is_access_enabling_def)
  moreover have "\<exists>x \<in> set (tbl_steps (w_db w1)). st_step_id x = step_id c"
  proof -
    obtain t where "claim_next t ''request-2'' (w_db (sample_begun ''hash'')) = (Some c, w_db w1)"
      using claim by (auto simp: with_clock_def Let_def split: prod.splits dest!: tick_eqD)
    moreover have "store_inv (w_db (sample_begun ''hash''))"
      using reachable_machine_inv [OF sample_begun_reachable] by (simp add: machine_inv_def)
    ultimately show ?thesis using claimed_row by blast
  qed
  ultimately show ?thesis using run by (fastforce simp: sql_update_def)
qed

section \<open>What a confirmed verification has recorded\<close>

text \<open>The store holds the evidence of an employee for a command.\<close>

definition evidenced :: "string \<Rightarrow> db \<Rightarrow> step_command \<Rightarrow> bool" where
  "evidenced employee d c \<longleftrightarrow>
     (\<exists>v \<in> set (tbl_verification_records d). vr_employee_id v = employee \<and>
        vr_target_system v = target_value (target_system c) \<and> vr_source_step_id v = step_id c)"

lemma evidenced_upsert:
  assumes "evidenced employee d c" and "vr_target_system row \<noteq> target_value (target_system c)"
  shows "evidenced employee (upsert_verification row d) c"
proof -
  obtain v where v: "v \<in> set (tbl_verification_records d)" "vr_employee_id v = employee"
      "vr_target_system v = target_value (target_system c)" "vr_source_step_id v = step_id c"
    using assms(1) by (auto simp: evidenced_def)
  have "v \<in> set (tbl_verification_records (upsert_verification row d))"
    using v(1,3) assms(2)
    by (auto simp: upsert_verification_def sql_upsert_def sql_update_def verification_row_key_def image_iff
        intro!: bexI [of _ v])
  then show ?thesis using v by (auto simp: evidenced_def)
qed

text \<open>There is at most one verification command per system.\<close>

lemma latest_commands_keys:
  "distinct (map fst (latest_commands ops cs)) \<and>
   list_all (\<lambda>(k, c). k = target_value (target_system c)) (latest_commands ops cs)"
proof -
  have "distinct (map fst (fold (\<lambda>c latest. if operation c \<in> ops
      then dict_setdefault (target_value (target_system c)) c latest else latest) cs d)) \<and>
    list_all (\<lambda>(k, c). k = target_value (target_system c)) (fold (\<lambda>c latest. if operation c \<in> ops
      then dict_setdefault (target_value (target_system c)) c latest else latest) cs d)"
    if "distinct (map fst d)" "list_all (\<lambda>(k, c). k = target_value (target_system c)) d" for d
    using that
  proof (induction cs arbitrary: d)
    case (Cons c cs)
    have "distinct (map fst (dict_setdefault k c d))" for k
      using Cons.prems(1) by (auto simp: dict_setdefault_def map_of_eq_None_iff split: option.splits)
    moreover have "list_all (\<lambda>(k, c). k = target_value (target_system c))
        (dict_setdefault (target_value (target_system c)) c d)"
      using Cons.prems(2) by (auto simp: dict_setdefault_def split: option.splits)
    ultimately show ?case using Cons.IH Cons.prems by simp
  qed simp
  from this [of "[]"] show ?thesis by (simp add: latest_commands_def)
qed

lemma verification_commands_distinct:
  "distinct (map (\<lambda>c. target_value (target_system c)) (verification_commands request d))"
proof -
  let ?l = "latest_commands {CreateDisabled, Update} (map st_command (successful_rows request d))"
  have eq: "map (\<lambda>c. target_value (target_system c)) (map snd ?l) = map fst ?l"
    using latest_commands_keys [of "{CreateDisabled, Update}" "map st_command (successful_rows request d)"]
    by (auto simp: list_all_iff)
  show ?thesis
    unfolding verification_commands_def eq using latest_commands_keys by blast
qed

lemma verification_commands_steps:
  "tbl_steps d' = tbl_steps d \<Longrightarrow> verification_commands request d' = verification_commands request d"
  by (simp add: verification_commands_def successful_rows_def)

context framed_adapters begin

lemma looked_up_frame:
  assumes "abind (alift (adapter_for adapters (target_system c))) (\<lambda>a. a oper c) w = (r, w')"
  shows "adapter_frame (w_db w) (w_db w')"
proof (cases "adapters (target_value (target_system c))")
  case None
  then show ?thesis using assms
    by (simp add: abind_def alift_def adapter_for_def adapter_frame_def)
next
  case (Some a)
  then have "a oper c w = (r, w')" using assms by (simp add: abind_def alift_def adapter_for_def)
  then show ?thesis by (rule keepsD [OF frame [OF Some]])
qed

text \<open>One verification adds the evidence for its command, if it confirms, and keeps that of others.\<close>

lemma verify_one_evidence:
  assumes one: "verify_one sv adapters action current original w = (Inr result, w')"
  shows "(sr_state result = Verified \<longrightarrow> evidenced (er_employee_id current) (w_db w') original) \<and>
    (evidenced e (w_db w) c \<longrightarrow> target_system c \<noteq> target_system original \<longrightarrow> evidenced e (w_db w') c)"
proof -
  let ?c = "verification_command (sv_sha256 sv) action original"
  have fields: "target_system ?c = target_system original" "step_id ?c = step_id original"
    by (simp_all add: verification_command_def)
  obtain r w1 where call: "abind (alift (adapter_for adapters (target_system ?c))) (\<lambda>a. a Verify ?c) w = (r, w1)"
    by (cases "abind (alift (adapter_for adapters (target_system ?c))) (\<lambda>a. a Verify ?c) w")
  have same: "tbl_verification_records (w_db w1) = tbl_verification_records (w_db w)"
    using looked_up_frame [OF call] by (simp add: adapter_frame_def)
  have kept: "evidenced e (w_db w1) c \<longleftrightarrow> evidenced e (w_db w) c" for e c
    by (simp add: evidenced_def same)
  have copied: "sr_state x = st" if "copied_result current ?c st ev code = Inr x" for x st ev code
    using that by (auto simp: copied_result_def split: list.splits)
  show ?thesis
  proof (cases r)
    case (Returned raw)
    have confirmed: "confirm_verification sv current ?c raw w1 = (Inr result, w')"
      using one by (simp add: verify_one_def Let_def call Returned)
    then obtain verified where verified: "verified_answer raw = Inr verified"
      unfolding confirm_verification_def Let_def by (elim hbind_InrE) (auto simp: hlift_def)
    show ?thesis
    proof (cases verified)
      case False
      then have "w' = w1" "sr_state result = step_state.Failed"
        using confirmed copied
        by (auto simp: confirm_verification_def Let_def hbind_def hlift_def verified split: sum.splits)
      then show ?thesis by (simp add: kept)
    next
      case True
      obtain t w2 where t: "tick sv w1 = (t, w2)" by (cases "tick sv w1")
      let ?row = "\<lparr>vr_employee_id = er_employee_id current,
        vr_target_system = target_value (target_system original), vr_source_step_id = step_id original,
        vr_evidence_hash = sv_sha256 sv (default_json (JObj raw)), vr_verified_at = t\<rparr>"
      have "w_db w' = upsert_verification ?row (w_db w1)"
        using confirmed True tick_eqD [OF t]
        by (auto simp: confirm_verification_def Let_def hbind_def hlift_def verified with_clock_def t fields
            record_verification_def hraise_def split: if_splits sum.splits prod.splits)
      moreover have "evidenced (er_employee_id current) (upsert_verification ?row (w_db w1)) original"
        using upsert_mem [of ?row "w_db w1"] by (auto simp: evidenced_def)
      moreover have "evidenced e (upsert_verification ?row (w_db w1)) c"
        if "evidenced e (w_db w) c" "target_system c \<noteq> target_system original" for e c
        using that by (intro evidenced_upsert) (auto simp: kept)
      ultimately show ?thesis by simp
    qed
  next
    case (OtherError e)
    then show ?thesis using one by (simp add: verify_one_def Let_def call)
  qed (use one copied kept in \<open>auto simp: verify_one_def Let_def call\<close>)
qed

lemma hmap_verify_evidence:
  assumes "hmap (verify_one sv adapters action current) originals w = (Inr results, w')"
    and "distinct (map (\<lambda>c. target_value (target_system c)) originals)"
    and "list_all (\<lambda>r. sr_state r = Verified) results"
    and "list_all (\<lambda>o'. target_system c \<noteq> target_system o') originals \<Longrightarrow> evidenced (er_employee_id current) (w_db w) c"
    and "c \<in> set originals \<or> list_all (\<lambda>o'. target_system c \<noteq> target_system o') originals"
  shows "evidenced (er_employee_id current) (w_db w') c"
  using assms
proof (induction originals arbitrary: w results)
  case (Cons first rest)
  from Cons.prems(1) obtain r w1 rs where
    one: "verify_one sv adapters action current first w = (Inr r, w1)"
    and others: "hmap (verify_one sv adapters action current) rest w1 = (Inr rs, w')"
    and results: "results = r # rs"
    by (auto elim!: hbind_InrE simp: hreturn_def)
  note evidence = verify_one_evidence [OF one]
  have apart: "list_all (\<lambda>o'. target_system first \<noteq> target_system o') rest"
    using Cons.prems(2) by (auto simp: list_all_iff)
  have "evidenced (er_employee_id current) (w_db w1) c"
    if "list_all (\<lambda>o'. target_system c \<noteq> target_system o') rest"
  proof (cases "c = first")
    case True
    then show ?thesis using evidence [of "er_employee_id current" c] Cons.prems(3) results by simp
  next
    case False
    then have "list_all (\<lambda>o'. target_system c \<noteq> target_system o') (first # rest)"
      using that Cons.prems(5) by (auto simp: list_all_iff)
    then show ?thesis
      using evidence [of "er_employee_id current" c] Cons.prems(4) by simp
  qed
  moreover have "c \<in> set rest \<or> list_all (\<lambda>o'. target_system c \<noteq> target_system o') rest"
    using Cons.prems(5) apart by auto
  ultimately show ?case
    using Cons.IH [OF others] Cons.prems(2,3) results by simp
qed (simp add: hreturn_def)

end

text \<open>C15. A confirmed verification is backed by evidence: when the engine answers that a request is
  verified, it had a provisioning step to verify, every result of the answer is a verified one, and
  the store holds, for every system the request provisioned, evidence of its latest successful step.\<close>

theorem verified_request:
  assumes "verify sv s (adapter_table sv objects) request action w = (Inr r, w')"
    and "er_state r = ''verified''"
  shows "verification_commands request (w_db w) \<noteq> [] \<and>
    list_all (\<lambda>x. sr_state x = Verified) (er_step_results r) \<and>
    list_all (evidenced (er_employee_id r) (w_db w')) (verification_commands request (w_db w))"
proof -
  let ?A = "adapter_table sv objects"
  obtain current w1 w2 where found: "found_result sv request w1 = (Inr current, w2)"
    and w1: "w_db w1 = w_db w"
    and locked: "verify_locked sv ?A request action current w2 = (Inr r, w')"
    using assms(1) unfolding verify_def
    by (elim hbind_InrE) (auto simp: guard_def hreturn_def hraise_def validate_freshness_def split_beta
        split: if_splits)
  have "tbl_steps (w_db w2) = tbl_steps (w_db w)"
    using found w1 unfolding found_result_def required_result_def
    by (elim hbind_InrE)
       (auto simp: hraise_def hreturn_def request_result_tables split: option.splits
         elim!: the_resultE dest!: arg_cong [where f = "\<lambda>p. tbl_steps (snd p)"])
  then have commands: "verification_commands request (w_db w2) = verification_commands request (w_db w)"
    by (rule verification_commands_steps)
  obtain results where mapped: "hmap (verify_one sv ?A action current) (verification_commands request (w_db w)) w2 =
      (Inr results, w')"
    and r: "er_step_results r = results" "er_employee_id r = er_employee_id current"
      "er_state r = (if all_verified results then ''verified'' else ''verification_failed'')"
    using locked unfolding verify_locked_def Let_def commands
    by (auto simp: hreturn_def split: if_splits elim!: hbind_InrE)
  have all: "all_verified results" using assms(2) r(3) by (simp split: if_splits)
  then have verified: "list_all (\<lambda>x. sr_state x = Verified) results" and "results \<noteq> []"
    by (simp_all add: all_verified_def)
  have "evidenced (er_employee_id current) (w_db w') c"
    if "c \<in> set (verification_commands request (w_db w))" for c
    by (rule table.hmap_verify_evidence [OF mapped verification_commands_distinct verified])
       (use that in \<open>auto simp: list_all_iff\<close>)
  moreover have "verification_commands request (w_db w) \<noteq> []"
    using mapped \<open>results \<noteq> []\<close> by (auto simp: hreturn_def)
  ultimately show ?thesis using verified r(1,2) by (simp add: list_all_iff)
qed

text \<open>A provider that confirms, and a request whose only step has succeeded.\<close>

definition sample_provider :: "unit services" where
  "sample_provider = sample_sv\<lparr>sv_http := (\<lambda>_ e. (HttpResponse 200 [] (Some (JObj [(''verified'', JBool True)])) None, e))\<rparr>"

definition sample_odoo :: "(string \<times> adapter_object) list" where
  "sample_odoo = [(''odoo'', HttpAdapter \<lparr>hc_system = ''odoo'', hc_base_url = ''https://odoo'',
     hc_credential_file = ''/secrets/odoo'', hc_ca_file = ''/tls/ca'', hc_routes = default_routes\<rparr>)]"

definition sample_provisioned :: "unit world" where
  "sample_provisioned = \<lparr>w_db = snd (complete_step 6 ''step-c-00'' Succeeded []
      (snd (claim_next 5 ''request-2'' (w_db (sample_begun ''hash''))))), w_env = ()\<rparr>"

definition sample_verification :: action_request where
  "sample_verification =
     \<lparr>schema_version = ''1.0'', request_id = ''request-2'', correlation_id = ''correlation-1'',
      idempotency_key = ''key-verification-0'', employee_id = ''employee-0001'', target_system = Odoo,
      operation = Verify, timestamp = seconds 1000, action_payload = []\<rparr>"
theorem verified_request_witness:
  "\<exists>r w'. verify sample_provider sample_settings (adapter_table sample_provider sample_odoo) ''request-2''
     sample_verification sample_provisioned = (Inr r, w') \<and>
     list_all (evidenced (er_employee_id r) (w_db w'))
       (verification_commands ''request-2'' (w_db sample_provisioned))"
proof -
  have "case fst (verify sample_provider sample_settings (adapter_table sample_provider sample_odoo) ''request-2''
     sample_verification sample_provisioned) of Inr r \<Rightarrow> er_state r = ''verified'' | Inl _ \<Rightarrow> False"
    by code_simp
  then obtain r w' where answer: "verify sample_provider sample_settings (adapter_table sample_provider sample_odoo)
      ''request-2'' sample_verification sample_provisioned = (Inr r, w')" "er_state r = ''verified''"
    by (cases "verify sample_provider sample_settings (adapter_table sample_provider sample_odoo) ''request-2''
      sample_verification sample_provisioned") (auto split: sum.splits)
  with verified_request [OF this] show ?thesis by blast
qed

section \<open>What stops the worker\<close>

text \<open>C32. The worker: with a callback address configured, when a pass has got through the pending requests
  and the due compensations, an event is due for delivery and the secret that signs callbacks cannot be
  read, the background task ends in that pass with the error of the read: whatever the service does
  afterwards, the worker makes no further pass.\<close>

theorem unreadable_secret_stops_worker:
  assumes "run_pending sv s adapters w = (Inr (), w1)"
    and "compensate_pending sv s adapters w1 = (Inr (), w2)"
    and "due_callbacks (fst (tick sv w2)) 20 (w_db w2) = row # rows"
    and "callback_url s = Some url" and "url \<noteq> []"
    and "\<And>e. read_secret_file (sv_files sv e) (callback_hmac_file s) False = Inl err"
  shows "worker sv s adapters (meanwhile # waits) w = (Inl err, snd (worker_pass sv s adapters w))"
proof -
  obtain t w3 where t: "tick sv w2 = (t, w3)" by (cases "tick sv w2")
  have "fst (deliver sv s event_id event attempts v) = Inl err" for event_id event attempts v
    by (simp add: deliver_def assms(4,5) hbind_def assms(6))
  then obtain w4 where "deliver sv s (cb_event_id row) (cb_payload row) (cb_attempt_count row) w3 = (Inl err, w4)"
    by (metis prod.collapse)
  moreover have "w3\<lparr>w_db := w_db w2\<rparr> = w3" using tick_eqD [OF t] by simp
  ultimately have "fst (dispatch_due sv s w2) = Inl err"
    using assms(3) tick_eqD [OF t] by (simp add: dispatch_due_def hbind_def with_clock_def t)
  then have "fst (worker_pass sv s adapters w) = Inl err"
    by (simp add: worker_pass_def hbind_def assms(1,2))
  then show ?thesis by (cases "worker_pass sv s adapters w") (simp add: hbind_def)
qed

text \<open>A service with a callback address, no files, and one event in its outbox.\<close>

definition sample_worker :: "unit services" where
  "sample_worker = sample_sv\<lparr>sv_files := (\<lambda>_ _. None)\<rparr>"

definition sample_outbox :: "unit world" where
  "sample_outbox = \<lparr>w_db = enqueue_callback 0 ''event-1'' JNull empty_db, w_env = ()\<rparr>"

theorem unreadable_secret_stops_worker_witness:
  "\<exists>err. fst (worker sample_worker (sample_settings\<lparr>callback_url := Some ''https://callback''\<rparr>)
     (\<lambda>_. None) [id, \<lambda>w. w\<lparr>w_db := empty_db\<rparr>] sample_outbox) = Inl err"
proof -
  let ?s = "sample_settings\<lparr>callback_url := Some ''https://callback''\<rparr>"
  have tick: "tick sample_worker w = (seconds 1000, w)" for w
    by (simp add: tick_def sample_worker_def sample_sv_def sample_services_def)
  have "pending_request_ids (seconds 1000) (w_db sample_outbox) = []"
    and "due_compensation_request_ids (seconds 1000) (w_db sample_outbox) = []"
    by code_simp+
  then have passes: "run_pending sample_worker ?s (\<lambda>_. None) sample_outbox = (Inr (), sample_outbox)"
      "compensate_pending sample_worker ?s (\<lambda>_. None) sample_outbox = (Inr (), sample_outbox)"
    by (simp_all add: run_pending_def compensate_pending_def hbind_def with_clock_def tick hreturn_def)
  have "due_callbacks (fst (tick sample_worker sample_outbox)) 20 (w_db sample_outbox) =
      hd (tbl_callback_events (w_db sample_outbox)) # []"
    unfolding tick fst_conv by code_simp
  moreover have "read_secret_file (sv_files sample_worker e) (callback_hmac_file ?s) False =
      Inl (projl (read_secret_file (\<lambda>_. None) ''/secrets/hmac'' False))" for e
    by (simp add: sample_worker_def sample_settings_def read_secret_file_def)
  ultimately show ?thesis
    using unreadable_secret_stops_worker [OF passes, where url = "''https://callback''" and rows = "[]"
        and meanwhile = id and waits = "[\<lambda>w. w\<lparr>w_db := empty_db\<rparr>]"]
    by simp
qed

end
