(* ===== verification/Security.thy ===== *)
theory Security
  imports World
begin

text \<open>
  Authentication and authorization (\<^verbatim>\<open>app/security.py\<close>). The JWT library is a parameter:
  \<open>jwt_library\<close> holds what the code calls of it, the header and the payload of a token, the signing
  key a JWKS server has for it, and the checks \<^verbatim>\<open>jwt.decode\<close> makes before it returns the payload.
  A request is the names of its query parameters and its \<^verbatim>\<open>Authorization\<close> header.
\<close>

section \<open>The JWT library\<close>

text \<open>
  \<open>jwt_signing_key\<close>: JWKS address and token; \<open>None\<close> is any error of the client. \<open>jwt_accepts\<close>: token,
  key, algorithms, issuer, audience, required claims, leeway, time. \<^verbatim>\<open>jwt.decode\<close> returns the payload
  when it accepts the token and raises an \<^verbatim>\<open>InvalidTokenError\<close> otherwise.
\<close>

record 'e jwt_library =
  jwt_header :: "string \<Rightarrow> dict option"
  jwt_payload :: "string \<Rightarrow> dict"
  jwt_signing_key :: "string \<Rightarrow> string \<Rightarrow> 'e \<Rightarrow> string option \<times> 'e"
  jwt_accepts :: "string \<Rightarrow> string \<Rightarrow> string list \<Rightarrow> string \<Rightarrow> string \<Rightarrow> string list \<Rightarrow> int \<Rightarrow> time \<Rightarrow> bool"

record principal =
  pr_subject :: string
  pr_client_id :: string
  pr_scopes :: "string list"

section \<open>The request\<close>

definition credential_words :: "string list" where
  "credential_words = [''token'', ''secret'', ''password'', ''credential'', ''key'']"

definition credential_parameter :: "string \<Rightarrow> bool" where
  "credential_parameter key \<longleftrightarrow>
     str_lower key \<noteq> ''idempotency_key'' \<and> list_ex (contains (str_lower key)) credential_words"

text \<open>\<^verbatim>\<open>authorization.partition(" ")\<close>, and the token of a bearer header.\<close>

definition partition_space :: "string \<Rightarrow> string \<times> string \<times> string" where
  "partition_space s =
     (let scheme = takeWhile (\<lambda>c. c \<noteq> CHR '' '') s; rest = drop (length scheme) s
      in (scheme, take 1 rest, drop 1 rest))"

definition bearer_token :: "string \<Rightarrow> string option" where
  "bearer_token authorization =
     (let (scheme, separator, token) = partition_space authorization in
      if str_lower scheme \<noteq> ''bearer'' \<or> separator = [] \<or> token = [] \<or> CHR '' '' \<in> set token
      then None else Some token)"

section \<open>The token\<close>

definition unauthorized :: "string \<Rightarrow> repo_error" where
  "unauthorized detail = HTTPException 401 detail"

definition public_key ::
  "'e services \<Rightarrow> 'e jwt_library \<Rightarrow> settings \<Rightarrow> string \<Rightarrow> ('e, string) handler" where
  "public_key sv lib s token w =
     (if jwt_jwks_url s \<noteq> []
      then (let (key, e) = jwt_signing_key lib (jwt_jwks_url s) token (w_env w) in
            (case key of None \<Rightarrow> Inl (unauthorized ''token_validation_failed'') | Some k \<Rightarrow> Inr k,
             w\<lparr>w_env := e\<rparr>))
      else case Option.bind (sv_files sv (w_env w) (jwt_public_key_file s)) fs_text of
        None \<Rightarrow> (Inl (unauthorized ''token_validation_failed''), w)
      | Some k \<Rightarrow> (Inr k, w))"

definition required_claims :: "string list" where
  "required_claims = [''iss'', ''aud'', ''sub'', ''exp'', ''iat'', ''jti'', ''azp'']"

text \<open>The claims of a token the library accepts.\<close>

definition token_claims ::
  "'e services \<Rightarrow> 'e jwt_library \<Rightarrow> settings \<Rightarrow> string \<Rightarrow> ('e, dict) handler" where
  "token_claims sv lib s token =
     (case jwt_header lib token of
        None \<Rightarrow> hraise (unauthorized ''token_validation_failed'')
      | Some header \<Rightarrow>
          if dict_get header ''alg'' \<notin> JStr ` set (jwt_algorithms s)
          then hraise (unauthorized ''invalid_algorithm'')
          else hbind (public_key sv lib s token) (\<lambda>key w.
            let (now, w') = tick sv w in
            (if jwt_accepts lib token key (jwt_algorithms s) (jwt_issuer s) (jwt_audience s)
                  required_claims 10 now
             then Inr (jwt_payload lib token) else Inl (unauthorized ''token_validation_failed''), w')))"

text \<open>Subject, identifier and expiry of acceptable claims.\<close>

definition parsed_scopes :: "dict \<Rightarrow> string list" where
  "parsed_scopes claims =
     (case dict_get claims ''codestra_scopes'' of JStr v \<Rightarrow> str_words v | _ \<Rightarrow> [])"

definition times_ok :: "settings \<Rightarrow> int \<Rightarrow> int \<Rightarrow> bool" where
  "times_ok s iat exp \<longleftrightarrow> iat < exp \<and> exp - iat \<le> jwt_max_token_ttl_seconds s"

definition service_identity :: "settings \<Rightarrow> dict \<Rightarrow> (string \<times> string \<times> int) res" where
  "service_identity s claims =
     (case (dict_get claims ''sub'', dict_get claims ''jti'', dict_get claims ''iat'', dict_get claims ''exp'') of
        (JStr subject, JStr jti, JInt iat, JInt exp) \<Rightarrow>
          if dict_get claims ''azp'' = JStr (jwt_expected_azp s) \<and> jti \<noteq> [] \<and> times_ok s iat exp \<and>
             set (parsed_scopes claims) = set (jwt_required_scopes s)
          then if \<not> hashable (dict_get claims ''typ'') then Inl TypeError
            else if dict_get claims ''typ'' \<in> {JStr ''Bearer'', JStr ''at+jwt''} then Inr (subject, jti, exp)
            else Inl (unauthorized ''invalid_service_identity'')
          else Inl (unauthorized ''invalid_service_identity'')
      | _ \<Rightarrow> Inl (unauthorized ''invalid_service_identity''))"

text \<open>Admission: the token has not been presented before, and the subject is within its rate.\<close>

definition accept_token :: "'e services \<Rightarrow> string \<Rightarrow> int \<Rightarrow> ('e, unit) handler" where
  "accept_token sv jti expiry =
     with_clock sv (\<lambda>t d. case accept_jti (sv_sha256 sv) t jti expiry d of
       (accepted, d') \<Rightarrow> (if accepted then Inr () else Inl (HTTPException 409 ''token_replay_detected''), d'))"

definition within_rate :: "'e services \<Rightarrow> settings \<Rightarrow> string \<Rightarrow> ('e, unit) handler" where
  "within_rate sv s subject =
     hbind (with_clock sv (\<lambda>t. check_rate (sv_sha256 sv) t (sv_sha256 sv subject)
       (rate_limit_requests s) (rate_limit_window_seconds s))) (\<lambda>within.
     if within then hreturn () else hraise (HTTPException 429 ''rate_limit_exceeded''))"

definition admit_principal :: "'e services \<Rightarrow> settings \<Rightarrow> dict \<Rightarrow> ('e, principal) handler" where
  "admit_principal sv s claims =
     hbind (hlift (service_identity s claims)) (\<lambda>(subject, jti, expiry).
     hbind (accept_token sv jti expiry) (\<lambda>_.
     hbind (within_rate sv s subject) (\<lambda>_.
     hreturn \<lparr>pr_subject = subject, pr_client_id = jwt_expected_azp s, pr_scopes = parsed_scopes claims\<rparr>)))"

definition authenticate ::
  "'e services \<Rightarrow> 'e jwt_library \<Rightarrow> settings \<Rightarrow> string list \<Rightarrow> string option \<Rightarrow> ('e, principal) handler" where
  "authenticate sv lib s query authorization w =
     (if \<not> gate_open sv ''SERVICE_AUTHENTICATION_GATE'' w
      then (Inl (HTTPException 503 ''authentication_gate_closed''), w)
      else if list_ex credential_parameter query
      then (Inl (HTTPException 400 ''credentials_in_url_forbidden''), w)
      else case authorization of
        None \<Rightarrow> (Inl (unauthorized ''authentication_required''), w)
      | Some header \<Rightarrow>
          if header = [] then (Inl (unauthorized ''authentication_required''), w)
          else case bearer_token header of
            None \<Rightarrow> (Inl (unauthorized ''invalid_authorization''), w)
          | Some token \<Rightarrow> hbind (token_claims sv lib s token) (admit_principal sv s) w)"

definition require_scope ::
  "'e services \<Rightarrow> 'e jwt_library \<Rightarrow> settings \<Rightarrow> string \<Rightarrow> string list \<Rightarrow> string option \<Rightarrow>
     ('e, principal) handler" where
  "require_scope sv lib s required query authorization w =
     (if \<not> gate_open sv ''SERVICE_AUTHORIZATION_GATE'' w
      then (Inl (HTTPException 503 ''authorization_gate_closed''), w)
      else hbind (authenticate sv lib s query authorization) (\<lambda>principal.
        if required \<notin> set (pr_scopes principal)
        then hraise (HTTPException 403 ''required_scope_missing'') else hreturn principal) w)"

section \<open>What authentication changes and promises\<close>

text \<open>Authentication writes to the tables of token identifiers and rate windows only.\<close>

definition auth_frame :: "db \<Rightarrow> db \<Rightarrow> bool" where
  "auth_frame d d' \<longleftrightarrow>
     tbl_executions d' = tbl_executions d \<and> tbl_steps d' = tbl_steps d \<and>
     tbl_dead_letters d' = tbl_dead_letters d \<and> tbl_callback_events d' = tbl_callback_events d \<and>
     tbl_encrypted_credentials d' = tbl_encrypted_credentials d \<and>
     tbl_compensation_actions d' = tbl_compensation_actions d \<and>
     tbl_verification_records d' = tbl_verification_records d \<and>
     tbl_mock_mailboxes d' = tbl_mock_mailboxes d \<and>
     tbl_sip_browser_sessions d' = tbl_sip_browser_sessions d"

lemma auth_frame_preorder [simp, keeps_intros]: "reflp auth_frame" "transp auth_frame"
  by (auto simp: auth_frame_def reflp_def transp_def)

lemma auth_frame_steps: "auth_frame d d' \<Longrightarrow> same_steps d d'"
  by (simp add: auth_frame_def same_steps_def)

lemma auth_frame_calls [simp, keeps_intros]:
  "auth_frame d (snd (accept_jti sha t jti expires_at d))"
  "auth_frame d (snd (check_rate sha t subject limit window d))"
  by (simp_all add: auth_frame_def accept_jti_def check_rate_def Let_def)

lemma keeps_public_key [keeps_intros]: "keeps auth_frame (public_key sv lib s token)"
  by (auto simp: keeps_def public_key_def auth_frame_def split: prod.split option.split)

lemma keeps_token_claims [keeps_intros]: "keeps auth_frame (token_claims sv lib s token)"
  unfolding token_claims_def by (intro keeps_intros auth_frame_preorder)

lemma keeps_admit_principal [keeps_intros]: "keeps auth_frame (admit_principal sv s claims)"
  unfolding admit_principal_def accept_token_def within_rate_def
  by (intro keeps_intros auth_frame_preorder) (simp add: split_beta)

lemma keeps_authenticate [keeps_intros]: "keeps auth_frame (authenticate sv lib s query authorization)"
proof (rule keepsI)
  fix w
  have "keeps auth_frame (hbind (token_claims sv lib s token) (admit_principal sv s))" for token
    by (intro keeps_intros)
  then show "auth_frame (w_db w) (w_db (snd (authenticate sv lib s query authorization w)))"
    by (auto simp: authenticate_def keeps_def reflpD [OF auth_frame_preorder(1)] split: option.split)
qed

lemma keeps_require_scope [keeps_intros]:
  "keeps auth_frame (require_scope sv lib s required query authorization)"
proof (rule keepsI)
  fix w
  have "keeps auth_frame (hbind (authenticate sv lib s query authorization) (\<lambda>principal.
        if required \<notin> set (pr_scopes principal)
        then hraise (HTTPException 403 ''required_scope_missing'') else hreturn principal))"
    by (intro keeps_intros)
  then show "auth_frame (w_db w) (w_db (snd (require_scope sv lib s required query authorization w)))"
    by (simp add: require_scope_def keeps_def reflpD [OF auth_frame_preorder(1)])
qed

text \<open>Claims that identify the service, and their token identifier and expiry.\<close>

lemma service_identity_Inr:
  assumes "service_identity s claims = Inr (subject, jti, exp)"
  shows "dict_get claims ''sub'' = JStr subject \<and> dict_get claims ''jti'' = JStr jti \<and> jti \<noteq> [] \<and>
    dict_get claims ''azp'' = JStr (jwt_expected_azp s) \<and>
    (\<exists>iat. dict_get claims ''iat'' = JInt iat \<and> dict_get claims ''exp'' = JInt exp \<and>
       iat < exp \<and> exp - iat \<le> jwt_max_token_ttl_seconds s) \<and>
    set (parsed_scopes claims) = set (jwt_required_scopes s) \<and>
    dict_get claims ''typ'' \<in> {JStr ''Bearer'', JStr ''at+jwt''}"
  using assms unfolding service_identity_def times_ok_def
  by (auto split: json.splits if_splits)

text \<open>A token identifier recorded until its expiry is refused as long as the clock has not passed it.\<close>

definition clock_until :: "'e services \<Rightarrow> int \<Rightarrow> bool" where
  "clock_until sv expiry \<longleftrightarrow> (\<forall>e. epoch_seconds (fst (sv_now sv e)) \<le> expiry)"

lemma tick_until: "clock_until sv expiry \<Longrightarrow> tick sv w = (t, w') \<Longrightarrow> epoch_seconds t \<le> expiry"
  by (auto simp: tick_def clock_until_def split: prod.splits dest: spec [of _ "w_env w"])

lemma check_rate_jti [simp]:
  "jti_known h e (snd (check_rate sha t subject limit window d)) \<longleftrightarrow> jti_known h e d"
  by (simp add: jti_known_def check_rate_def Let_def)

lemma accept_jti_records:
  "accept_jti sha t jti e d = (True, d') \<Longrightarrow> jti_known (digest sha jti) e d'"
  by (auto simp: jti_known_def accept_jti_def Let_def split: if_splits)

lemma accept_token_records:
  assumes "accept_token sv jti expiry w = (Inr (), w')"
  shows "jti_known (digest (sv_sha256 sv) jti) expiry (w_db w')"
proof -
  obtain t w1 where t: "tick sv w = (t, w1)" by (cases "tick sv w")
  obtain accepted d where "accept_jti (sv_sha256 sv) t jti expiry (w_db w1) = (accepted, d)"
    by (cases "accept_jti (sv_sha256 sv) t jti expiry (w_db w1)")
  with assms t show ?thesis
    by (auto simp: accept_token_def with_clock_def split: if_splits intro: accept_jti_records)
qed

lemma accept_token_keeps:
  assumes "clock_until sv e" and "jti_known h e (w_db w)" and "accept_token sv jti expiry w = (r, w')"
  shows "jti_known h e (w_db w') \<and> (h = digest (sv_sha256 sv) jti \<longrightarrow> r \<noteq> Inr ())"
proof -
  obtain t w1 where t: "tick sv w = (t, w1)" by (cases "tick sv w")
  have known: "jti_known h e (w_db w1)" and time: "epoch_seconds t \<le> e"
    using assms(1,2) tick_eqD [OF t] tick_until [OF _ t] by simp_all
  have "w_db w' = snd (accept_jti (sv_sha256 sv) t jti expiry (w_db w1))"
    and "r = Inr () \<longleftrightarrow> fst (accept_jti (sv_sha256 sv) t jti expiry (w_db w1))"
    using assms(3) t by (auto simp: accept_token_def with_clock_def split_beta split: if_splits)
  then show ?thesis
    using accept_jti_known [OF known time, of "sv_sha256 sv" jti expiry] known
      accept_jti_refuses [of "sv_sha256 sv" jti e "w_db w1" t expiry, OF _ time] by auto
qed

lemma within_rate_jti:
  "within_rate sv s subject w = (r, w') \<Longrightarrow> jti_known h e (w_db w') \<longleftrightarrow> jti_known h e (w_db w)"
  unfolding within_rate_def
  by (auto simp: hbind_def with_clock_def hreturn_def hraise_def split_beta Let_def
      split: sum.splits if_splits prod.splits)

lemma token_claims_db: "token_claims sv lib s token w = (r, w') \<Longrightarrow> w_db w' = w_db w"
  unfolding token_claims_def public_key_def
  by (auto simp: hbind_def hraise_def split_beta Let_def split: option.splits if_splits sum.splits prod.splits)

text \<open>The claims a bearer header presents: the identifier and the expiry of its token.\<close>

definition presented :: "'e jwt_library \<Rightarrow> string \<Rightarrow> (string \<times> int) option" where
  "presented lib header =
     (case bearer_token header of
        None \<Rightarrow> None
      | Some token \<Rightarrow>
          (case (dict_get (jwt_payload lib token) ''jti'', dict_get (jwt_payload lib token) ''exp'') of
             (JStr jti, JInt expiry) \<Rightarrow> Some (jti, expiry)
           | _ \<Rightarrow> None))"

lemma token_claims_payload:
  assumes "token_claims sv lib s token w = (Inr claims, w')"
  shows "claims = jwt_payload lib token \<and> (\<exists>key now. jwt_accepts lib token key (jwt_algorithms s)
    (jwt_issuer s) (jwt_audience s) required_claims 10 now)"
  using assms unfolding token_claims_def
  by (auto simp: hbind_def hraise_def split_beta Let_def split: option.splits if_splits sum.splits prod.splits)

lemma authenticate_InrE:
  assumes "authenticate sv lib s query authorization w = (Inr p, w')"
  obtains header token w1 where
    "authorization = Some header" "bearer_token header = Some token" "\<not> list_ex credential_parameter query"
    "token_claims sv lib s token w = (Inr (jwt_payload lib token), w1)"
    "admit_principal sv s (jwt_payload lib token) w1 = (Inr p, w')"
proof -
  obtain header token where "authorization = Some header" "bearer_token header = Some token"
      "\<not> list_ex credential_parameter query"
    and rest: "hbind (token_claims sv lib s token) (admit_principal sv s) w = (Inr p, w')"
    using assms by (auto simp: authenticate_def split: if_splits option.splits)
  moreover from rest obtain claims w1 where claims: "token_claims sv lib s token w = (Inr claims, w1)"
    and "admit_principal sv s claims w1 = (Inr p, w')"
    by (rule hbind_InrE)
  ultimately show thesis
    using that token_claims_payload [OF claims] by blast
qed

lemma admit_principal_InrE:
  assumes "admit_principal sv s claims w = (Inr p, w')"
  obtains subject jti expiry where
    "service_identity s claims = Inr (subject, jti, expiry)"
    "jti_known (digest (sv_sha256 sv) jti) expiry (w_db w')"
    "p = \<lparr>pr_subject = subject, pr_client_id = jwt_expected_azp s, pr_scopes = parsed_scopes claims\<rparr>"
  using assms unfolding admit_principal_def
  by (auto simp: hlift_def hreturn_def within_rate_jti elim!: hbind_InrE dest!: accept_token_records)

text \<open>A presented token is recorded when it is admitted, and refused while it is recorded.\<close>

lemma authenticate_records:
  assumes "authenticate sv lib s query (Some header) w = (Inr p, w')"
  shows "\<exists>jti expiry. presented lib header = Some (jti, expiry) \<and>
    jti_known (digest (sv_sha256 sv) jti) expiry (w_db w')"
  using assms
  by (auto simp: presented_def elim!: authenticate_InrE admit_principal_InrE dest!: service_identity_Inr)

lemma authenticate_keeps_known:
  assumes "clock_until sv expiry" and "jti_known h expiry (w_db w)"
    and "authenticate sv lib s query authorization w = (r, w')"
  shows "jti_known h expiry (w_db w')"
proof -
  have admit: "jti_known h expiry (w_db v')"
    if "admit_principal sv s claims v = (q, v')" "jti_known h expiry (w_db v)" for claims q and v v' :: "'a world"
    using that accept_token_keeps [OF assms(1)]
    by (fastforce simp: admit_principal_def hbind_def hlift_def hreturn_def within_rate_jti
        split: prod.splits sum.splits)
  show ?thesis
    using assms(2,3)
    by (auto simp: authenticate_def hbind_def token_claims_db split: if_splits option.splits prod.splits sum.splits
        intro: admit)
qed

lemma authenticate_refuses:
  assumes "clock_until sv expiry" and "presented lib header = Some (jti, expiry)"
    and "jti_known (digest (sv_sha256 sv) jti) expiry (w_db w)"
  shows "fst (authenticate sv lib s query (Some header) w) \<noteq> Inr p"
proof
  assume "fst (authenticate sv lib s query (Some header) w) = Inr p"
  then obtain w' where "authenticate sv lib s query (Some header) w = (Inr p, w')"
    by (metis prod.collapse)
  then obtain token w1 where token: "bearer_token header = Some token"
      "token_claims sv lib s token w = (Inr (jwt_payload lib token), w1)"
    and admitted: "admit_principal sv s (jwt_payload lib token) w1 = (Inr p, w')"
    by (auto elim: authenticate_InrE)
  have "jti_known (digest (sv_sha256 sv) jti) expiry (w_db w1)"
    using assms(3) token_claims_db [OF token(2)] by simp
  then show False
    using admitted accept_token_keeps [OF assms(1)] assms(2) token(1)
    by (fastforce simp: admit_principal_def hlift_def presented_def elim!: hbind_InrE dest!: service_identity_Inr)
qed

text \<open>C33. Who is admitted: a principal comes from a bearer token that the JWT library accepts for the
  configured algorithms, issuer and audience with every required claim, that names the expected
  client and lives no longer than allowed, and that grants exactly the service's scopes, the one of
  the route among them; its identifier is recorded until the token expires.\<close>

theorem principal_admitted:
  assumes "require_scope sv lib s required query authorization w = (Inr p, w')"
  shows "required \<in> set (pr_scopes p) \<and> set (pr_scopes p) = set (jwt_required_scopes s) \<and>
    \<not> list_ex credential_parameter query \<and>
    (\<exists>header token key now jti iat expiry.
       authorization = Some header \<and> bearer_token header = Some token \<and>
       jwt_accepts lib token key (jwt_algorithms s) (jwt_issuer s) (jwt_audience s) required_claims 10 now \<and>
       dict_get (jwt_payload lib token) ''sub'' = JStr (pr_subject p) \<and>
       dict_get (jwt_payload lib token) ''azp'' = JStr (jwt_expected_azp s) \<and>
       dict_get (jwt_payload lib token) ''iat'' = JInt iat \<and>
       dict_get (jwt_payload lib token) ''exp'' = JInt expiry \<and>
       iat < expiry \<and> expiry \<le> iat + jwt_max_token_ttl_seconds s \<and>
       dict_get (jwt_payload lib token) ''jti'' = JStr jti \<and>
       jti_known (digest (sv_sha256 sv) jti) expiry (w_db w'))"
proof -
  have admitted: "authenticate sv lib s query authorization w = (Inr p, w')"
    and required: "required \<in> set (pr_scopes p)"
    using assms unfolding require_scope_def
    by (auto simp: hraise_def hreturn_def split: if_splits elim!: hbind_InrE)
  then obtain header token w1 where token: "authorization = Some header" "bearer_token header = Some token"
      "\<not> list_ex credential_parameter query"
    and claims: "token_claims sv lib s token w = (Inr (jwt_payload lib token), w1)"
    and "admit_principal sv s (jwt_payload lib token) w1 = (Inr p, w')"
    by (auto elim: authenticate_InrE)
  then obtain subject jti expiry where identity: "service_identity s (jwt_payload lib token) = Inr (subject, jti, expiry)"
    and known: "jti_known (digest (sv_sha256 sv) jti) expiry (w_db w')"
    and p: "p = \<lparr>pr_subject = subject, pr_client_id = jwt_expected_azp s,
      pr_scopes = parsed_scopes (jwt_payload lib token)\<rparr>"
    by (elim admit_principal_InrE)
  from token_claims_payload [OF claims] service_identity_Inr [OF identity] show ?thesis
    using token known required by (fastforce simp: p)
qed

section \<open>A sample library\<close>

text \<open>
  One kind of token, of a given issue and expiry. The checks of the time are those of PyJWT, with
  the leeway on both sides; the token passes the others.
\<close>

definition sample_claims :: "int \<Rightarrow> int \<Rightarrow> dict" where
  "sample_claims iat expiry =
     [(''iss'', JStr CANONICAL_ISSUER), (''aud'', JStr MACHINE_AUDIENCE), (''sub'', JStr ''subject''),
      (''azp'', JStr MACHINE_CLIENT_ID), (''jti'', JStr ''jti-1''), (''typ'', JStr ''Bearer''),
      (''codestra_scopes'', JStr (str_join '' '' MACHINE_SCOPES)),
      (''iat'', JInt iat), (''exp'', JInt expiry)]"

definition sample_jwt :: "int \<Rightarrow> int \<Rightarrow> 'e jwt_library" where
  "sample_jwt iat expiry =
     \<lparr>jwt_header = (\<lambda>_. Some [(''alg'', JStr ''RS256'')]), jwt_payload = (\<lambda>_. sample_claims iat expiry),
      jwt_signing_key = (\<lambda>_ _ e. (Some ''key'', e)),
      jwt_accepts = (\<lambda>_ _ _ _ _ _ leeway now.
        iat \<le> epoch_seconds now + leeway \<and> epoch_seconds now - leeway < expiry)\<rparr>"

definition sample_policy :: settings where
  "sample_policy = (case load_settings sample_env of Inr s \<Rightarrow> s | Inl _ \<Rightarrow> undefined)"

text \<open>The clock is the environment, and the caller moves it.\<close>

definition sample_clocked :: "time services" where
  "sample_clocked = (sample_services (\<lambda>_ e. (NetworkFailure, e)))\<lparr>sv_now := (\<lambda>e. (e, e))\<rparr>"

lemma bearer_token_empty: "bearer_token [] = None"
  by code_simp

text \<open>C34. Replay after expiry: the record of a token is deleted once its expiry has passed, while the
  library accepts tokens for ten seconds longer. A token that has been admitted is therefore admitted
  a second time, as the same principal, by every presentation whose clock has passed its expiry while
  the library still accepts it: its own record does not count any more. (The gates are open, the subject
  is within its rate, and no other token with the same identifier and a later expiry is recorded.)\<close>

theorem expired_token_admitted_again:
  assumes "require_scope sv lib s required query (Some header) w = (Inr p, w1)"
    and "presented lib header = Some (jti, expiry)" and "bearer_token header = Some token"
    and "gate_open sv ''SERVICE_AUTHORIZATION_GATE'' w2" and "gate_open sv ''SERVICE_AUTHENTICATION_GATE'' w2"
    and "token_claims sv lib s token w2 = (Inr (jwt_payload lib token), w3)"
    and "tick sv w3 = (t, w4)" and "expiry < epoch_seconds t"
    and "\<forall>r \<in> set (tbl_replay_jti (w_db w2)). jt_jti_hash r = digest (sv_sha256 sv) jti \<longrightarrow> jt_expires_at r \<le> expiry"
    and "fst (within_rate sv s (pr_subject p) (snd (accept_token sv jti expiry w3))) = Inr ()"
  shows "fst (require_scope sv lib s required query (Some header) w2) = Inr p"
proof -
  have first: "authenticate sv lib s query (Some header) w = (Inr p, w1)" and required: "required \<in> set (pr_scopes p)"
    using assms(1) unfolding require_scope_def
    by (auto simp: hraise_def hreturn_def split: if_splits elim!: hbind_InrE)
  obtain v where query: "\<not> list_ex credential_parameter query"
    and "admit_principal sv s (jwt_payload lib token) v = (Inr p, w1)"
    using first assms(3) by (auto elim: authenticate_InrE)
  then obtain subject jti' expiry' where
    identity: "service_identity s (jwt_payload lib token) = Inr (subject, jti', expiry')"
    and p: "p = \<lparr>pr_subject = subject, pr_client_id = jwt_expected_azp s,
      pr_scopes = parsed_scopes (jwt_payload lib token)\<rparr>"
    by (elim admit_principal_InrE)
  have same: "jti' = jti" "expiry' = expiry"
    using assms(2,3) service_identity_Inr [OF identity] by (auto simp: presented_def)
  have "tbl_replay_jti (w_db w4) = tbl_replay_jti (w_db w2)"
    using token_claims_db [OF assms(6)] tick_eqD [OF assms(7)] by simp
  then have "\<forall>r \<in> set (filter (\<lambda>r. \<not> jt_expires_at r < epoch_seconds t) (tbl_replay_jti (w_db w4))).
      jt_jti_hash r \<noteq> digest (sv_sha256 sv) jti"
    using assms(8,9) by auto
  then have "fst (accept_jti (sv_sha256 sv) t jti expiry (w_db w4)) = True"
    unfolding accept_jti_def Let_def by auto
  then have "fst (accept_token sv jti expiry w3) = Inr ()"
    using assms(7) by (simp add: accept_token_def with_clock_def split_beta)
  then obtain w5 where accepted: "accept_token sv jti expiry w3 = (Inr (), w5)"
    by (metis prod.collapse)
  then obtain w6 where "within_rate sv s subject w5 = (Inr (), w6)"
    using assms(10) p by (cases "within_rate sv s subject w5") simp
  then have "fst (admit_principal sv s (jwt_payload lib token) w3) = Inr p"
    unfolding admit_principal_def by (simp add: hbind_def hlift_def identity same accepted hreturn_def p)
  then have "fst (hbind (token_claims sv lib s token) (admit_principal sv s) w2) = Inr p"
    by (simp add: hbind_def assms(6))
  moreover have "header \<noteq> []"
    using assms(3) bearer_token_empty by auto
  ultimately have "fst (authenticate sv lib s query (Some header) w2) = Inr p"
    unfolding authenticate_def using assms(5) query by (simp add: assms(3))
  then show ?thesis
    using assms(4) required by (auto simp: require_scope_def hbind_def hreturn_def split: prod.split)
qed

text \<open>
  The token of the sample, issued at 950 and expiring at 1010, is presented at 1009, and again at
  1010, when it is refused, and at 1012.
\<close>

definition present_token :: "time \<Rightarrow> db \<Rightarrow> principal res \<times> time world" where
  "present_token t d =
     require_scope sample_clocked (sample_jwt 950 1010) sample_policy ''provisioning:execute'' []
       (Some ''Bearer abc'') \<lparr>w_db = d, w_env = t\<rparr>"

definition sample_again :: "time world" where
  "sample_again = \<lparr>w_db = w_db (snd (present_token (seconds 1009) empty_db)), w_env = seconds 1012\<rparr>"

definition sample_again_claims :: "dict res \<times> time world" where
  "sample_again_claims = token_claims sample_clocked (sample_jwt 950 1010) sample_policy ''abc'' sample_again"

lemma sample_again_token:
  "presented (sample_jwt 950 1010 :: time jwt_library) ''Bearer abc'' = Some (''jti-1'', 1010)"
  "bearer_token ''Bearer abc'' = Some ''abc''"
  by code_simp+

lemma sample_again_gates:
  "gate_open sample_clocked ''SERVICE_AUTHORIZATION_GATE'' sample_again"
  "gate_open sample_clocked ''SERVICE_AUTHENTICATION_GATE'' sample_again"
  by code_simp+

lemma sample_again_accepted:
  "fst sample_again_claims = Inr (jwt_payload (sample_jwt 950 1010 :: time jwt_library) ''abc'')"
  by code_simp

lemma sample_again_late: "1010 < epoch_seconds (fst (tick sample_clocked (snd sample_again_claims)))"
  by code_simp

lemma sample_again_rows: "list_all (\<lambda>r. jt_expires_at r \<le> 1010) (tbl_replay_jti (w_db sample_again))"
  by code_simp

lemma sample_again_rate:
  "fst (within_rate sample_clocked sample_policy ''subject''
     (snd (accept_token sample_clocked ''jti-1'' 1010 (snd sample_again_claims)))) = Inr ()"
  by code_simp

lemma sample_first_presentation:
  "case fst (present_token (seconds 1009) empty_db) of Inr p \<Rightarrow> pr_subject p = ''subject'' | Inl _ \<Rightarrow> False"
  by code_simp

lemma sample_second_presentation:
  "fst (present_token (seconds 1010) (w_db (snd (present_token (seconds 1009) empty_db)))) =
     Inl (HTTPException 409 ''token_replay_detected'')"
  by code_simp

theorem expired_token_admitted_again_witness:
  "\<exists>p w1. present_token (seconds 1009) empty_db = (Inr p, w1) \<and>
     fst (present_token (seconds 1010) (w_db w1)) = Inl (HTTPException 409 ''token_replay_detected'') \<and>
     fst (present_token (seconds 1012) (w_db w1)) = Inr p"
proof -
  obtain p w1 where first: "present_token (seconds 1009) empty_db = (Inr p, w1)" and p: "pr_subject p = ''subject''"
    using sample_first_presentation
    by (cases "present_token (seconds 1009) empty_db"; cases "fst (present_token (seconds 1009) empty_db)") auto
  note steps = sample_again_token sample_again_gates sample_again_accepted sample_again_late
    sample_again_rows sample_again_rate
  have claims: "token_claims sample_clocked (sample_jwt 950 1010) sample_policy ''abc'' sample_again =
      (Inr (jwt_payload (sample_jwt 950 1010 :: time jwt_library) ''abc''), snd sample_again_claims)"
    using steps(5) by (simp add: prod_eq_iff sample_again_claims_def)
  have tick: "tick sample_clocked (snd sample_again_claims) =
      (fst (tick sample_clocked (snd sample_again_claims)), snd (tick sample_clocked (snd sample_again_claims)))"
    by simp
  have "fst (require_scope sample_clocked (sample_jwt 950 1010) sample_policy ''provisioning:execute'' []
      (Some ''Bearer abc'') sample_again) = Inr p"
    by (rule expired_token_admitted_again [OF first [unfolded present_token_def] steps(1-4) claims tick steps(6)])
       (use steps(7,8) p in \<open>auto simp: list_all_iff\<close>)
  then have "fst (present_token (seconds 1012) (w_db w1)) = Inr p"
    by (simp add: present_token_def [of "seconds 1012"] sample_again_def first)
  then show ?thesis using first sample_second_presentation by auto
qed

theorem principal_admitted_witness:
  "\<exists>p w'. present_token (seconds 1000) empty_db = (Inr p, w') \<and> ''provisioning:execute'' \<in> set (pr_scopes p)"
proof -
  have "\<not> isl (fst (present_token (seconds 1000) empty_db))" by code_simp
  then obtain p w' where admitted: "present_token (seconds 1000) empty_db = (Inr p, w')"
    by (cases "present_token (seconds 1000) empty_db"; cases "fst (present_token (seconds 1000) empty_db)") auto
  from principal_admitted [OF admitted [unfolded present_token_def]] admitted show ?thesis by blast
qed

end
