(* ===== verification/Sip_Browser.thy ===== *)
theory Sip_Browser
  imports Adapters
begin

text \<open>
  The browser sessions of the SIP endpoint (\<^verbatim>\<open>app/sip_browser.py\<close>): the manager checks that the
  identity of a request is the one that was provisioned, has the SIP provider issue a temporary
  credential, and keeps the session in the store, with the fingerprint of the credential only. Its
  exceptions and those of the SIP adapter reach the routes.
\<close>

section \<open>Python values\<close>

text \<open>\<^verbatim>\<open>int(v)\<close> of a JSON value; a float, kept as its \<^verbatim>\<open>repr\<close>, is cut at the point.\<close>

definition int_of_repr :: "string \<Rightarrow> int res" where
  "int_of_repr r =
     (let negative = starts_with r ''-''; text = (if negative then drop 1 r else r);
          mantissa = takeWhile (\<lambda>c. c \<noteq> CHR ''e'') text;
          exponent = (case py_int (drop (length mantissa + 1) text) of Inl _ \<Rightarrow> 0 | Inr e \<Rightarrow> e);
          whole = takeWhile (\<lambda>c. c \<noteq> CHR ''.'') mantissa;
          fraction = drop (length whole + 1) mantissa
      in if text = ''nan'' then Inl (ValueError ''cannot convert float NaN to integer'')
         else if text = ''inf'' then Inl OverflowError
         else if exponent < 0 then Inr 0
         else case digits_value 0 False
             (whole @ take (nat exponent) (fraction @ replicate (nat exponent) (CHR ''0''))) of
           None \<Rightarrow> Inl (ValueError ''not a float'')
         | Some n \<Rightarrow> Inr (if negative then - n else n))"

definition int_of_json :: "json \<Rightarrow> int res" where
  "int_of_json v =
     (case v of JInt i \<Rightarrow> Inr i | JBool b \<Rightarrow> Inr (if b then 1 else 0) | JStr s \<Rightarrow> py_int s
      | JFloat r \<Rightarrow> int_of_repr r | _ \<Rightarrow> Inl TypeError)"

text \<open>\<^verbatim>\<open>x in set(v)\<close> for a text \<open>x\<close>.\<close>

definition in_set_of :: "string \<Rightarrow> json \<Rightarrow> bool res" where
  "in_set_of x v =
     (case v of
        JList vs \<Rightarrow> if list_all hashable vs then Inr (JStr x \<in> set vs) else Inl TypeError
      | JStr s \<Rightarrow> Inr (x \<in> (\<lambda>c. [c]) ` set s)
      | JObj d \<Rightarrow> Inr (x \<in> fst ` set d)
      | _ \<Rightarrow> Inl TypeError)"

section \<open>The manager\<close>

definition CANONICAL_BROWSER_WSS_URL :: string where
  "CANONICAL_BROWSER_WSS_URL = ''wss://wss.codestra.agency:8089/ws''"

record sip_manager =
  sm_adapter :: telephony_config
  sm_turn_secret_file :: string
  sm_endpoint :: int
  sm_campaign :: string

definition new_sip_manager ::
  "(string \<times> adapter_object) list \<Rightarrow> string \<Rightarrow> int \<Rightarrow> string \<Rightarrow> sip_manager res" where
  "new_sip_manager adapters turn_secret_file endpoint campaign =
     (case map_of adapters (target_value Sip) of
        Some (TelephonyProvisioningAdapter tc) \<Rightarrow>
          Inr \<lparr>sm_adapter = tc, sm_turn_secret_file = turn_secret_file, sm_endpoint = endpoint,
            sm_campaign = campaign\<rparr>
      | _ \<Rightarrow> Inl (RuntimeError ''sip_runtime_adapter_required''))"

text \<open>An adapter's exception, as the caller of the adapter sees it.\<close>

definition adapter_call :: "('e, 'a) action \<Rightarrow> ('e, 'a) handler" where
  "adapter_call m w =
     (case m w of
        (Returned x, w') \<Rightarrow> (Inr x, w')
      | (RetryableAdapterError code, w') \<Rightarrow> (Inl (AdapterError code), w')
      | (PermanentAdapterError code, w') \<Rightarrow> (Inl (AdapterError code), w')
      | (OtherError e, w') \<Rightarrow> (Inl e, w'))"

section \<open>The identity of a request\<close>

text \<open>The conditions of the last check, in its order.\<close>

definition identity_matches ::
  "sip_manager \<Rightarrow> sip_browser_session_request \<Rightarrow> dict \<Rightarrow> dict \<Rightarrow> dict \<Rightarrow> bool res" where
  "identity_matches m q vicidial sip keycloak =
     (if dict_get vicidial ''username'' \<noteq> JStr (sq_vicidial_username q) then Inr False
      else res_bind (int_of_json (dict_get_default sip ''extension'' (JInt 0))) (\<lambda>extension.
      if extension \<noteq> sq_endpoint q then Inr False
      else case dict_get_default keycloak ''attributes'' (JObj []) of
        JObj attributes \<Rightarrow>
          if dict_get attributes ''role_template'' \<noteq> JStr (sq_role q) then Inr False
          else res_bind (in_set_of (sq_campaign q) (dict_get_default vicidial ''campaigns'' (JList [])))
            (\<lambda>listed. Inr (listed \<and> sq_endpoint q = sm_endpoint m \<and> sq_campaign q = sm_campaign m))
      | _ \<Rightarrow> Inl AttributeError))"

definition results_by_system :: "step_result list \<Rightarrow> string \<Rightarrow> step_result option" where
  "results_by_system rs system =
     map_of (rev (map (\<lambda>r. (target_value (sr_target_system r), r)) rs)) system"

definition commands_by_system :: "step_command list \<Rightarrow> string \<Rightarrow> step_command option" where
  "commands_by_system cs system =
     map_of (rev (map (\<lambda>c. (target_value (target_system c), c)) cs)) system"

definition validated_command ::
  "sip_manager \<Rightarrow> sip_browser_session_request \<Rightarrow> db \<Rightarrow> step_command res" where
  "validated_command m q d =
     res_bind (employee_results (sq_employee_id q) d) (\<lambda>rs.
     let results = results_by_system rs;
         commands = commands_by_system (employee_commands (sq_employee_id q) d)
     in case (results ''keycloak'', commands ''keycloak'', commands ''vicidial'', commands ''sip'') of
          (Some keycloak_result, Some keycloak, Some vicidial, Some sip) \<Rightarrow>
            if results ''vicidial'' = None \<or> results ''sip'' = None
            then Inl (SipBrowserSessionError ''identity_binding_incomplete'')
            else if sr_external_id keycloak_result \<noteq> Some (sq_keycloak_subject q)
            then Inl (SipBrowserSessionError ''keycloak_subject_mismatch'')
            else if sr_operation keycloak_result \<notin> {Activate, Reactivate}
            then Inl (SipBrowserSessionError ''identity_not_active'')
            else res_bind (identity_matches m q (payload vicidial) (payload sip) (payload keycloak)) (\<lambda>ok.
              if ok then Inr sip else Inl (SipBrowserSessionError ''identity_authorization_mismatch''))
        | _ \<Rightarrow> Inl (SipBrowserSessionError ''identity_binding_incomplete''))"

section \<open>Credentials\<close>

definition rotation_command :: "string \<Rightarrow> step_command \<Rightarrow> string \<Rightarrow> bool \<Rightarrow> step_command" where
  "rotation_command nonce original binding include_temporary =
     original\<lparr>operation := RotateCredentials,
       idempotency_key := ''sip-browser:'' @ nonce @ '':'' @ employee_id original,
       payload := (if include_temporary
         then AList.update ''browser_session_binding'' (JStr binding) (payload original)
         else AList.update ''browser_session_revocation'' (JBool True) (payload original))\<rparr>"

definition rotate ::
  "'e services \<Rightarrow> sip_manager \<Rightarrow> step_command \<Rightarrow> string \<Rightarrow> bool \<Rightarrow> ('e, dict) action" where
  "rotate sv m original binding include_temporary =
     abind (on_env (sv_uuid4 sv)) (\<lambda>nonce.
     let c = rotation_command nonce original binding include_temporary in
     if include_temporary then issue_browser_credential sv (sm_adapter m) c
     else telephony_adapter sv (sm_adapter m) RotateCredentials c)"

text \<open>The two members of the answer the manager uses.\<close>

definition issued_credential :: "dict \<Rightarrow> (string \<times> int) res" where
  "issued_credential temporary =
     res_bind (member temporary ''expires_in_seconds'') (\<lambda>expires_in.
     res_bind (member temporary ''temporary_sip_credential'') (\<lambda>credential.
     case (credential, expires_in) of (JStr c, JInt n) \<Rightarrow> Inr (c, n) | _ \<Rightarrow> Inl TypeError))"

definition issue ::
  "'e services \<Rightarrow> sip_manager \<Rightarrow> step_command \<Rightarrow> string \<Rightarrow> ('e, string \<times> time) handler" where
  "issue sv m original binding =
     hbind (adapter_call (rotate sv m original binding True)) (\<lambda>temporary w.
     let (now, w') = tick sv w in
     (case issued_credential temporary of
        Inl e \<Rightarrow> Inl e | Inr (credential, expires_in) \<Rightarrow> Inr (credential, now + seconds expires_in), w'))"

definition session_response ::
  "'e services \<Rightarrow> sip_manager \<Rightarrow> sip_session_row option \<Rightarrow> string \<Rightarrow>
     ('e, sip_browser_session_response) handler" where
  "session_response sv m session credential w =
     (case session of
        None \<Rightarrow> (Inl KeyError, w)
      | Some r \<Rightarrow>
          let turn_username = str_int (epoch_seconds (ss_expires_at r)) @ '':'' @ ss_session_id r in
          (res_bind (read_secret_file (sv_files sv (w_env w)) (sm_turn_secret_file m) False) (\<lambda>turn_secret.
           Inr \<lparr>sp_session_id = ss_session_id r,
             sp_temporary_sip_authorization_username = str_int (ss_endpoint r),
             sp_temporary_sip_credential = credential, sp_endpoint = ss_endpoint r,
             sp_sip_uri = ''sip:'' @ str_int (ss_endpoint r) @ ''@vicidial-staging.codestra.agency'',
             sp_approved_wss_url = CANONICAL_BROWSER_WSS_URL,
             sp_temporary_turn_username = turn_username,
             sp_temporary_turn_credential = sv_turn_hmac sv turn_secret turn_username,
             sp_approved_turn_url = ''turns:vicidial-staging.codestra.agency:5349?transport=tcp'',
             sp_expiration = ss_expires_at r, sp_campaign = ss_campaign r, sp_role = ss_role r,
             sp_employee_identity = ss_employee_id r,
             sp_browser_session_binding = ss_browser_session_binding r\<rparr>), w))"

section \<open>Operations\<close>

text \<open>The row of a new session; the store sets its state and its times.\<close>

definition session_values ::
  "sip_browser_session_request \<Rightarrow> string \<Rightarrow> string \<Rightarrow> time \<Rightarrow> sip_session_row" where
  "session_values q session_id fingerprint expires_at =
     \<lparr>ss_session_id = session_id, ss_employee_id = sq_employee_id q,
      ss_keycloak_subject = sq_keycloak_subject q, ss_odoo_employee_id = sq_odoo_employee_id q,
      ss_vicidial_username = sq_vicidial_username q, ss_endpoint = sq_endpoint q,
      ss_campaign = sq_campaign q, ss_role = sq_role q,
      ss_browser_session_binding = sq_browser_session_binding q,
      ss_credential_fingerprint = fingerprint, ss_expires_at = expires_at, ss_state = [],
      ss_created_at = 0, ss_updated_at = 0\<rparr>"

definition no_active_session :: "'e services \<Rightarrow> string \<Rightarrow> ('e, unit) handler" where
  "no_active_session sv employee =
     with_clock2 sv (\<lambda>t t' d. case active_sip_browser_session t t' employee d of
       (found, d') \<Rightarrow> (case found of None \<Rightarrow> Inr ()
          | Some _ \<Rightarrow> Inl (SipBrowserSessionError ''active_browser_session_exists''), d'))"

definition fresh_uuid :: "'e services \<Rightarrow> ('e, string) handler" where
  "fresh_uuid sv w = (let (session_id, e) = sv_uuid4 sv (w_env w) in (Inr session_id, w\<lparr>w_env := e\<rparr>))"

definition sip_create ::
  "'e services \<Rightarrow> sip_manager \<Rightarrow> sip_browser_session_request \<Rightarrow>
     ('e, sip_browser_session_response) handler" where
  "sip_create sv m q =
     hbind (no_active_session sv (sq_employee_id q)) (\<lambda>_.
     hbind (\<lambda>w. (validated_command m q (w_db w), w)) (\<lambda>original.
     hbind (issue sv m original (sq_browser_session_binding q)) (\<lambda>(credential, expires_at).
     hbind (fresh_uuid sv) (\<lambda>session_id.
     hbind (with_clock sv (\<lambda>t. create_sip_browser_session t
         (session_values q session_id (sv_sha256 sv credential) expires_at))) (\<lambda>session.
     session_response sv m session credential)))))"

text \<open>The session of an action, expired first if its time has come.\<close>

definition expire_if_due :: "'e services \<Rightarrow> string \<Rightarrow> ('e, sip_session_row option) handler" where
  "expire_if_due sv session_id w =
     (case sip_browser_session session_id (w_db w) of
        None \<Rightarrow> (Inr None, w)
      | Some r \<Rightarrow>
          if \<not> is_active r then (Inr (Some r), w)
          else let (now, w') = tick sv w in
            if ss_expires_at r \<le> now
            then with_clock sv (\<lambda>t d. case expire_sip_browser_session t session_id d of
                (found, d') \<Rightarrow> (Inr found, d')) w'
            else (Inr (Some r), w'))"

definition sip_active ::
  "'e services \<Rightarrow> sip_browser_session_action \<Rightarrow> ('e, sip_session_row) handler" where
  "sip_active sv a =
     hbind (expire_if_due sv (sa_session_id a)) (\<lambda>session.
     case session of
       None \<Rightarrow> hraise (SipBrowserSessionError ''sip_browser_session_not_active'')
     | Some r \<Rightarrow>
         if is_active r \<and> ss_browser_session_binding r = sa_browser_session_binding a then hreturn r
         else hraise (SipBrowserSessionError ''sip_browser_session_not_active''))"

text \<open>The request a session came from, checked by its model again.\<close>

definition session_request :: "sip_session_row \<Rightarrow> sip_browser_session_request res" where
  "session_request r =
     parse_sip_request \<lparr>sq_employee_id = ss_employee_id r, sq_keycloak_subject = ss_keycloak_subject r,
       sq_odoo_employee_id = ss_odoo_employee_id r, sq_vicidial_username = ss_vicidial_username r,
       sq_endpoint = ss_endpoint r, sq_campaign = ss_campaign r, sq_role = ss_role r,
       sq_browser_session_binding = ss_browser_session_binding r\<rparr>"

definition sip_renew ::
  "'e services \<Rightarrow> sip_manager \<Rightarrow> sip_browser_session_action \<Rightarrow>
     ('e, sip_browser_session_response) handler" where
  "sip_renew sv m a =
     hbind (sip_active sv a) (\<lambda>r.
     hbind (hlift (session_request r)) (\<lambda>q.
     hbind (\<lambda>w. (validated_command m q (w_db w), w)) (\<lambda>original.
     hbind (issue sv m original (sa_browser_session_binding a)) (\<lambda>(credential, expires_at).
     hbind (with_clock sv (\<lambda>t. renew_sip_browser_session t (sa_session_id a)
         (sv_sha256 sv credential) expires_at)) (\<lambda>session.
     session_response sv m session credential)))))"

definition config_view :: "sip_session_row \<Rightarrow> dict" where
  "config_view r =
     [(''session_id'', JStr (ss_session_id r)), (''employee_id'', JStr (ss_employee_id r)),
      (''endpoint'', JInt (ss_endpoint r)), (''campaign'', JStr (ss_campaign r)),
      (''role'', JStr (ss_role r)), (''browser_session_binding'', JStr (ss_browser_session_binding r)),
      (''expires_at'', JStr (iso_text (ss_expires_at r))), (''state'', JStr (ss_state r))]"

definition sip_config :: "'e services \<Rightarrow> sip_browser_session_action \<Rightarrow> ('e, dict) handler" where
  "sip_config sv a = hbind (sip_active sv a) (\<lambda>r. hreturn (config_view r))"

text \<open>A permanent refusal of the provider gets its own error; other exceptions pass.\<close>

definition revocation_call :: "('e, dict) action \<Rightarrow> ('e, dict) handler" where
  "revocation_call m w =
     (case m w of
        (PermanentAdapterError code, w') \<Rightarrow>
          (Inl (SipBrowserSessionError ''sip_credential_revocation_failed''), w')
      | _ \<Rightarrow> adapter_call m w)"

definition sip_revoke ::
  "'e services \<Rightarrow> sip_manager \<Rightarrow> sip_browser_session_action \<Rightarrow> ('e, dict) handler" where
  "sip_revoke sv m a =
     hbind (sip_active sv a) (\<lambda>r.
     hbind (\<lambda>w. (case commands_by_system (employee_commands (ss_employee_id r) (w_db w)) (target_value Sip) of
         None \<Rightarrow> Inl KeyError | Some c \<Rightarrow> Inr c, w)) (\<lambda>original.
     hbind (revocation_call (rotate sv m original (sa_browser_session_binding a) False)) (\<lambda>_.
     hbind (with_clock sv (\<lambda>t. revoke_sip_browser_session t (sa_session_id a))) (\<lambda>_.
     hreturn [(''session_id'', JStr (sa_session_id a)), (''state'', JStr ''revoked'')]))))"

section \<open>A session and its credential\<close>

lemma create_session_row:
  assumes "create_sip_browser_session t values d = (Inr found, d')"
  shows "found = Some (values\<lparr>ss_state := ''active'', ss_created_at := t, ss_updated_at := t\<rparr>) \<and>
    d' = d\<lparr>tbl_sip_browser_sessions := tbl_sip_browser_sessions d @
      [values\<lparr>ss_state := ''active'', ss_created_at := t, ss_updated_at := t\<rparr>]\<rparr> \<and>
    (\<forall>r \<in> set (tbl_sip_browser_sessions d). ss_session_id r \<noteq> ss_session_id values)"
proof -
  have "filter (\<lambda>r. ss_session_id r = ss_session_id values) (tbl_sip_browser_sessions d) = []"
    using assms by (auto simp: create_sip_browser_session_def Let_def filter_empty_conv split: if_splits)
  with assms show ?thesis
    by (auto simp: create_sip_browser_session_def Let_def sip_browser_session_def split: if_splits)
qed

lemma session_response_InrE:
  assumes "session_response sv m session credential w = (Inr resp, w')"
  obtains r where "session = Some r" "w' = w" "sp_session_id resp = ss_session_id r"
    "sp_temporary_sip_credential resp = credential" "sp_expiration resp = ss_expires_at r"
    "sp_employee_identity resp = ss_employee_id r" "sp_endpoint resp = ss_endpoint r"
    "sp_campaign resp = ss_campaign r" "sp_role resp = ss_role r"
    "sp_browser_session_binding resp = ss_browser_session_binding r"
  using assms
  by (cases session) (auto simp: session_response_def Let_def res_bind_def split: sum.splits)

text \<open>What a created session rests on, and the row it leaves.\<close>

definition created_row ::
  "sip_browser_session_request \<Rightarrow> string \<Rightarrow> string \<Rightarrow> time \<Rightarrow> time \<Rightarrow> sip_session_row" where
  "created_row q session_id fingerprint expires_at t =
     (session_values q session_id fingerprint expires_at)
       \<lparr>ss_state := ''active'', ss_created_at := t, ss_updated_at := t\<rparr>"

lemma created_row_simps [simp]:
  "ss_session_id (created_row q session_id fingerprint expires_at t) = session_id"
  "ss_employee_id (created_row q session_id fingerprint expires_at t) = sq_employee_id q"
  "ss_endpoint (created_row q session_id fingerprint expires_at t) = sq_endpoint q"
  "ss_campaign (created_row q session_id fingerprint expires_at t) = sq_campaign q"
  "ss_role (created_row q session_id fingerprint expires_at t) = sq_role q"
  "ss_browser_session_binding (created_row q session_id fingerprint expires_at t) =
     sq_browser_session_binding q"
  "ss_credential_fingerprint (created_row q session_id fingerprint expires_at t) = fingerprint"
  "ss_expires_at (created_row q session_id fingerprint expires_at t) = expires_at"
  "ss_state (created_row q session_id fingerprint expires_at t) = ''active''"
  "is_active (created_row q session_id fingerprint expires_at t)"
  by (simp_all add: created_row_def session_values_def is_active_def)

lemma no_active_session_steps:
  "no_active_session sv employee w = (r, w') \<Longrightarrow> same_steps (w_db w) (w_db w')"
  by (auto simp: no_active_session_def with_clock2_def active_sip_browser_session_def end_sessions_def
      same_steps_def Let_def split: prod.splits elim!: with_clockE dest!: tick_eqD)

lemma sip_create_InrE:
  assumes "sip_create sv m q w = (Inr resp, w')"
  obtains original d credential expires_at w1 w2 t session_id where
    "validated_command m q d = Inr original" "same_steps (w_db w) d"
    "issue sv m original (sq_browser_session_binding q) w1 = (Inr (credential, expires_at), w2)"
    "tbl_sip_browser_sessions (w_db w') = tbl_sip_browser_sessions (w_db w2) @
       [created_row q session_id (sv_sha256 sv credential) expires_at t]"
    "\<forall>r \<in> set (tbl_sip_browser_sessions (w_db w2)). ss_session_id r \<noteq> session_id"
    "sp_session_id resp = session_id" "sp_temporary_sip_credential resp = credential"
    "sp_expiration resp = expires_at" "sp_browser_session_binding resp = sq_browser_session_binding q"
    "sp_employee_identity resp = sq_employee_id q" "sp_endpoint resp = sq_endpoint q"
    "sp_campaign resp = sq_campaign q" "sp_role resp = sq_role q"
proof -
  obtain w1 original credential expires_at w2 where
    none: "no_active_session sv (sq_employee_id q) w = (Inr (), w1)"
    and valid: "validated_command m q (w_db w1) = Inr original"
    and issued: "issue sv m original (sq_browser_session_binding q) w1 = (Inr (credential, expires_at), w2)"
    and rest: "hbind (fresh_uuid sv) (\<lambda>session_id.
       hbind (with_clock sv (\<lambda>t. create_sip_browser_session t
           (session_values q session_id (sv_sha256 sv credential) expires_at))) (\<lambda>session.
       session_response sv m session credential)) w2 = (Inr resp, w')"
    using assms unfolding sip_create_def
    by (elim hbind_InrE) auto
  obtain session_id w3 session w4 where uuid: "fresh_uuid sv w2 = (Inr session_id, w3)"
    and created: "with_clock sv (\<lambda>t. create_sip_browser_session t
           (session_values q session_id (sv_sha256 sv credential) expires_at)) w3 = (Inr session, w4)"
    and answered: "session_response sv m session credential w4 = (Inr resp, w')"
    using rest by (elim hbind_InrE)
  have db: "w_db w3 = w_db w2" using uuid by (auto simp: fresh_uuid_def split: prod.splits)
  from created obtain t d where made: "create_sip_browser_session t
      (session_values q session_id (sv_sha256 sv credential) expires_at) (w_db w2) = (Inr session, d)"
    and w4: "w_db w4 = d"
    by (auto simp: db elim: with_clockE)
  note row = create_session_row [OF made, folded created_row_def]
  obtain r where "session = Some r" "w' = w4" and r: "sp_session_id resp = ss_session_id r"
      "sp_temporary_sip_credential resp = credential" "sp_expiration resp = ss_expires_at r"
      "sp_browser_session_binding resp = ss_browser_session_binding r"
      "sp_employee_identity resp = ss_employee_id r" "sp_endpoint resp = ss_endpoint r"
      "sp_campaign resp = ss_campaign r" "sp_role resp = ss_role r"
    by (rule session_response_InrE [OF answered])
  with row w4 have "r = created_row q session_id (sv_sha256 sv credential) expires_at t" and "w_db w' = d"
    by (simp_all add: created_row_def)
  with r row show thesis
    by (intro that [OF valid no_active_session_steps [OF none] issued, of session_id t])
       (simp_all add: created_row_def session_values_def)
qed

text \<open>The credential is issued by the SIP provider, and expires between one and fifteen minutes later.\<close>

lemma sip_steps_frame: "adapter_frame d d' \<Longrightarrow> tbl_sip_browser_sessions d' = tbl_sip_browser_sessions d"
  by (simp add: adapter_frame_def)

lemma keeps_rotate [keeps_intros]: "keeps adapter_frame (rotate sv m original binding temporary)"
  unfolding rotate_def issue_browser_credential_def Let_def telephony_adapter_def
  by (intro keeps_intros adapter_frame_preorder)

lemma keeps_adapter_call [keeps_intros]:
  assumes "keeps R act"
  shows "keeps R (adapter_call act)" and "keeps R (revocation_call act)"
proof -
  show "keeps R (adapter_call act)"
  proof (rule keepsI)
    fix w show "R (w_db w) (w_db (snd (adapter_call act w)))"
      using keepsD [OF assms] by (cases "act w"; cases "fst (act w)") (fastforce simp: adapter_call_def)+
  qed
  then show "keeps R (revocation_call act)"
    using keepsD [OF assms]
    by (fastforce simp: keeps_def revocation_call_def split: prod.split outcome.split)
qed

section \<open>Sessions over any sequence of calls\<close>

text \<open>The session table moves by the operations of the store only.\<close>

definition session_move :: "sip_session_row list \<Rightarrow> sip_session_row list \<Rightarrow> bool" where
  "session_move rows rows' \<longleftrightarrow>
     (\<exists>d d'. sip_step d d' \<and> tbl_sip_browser_sessions d = rows \<and> tbl_sip_browser_sessions d' = rows')"

definition sip_moves :: "db \<Rightarrow> db \<Rightarrow> bool" where
  "sip_moves d d' \<longleftrightarrow>
     session_move\<^sup>*\<^sup>* (tbl_sip_browser_sessions d) (tbl_sip_browser_sessions d')"

lemma sip_moves_preorder [simp, keeps_intros]: "reflp sip_moves" "transp sip_moves"
  by (auto simp: sip_moves_def reflp_def transp_def)

lemma sip_step_moves: "sip_step d d' \<Longrightarrow> sip_moves d d'"
  unfolding sip_moves_def session_move_def by (rule r_into_rtranclp) blast

lemma sip_moves_same: "tbl_sip_browser_sessions d' = tbl_sip_browser_sessions d \<Longrightarrow> sip_moves d d'"
  by (simp add: sip_moves_def)

lemma sip_moves_inv:
  assumes "sip_moves d d'" and "sip_inv d"
  shows "sip_inv d'"
proof -
  have "sip_inv e'" if "session_move\<^sup>*\<^sup>* rows rows'" "sip_inv e" "tbl_sip_browser_sessions e = rows"
    "tbl_sip_browser_sessions e' = rows'" for rows rows' e e'
    using that
  proof (induction arbitrary: e' rule: rtranclp_induct)
    case base
    then show ?case by (simp add: sip_inv_def)
  next
    case (step rows1 rows2)
    then obtain d1 d2 where d: "sip_step d1 d2" "tbl_sip_browser_sessions d1 = rows1"
        "tbl_sip_browser_sessions d2 = rows2"
      by (auto simp: session_move_def)
    with step have "sip_inv d1" by blast
    then have "sip_inv d2" using d(1) sip_step_inv by blast
    then show ?case using d(3) step.prems(3) by (simp add: sip_inv_def)
  qed
  then show ?thesis using assms unfolding sip_moves_def by blast
qed

lemma sip_moves_ended:
  assumes "sip_moves d d'" and "r \<in> set (tbl_sip_browser_sessions d)" and "\<not> is_active r"
  shows "r \<in> set (tbl_sip_browser_sessions d')"
  using assms(1) unfolding sip_moves_def
  by (induction rule: rtranclp_induct) (use assms(2,3) ended_stays in \<open>auto simp: session_move_def\<close>)

text \<open>
  A relation between databases that the operations of the session store and the adapters keep, the
  manager keeps.
\<close>

locale session_frame =
  fixes R :: "db \<Rightarrow> db \<Rightarrow> bool"
  assumes refl: "reflp R" and trans: "transp R"
    and store: "sip_step d d' \<Longrightarrow> R d d'" and adapters: "adapter_frame d d' \<Longrightarrow> R d d'"
begin

lemma look: "keeps R (\<lambda>w. (f w, w))" and preorder: "reflp R" "transp R"
  using refl trans by (simp_all add: keeps_read)

lemma credentials:
  "keeps R (adapter_call (rotate sv m original binding temporary))"
  "keeps R (revocation_call (rotate sv m original binding temporary))"
  by (rule keeps_weaken [of adapter_frame], intro keeps_intros, erule adapters)+

lemma issues: "keeps R (issue sv m original binding)"
  unfolding issue_def by (intro keeps_intros preorder credentials)

lemma unused: "keeps R (no_active_session sv employee)"
  unfolding no_active_session_def
  by (rule keeps_clock2) (simp add: split_beta store sip_step.looks_up)

lemma writes:
  "keeps R (with_clock sv (\<lambda>t. create_sip_browser_session t row))"
  "keeps R (with_clock sv (\<lambda>t. renew_sip_browser_session t session_id fingerprint expires_at))"
  "keeps R (with_clock sv (\<lambda>t. revoke_sip_browser_session t session_id))"
  by (rule keeps_clock, rule store, rule sip_step.intros)+

lemma rest: "keeps R (fresh_uuid sv)" "keeps R (session_response sv m session credential)"
  using refl
  by (auto simp: keeps_def fresh_uuid_def session_response_def split_beta Let_def reflpD split: option.split)

lemma expires: "keeps R (expire_if_due sv session_id)"
proof (rule keepsI)
  fix w
  have "keeps R (with_clock sv (\<lambda>t d. case expire_sip_browser_session t session_id d of
      (found, d') \<Rightarrow> (Inr found :: sip_session_row option res, d')))"
    by (rule keeps_clock) (simp add: split_beta store sip_step.expires)
  then have expired: "R (w_db v) (w_db (snd (with_clock sv (\<lambda>t d. case expire_sip_browser_session t session_id d of
      (found, d') \<Rightarrow> (Inr found :: sip_session_row option res, d')) v)))" for v
    by (simp add: keeps_def)
  obtain now w1 where "tick sv w = (now, w1)" by (cases "tick sv w")
  then show "R (w_db w) (w_db (snd (expire_if_due sv session_id w)))"
    using expired [of w1] tick_eqD [of sv w now w1] reflpD [OF refl]
    by (simp add: expire_if_due_def split: option.split)
qed

lemma manager:
  "keeps R (sip_create sv m q)" "keeps R (sip_renew sv m a)" "keeps R (sip_config sv a)"
  "keeps R (sip_revoke sv m a)"
proof -
  have active: "keeps R (sip_active sv a)" for a
    unfolding sip_active_def by (intro keeps_intros preorder expires)
  show "keeps R (sip_create sv m q)" "keeps R (sip_renew sv m a)" "keeps R (sip_config sv a)"
    "keeps R (sip_revoke sv m a)"
    unfolding sip_create_def sip_renew_def sip_config_def sip_revoke_def
    by (intro keeps_intros preorder look credentials issues unused writes rest active)+
qed

end

text \<open>The manager moves the sessions by the store, and leaves the other tables of the service alone.\<close>

definition sip_frame :: "db \<Rightarrow> db \<Rightarrow> bool" where
  "sip_frame d d' \<longleftrightarrow>
     tbl_executions d' = tbl_executions d \<and> tbl_steps d' = tbl_steps d \<and>
     tbl_dead_letters d' = tbl_dead_letters d \<and> tbl_callback_events d' = tbl_callback_events d \<and>
     tbl_replay_jti d' = tbl_replay_jti d \<and> tbl_rate_windows d' = tbl_rate_windows d \<and>
     tbl_compensation_actions d' = tbl_compensation_actions d \<and>
     tbl_verification_records d' = tbl_verification_records d"

lemma sip_step_frame: "sip_step d d' \<Longrightarrow> sip_frame d d'"
  by (induction rule: sip_step.induct)
     (auto simp: sip_frame_def active_sip_browser_session_def expire_sip_browser_session_def
       create_sip_browser_session_def renew_sip_browser_session_def revoke_sip_browser_session_def
       end_sessions_def Let_def split: option.split)

interpretation sessions: session_frame sip_moves
  by unfold_locales (simp_all add: sip_step_moves sip_moves_same sip_steps_frame)

interpretation elsewhere: session_frame sip_frame
proof
  show "reflp sip_frame" "transp sip_frame" by (auto simp: sip_frame_def reflp_def transp_def)
  show "adapter_frame d d' \<Longrightarrow> sip_frame d d'" for d d'
    by (simp add: sip_frame_def adapter_frame_def)
qed (rule sip_step_frame)

section \<open>What a session rests on\<close>

lemma employee_steps_same: "same_steps d d' \<Longrightarrow> employee_steps e d' = employee_steps e d"
  by (simp add: same_steps_def employee_steps_def step_employee_def)

lemma validated_command_same: "same_steps d d' \<Longrightarrow> validated_command m q d' = validated_command m q d"
  by (simp add: validated_command_def employee_results_def employee_commands_def employee_steps_same)

lemma identity_matches_True:
  assumes "identity_matches m q vicidial sip keycloak = Inr True"
  shows "dict_get vicidial ''username'' = JStr (sq_vicidial_username q) \<and>
    int_of_json (dict_get_default sip ''extension'' (JInt 0)) = Inr (sq_endpoint q) \<and>
    (\<exists>attributes. dict_get_default keycloak ''attributes'' (JObj []) = JObj attributes \<and>
       dict_get attributes ''role_template'' = JStr (sq_role q)) \<and>
    in_set_of (sq_campaign q) (dict_get_default vicidial ''campaigns'' (JList [])) = Inr True \<and>
    sq_endpoint q = sm_endpoint m \<and> sq_campaign q = sm_campaign m"
  using assms
  by (auto simp: identity_matches_def split: if_splits json.splits elim!: res_bind_InrE)

text \<open>
  The provisioned identity a request must be bound to: an activated login with the subject, whose
  command gives the role; an agent account with the name and the campaign; an extension with the
  number; and the endpoint and campaign of the manager.
\<close>

definition bound_identity :: "sip_manager \<Rightarrow> sip_browser_session_request \<Rightarrow> db \<Rightarrow> bool" where
  "bound_identity m q d \<longleftrightarrow>
     (\<exists>results login keycloak vicidial sip attributes.
        employee_results (sq_employee_id q) d = Inr results \<and>
        results_by_system results ''keycloak'' = Some login \<and>
        sr_external_id login = Some (sq_keycloak_subject q) \<and> sr_operation login \<in> {Activate, Reactivate} \<and>
        commands_by_system (employee_commands (sq_employee_id q) d) ''keycloak'' = Some keycloak \<and>
        dict_get_default (payload keycloak) ''attributes'' (JObj []) = JObj attributes \<and>
        dict_get attributes ''role_template'' = JStr (sq_role q) \<and>
        commands_by_system (employee_commands (sq_employee_id q) d) ''vicidial'' = Some vicidial \<and>
        dict_get (payload vicidial) ''username'' = JStr (sq_vicidial_username q) \<and>
        in_set_of (sq_campaign q) (dict_get_default (payload vicidial) ''campaigns'' (JList [])) = Inr True \<and>
        commands_by_system (employee_commands (sq_employee_id q) d) ''sip'' = Some sip \<and>
        int_of_json (dict_get_default (payload sip) ''extension'' (JInt 0)) = Inr (sq_endpoint q)) \<and>
     sq_endpoint q = sm_endpoint m \<and> sq_campaign q = sm_campaign m"

lemma validated_command_bound:
  assumes "validated_command m q d = Inr original"
  shows "bound_identity m q d"
proof -
  let ?commands = "commands_by_system (employee_commands (sq_employee_id q) d)"
  obtain results where results: "employee_results (sq_employee_id q) d = Inr results"
    using assms by (auto simp: validated_command_def elim: res_bind_InrE)
  then obtain login keycloak vicidial sip where
    systems: "results_by_system results ''keycloak'' = Some login" "?commands ''keycloak'' = Some keycloak"
      "?commands ''vicidial'' = Some vicidial" "?commands ''sip'' = Some sip"
    using assms by (auto simp: validated_command_def Let_def split: option.splits)
  with assms results have "sr_external_id login = Some (sq_keycloak_subject q)"
      "sr_operation login \<in> {Activate, Reactivate}"
    and matches: "identity_matches m q (payload vicidial) (payload sip) (payload keycloak) = Inr True"
    by (simp_all add: validated_command_def Let_def res_bind_def split: if_splits sum.splits)
  with results systems show ?thesis
    using identity_matches_True [OF matches] unfolding bound_identity_def by blast
qed

lemma abind_ReturnedE:
  assumes "abind m f w = (Returned y, w'')"
  obtains x w' where "m w = (Returned x, w')" "f x w' = (Returned y, w'')"
  using assms by (auto simp: abind_def split: prod.splits outcome.splits)

lemma temporary_credential_Some:
  assumes "temporary_credential tc body = Some (credential, n)"
  shows "32 \<le> length credential \<and> 60 \<le> n \<and> n \<le> 900"
  using assms by (auto simp: temporary_credential_def split: json.splits if_splits)

lemma telephony_call_credential:
  assumes "telephony_call sv tc True c w = (Returned d, w')"
  shows "\<exists>credential n. map_of d ''temporary_sip_credential'' = Some (JStr credential) \<and>
    map_of d ''expires_in_seconds'' = Some (JInt n) \<and> 32 \<le> length credential \<and> 60 \<le> n \<and> n \<le> 900"
proof -
  obtain oper raw content body credential n where
    "temporary_credential tc body = Some (credential, n)"
    and "d = telephony_result sv oper raw content body @
      [(''temporary_sip_credential'', JStr credential), (''expires_in_seconds'', JInt n)]"
    using assms unfolding telephony_call_def Let_def
    by (auto simp: areturn_def permanent_def split: option.splits prod.splits elim!: abind_ReturnedE)
  then show ?thesis
    using temporary_credential_Some [of tc body credential n] by (simp add: telephony_result_def Let_def)
qed

lemma issue_InrE:
  assumes "issue sv m original binding w = (Inr (credential, expires_at), w')"
  shows "32 \<le> length credential"
proof -
  obtain temporary w1 n where "adapter_call (rotate sv m original binding True) w = (Inr temporary, w1)"
    and issued: "issued_credential temporary = Inr (credential, n)"
    using assms unfolding issue_def
    by (auto split: prod.splits sum.splits elim!: hbind_InrE)
  then obtain w0 c where "issue_browser_credential sv (sm_adapter m) c w0 = (Returned temporary, w1)"
    by (auto simp: adapter_call_def rotate_def Let_def split: prod.splits outcome.splits elim!: abind_ReturnedE)
  then have "telephony_call sv (sm_adapter m) True c w0 = (Returned temporary, w1)"
    by (auto simp: issue_browser_credential_def permanent_def split: if_splits)
  from telephony_call_credential [OF this] show ?thesis
    using issued by (auto simp: issued_credential_def member_def)
qed


text \<open>The session of an action is found only while it is active, unexpired and bound to the browser.\<close>

lemma expired_not_active:
  assumes "fst (expire_sip_browser_session t session_id d) = Some r"
  shows "\<not> is_active r"
proof -
  let ?rows = "tbl_sip_browser_sessions (snd (expire_sip_browser_session t session_id d))"
  have "r \<in> set (filter (\<lambda>r. ss_session_id r = session_id) ?rows)"
    using assms sql_first_Some_mem
    by (fastforce simp: expire_sip_browser_session_def sip_browser_session_def Let_def)
  then have r: "ss_session_id r = session_id"
    "r \<in> set (sql_update (\<lambda>r. ss_session_id r = session_id \<and> is_active r)
        (\<lambda>r. r\<lparr>ss_state := ''expired'', ss_updated_at := t\<rparr>) (tbl_sip_browser_sessions d))"
    by (simp_all add: expire_sip_browser_session_def end_sessions_def Let_def)
  from r(2) show ?thesis
    by (cases rule: mem_sql_updateE) (use r(1) in \<open>auto simp: is_active_def\<close>)
qed

lemma sip_active_found:
  assumes "sip_browser_session (sa_session_id a) (w_db w) = Some r" and "is_active r"
  shows "fst (sip_active sv a w) =
    (if fst (tick sv w) < ss_expires_at r \<and> ss_browser_session_binding r = sa_browser_session_binding a
     then Inr r else Inl (SipBrowserSessionError ''sip_browser_session_not_active''))"
proof -
  obtain now w1 where now: "tick sv w = (now, w1)" by (cases "tick sv w")
  show ?thesis
  proof (cases "ss_expires_at r \<le> now")
    case True
    obtain t w2 where t: "tick sv w1 = (t, w2)" by (cases "tick sv w1")
    obtain found d where "expire_sip_browser_session t (sa_session_id a) (w_db w2) = (found, d)"
      by (cases "expire_sip_browser_session t (sa_session_id a) (w_db w2)")
    then show ?thesis
      using True assms expired_not_active [of t "sa_session_id a" "w_db w2"]
      by (cases found) (simp_all add: sip_active_def expire_if_due_def with_clock_def hbind_def hraise_def now t)
  next
    case False
    then show ?thesis
      using assms by (simp add: sip_active_def expire_if_due_def hbind_def hraise_def hreturn_def now)
  qed
qed

text \<open>C36. Round trip: the configuration of a session that was just created is what the response said, for
  the browser binding it was created with and until it expires; any other binding, and any later
  time, is refused.\<close>

theorem created_session_found:
  assumes "sip_create sv m q w = (Inr resp, w')"
  shows "fst (sip_config sv \<lparr>sa_session_id = sp_session_id resp, sa_browser_session_binding = binding\<rparr> w') =
    (if fst (tick sv w') < sp_expiration resp \<and> binding = sp_browser_session_binding resp
     then Inr [(''session_id'', JStr (sp_session_id resp)), (''employee_id'', JStr (sp_employee_identity resp)),
       (''endpoint'', JInt (sp_endpoint resp)), (''campaign'', JStr (sp_campaign resp)),
       (''role'', JStr (sp_role resp)), (''browser_session_binding'', JStr binding),
       (''expires_at'', JStr (iso_text (sp_expiration resp))), (''state'', JStr ''active'')]
     else Inl (SipBrowserSessionError ''sip_browser_session_not_active''))"
  using assms
proof (rule sip_create_InrE)
  fix original d credential expires_at w1 w2 t session_id
  assume rows: "tbl_sip_browser_sessions (w_db w') = tbl_sip_browser_sessions (w_db w2) @
       [created_row q session_id (sv_sha256 sv credential) expires_at t]"
    and fresh: "\<forall>r \<in> set (tbl_sip_browser_sessions (w_db w2)). ss_session_id r \<noteq> session_id"
    and resp: "sp_session_id resp = session_id" "sp_expiration resp = expires_at"
      "sp_browser_session_binding resp = sq_browser_session_binding q"
      "sp_employee_identity resp = sq_employee_id q" "sp_endpoint resp = sq_endpoint q"
      "sp_campaign resp = sq_campaign q" "sp_role resp = sq_role q"
  let ?r = "created_row q session_id (sv_sha256 sv credential) expires_at t"
  have "filter (\<lambda>r. ss_session_id r = session_id) (tbl_sip_browser_sessions (w_db w2)) = []"
    using fresh by (simp add: filter_empty_conv)
  then have "sip_browser_session session_id (w_db w') = Some ?r"
    by (simp add: sip_browser_session_def rows)
  then have "fst (sip_active sv \<lparr>sa_session_id = session_id, sa_browser_session_binding = binding\<rparr> w') =
      (if fst (tick sv w') < expires_at \<and> sq_browser_session_binding q = binding then Inr ?r
       else Inl (SipBrowserSessionError ''sip_browser_session_not_active''))"
    using sip_active_found [of "\<lparr>sa_session_id = session_id, sa_browser_session_binding = binding\<rparr>" w' ?r sv]
    by simp
  then show ?thesis
    by (cases "sip_active sv \<lparr>sa_session_id = session_id, sa_browser_session_binding = binding\<rparr> w'")
       (auto simp: sip_config_def hbind_def hreturn_def resp config_view_def split: sum.splits if_splits)
qed

text \<open>C37. A session nobody can use: when the secret of the TURN server cannot be read, a creation that the
  provider answered raises after it has stored the session as active, so the employee has a session
  without a credential and every further creation is refused until it expires.\<close>

theorem unreadable_turn_secret_locks_out:
  assumes "no_active_session sv (sq_employee_id q) w = (Inr (), w1)"
    and "validated_command m q (w_db w1) = Inr original"
    and "issue sv m original (sq_browser_session_binding q) w1 = (Inr (credential, expires_at), w2)"
    and "fresh_uuid sv w2 = (Inr session_id, w3)"
    and "with_clock sv (\<lambda>t. create_sip_browser_session t
           (session_values q session_id (sv_sha256 sv credential) expires_at)) w3 = (Inr session, w4)"
    and "read_secret_file (sv_files sv (w_env w4)) (sm_turn_secret_file m) False = Inl err"
  shows "sip_create sv m q w = (Inl err, w4) \<and>
    (t' < expires_at \<longrightarrow> fst (active_sip_browser_session t t' (sq_employee_id q) (w_db w4)) \<noteq> None)"
proof
  obtain s d where row: "create_sip_browser_session s
      (session_values q session_id (sv_sha256 sv credential) expires_at) (w_db w3) = (Inr session, d)"
    and w4: "w_db w4 = d"
    using assms(5) by (auto elim: with_clockE)
  note made = create_session_row [OF row, folded created_row_def]
  let ?r = "created_row q session_id (sv_sha256 sv credential) expires_at s"
  show "sip_create sv m q w = (Inl err, w4)"
    using made assms by (simp add: sip_create_def hbind_def session_response_def res_bind_def Let_def)
  have "?r \<in> set (sql_update (\<lambda>r. (ss_employee_id r = sq_employee_id q \<and> ss_expires_at r \<le> t') \<and> is_active r)
      (\<lambda>r. r\<lparr>ss_state := ''expired'', ss_updated_at := t\<rparr>) (tbl_sip_browser_sessions d))" if "t' < expires_at"
    using made that by (simp add: mem_sql_update)
  then show "t' < expires_at \<longrightarrow> fst (active_sip_browser_session t t' (sq_employee_id q) (w_db w4)) \<noteq> None"
    by (auto simp: w4 active_sip_browser_session_def end_sessions_def Let_def filter_empty_conv intro!: bexI [of _ ?r])
qed

section \<open>A sample identity\<close>

text \<open>An employee with an activated login, an agent account and an extension, and a SIP provider that
  issues a credential for five minutes; no file can be read but the provider's key.\<close>

definition sample_done :: "time \<Rightarrow> step_command \<Rightarrow> dict \<Rightarrow> dict \<Rightarrow> step_row" where
  "sample_done t c body result =
     (new_step_row (\<lambda>x. x) t ''request-1'' (c\<lparr>payload := body\<rparr>))
       \<lparr>st_state := Succeeded, st_result := Some result\<rparr>"

definition sample_bound :: db where
  "sample_bound = empty_db\<lparr>tbl_executions := [new_exec_row (\<lambda>x. x) 0 sample_two ''hash''],
     tbl_steps :=
       [sample_done 1 (sample_step ''request-1'' ''step-k-00'' 0 Keycloak CreateDisabled 3)
          [(''attributes'', JObj [(''role_template'', JStr ''AGENT'')])] [],
        sample_done 2 (sample_step ''request-1'' ''step-v-01'' 1 Vicidial CreateDisabled 3)
          [(''username'', JStr ''agent1''), (''campaigns'', JList [JStr ''TEST_SYN''])] [],
        sample_done 3 (sample_step ''request-1'' ''step-s-02'' 2 Sip CreateDisabled 3)
          [(''extension'', JStr ''6101'')] [],
        sample_done 4 (sample_step ''request-1'' ''step-k-03'' 3 Keycloak Activate 3) []
          [(''external_id'', JStr ''subject-00000001'')]]\<rparr>"

definition sample_login :: sip_browser_session_request where
  "sample_login =
     \<lparr>sq_employee_id = ''employee-0001'', sq_keycloak_subject = ''subject-00000001'',
      sq_odoo_employee_id = ''7'', sq_vicidial_username = ''agent1'', sq_endpoint = 6101,
      sq_campaign = ''TEST_SYN'', sq_role = ''AGENT'', sq_browser_session_binding = ''binding-1''\<rparr>"

definition sample_manager :: sip_manager where
  "sample_manager =
     \<lparr>sm_adapter = \<lparr>tc_system = ''sip'', tc_base_url = ''https://sip'', tc_hmac_key_file = ''/hmac'',
        tc_ca_file = ''/ca'', tc_client_cert_file = ''/crt'', tc_client_key_file = ''/key'',
        tc_service_identity = ''service'', tc_required_scope = ''scope''\<rparr>,
      sm_turn_secret_file = ''/turn'', sm_endpoint = 6101, sm_campaign = ''TEST_SYN''\<rparr>"

definition sample_issuer :: "unit services" where
  "sample_issuer = sample_services (\<lambda>_ e. (HttpResponse 200 []
     (Some (JObj [(''temporary_sip_credential'', JStr ''0123456789abcdef0123456789abcdef''),
        (''expires_in_seconds'', JInt 300)])) None, e))"

definition sample_turnless :: "unit services" where
  "sample_turnless = sample_issuer\<lparr>sv_files := (\<lambda>e path.
     if path = ''/turn'' then None else sv_files sample_issuer e path)\<rparr>"

definition sample_start :: "unit world" where
  "sample_start = \<lparr>w_db = sample_bound, w_env = ()\<rparr>"

lemma sample_creates: "\<not> isl (fst (sip_create sample_issuer sample_manager sample_login sample_start))"
  by code_simp


theorem created_session_found_witness:
  "\<exists>resp w'. sip_create sample_issuer sample_manager sample_login sample_start = (Inr resp, w') \<and>
     fst (sip_config sample_issuer \<lparr>sa_session_id = sp_session_id resp, sa_browser_session_binding = ''other''\<rparr> w') =
       Inl (SipBrowserSessionError ''sip_browser_session_not_active'')"
proof -
  obtain resp w' where made: "sip_create sample_issuer sample_manager sample_login sample_start = (Inr resp, w')"
    using sample_creates
    by (cases "sip_create sample_issuer sample_manager sample_login sample_start") (auto simp: isl_def, metis sum.exhaust)
  have "sp_browser_session_binding resp = ''binding-1''"
    by (rule sip_create_InrE [OF made]) (simp add: sample_login_def)
  with created_session_found [OF made, of "''other''"] made show ?thesis by simp
qed

text \<open>The creation without the TURN secret, step by step.\<close>

definition sample_issued :: "(string \<times> time) res \<times> unit world" where
  "sample_issued = issue sample_turnless sample_manager
     ((sample_step ''request-1'' ''step-s-02'' 2 Sip CreateDisabled 3)\<lparr>payload := [(''extension'', JStr ''6101'')]\<rparr>)
     ''binding-1'' (snd (no_active_session sample_turnless ''employee-0001'' sample_start))"

definition sample_stored :: "sip_session_row option res \<times> unit world" where
  "sample_stored = with_clock sample_turnless (\<lambda>t. create_sip_browser_session t
     (session_values sample_login ''00000000-0000-4000-8000-000000000000''
        (sv_sha256 sample_turnless ''0123456789abcdef0123456789abcdef'') (seconds 1300)))
     (snd (fresh_uuid sample_turnless (snd sample_issued)))"

lemma sample_lockout_steps:
  "fst (no_active_session sample_turnless ''employee-0001'' sample_start) = Inr ()"
  "validated_command sample_manager sample_login
     (w_db (snd (no_active_session sample_turnless ''employee-0001'' sample_start))) =
   Inr ((sample_step ''request-1'' ''step-s-02'' 2 Sip CreateDisabled 3)\<lparr>payload := [(''extension'', JStr ''6101'')]\<rparr>)"
  "fst sample_issued = Inr (''0123456789abcdef0123456789abcdef'', seconds 1300)"
  "fst (fresh_uuid sample_turnless (snd sample_issued)) = Inr ''00000000-0000-4000-8000-000000000000''"
  "\<not> isl (fst sample_stored)"
  "isl (read_secret_file (sv_files sample_turnless (w_env (snd sample_stored))) (sm_turn_secret_file sample_manager) False)"
  by code_simp+

theorem unreadable_turn_secret_locks_out_witness:
  "isl (fst (sip_create sample_turnless sample_manager sample_login sample_start)) \<and>
   fst (active_sip_browser_session (seconds 1100) (seconds 1100) ''employee-0001''
     (w_db (snd (sip_create sample_turnless sample_manager sample_login sample_start)))) \<noteq> None"
proof -
  let ?c = "(sample_step ''request-1'' ''step-s-02'' 2 Sip CreateDisabled 3)\<lparr>payload := [(''extension'', JStr ''6101'')]\<rparr>"
  note steps = sample_lockout_steps
  have q: "sq_employee_id sample_login = ''employee-0001''" "sq_browser_session_binding sample_login = ''binding-1''"
    by (simp_all add: sample_login_def)
  have none: "no_active_session sample_turnless (sq_employee_id sample_login) sample_start =
      (Inr (), snd (no_active_session sample_turnless ''employee-0001'' sample_start))"
    using steps(1) by (simp add: prod_eq_iff q)
  have issued: "issue sample_turnless sample_manager ?c (sq_browser_session_binding sample_login)
      (snd (no_active_session sample_turnless ''employee-0001'' sample_start)) =
      (Inr (''0123456789abcdef0123456789abcdef'', seconds 1300), snd sample_issued)"
    using steps(3) by (simp add: prod_eq_iff q sample_issued_def)
  have uuid: "fresh_uuid sample_turnless (snd sample_issued) =
      (Inr ''00000000-0000-4000-8000-000000000000'', snd (fresh_uuid sample_turnless (snd sample_issued)))"
    using steps(4) by (simp add: prod_eq_iff)
  obtain session where "fst sample_stored = Inr session"
    using steps(5) by (cases "fst sample_stored") auto
  then have stored: "sample_stored = (Inr session, snd sample_stored)" by (simp add: prod_eq_iff)
  obtain err where "read_secret_file (sv_files sample_turnless (w_env (snd sample_stored)))
      (sm_turn_secret_file sample_manager) False = Inl err"
    using steps(6) by (auto simp: isl_def)
  note unreadable_turn_secret_locks_out [OF none steps(2) issued uuid stored [unfolded sample_stored_def]
      this [unfolded sample_stored_def], of "seconds 1100" "seconds 1100"]
  moreover have "seconds 1100 < seconds 1300" by (simp add: seconds_def)
  ultimately show ?thesis by (simp add: q)
qed

end
