(* ===== verification/Service.thy ===== *)
theory Service
  imports Engine Security Sip_Browser
begin

text \<open>
  The application (\<^verbatim>\<open>app/main.py\<close>): how it is put together from the settings and the adapters, the
  boundary every request passes, the routes with their scopes, and the answers of the exception
  handlers. FastAPI itself is outside: how a JSON body reads as the fields of a model (before the
  constraints of the model), and the answer to a request that matches no route, are parameters. As
  FastAPI does, a body that is not JSON is refused before the dependencies of a route run, and a body
  that is not a document of its model after them.
\<close>

section \<open>Requests and answers\<close>

text \<open>\<open>in_json\<close>: the content type is JSON, or there is none.\<close>

record incoming =
  in_method :: string
  in_path :: string
  in_scheme :: string
  in_content_length :: "string option"
  in_query :: "(string \<times> string) list"
  in_authorization :: "string option"
  in_json :: bool
  in_body :: string

datatype answer =
    Detail string
  | Executed execution_result
  | Reconciled reconciliation_result
  | BrowserSession sip_browser_session_response
  | Document dict
  | PlainText string
  | InternalServerError

record response =
  rs_status :: int
  rs_body :: answer
  rs_headers :: "(string \<times> string) list"

record web_framework =
  wf_execution :: "json \<Rightarrow> execution_document option"
  wf_action :: "json \<Rightarrow> action_request dated option"
  wf_envelope :: "json \<Rightarrow> request_envelope dated option"
  wf_sip_request :: "json \<Rightarrow> sip_browser_session_request option"
  wf_sip_action :: "json \<Rightarrow> sip_browser_session_action option"
  wf_unmatched :: "string \<Rightarrow> string \<Rightarrow> int \<times> answer"

section \<open>The application\<close>

record app =
  ap_settings :: settings
  ap_adapters :: "(string \<times> adapter_object) list"
  ap_sip_browser :: "sip_manager option"
  ap_disabled_adapters :: "string list"

fun is_disabled :: "adapter_object \<Rightarrow> bool" where
  "is_disabled (DisabledAdapter _) = True"
| "is_disabled _ = False"

definition create_app ::
  "'e services \<Rightarrow> settings option \<Rightarrow> (string \<times> adapter_object) list option \<Rightarrow> ('e, app) handler" where
  "create_app sv given_settings given_adapters =
     hbind (\<lambda>w. (case given_settings of
         None \<Rightarrow> load_settings (sv_env sv (w_env w)) | Some s \<Rightarrow> Inr s, w)) (\<lambda>s.
     hbind (case given_adapters of
         None \<Rightarrow> load_adapters sv (adapter_config_file s) (encryption_key_file s)
       | Some adapters \<Rightarrow>
           if adapters = [] then load_adapters sv (adapter_config_file s) (encryption_key_file s)
           else hreturn adapters) (\<lambda>adapters.
     hbind (hlift (case new_sip_manager adapters (turn_shared_secret_file s) (sip_browser_endpoint s)
           (sip_browser_campaign s) of
         Inr m \<Rightarrow> Inr (Some m) | Inl (RuntimeError _) \<Rightarrow> Inr None | Inl e \<Rightarrow> Inl e)) (\<lambda>sip_browser.
     hreturn \<lparr>ap_settings = s, ap_adapters = adapters, ap_sip_browser = sip_browser,
       ap_disabled_adapters = sort (map fst (filter (\<lambda>(_, a). is_disabled a) adapters))\<rparr>)))"

definition app_table :: "'e services \<Rightarrow> app \<Rightarrow> string \<Rightarrow> 'e adapter option" where
  "app_table sv a = adapter_table sv (ap_adapters a)"

section \<open>Routes\<close>

datatype route =
    Health
  | Ready
  | Metrics
  | ExecuteRequest string
  | RetryRequest string
  | VerifyRequestRoute string
  | CancelRequestRoute string
  | GetRequest string
  | LifecycleRoute operation string
  | Reconciliation string
  | CreateSession
  | RenewSession
  | SessionConfig
  | RevokeSession

definition path_operation :: "operation \<Rightarrow> string" where
  "path_operation oper = (if oper = RotateCredentials then ''rotate'' else operation_value oper)"

text \<open>A path parameter is a nonempty segment between the parts of the template.\<close>

definition path_parameter :: "string \<Rightarrow> string \<Rightarrow> string \<Rightarrow> string option" where
  "path_parameter lead trail path =
     (let segment = take (length path - length lead - length trail) (drop (length lead) path) in
      if path = lead @ segment @ trail \<and> segment \<noteq> [] \<and> CHR ''/'' \<notin> set segment
      then Some segment else None)"

definition fixed_path :: "string \<Rightarrow> route \<Rightarrow> string \<Rightarrow> route option" where
  "fixed_path template r path = (if path = template then Some r else None)"

definition path_with :: "string \<Rightarrow> string \<Rightarrow> (string \<Rightarrow> route) \<Rightarrow> string \<Rightarrow> route option" where
  "path_with lead trail r path = map_option r (path_parameter lead trail path)"

definition lifecycle_operations :: "operation list" where
  "lifecycle_operations = [Suspend, Reactivate, Terminate, RotateCredentials]"

text \<open>The table of routes, in the order of their registration.\<close>

definition api_routes :: "(string \<times> (string \<Rightarrow> route option)) list" where
  "api_routes =
     [(''GET'', fixed_path ''/health'' Health), (''GET'', fixed_path ''/ready'' Ready),
      (''GET'', fixed_path ''/metrics'' Metrics),
      (''POST'', path_with ''/v1/provisioning/requests/'' ''/execute'' ExecuteRequest),
      (''POST'', path_with ''/v1/provisioning/requests/'' ''/retry'' RetryRequest),
      (''POST'', path_with ''/v1/provisioning/requests/'' ''/verify'' VerifyRequestRoute),
      (''POST'', path_with ''/v1/provisioning/requests/'' ''/cancel'' CancelRequestRoute),
      (''GET'', path_with ''/v1/provisioning/requests/'' [] GetRequest)] @
     map (\<lambda>oper. (''POST'', path_with ''/v1/identities/'' (''/'' @ path_operation oper) (LifecycleRoute oper)))
       lifecycle_operations @
     [(''GET'', path_with ''/v1/identities/'' ''/reconciliation'' Reconciliation),
      (''POST'', fixed_path ''/session'' CreateSession), (''POST'', fixed_path ''/renew'' RenewSession),
      (''GET'', fixed_path ''/config'' SessionConfig), (''POST'', fixed_path ''/revoke'' RevokeSession)]"

definition route_of :: "string \<Rightarrow> string \<Rightarrow> route option" where
  "route_of verb path =
     (case filter (\<lambda>(m, matches). m = verb \<and> matches path \<noteq> None) api_routes of
        [] \<Rightarrow> None | (_, matches) # _ \<Rightarrow> matches path)"

definition lifecycle_scope :: "operation \<Rightarrow> string" where
  "lifecycle_scope oper =
     (if oper = RotateCredentials then ''identity:rotate'' else ''provisioning:execute'')"

fun route_scope :: "route \<Rightarrow> string option" where
  "route_scope Health = None"
| "route_scope Ready = None"
| "route_scope Metrics = None"
| "route_scope (ExecuteRequest _) = Some ''provisioning:execute''"
| "route_scope (RetryRequest _) = Some ''provisioning:execute''"
| "route_scope (VerifyRequestRoute _) = Some ''provisioning:execute''"
| "route_scope (CancelRequestRoute _) = Some ''provisioning:execute''"
| "route_scope (GetRequest _) = Some ''provisioning:read''"
| "route_scope (LifecycleRoute oper _) = Some (lifecycle_scope oper)"
| "route_scope (Reconciliation _) = Some ''provisioning:read''"
| "route_scope CreateSession = Some ''provisioning:execute''"
| "route_scope RenewSession = Some ''identity:rotate''"
| "route_scope SessionConfig = Some ''provisioning:read''"
| "route_scope RevokeSession = Some ''identity:rotate''"

section \<open>Dependencies and bodies\<close>

definition authorized ::
  "'e services \<Rightarrow> 'e jwt_library \<Rightarrow> app \<Rightarrow> incoming \<Rightarrow> string \<Rightarrow> ('e, principal) handler" where
  "authorized sv lib a rq scope =
     require_scope sv lib (ap_settings a) scope (map fst (in_query rq)) (in_authorization rq)"

definition body_json :: "'e services \<Rightarrow> incoming \<Rightarrow> json option res" where
  "body_json sv rq =
     (if in_body rq = [] \<or> \<not> in_json rq then Inr None
      else case sv_json_loads sv (in_body rq) of
        None \<Rightarrow> Inl RequestValidationError | Some v \<Rightarrow> Inr (Some v))"

definition parsed_body :: "(json \<Rightarrow> 'r option) \<Rightarrow> ('r \<Rightarrow> 'a res) \<Rightarrow> json option \<Rightarrow> 'a res" where
  "parsed_body read_fields parse doc =
     (case Option.bind doc read_fields of
        None \<Rightarrow> Inl RequestValidationError
      | Some x \<Rightarrow> (case parse x of Inl _ \<Rightarrow> Inl RequestValidationError | Inr y \<Rightarrow> Inr y))"

definition with_body ::
  "'e services \<Rightarrow> ('e, principal) handler \<Rightarrow> incoming \<Rightarrow> (json \<Rightarrow> 'r option) \<Rightarrow> ('r \<Rightarrow> 'a res) \<Rightarrow>
     ('a \<Rightarrow> ('e, 'b) handler) \<Rightarrow> ('e, 'b) handler" where
  "with_body sv auth rq read_fields parse endpoint =
     hbind (hlift (body_json sv rq)) (\<lambda>doc.
     hbind auth (\<lambda>_.
     hbind (hlift (parsed_body read_fields parse doc)) endpoint))"

definition parse_envelope :: "request_envelope \<Rightarrow> request_envelope res" where
  "parse_envelope e =
     (let e' = strip_envelope e in if envelope_ok e' then Inr e' else Inl ValidationError)"

definition build_envelope :: "request_envelope dated \<Rightarrow> request_envelope res" where
  "build_envelope doc = res_bind (converted doc) parse_envelope"

section \<open>Open routes\<close>

definition health :: "('e, int \<times> answer) handler" where
  "health = hreturn (200, Document [(''status'', JStr ''ok''), (''environment'', JStr ''staging'')])"

definition callback_configured :: "app \<Rightarrow> bool" where
  "callback_configured a \<longleftrightarrow> callback_url (ap_settings a) \<notin> {None, Some []}"

definition ready :: "'e services \<Rightarrow> app \<Rightarrow> ('e, int \<times> answer) handler" where
  "ready sv a w =
     (let errors = readiness_errors (sv_env sv (w_env w)) (sv_files sv (w_env w)) (ap_settings a) in
      (Inr (if errors \<noteq> [] then
          (503, Document [(''status'', JStr ''not_ready''), (''conditions'', JList (map JStr (sort errors)))])
        else
          (200, Document [(''status'', JStr ''ready''), (''environment'', JStr ''staging''),
             (''degraded_capabilities'', JList (map JStr (ap_disabled_adapters a))),
             (''callback_configured'', JBool (callback_configured a))])), w))"

definition gauge :: "string \<Rightarrow> string \<Rightarrow> nat \<Rightarrow> string list" where
  "gauge name help value =
     [''# HELP codestra_provisioning_'' @ name @ '' '' @ help,
      ''# TYPE codestra_provisioning_'' @ name @ '' gauge'',
      ''codestra_provisioning_'' @ name @ '' '' @ str_int (int value)]"

definition alert :: "string \<Rightarrow> bool \<Rightarrow> string" where
  "alert condition raised =
     ''codestra_provisioning_alert{condition='' @ [CHR 0x22] @ condition @ [CHR 0x22] @ ''} '' @
     (if raised then ''1'' else ''0'')"

definition metrics_lines :: "app \<Rightarrow> store_counts \<Rightarrow> string list" where
  "metrics_lines a c =
     gauge ''pending_steps'' ''Durable runnable or claimed steps.'' (pending_steps c) @
     gauge ''dead_letters'' ''Unresolved dead-letter steps.'' (dead_letters c) @
     gauge ''pending_callbacks'' ''Undelivered Odoo callbacks.'' (pending_callbacks c) @
     gauge ''failed_callbacks'' ''Exhausted callback deliveries.'' (failed_callbacks c) @
     gauge ''failed_compensations'' ''Failed access reductions.'' (failed_compensations c) @
     [alert ''dead_letter'' (0 < dead_letters c),
      alert ''callback_backlog'' (20 < pending_callbacks c),
      alert ''callback_failed'' (0 < failed_callbacks c),
      alert ''compensation_failed'' (0 < failed_compensations c),
      alert ''adapter_unconfigured'' (ap_disabled_adapters a \<noteq> []),
      alert ''callback_unconfigured'' (callback_url (ap_settings a) = None)]"

definition metrics :: "app \<Rightarrow> ('e, int \<times> answer) handler" where
  "metrics a w =
     (Inr (200, PlainText (str_join [CHR 0x0A] (metrics_lines a (counts (w_db w))) @ [CHR 0x0A])), w)"

section \<open>Protected routes\<close>

definition answered :: "('a \<Rightarrow> answer) \<Rightarrow> ('e, 'a) handler \<Rightarrow> ('e, int \<times> answer) handler" where
  "answered form m = hbind m (\<lambda>x. hreturn (200, form x))"

definition get_request ::
  "'e services \<Rightarrow> string \<Rightarrow> request_envelope \<Rightarrow> ('e, execution_result) handler" where
  "get_request sv request envelope =
     (if request_id envelope \<noteq> request then hraise (HTTPException 422 ''request_id_mismatch'')
      else hbind (the_result sv request False) (\<lambda>r.
      case r of None \<Rightarrow> hraise (HTTPException 404 ''request_not_found'') | Some x \<Rightarrow> hreturn x))"

definition with_manager :: "app \<Rightarrow> (sip_manager \<Rightarrow> ('e, 'a) handler) \<Rightarrow> ('e, 'a) handler" where
  "with_manager a f =
     (case ap_sip_browser a of
        None \<Rightarrow> hraise (HTTPException 503 ''sip_browser_adapter_unavailable'')
      | Some m \<Rightarrow> f m)"

text \<open>The last value of a query parameter counts.\<close>

definition query_value :: "incoming \<Rightarrow> string \<Rightarrow> string option" where
  "query_value rq = map_of (rev (in_query rq))"

definition config_query :: "incoming \<Rightarrow> sip_browser_session_action res" where
  "config_query rq =
     (case (query_value rq ''session_id'', query_value rq ''browser_session_binding'') of
        (Some session_id, Some binding) \<Rightarrow>
          Inr \<lparr>sa_session_id = session_id, sa_browser_session_binding = binding\<rparr>
      | _ \<Rightarrow> Inl RequestValidationError)"

definition sip_browser_config ::
  "'e services \<Rightarrow> ('e, principal) handler \<Rightarrow> app \<Rightarrow> incoming \<Rightarrow> ('e, dict) handler" where
  "sip_browser_config sv auth a rq =
     hbind auth (\<lambda>_.
     hbind (hlift (config_query rq)) (\<lambda>query.
     with_manager a (\<lambda>_.
     hbind (hlift (parse_sip_action query)) (sip_config sv))))"

fun endpoint ::
  "'e services \<Rightarrow> web_framework \<Rightarrow> app \<Rightarrow> incoming \<Rightarrow> ('e, principal) handler \<Rightarrow> route \<Rightarrow>
     ('e, int \<times> answer) handler" where
  "endpoint sv web a rq auth Health = health"
| "endpoint sv web a rq auth Ready = ready sv a"
| "endpoint sv web a rq auth Metrics = metrics a"
| "endpoint sv web a rq auth (ExecuteRequest request) =
     answered Executed (with_body sv auth rq (wf_execution web) build_execution
       (submit sv (ap_settings a) (app_table sv a) request))"
| "endpoint sv web a rq auth (RetryRequest request) =
     answered Executed (with_body sv auth rq (wf_action web) build_action
       (retry sv (ap_settings a) (app_table sv a) request))"
| "endpoint sv web a rq auth (VerifyRequestRoute request) =
     answered Executed (with_body sv auth rq (wf_action web) build_action
       (verify sv (ap_settings a) (app_table sv a) request))"
| "endpoint sv web a rq auth (CancelRequestRoute request) =
     answered Executed (with_body sv auth rq (wf_action web) build_action
       (cancel sv (ap_settings a) (app_table sv a) request))"
| "endpoint sv web a rq auth (GetRequest request) =
     answered Executed (with_body sv auth rq (wf_envelope web) build_envelope (get_request sv request))"
| "endpoint sv web a rq auth (LifecycleRoute oper employee) =
     answered Executed (with_body sv auth rq (wf_execution web) build_execution
       (lifecycle sv (ap_settings a) (app_table sv a) employee oper))"
| "endpoint sv web a rq auth (Reconciliation employee) =
     answered Reconciled (with_body sv auth rq (wf_action web) build_action
       (reconcile sv (ap_settings a) (app_table sv a) employee))"
| "endpoint sv web a rq auth CreateSession =
     answered BrowserSession (with_body sv auth rq (wf_sip_request web) parse_sip_request
       (\<lambda>q. with_manager a (\<lambda>m. sip_create sv m q)))"
| "endpoint sv web a rq auth RenewSession =
     answered BrowserSession (with_body sv auth rq (wf_sip_action web) parse_sip_action
       (\<lambda>action. with_manager a (\<lambda>m. sip_renew sv m action)))"
| "endpoint sv web a rq auth SessionConfig = answered Document (sip_browser_config sv auth a rq)"
| "endpoint sv web a rq auth RevokeSession =
     answered Document (with_body sv auth rq (wf_sip_action web) parse_sip_action
       (\<lambda>action. with_manager a (\<lambda>m. sip_revoke sv m action)))"

definition serve ::
  "'e services \<Rightarrow> 'e jwt_library \<Rightarrow> web_framework \<Rightarrow> app \<Rightarrow> incoming \<Rightarrow> ('e, int \<times> answer) handler" where
  "serve sv lib web a rq =
     (case route_of (in_method rq) (in_path rq) of
        None \<Rightarrow> hreturn (wf_unmatched web (in_method rq) (in_path rq))
      | Some r \<Rightarrow> endpoint sv web a rq
          (case route_scope r of
             None \<Rightarrow> hreturn \<lparr>pr_subject = [], pr_client_id = [], pr_scopes = []\<rparr>
           | Some scope \<Rightarrow> authorized sv lib a rq scope) r)"

section \<open>Exceptions and the boundary\<close>

text \<open>The exceptions that have a handler; FastAPI has one for its own \<^verbatim>\<open>HTTPException\<close>.\<close>

fun error_answer :: "repo_error \<Rightarrow> (int \<times> answer) option" where
  "error_answer (EngineError status code) = Some (status, Detail code)"
| "error_answer (SipBrowserSessionError text) = Some (409, Detail text)"
| "error_answer RequestValidationError = Some (422, Detail ''request_validation_failed'')"
| "error_answer (HTTPException status detail) = Some (status, Detail detail)"
| "error_answer _ = None"

definition handled :: "('e, int \<times> answer) handler \<Rightarrow> ('e, int \<times> answer) handler" where
  "handled m w =
     (case m w of
        (Inr x, w') \<Rightarrow> (Inr x, w')
      | (Inl e, w') \<Rightarrow> (case error_answer e of None \<Rightarrow> (Inl e, w') | Some x \<Rightarrow> (Inr x, w')))"

definition protected_path :: "string \<Rightarrow> bool" where
  "protected_path path \<longleftrightarrow>
     starts_with path ''/v1/'' \<or> path \<in> {''/session'', ''/renew'', ''/config'', ''/revoke''}"

text \<open>What the boundary refuses before anything else runs.\<close>

definition declared_too_large :: "settings \<Rightarrow> incoming \<Rightarrow> (int \<times> string) option" where
  "declared_too_large s rq =
     (case in_content_length rq of
        None \<Rightarrow> None
      | Some text \<Rightarrow>
          if text = [] then None
          else case py_int text of
            Inl _ \<Rightarrow> Some (400, ''invalid_content_length'')
          | Inr n \<Rightarrow> if request_max_bytes s < n then Some (413, ''request_too_large'') else None)"

definition boundary_refusal :: "settings \<Rightarrow> incoming \<Rightarrow> (int \<times> string) option" where
  "boundary_refusal s rq =
     (case declared_too_large s rq of
        Some refusal \<Rightarrow> Some refusal
      | None \<Rightarrow>
          if request_max_bytes s < int (length (in_body rq)) then Some (413, ''request_too_large'')
          else if protected_path (in_path rq) \<and> in_scheme rq \<noteq> ''https'' then Some (400, ''tls_required'')
          else None)"

definition response_headers :: "(string \<times> string) list" where
  "response_headers =
     [(''Cache-Control'', ''no-store''), (''X-Content-Type-Options'', ''nosniff''),
      (''Strict-Transport-Security'', ''max-age=31536000'')]"

text \<open>An exception without a handler passes the boundary, and the server answers without its headers.\<close>

definition security_boundary ::
  "settings \<Rightarrow> incoming \<Rightarrow> ('e, int \<times> answer) handler \<Rightarrow> 'e world \<Rightarrow> response \<times> 'e world" where
  "security_boundary s rq call_next w =
     (case boundary_refusal s rq of
        Some (status, detail) \<Rightarrow> (\<lparr>rs_status = status, rs_body = Detail detail, rs_headers = []\<rparr>, w)
      | None \<Rightarrow>
          (case call_next w of
             (Inr (status, body), w') \<Rightarrow>
               (\<lparr>rs_status = status, rs_body = body, rs_headers = response_headers\<rparr>, w')
           | (Inl e, w') \<Rightarrow>
               (\<lparr>rs_status = 500, rs_body = InternalServerError, rs_headers = []\<rparr>, w')))"

definition handle ::
  "'e services \<Rightarrow> 'e jwt_library \<Rightarrow> web_framework \<Rightarrow> app \<Rightarrow> incoming \<Rightarrow> 'e world \<Rightarrow> response \<times> 'e world" where
  "handle sv lib web a rq = security_boundary (ap_settings a) rq (handled (serve sv lib web a rq))"

section \<open>The running service\<close>

text \<open>
  What happens to a running service: it is started, it serves a request, and its worker passes. One
  event ends before the next begins.
\<close>

datatype service_event =
    Started
  | Served incoming
  | WorkerPassed

fun service_step ::
  "'e services \<Rightarrow> 'e jwt_library \<Rightarrow> web_framework \<Rightarrow> app \<Rightarrow> service_event \<Rightarrow> 'e world \<Rightarrow> 'e world" where
  "service_step sv lib web a Started w = snd (recover sv (ap_settings a) (app_table sv a) w)"
| "service_step sv lib web a (Served rq) w = snd (handle sv lib web a rq w)"
| "service_step sv lib web a WorkerPassed w = snd (worker_pass sv (ap_settings a) (app_table sv a) w)"

definition service_run ::
  "'e services \<Rightarrow> 'e jwt_library \<Rightarrow> web_framework \<Rightarrow> app \<Rightarrow> service_event list \<Rightarrow> 'e world \<Rightarrow> 'e world" where
  "service_run sv lib web a events w = fold (service_step sv lib web a) events w"

end
