(* ===== verification/Engine_Frame.thy ===== *)
theory Engine_Frame
  imports Engine
begin

text \<open>
  What the engine leaves alone. \<open>engine_frame\<close> is the contract of a relation between databases that
  every call the engine makes on the store keeps, and that the adapters keep: then every operation of
  the engine keeps it, whatever the store holds. Interpreted, it says that the engine never touches
  the tables of authentication and of the browser sessions.
\<close>

locale engine_frame =
  fixes sv :: "'e services" and adapters :: "string \<Rightarrow> 'e adapter option" and R :: "db \<Rightarrow> db \<Rightarrow> bool"
  assumes refl: "reflp R" and trans: "transp R"
    and adapter_calls: "adapters system = Some a \<Longrightarrow> keeps R (a oper c)"
    and begins: "R d (snd (begin_execution sha t ex h d))"
    and claims: "R d (snd (claim_next t request d))"
    and completes: "R d (snd (complete_step t step done_st evidence d))"
    and fails: "R d (snd (fail_step t t' step code cls at d))"
    and reads: "R d (snd (request_result t t' request replayed d))"
    and releases: "R d (release_activation_claim t t' t'' step d)"
    and retries: "R d (snd (schedule_step_retry t t' t'' request d))"
    and cancels: "R d (snd (cancel_pending t request d))"
    and marks: "R d (mark_cancelled t t' request d)"
    and recovers: "R d (snd (recover_stale t t' t'' timeout d))"
    and compensates: "R d (record_compensation t t' request step name st evidence' code' delay d)"
    and verifies: "R d (snd (record_verification t employee system step evidence'' d))"
    and enqueues: "R d (enqueue_callback t event document d)"
    and dispatches: "R d (snd (dispatch_callback url secret outcome t t' event attempts d))"
begin

lemma same [simp]: "R d d"
  using refl by (rule reflpD)

lemma join: "R d d' \<Longrightarrow> R d' d'' \<Longrightarrow> R d d''"
  using trans by (rule transpD)

lemma look [keeps_intros]: "keeps R (\<lambda>w. (r w, w))"
  by (simp add: keeps_def)

lemma preorder [keeps_intros]: "reflp R" "transp R"
  by (rule refl, rule trans)

lemma branch [keeps_intros]: "keeps R m \<Longrightarrow> keeps R m' \<Longrightarrow> keeps R (\<lambda>w. if b w then m w else m' w)"
  by (simp add: keeps_def)

lemma guarded_look [keeps_intros]: "keeps R (\<lambda>w. guard (b w) e w)" "keeps R (guard b' e)"
  by (simp_all add: keeps_def guard_def hreturn_def hraise_def)

lemma after [intro]: "R (w_db w) (w_db w') \<Longrightarrow> keeps R m \<Longrightarrow> R (w_db w) (w_db (snd (m w')))"
  unfolding keeps_def by (blast intro: join)

section \<open>Adapters and compensation\<close>

lemma executes: "adapters system = Some a \<Longrightarrow> keeps R (execute a c)"
  using adapter_calls by (simp add: execute_def keeps_def permanent_def)

lemma looked_up:
  assumes "\<And>a. adapters (target_value system) = Some a \<Longrightarrow> keeps R (m a)"
  shows "keeps R (abind (alift (adapter_for adapters system)) m)"
  using assms
  by (cases "adapters (target_value system)") (simp_all add: keeps_def abind_def alift_def adapter_for_def)

lemma record_outcome_frame:
  "R (w_db w) (w_db (record_outcome sv request step oper state evidence code delay w))"
proof -
  have "keeps R (with_clock2 sv (\<lambda>t t' d.
      ((), record_compensation t t' request step (operation_value oper) state evidence code delay d)))"
    by (intro keeps_intros) (simp add: compensates)
  then show ?thesis by (simp add: keeps_def record_outcome_def)
qed

lemma compensate_step_frame: "R (w_db w) (w_db (compensate_step sv s adapters request original w))"
proof -
  obtain r w' where call: "call_adapter adapters (compensation_command (sv_sha256 sv) request original) w = (r, w')"
    by (cases "call_adapter adapters (compensation_command (sv_sha256 sv) request original) w")
  have "keeps R (call_adapter adapters c)" for c
    unfolding call_adapter_def by (rule looked_up) (rule executes)
  then have "R (w_db w) (w_db w')" using call by (rule keepsD)
  then show ?thesis
    by (auto simp: compensate_step_def call Let_def intro: record_outcome_frame
        join [OF _ record_outcome_frame] split: outcome.split)
qed

lemma compensate_frame: "R (w_db w) (w_db (compensate sv s adapters request w))"
proof -
  have "R (w_db w) (w_db (fold (compensate_step sv s adapters request) cs w))" for cs
    by (induction cs arbitrary: w) (auto intro: join [OF compensate_step_frame])
  then show ?thesis by (simp add: compensate_def)
qed

lemma compensated [keeps_intros]: "keeps R (\<lambda>w. (r, compensate sv s adapters request w))"
  "keeps R (\<lambda>w. (r, if b then compensate sv s adapters request w else w))"
  "keeps R (\<lambda>w. (r, if b then w else compensate sv s adapters request w))"
  by (simp_all add: keeps_def compensate_frame)

section \<open>Running steps\<close>

lemma result [keeps_intros]: "keeps R (the_result sv request replayed)"
  unfolding the_result_def by (intro keeps_intros reads)

lemma needed_result [keeps_intros]: "keeps R (required_result sv request status code)"
  "keeps R (found_result sv request)"
  unfolding required_result_def found_result_def by (intro keeps_intros)+

lemma freshness [keeps_intros]: "keeps R (validate_freshness sv s stamp)"
  by (simp add: keeps_def validate_freshness_def split_beta)

lemma fail_claimed_frame [keeps_intros]: "keeps R (fail_claimed sv step code cls at)"
  unfolding fail_claimed_def by (intro keeps_intros fails)

lemma failures [keeps_intros]:
  "keeps R (unclassified_failure sv s adapters c request)"
  "keeps R (adapter_failure sv s adapters c request code cls at)"
proof -
  show "keeps R (unclassified_failure sv s adapters c request)"
    unfolding unclassified_failure_def by (intro keeps_intros)
  have "keeps R (\<lambda>w. if state = DeadLetter then
       (if \<not> gate_open sv ''DEAD_LETTER_GATE'' w
        then (Inl (EngineError 503 ''dead_letter_gate_closed''), w)
        else (Inr False, compensate sv s adapters request w))
     else (Inr False, w))" for state
    by (simp add: keeps_def compensate_frame)
  then show "keeps R (adapter_failure sv s adapters c request code cls at)"
    unfolding adapter_failure_def by (intro keeps_intros)
qed

lemma retry_time_frame [keeps_intros]: "keeps R (retry_time sv s c request)"
proof -
  have "keeps R (\<lambda>w. let (t, w') = tick sv w in (Inr (t + k), w'))" for k
    by (simp add: keeps_def split_beta)
  then show ?thesis unfolding retry_time_def by (intro keeps_intros)
qed

lemma settle_step_frame [keeps_intros]: "keeps R (settle_step sv s adapters c request outcome)"
proof (cases outcome)
  case (Returned raw)
  have "keeps R (with_clock sv (\<lambda>t. complete_step t (step_id c) (done_state (operation c))
      (step_evidence (sv_sha256 sv) c raw)))"
    by (intro keeps_intros completes)
  then show ?thesis
    using failures(1)
    by (auto simp: keeps_def settle_step_def Returned split: prod.split sum.split)
       (metis after failures(1) keeps_def snd_conv)+
qed (auto simp: settle_step_def intro!: keeps_intros)

lemma run_claimed_frame [keeps_intros]: "keeps R (run_claimed sv s adapters request c)"
proof (rule keepsI)
  fix w
  have release: "keeps R (with_clock3 sv (\<lambda>t t' t'' d. ((), release_activation_claim t t' t'' (step_id c) d)))"
    by (intro keeps_intros) (simp add: releases)
  have missing: "keeps R (hbind (fail_claimed sv (step_id c) ''adapter_not_registered'' ''permanent'' None)
      (\<lambda>state w. (Inr False, if state = DeadLetter then compensate sv s adapters request w else w)))"
    by (intro keeps_intros)
  have "R (w_db w) (w_db (snd (settle_step sv s adapters c request result w')))"
    if "adapters (target_value (target_system c)) = Some a" "execute a c w = (result, w')" for a result w'
    using keepsD [OF executes [OF that(1)] that(2)] settle_step_frame by (rule after)
  then show "R (w_db w) (w_db (snd (run_claimed sv s adapters request c w)))"
    using release missing by (auto simp: run_claimed_def keeps_def split: option.split prod.split)
qed

lemma run_step_frame [keeps_intros]: "keeps R (run_step sv s adapters request)"
proof (rule keepsI)
  fix w
  have claim: "keeps R (with_clock sv (\<lambda>t. claim_next t request))"
    by (intro keeps_intros claims)
  obtain r w' where c: "with_clock sv (\<lambda>t. claim_next t request) w = (r, w')"
    by (cases "with_clock sv (\<lambda>t. claim_next t request) w")
  have "R (w_db w) (w_db w')" using claim c by (rule keepsD)
  then show "R (w_db w) (w_db (snd (run_step sv s adapters request w)))"
    by (auto simp: run_step_def c intro: run_claimed_frame split: option.split)
qed

lemma run_loop_frame: "run_loop fuel sv s adapters request w = Some (r, w') \<Longrightarrow> R (w_db w) (w_db w')"
proof (induction fuel arbitrary: w)
  case (Suc fuel)
  obtain x w1 where one: "run_step sv s adapters request w = (x, w1)"
    by (cases "run_step sv s adapters request w")
  have "R (w_db w) (w_db w1)" using run_step_frame one by (rule keepsD)
  then show ?case using Suc by (auto simp: one split: sum.splits if_splits intro: join)
qed simp

lemma run_request_frame [keeps_intros]: "keeps R (run_request sv s adapters request)"
  by (auto simp: keeps_def run_request_def simp del: run_loop.simps dest: run_loop_frame split: option.split)

lemma unlocked_frame [keeps_intros]:
  "keeps R (run_unlocked sv s adapters request)" "keeps R (compensate_due sv s adapters request)"
  unfolding run_unlocked_def compensate_due_def by (intro keeps_intros)+

section \<open>Callbacks\<close>

lemma deliver_frame [keeps_intros]: "keeps R (deliver sv s event_id event attempts)"
proof -
  have "keeps R (\<lambda>w. case tick sv w of (t, w') \<Rightarrow> (Inr t, w'))"
    and "keeps R (\<lambda>w. case sv_http sv rq (w_env w) of (reply, e) \<Rightarrow> (callback_outcome reply, w\<lparr>w_env := e\<rparr>))" for rq
    by (simp_all add: keeps_def split_beta)
  then show ?thesis unfolding deliver_def by (intro keeps_intros dispatches)
qed

lemma dispatcher_frame [keeps_intros]:
  "keeps R (enqueue_and_dispatch sv s event')" "keeps R (dispatch_rows sv s rows)" "keeps R (dispatch_due sv s)"
proof -
  show "keeps R (enqueue_and_dispatch sv s event')"
    unfolding enqueue_and_dispatch_def Let_def by (intro keeps_intros) (simp add: enqueues)
  show rows: "keeps R (dispatch_rows sv s rows)" for rows
    by (induction rows) (auto intro!: keeps_intros)
  show "keeps R (dispatch_due sv s)"
    unfolding dispatch_due_def by (intro keeps_intros rows) simp
qed

lemma callback_frame [keeps_intros]: "keeps R (callback sv s envelope r)"
proof -
  have "keeps R (hbind (enqueue_and_dispatch sv s event) (\<lambda>_. hreturn ()))" for event
    by (intro keeps_intros)
  then show ?thesis
    by (auto simp: keeps_def callback_def split_beta Let_def)
qed

section \<open>The entry points\<close>

lemma submit_frame [keeps_intros]: "keeps R (submit sv s adapters request ex)"
proof -
  have admitted: "keeps R (admit sv s request ex)"
    unfolding admit_def by (intro keeps_intros)
  have blockers: "keeps R (check_blockers ex)"
    by (simp add: keeps_def check_blockers_def)
  have replay: "keeps R (replay_answer sv request existing)" for existing
    unfolding replay_answer_def by (intro keeps_intros)
  have fresh: "keeps R (fresh_execution sv s adapters request normalized)" for normalized
    unfolding fresh_execution_def by (intro keeps_intros)
  have "R d (snd (case begin_execution (sv_sha256 sv) t normalized h d of (r, d') \<Rightarrow> (conflict_409 r, d')))"
    for t normalized h d
    using begins by (simp add: split_beta)
  then have "keeps R (begin_and_run sv s adapters request normalized h)" for normalized h
    unfolding begin_and_run_def by (intro keeps_intros replay fresh)
  then show ?thesis
    unfolding submit_def Let_def by (intro keeps_intros admitted blockers replay)
qed

lemma retry_frame [keeps_intros]: "keeps R (retry sv s adapters request action)"
proof -
  have "R d (snd (case schedule_step_retry t t' t'' request d of (scheduled, d') \<Rightarrow> (Inr scheduled, d')))"
    for t t' t'' d
    using retries by (simp add: split_beta)
  then show ?thesis
    unfolding retry_def retry_gate_def not_cancelled_def by (intro keeps_intros)
qed

lemma cancel_frame [keeps_intros]: "keeps R (cancel sv s adapters request action)"
  unfolding cancel_def by (intro keeps_intros) (simp_all add: cancels marks)

lemma method_call:
  assumes "\<And>raw. keeps R (f raw)"
  shows "R (w_db w) (w_db (snd (case abind (alift (adapter_for adapters system)) (\<lambda>a. a oper c) w of
      (Returned raw, w') \<Rightarrow> f raw w' | (RetryableAdapterError code, w') \<Rightarrow> (g code, w')
    | (PermanentAdapterError code, w') \<Rightarrow> (g code, w') | (OtherError e, w') \<Rightarrow> (Inl e, w'))))"
proof -
  let ?m = "abind (alift (adapter_for adapters system)) (\<lambda>a. a oper c)"
  obtain r w' where call: "?m w = (r, w')" by (cases "?m w")
  have "keeps R ?m" by (rule looked_up) (rule adapter_calls)
  then have "R (w_db w) (w_db w')" using call by (rule keepsD)
  then show ?thesis using assms by (auto simp: call split: outcome.split)
qed

lemma hmap_frame [keeps_intros]: "(\<And>x. keeps R (f x)) \<Longrightarrow> keeps R (hmap f xs)"
  by (induction xs) (auto intro!: keeps_intros)

lemma verify_frame [keeps_intros]: "keeps R (verify sv s adapters request action)"
proof -
  have "R d (snd (case record_verification t e system step evidence d of
      (accepted, d') \<Rightarrow> (Inr accepted, d')))" for t e system step evidence d
    using verifies by (simp add: split_beta)
  then have confirmed: "keeps R (confirm_verification sv current c raw)" for current c raw
    unfolding confirm_verification_def Let_def by (intro keeps_intros)
  have "keeps R (verify_one sv adapters action current original)" for current original
    unfolding verify_one_def Let_def by (rule keepsI) (rule method_call [OF confirmed])
  then have "keeps R (hbind (hmap (verify_one sv adapters action current) originals)
      (\<lambda>results. hreturn (g results)))" for current originals and g :: "step_result list \<Rightarrow> execution_result"
    by (intro keeps_intros)
  then have "keeps R (verify_locked sv adapters request action current)" for current
    by (simp add: keeps_def verify_locked_def Let_def)
  then show ?thesis unfolding verify_def by (intro keeps_intros)
qed

lemma lifecycle_frame [keeps_intros]: "keeps R (lifecycle sv s adapters employee oper ex)"
  unfolding lifecycle_def by (intro keeps_intros)

lemma reconcile_frame [keeps_intros]: "keeps R (reconcile sv s adapters employee action)"
proof -
  have "keeps R (reconcile_one sv adapters action original)" for original
    unfolding reconcile_one_def Let_def
    by (rule keepsI) (rule method_call, simp add: keeps_def)
  then have "keeps R (hmap (reconcile_one sv adapters action) originals)" for originals
    by (intro keeps_intros)
  then have "keeps R (\<lambda>w. hmap (reconcile_one sv adapters action) (employee_commands employee (w_db w)) w)"
    by (simp add: keeps_def)
  then show ?thesis unfolding reconcile_def by (intro keeps_intros)
qed

lemma heach_frame [keeps_intros]: "(\<And>x. keeps R (f x)) \<Longrightarrow> keeps R (heach f xs)"
  by (induction xs) (auto intro!: keeps_intros)

lemma pending_frame [keeps_intros]:
  "keeps R (run_pending sv s adapters)" "keeps R (compensate_pending sv s adapters)"
  unfolding run_pending_def compensate_pending_def
  by (rule keeps_hbind [OF trans keeps_clock], simp, intro keeps_intros)+

lemma worker_pass_frame [keeps_intros]: "keeps R (worker_pass sv s adapters)"
  unfolding worker_pass_def by (intro keeps_intros)

lemma recover_frame [keeps_intros]: "keeps R (recover sv s adapters)"
  unfolding recover_def by (intro keeps_intros) (simp add: recovers)

end

section \<open>The tables of authentication and sessions\<close>

definition private_frame :: "db \<Rightarrow> db \<Rightarrow> bool" where
  "private_frame d d' \<longleftrightarrow>
     tbl_replay_jti d' = tbl_replay_jti d \<and> tbl_rate_windows d' = tbl_rate_windows d \<and>
     tbl_sip_browser_sessions d' = tbl_sip_browser_sessions d"

lemma adapter_frame_private: "adapter_frame d d' \<Longrightarrow> private_frame d d'"
  by (simp add: adapter_frame_def private_frame_def)

end
