(* ===== verification/Service_Runs.thy ===== *)
theory Service_Runs
  imports Service Engine_Frame Engine_Properties
begin

text \<open>
  The service over whole runs of starts, requests and worker passes. \<open>service_frame\<close> is the contract
  of a relation between databases that the engine, the authentication and the session manager keep:
  every request keeps it; \<open>run_frame\<close> adds the start and the worker. They are interpreted on the runs
  of the step machine and on the transitions of the browser sessions, and Service\_Properties uses
  them for the record of a token.
\<close>

section \<open>What a request keeps\<close>

locale service_frame =
  fixes sv :: "'e services" and a :: app and R :: "db \<Rightarrow> db \<Rightarrow> bool"
  assumes refl: "reflp R" and trans: "transp R"
    and submits: "keeps R (submit sv (ap_settings a) (app_table sv a) request ex)"
    and retries: "keeps R (retry sv (ap_settings a) (app_table sv a) request action)"
    and cancels: "keeps R (cancel sv (ap_settings a) (app_table sv a) request action)"
    and verifies: "keeps R (verify sv (ap_settings a) (app_table sv a) request action)"
    and lifecycles: "keeps R (lifecycle sv (ap_settings a) (app_table sv a) employee oper ex)"
    and reconciles: "keeps R (reconcile sv (ap_settings a) (app_table sv a) employee action)"
    and reads: "keeps R (the_result sv request False)"
    and admits: "keeps R (require_scope sv lib (ap_settings a) scope query header)"
    and sessions: "keeps R (sip_create sv m q)" "keeps R (sip_renew sv m action')"
      "keeps R (sip_config sv action')" "keeps R (sip_revoke sv m action')"
begin

lemma preorder: "reflp R" "transp R"
  by (rule refl, rule trans)

lemma with_body_frame:
  "keeps R auth \<Longrightarrow> (\<And>x. keeps R (f x)) \<Longrightarrow> keeps R (with_body sv auth rq read_fields parse f)"
  unfolding with_body_def by (intro keeps_intros preorder)

lemma answered_frame: "keeps R m \<Longrightarrow> keeps R (answered form m)"
  unfolding answered_def by (intro keeps_intros preorder)

lemma with_manager_frame: "(\<And>m. keeps R (f m)) \<Longrightarrow> keeps R (with_manager a f)"
  unfolding with_manager_def by (intro keeps_intros preorder)

lemma get_request_frame: "keeps R (get_request sv request envelope)"
  unfolding get_request_def by (intro keeps_intros preorder reads)

lemma open_frame: "keeps R (ready sv a)" "keeps R (metrics a)" "keeps R health"
  by (simp_all add: keeps_def ready_def metrics_def health_def hreturn_def Let_def reflpD [OF refl])

lemma sip_browser_config_frame: "keeps R auth \<Longrightarrow> keeps R (sip_browser_config sv auth a rq)"
  unfolding sip_browser_config_def
  by (intro keeps_intros preorder with_manager_frame sessions)

lemma endpoint_frame:
  assumes "keeps R auth"
  shows "keeps R (endpoint sv web a rq auth r)"
  by (cases r)
     (simp_all, (intro open_frame answered_frame with_body_frame with_manager_frame get_request_frame
        sip_browser_config_frame assms submits retries cancels verifies lifecycles reconciles sessions)+)

lemma handled_frame: "keeps R m \<Longrightarrow> keeps R (handled m)"
  by (fastforce simp: keeps_def handled_def split: prod.split sum.split option.split dest: arg_cong [where f = snd])

lemma boundary_frame:
  assumes "keeps R m"
  shows "R (w_db w) (w_db (snd (security_boundary s rq m w)))"
  using assms keepsD [OF assms] reflpD [OF refl]
  by (auto simp: security_boundary_def split: option.split prod.split sum.split)

lemma handle_frame: "R (w_db w) (w_db (snd (handle sv lib web a rq w)))"
proof -
  have "keeps R (authorized sv lib a rq scope)" for scope
    unfolding authorized_def by (rule admits)
  then have "keeps R (serve sv lib web a rq)"
    unfolding serve_def by (intro keeps_intros preorder endpoint_frame)
  then show ?thesis unfolding handle_def by (intro boundary_frame handled_frame)
qed

end

text \<open>When the start and the worker keep it too, a whole run does.\<close>

locale run_frame = service_frame sv a R for sv :: "'e services" and a and R +
  assumes starts: "keeps R (recover sv (ap_settings a) (app_table sv a))"
    and passes: "keeps R (worker_pass sv (ap_settings a) (app_table sv a))"
begin

lemma service_step_frame: "R (w_db w) (w_db (service_step sv lib web a event w))"
  using starts passes handle_frame by (cases event) (simp_all add: keeps_def)

lemma service_run_frame: "R (w_db w) (w_db (service_run sv lib web a events w))"
proof (induction events arbitrary: w)
  case (Cons event events)
  from transpD [OF trans service_step_frame Cons.IH] show ?case by (simp add: service_run_def)
qed (simp add: service_run_def reflpD [OF refl])

end

section \<open>The engine and the private tables\<close>

lemma begin_execution_private: "private_frame d (snd (begin_execution sha t ex h d))"
proof (cases rule: begin_cases [of sha t ex h d])
  case (fresh d')
  then show ?thesis using begin_fresh(2) [OF fresh] by (simp add: private_frame_def)
qed (simp_all add: private_frame_def)

lemma request_result_private: "private_frame d (snd (request_result t t' request replayed d))"
  by (auto simp: private_frame_def request_result_def Let_def split: option.split sum.split)

context framed_adapters begin

lemma engine_private: "engine_frame adapters private_frame"
proof
  show "keeps private_frame (a oper c)" if "adapters system = Some a" for system a oper c
    using frame [OF that] by (rule keeps_weaken) (rule adapter_frame_private)
  show "reflp private_frame" "transp private_frame"
    by (auto simp: private_frame_def reflp_def transp_def)
qed (auto simp: private_frame_def begin_execution_private [unfolded private_frame_def]
    request_result_private [unfolded private_frame_def] claim_next_def
    complete_step_def fail_step_def insert_dead_letter_def
    release_activation_claim_def schedule_step_retry_def cancel_pending_def
    mark_cancelled_def recover_stale_def record_compensation_def record_verification_def
    upsert_verification_def enqueue_callback_def dispatch_callback_def mark_callback_def Let_def
    split: option.split sum.split http_outcome.split)

end

interpretation app_engine: framed_adapters sv "app_table sv a"
  by unfold_locales (simp add: app_table_def table.frame)

interpretation untouched: engine_frame sv "app_table sv a" private_frame
  by (rule app_engine.engine_private)

text \<open>A relation on the private tables is kept when authentication and the session manager keep it.\<close>

lemma run_frameI:
  assumes "reflp R" and "transp R" and untouched: "\<And>d d'. private_frame d d' \<Longrightarrow> R d d'"
    and "\<And>lib scope query header. keeps R (require_scope sv lib (ap_settings a) scope query header)"
    and "\<And>m q. keeps R (sip_create sv m q)" "\<And>m action. keeps R (sip_renew sv m action)"
      "\<And>action. keeps R (sip_config sv action)" "\<And>m action. keeps R (sip_revoke sv m action)"
  shows "run_frame sv a R"
proof (unfold_locales)
  note weak = keeps_weaken [OF _ untouched]
  show "keeps R (submit sv (ap_settings a) (app_table sv a) request ex)" for request ex
    by (rule weak [OF untouched.submit_frame])
  show "keeps R (retry sv (ap_settings a) (app_table sv a) request action)" for request action
    by (rule weak [OF untouched.retry_frame])
  show "keeps R (cancel sv (ap_settings a) (app_table sv a) request action)" for request action
    by (rule weak [OF untouched.cancel_frame])
  show "keeps R (verify sv (ap_settings a) (app_table sv a) request action)" for request action
    by (rule weak [OF untouched.verify_frame])
  show "keeps R (lifecycle sv (ap_settings a) (app_table sv a) employee oper ex)" for employee oper ex
    by (rule weak [OF untouched.lifecycle_frame])
  show "keeps R (reconcile sv (ap_settings a) (app_table sv a) employee action)" for employee action
    by (rule weak [OF untouched.reconcile_frame])
  show "keeps R (the_result sv request False)" for request
    by (rule weak [OF untouched.result])
  show "keeps R (recover sv (ap_settings a) (app_table sv a))"
    by (rule weak [OF untouched.recover_frame])
  show "keeps R (worker_pass sv (ap_settings a) (app_table sv a))"
    by (rule weak [OF untouched.worker_pass_frame])
qed (rule assms)+

section \<open>Runs of the service\<close>

interpretation machine: service_frame sv a "run_of (sv_sha256 sv)"
proof
  have same: "sip_frame d d' \<Longrightarrow> same_steps d d'" for d d'
    by (simp add: sip_frame_def same_steps_def)
  note session = keeps_run_of_same [OF keeps_weaken [OF _ same]]
  show "keeps (run_of (sv_sha256 sv)) (sip_create sv m q)" for m q
    by (rule session [OF elsewhere.manager(1)])
  show "keeps (run_of (sv_sha256 sv)) (sip_renew sv m action)" for m action
    by (rule session [OF elsewhere.manager(2)])
  show "keeps (run_of (sv_sha256 sv)) (sip_config sv action)" for action
    by (rule session [OF elsewhere.manager(3)])
  show "keeps (run_of (sv_sha256 sv)) (sip_revoke sv m action)" for m action
    by (rule session [OF elsewhere.manager(4)])
  show "keeps (run_of (sv_sha256 sv)) (require_scope sv lib (ap_settings a) scope query header)"
    for lib scope query header
    by (rule keeps_run_of_same [OF keeps_weaken [OF keeps_require_scope auth_frame_steps]])
qed (rule run_of_preorder app_engine.keeps_submit app_engine.keeps_retry app_engine.keeps_cancel
    app_engine.keeps_verify app_engine.keeps_lifecycle app_engine.keeps_reconcile app_engine.keeps_result)+

interpretation browser: run_frame sv a sip_moves
proof (rule run_frameI)
  show "keeps sip_moves (require_scope sv lib (ap_settings a) scope query header)" for lib scope query header
    using keeps_require_scope by (rule keeps_weaken) (simp add: auth_frame_def sip_moves_same)
qed (simp_all add: private_frame_def sip_moves_same sessions.manager)

end
