(* ===== verification/Service_Properties.thy ===== *)
theory Service_Properties
  imports Service_Runs
begin

text \<open>
  The properties of the running service: it stays on the step machine, keeps its browser sessions
  exclusive, serves nothing to a request that is not authorized, and serves a token once.
\<close>

section \<open>The machine and the sessions\<close>

text \<open>
  C2. The service refines the step machine: whatever it is sent and whatever its providers answer,
  its store stays a reachable store of the machine, with at most one restart recovery for each start.
\<close>

theorem service_refines_machine:
  assumes "reachable (sv_sha256 sv) n (w_db w)"
  shows "\<exists>k. k \<le> length (filter (\<lambda>event. event = Started) events) \<and>
    reachable (sv_sha256 sv) (n + k) (w_db (service_run sv lib web a events w))"
  using assms
proof (induction events arbitrary: n w)
  case (Cons event events)
  have "\<exists>k. k \<le> (if event = Started then 1 else 0) \<and>
      reachable (sv_sha256 sv) (n + k) (w_db (service_step sv lib web a event w))"
  proof (cases event)
    case Started
    then show ?thesis
      using app_engine.perform_reachable [OF Cons.prems, where call = Start and s = "ap_settings a" and a = a] by (simp add: starts_def)
  next
    case (Served rq)
    then show ?thesis
      using app_engine.run_reachable [OF machine.handle_frame Cons.prems] by (intro exI [of _ 0]) simp
  next
    case WorkerPassed
    then show ?thesis
      using app_engine.perform_reachable [OF Cons.prems, where call = WorkerPass and s = "ap_settings a" and a = a]
      by (simp add: starts_def)
  qed
  then obtain k where k: "k \<le> (if event = Started then 1 else 0)"
    and "reachable (sv_sha256 sv) (n + k) (w_db (service_step sv lib web a event w))" by blast
  from Cons.IH [OF this(2)] obtain k' where "k' \<le> length (filter (\<lambda>event. event = Started) events)"
      "reachable (sv_sha256 sv) (n + k + k') (w_db (service_run sv lib web a events (service_step sv lib web a event w)))"
    by blast
  with k show ?case
    by (intro exI [of _ "k + k'"]) (auto simp: service_run_def ac_simps split: if_splits)
qed (auto simp: service_run_def intro: exI [of _ 0])

text \<open>
  C9. Browser sessions, over any run of the service from a consistent session table (an empty one): ids and bindings are unique,
  an employee has at most one active session, and a session that has expired or been revoked is never
  changed again, whatever is requested.
\<close>

theorem service_sessions_exclusive:
  assumes "sip_inv (w_db w0)" and "w1 = service_run sv lib web a events w0"
    and "w2 = service_run sv' lib' web' a' events' w1"
  shows "sip_inv (w_db w1) \<and>
    length (filter (\<lambda>r. ss_employee_id r = employee \<and> is_active r) (tbl_sip_browser_sessions (w_db w1))) \<le> 1 \<and>
    {r \<in> set (tbl_sip_browser_sessions (w_db w1)). \<not> is_active r} \<subseteq> set (tbl_sip_browser_sessions (w_db w2))"
proof -
  have inv: "sip_inv (w_db w1)"
    unfolding assms(2) by (rule sip_moves_inv [OF browser.service_run_frame assms(1)])
  have "r \<in> set (tbl_sip_browser_sessions (w_db w2))"
    if "r \<in> set (tbl_sip_browser_sessions (w_db w1))" "\<not> is_active r" for r
    unfolding assms(3) by (rule sip_moves_ended [OF browser.service_run_frame that])
  then show ?thesis using inv sip_inv_one by blast
qed

section \<open>Authorization\<close>

fun is_error :: "answer \<Rightarrow> bool" where
  "is_error (Detail _) = True"
| "is_error InternalServerError = True"
| "is_error _ = False"

lemma route_of_table:
  assumes "route_of verb path = Some r"
  shows "\<exists>matches. (verb, matches) \<in> set api_routes \<and> matches path = Some r"
proof -
  let ?rows = "filter (\<lambda>(m, matches). m = verb \<and> matches path \<noteq> None) api_routes"
  obtain m matches rows where rows: "?rows = (m, matches) # rows" and "matches path = Some r"
    using assms by (auto simp: route_of_def split: list.splits)
  moreover have "(m, matches) \<in> set ?rows" unfolding rows by simp
  then have "(verb, matches) \<in> set api_routes"
    by (simp only: set_filter mem_Collect_eq prod.case) blast
  ultimately show ?thesis by blast
qed

lemma path_with_starts: "path_with lead trail r path = Some r' \<Longrightarrow> starts_with path lead"
  by (auto simp: path_with_def path_parameter_def starts_with_def Let_def split: if_splits)
     (metis append_eq_conv_conj)

lemma starts_with_shorter: "starts_with s (p @ q) \<Longrightarrow> starts_with s p"
  unfolding starts_with_def by (metis append_eq_append_conv_if append_take_drop_id append_eq_conv_conj append_assoc)

lemma scoped_paths:
  assumes "route_of verb path = Some r" and "route_scope r \<noteq> None"
  shows "protected_path path"
proof -
  have v1: "starts_with path ''/v1/''" if "path_with (''/v1/'' @ rest) trail f path = Some r" for rest trail f
    by (rule starts_with_shorter [OF path_with_starts [OF that]])
  obtain matches where "(verb, matches) \<in> set api_routes" "matches path = Some r"
    using route_of_table [OF assms(1)] by blast
  then show ?thesis
    using assms(2) v1 [of "''provisioning/requests/''"] v1 [of "''identities/''"]
    by (auto simp: api_routes_def fixed_path_def protected_path_def lifecycle_operations_def split: if_splits)
qed

text \<open>A route whose dependency raises is answered with an error, and its endpoint does not run.\<close>

lemma refused_with_body:
  assumes "auth w = (Inl e, w1)"
  shows "\<exists>e' w'. answered form (with_body sv auth rq read_fields parse f) w = (Inl e', w') \<and> (w' = w \<or> w' = w1)"
  using assms by (auto simp: answered_def with_body_def hbind_def hlift_def split: sum.split)

lemma refused_endpoint:
  assumes "auth w = (Inl e, w1)" and "route_scope r \<noteq> None"
  shows "\<exists>e' w'. endpoint sv web a rq auth r w = (Inl e', w') \<and> (w' = w \<or> w' = w1)"
proof -
  have "answered Document (sip_browser_config sv auth a rq) w = (Inl e, w1)"
    using assms(1) by (simp add: answered_def sip_browser_config_def hbind_def)
  then show ?thesis
    using assms(2) by (cases r) (simp_all add: refused_with_body [of auth w e w1, OF assms(1)])
qed

lemma error_answer_error: "error_answer e = Some (status, body) \<Longrightarrow> is_error body"
  by (cases e) auto

lemma handled_Inl:
  assumes "m w = (Inl e, w')" and "boundary_refusal s rq = None"
  shows "is_error (rs_body (fst (security_boundary s rq (handled m) w))) \<and>
    snd (security_boundary s rq (handled m) w) = w'"
  using assms
  by (auto simp: security_boundary_def handled_def split: option.split dest: error_answer_error)

lemma refused_at_boundary:
  assumes "boundary_refusal s rq = Some refusal"
  shows "is_error (rs_body (fst (security_boundary s rq m w))) \<and> snd (security_boundary s rq m w) = w"
  using assms by (cases refusal) (simp add: security_boundary_def)

text \<open>Reading the route and the scope of a request.\<close>

lemma serve_scoped:
  assumes "route_of (in_method rq) (in_path rq) = Some r" and "route_scope r = Some scope"
  shows "serve sv lib web a rq = endpoint sv web a rq (authorized sv lib a rq scope) r"
  using assms by (simp add: serve_def)

lemma refused_request:
  assumes "route_of (in_method rq) (in_path rq) = Some r" and "route_scope r = Some scope"
    and "authorized sv lib a rq scope w = (Inl e, w1)"
  shows "is_error (rs_body (fst (handle sv lib web a rq w))) \<and> (snd (handle sv lib web a rq w) = w \<or> snd (handle sv lib web a rq w) = w1)"
proof (cases "boundary_refusal (ap_settings a) rq")
  case None
  obtain e' w' where "serve sv lib web a rq w = (Inl e', w')" "w' = w \<or> w' = w1"
    using refused_endpoint [of "authorized sv lib a rq scope" w e w1 r sv web a rq] assms(2,3)
    by (auto simp: serve_scoped [OF assms(1,2)])
  then show ?thesis
    using handled_Inl [of "serve sv lib web a rq" w e' w', OF _ None] by (auto simp: handle_def)
next
  case (Some refusal)
  then show ?thesis using refused_at_boundary unfolding handle_def by blast
qed

lemma authorized_frame: "authorized sv lib a rq scope w = (x, w') \<Longrightarrow> auth_frame (w_db w) (w_db w')"
  unfolding authorized_def by (rule keepsD [OF keeps_require_scope])

lemma refused_request_frame:
  assumes "route_of (in_method rq) (in_path rq) = Some r" and "route_scope r = Some scope"
    and "authorized sv lib a rq scope w = (Inl e, w1)"
  shows "is_error (rs_body (fst (handle sv lib web a rq w))) \<and>
    auth_frame (w_db w) (w_db (snd (handle sv lib web a rq w)))"
proof -
  have "auth_frame (w_db w) (w_db w)" by (simp add: auth_frame_def)
  then show ?thesis
    using refused_request [OF assms, of web] authorized_frame [OF assms(3)] by metis
qed

text \<open>
  C7. Nothing is served without authorization. A request to a protected route that came over plain
  HTTP, is larger than allowed, or whose token the scope check of the route refuses, is answered with
  a bare error; it changes no table but those of the token identifiers and rates, and when the
  boundary refused it, nothing at all.
\<close>

theorem unauthorized_request_changes_nothing:
  assumes "route_of (in_method rq) (in_path rq) = Some r" and "route_scope r = Some scope"
    and "in_scheme rq \<noteq> ''https'' \<or> request_max_bytes (ap_settings a) < int (length (in_body rq)) \<or>
      (\<forall>p. fst (authorized sv lib a rq scope w) \<noteq> Inr p)"
  shows "is_error (rs_body (fst (handle sv lib web a rq w))) \<and>
    auth_frame (w_db w) (w_db (snd (handle sv lib web a rq w))) \<and>
    (in_scheme rq \<noteq> ''https'' \<or> request_max_bytes (ap_settings a) < int (length (in_body rq)) \<longrightarrow>
       snd (handle sv lib web a rq w) = w)"
proof -
  have path: "protected_path (in_path rq)" using scoped_paths [OF assms(1)] assms(2) by simp
  show ?thesis
  proof (cases "in_scheme rq \<noteq> ''https'' \<or> request_max_bytes (ap_settings a) < int (length (in_body rq))")
    case True
    then have "boundary_refusal (ap_settings a) rq \<noteq> None"
      using path by (auto simp: boundary_refusal_def split: option.split)
    then obtain refusal where "boundary_refusal (ap_settings a) rq = Some refusal" by blast
    then have "is_error (rs_body (fst (handle sv lib web a rq w))) \<and> snd (handle sv lib web a rq w) = w"
      unfolding handle_def by (rule refused_at_boundary)
    then show ?thesis by (simp add: auth_frame_def)
  next
    case False
    obtain x w1 where auth: "authorized sv lib a rq scope w = (x, w1)"
      by (cases "authorized sv lib a rq scope w")
    then obtain e where x: "x = Inl e" using False assms(3) by (cases x) auto
    from refused_request_frame [OF assms(1,2) auth [unfolded x], of web] show ?thesis
      using False by simp
  qed
qed

section \<open>A token is served once\<close>

text \<open>An endpoint whose dependency admits goes on in the world the dependency left.\<close>

lemma admitted_with_body:
  assumes "auth w = (Inr p, w1)"
  shows "answered form (with_body sv auth rq read_fields parse f) w =
      answered form (with_body sv (hreturn p) rq read_fields parse f) w1 \<or>
    (\<exists>e. answered form (with_body sv auth rq read_fields parse f) w = (Inl e, w))"
  using assms by (auto simp: answered_def with_body_def hbind_def hlift_def hreturn_def split: sum.split)

lemma admitted_endpoint:
  assumes "auth w = (Inr p, w1)" and "route_scope r \<noteq> None"
  shows "endpoint sv web a rq auth r w = endpoint sv web a rq (hreturn p) r w1 \<or>
    (\<exists>e. endpoint sv web a rq auth r w = (Inl e, w))"
proof -
  have "answered Document (sip_browser_config sv auth a rq) w =
      answered Document (sip_browser_config sv (hreturn p) a rq) w1"
    using assms(1) by (simp add: answered_def sip_browser_config_def hbind_def hreturn_def)
  then show ?thesis
    using assms(2) by (cases r) (simp_all add: admitted_with_body [of auth w p w1, OF assms(1)])
qed

lemma answered_with_data:
  assumes "handle sv lib web a rq w = (resp, w')" and "\<not> is_error (rs_body resp)"
    and "route_of (in_method rq) (in_path rq) = Some r" and "route_scope r = Some scope"
  obtains p w1 where "authorized sv lib a rq scope w = (Inr p, w1)"
    "w' = snd (endpoint sv web a rq (hreturn p) r w1)"
proof -
  let ?m = "endpoint sv web a rq (authorized sv lib a rq scope) r"
  have open_boundary: "boundary_refusal (ap_settings a) rq = None"
  proof (cases "boundary_refusal (ap_settings a) rq")
    case (Some refusal)
    from refused_at_boundary [OF this, of "handled (serve sv lib web a rq)" w] show ?thesis
      using assms(1,2) by (simp add: handle_def)
  qed
  have handled: "handle sv lib web a rq w = security_boundary (ap_settings a) rq (handled ?m) w"
    by (simp add: handle_def serve_scoped [OF assms(3,4)])
  obtain v w2 where served: "?m w = (v, w2)" by (cases "?m w")
  have data: "v = Inr x \<Longrightarrow> w' = w2" for x
    using assms(1) open_boundary handled served
    by (cases x) (simp add: security_boundary_def handled_def)
  have ok: "\<exists>x. v = Inr x"
    using handled_Inl [of ?m w _ w2 "ap_settings a" rq, OF _ open_boundary] assms(1,2) handled served
    by (cases v) auto
  obtain x w1 where auth: "authorized sv lib a rq scope w = (x, w1)"
    by (cases "authorized sv lib a rq scope w")
  obtain p where "x = Inr p"
  proof (cases x)
    case (Inl e)
    from refused_request_frame [OF assms(3,4) auth [unfolded Inl], of web] show ?thesis
      using assms(1,2) by simp
  qed
  moreover from this have "?m w = endpoint sv web a rq (hreturn p) r w1"
    using admitted_endpoint [of "authorized sv lib a rq scope" w p w1 r sv web a rq] auth assms(4) served ok
    by auto
  ultimately show thesis
    using that [of p w1] auth data ok served by (metis snd_conv)
qed

text \<open>The record of a token identifier lasts through a run of the service, while its expiry has not passed.\<close>

definition keeps_token :: "string \<Rightarrow> int \<Rightarrow> db \<Rightarrow> db \<Rightarrow> bool" where
  "keeps_token h expiry d d' \<longleftrightarrow> (jti_known h expiry d \<longrightarrow> jti_known h expiry d')"

lemma require_scope_cases:
  "require_scope sv lib s scope query header w = (x, w') \<Longrightarrow>
     (x = Inl (HTTPException 503 ''authorization_gate_closed'') \<and> w' = w) \<or>
     (\<exists>y. authenticate sv lib s query header w = (y, w') \<and> (\<forall>p. x = Inr p \<longrightarrow> y = Inr p))"
  by (auto simp: require_scope_def hbind_def hraise_def hreturn_def split: if_splits prod.splits sum.splits)

lemma require_scope_token:
  assumes "clock_until sv expiry"
  shows "keeps (keeps_token h expiry) (require_scope sv lib s scope query header)"
proof (rule keepsI)
  fix w
  obtain x w' where r: "require_scope sv lib s scope query header w = (x, w')"
    by (cases "require_scope sv lib s scope query header w")
  show "keeps_token h expiry (w_db w) (w_db (snd (require_scope sv lib s scope query header w)))"
    using require_scope_cases [OF r] authenticate_keeps_known [OF assms, of h w]
    by (auto simp: r keeps_token_def)
qed

lemma token_run:
  fixes sv :: "'e services"
  assumes "clock_until sv expiry"
  shows "run_frame sv a (keeps_token h expiry)"
proof (rule run_frameI)
  have session: "sip_frame d d' \<Longrightarrow> keeps_token h expiry d d'" for d d'
    by (simp add: sip_frame_def keeps_token_def jti_known_def)
  show "keeps (keeps_token h expiry) (sip_create sv m q)" for m q
    by (rule keeps_weaken [OF elsewhere.manager(1) session])
  show "keeps (keeps_token h expiry) (sip_renew sv m action)" for m action
    by (rule keeps_weaken [OF elsewhere.manager(2) session])
  show "keeps (keeps_token h expiry) (sip_config sv action)" for action
    by (rule keeps_weaken [OF elsewhere.manager(3) session])
  show "keeps (keeps_token h expiry) (sip_revoke sv m action)" for m action
    by (rule keeps_weaken [OF elsewhere.manager(4) session])
qed (auto simp: keeps_token_def reflp_def transp_def private_frame_def jti_known_def
    intro: require_scope_token [OF assms])

text \<open>
  C8. A token serves one request. Once a protected route has answered a request with data, every
  later request that presents the same token (its identifier and expiry) to a protected route is
  answered with a bare error and changes no table but those of authentication, whatever the service
  did in between, as long as the clock has not passed the token's expiry.
\<close>

theorem token_serves_once:
  assumes "handle sv lib web a rq w = (resp, w1)" and "\<not> is_error (rs_body resp)"
    and "route_of (in_method rq) (in_path rq) = Some r" and "route_scope r = Some scope"
    and "in_authorization rq = Some header" and "presented lib header = Some (jti, expiry)"
    and "clock_until sv expiry" and "w2 = service_run sv lib web a events w1"
    and "route_of (in_method rq') (in_path rq') = Some r'" and "route_scope r' = Some scope'"
    and "in_authorization rq' = Some header'" and "presented lib header' = Some (jti, expiry)"
  shows "is_error (rs_body (fst (handle sv lib web a rq' w2))) \<and>
    auth_frame (w_db w2) (w_db (snd (handle sv lib web a rq' w2)))"
proof -
  let ?h = "digest (sv_sha256 sv) jti"
  note frame = token_run [OF assms(7), of a ?h]
  obtain p w0 where admitted: "authorized sv lib a rq scope w = (Inr p, w0)"
    and w1: "w1 = snd (endpoint sv web a rq (hreturn p) r w0)"
    by (rule answered_with_data [OF assms(1-4)])
  have "authenticate sv lib (ap_settings a) (map fst (in_query rq)) (Some header) w = (Inr p, w0)"
    using require_scope_cases [OF admitted [unfolded authorized_def]] assms(5) by auto
  from authenticate_records [OF this] have "jti_known ?h expiry (w_db w0)"
    using assms(6) by auto
  moreover have "keeps (keeps_token ?h expiry) (endpoint sv web a rq (hreturn p) r)"
    by (rule service_frame.endpoint_frame [OF run_frame.axioms(1) [OF frame]])
       (simp add: keeps_def hreturn_def keeps_token_def)
  ultimately have "jti_known ?h expiry (w_db w1)" by (simp add: w1 keeps_def keeps_token_def)
  moreover have "keeps_token ?h expiry (w_db w1) (w_db w2)"
    unfolding assms(8) by (rule run_frame.service_run_frame [OF frame])
  ultimately have known: "jti_known ?h expiry (w_db w2)" by (simp add: keeps_token_def)
  obtain x w3 where again: "authorized sv lib a rq' scope' w2 = (x, w3)"
    by (cases "authorized sv lib a rq' scope' w2")
  obtain e where "x = Inl e"
    using require_scope_cases [OF again [unfolded authorized_def]] assms(11)
      authenticate_refuses [OF assms(7) assms(12) known]
    by (cases x) (auto, metis fst_conv)
  with again have "authorized sv lib a rq' scope' w2 = (Inl e, w3)" by simp
  from refused_request_frame [OF assms(9,10) this] show ?thesis .
qed

section \<open>A malformed session query\<close>

text \<open>
  The configuration route builds its model in the endpoint, where a validation error has no
  handler: a query whose session id is malformed is answered as an internal server error (500), while
  the renewal route answers a body with the same fields as unprocessable (422).
\<close>

theorem malformed_session_query:
  assumes "in_method rq = ''GET''" and "in_path rq = ''/config''"
    and "boundary_refusal (ap_settings a) rq = None"
    and "authorized sv lib a rq ''provisioning:read'' w = (Inr p, w1)"
    and "ap_sip_browser a = Some m" and "config_query rq = Inr q" and "parse_sip_action q = Inl e"
    and "in_method rq' = ''POST''" and "in_path rq' = ''/renew''"
    and "boundary_refusal (ap_settings a) rq' = None"
    and "authorized sv lib a rq' ''identity:rotate'' v = (Inr p', v1)"
    and "body_json sv rq' = Inr (Some doc)" and "wf_sip_action web doc = Some q"
  shows "handle sv lib web a rq w = (\<lparr>rs_status = 500, rs_body = InternalServerError, rs_headers = []\<rparr>, w1) \<and>
    handle sv lib web a rq' v = (\<lparr>rs_status = 422, rs_body = Detail ''request_validation_failed'',
      rs_headers = response_headers\<rparr>, v1)"
proof
  have e: "e = ValidationError"
    using assms(7) by (auto simp: parse_sip_action_def Let_def split: if_splits)
  have "route_of (in_method rq) (in_path rq) = Some SessionConfig"
    unfolding assms(1,2) by code_simp
  then have "serve sv lib web a rq w = (Inl ValidationError, w1)"
    using assms(4-7) by (simp add: serve_def answered_def sip_browser_config_def with_manager_def
        hbind_def hlift_def e)
  then show "handle sv lib web a rq w =
      (\<lparr>rs_status = 500, rs_body = InternalServerError, rs_headers = []\<rparr>, w1)"
    by (simp add: handle_def security_boundary_def assms(3) handled_def)
  have "route_of (in_method rq') (in_path rq') = Some RenewSession"
    unfolding assms(8,9) by code_simp
  then have "serve sv lib web a rq' v = (Inl RequestValidationError, v1)"
    using assms(7,11-13) by (simp add: serve_def answered_def with_body_def parsed_body_def hbind_def hlift_def)
  then show "handle sv lib web a rq' v = (\<lparr>rs_status = 422, rs_body = Detail ''request_validation_failed'',
      rs_headers = response_headers\<rparr>, v1)"
    by (simp add: handle_def security_boundary_def assms(10) handled_def)
qed

section \<open>A sample service\<close>

text \<open>
  A service without adapters that issues a token of the sample library, over the store of the sample
  submission; its only client sends the documents below.
\<close>

definition sample_app :: app where
  "sample_app = \<lparr>ap_settings = sample_policy, ap_adapters = [], ap_sip_browser = Some sample_manager,
     ap_disabled_adapters = []\<rparr>"

definition sample_server :: "unit services" where
  "sample_server = (sample_services (\<lambda>_ e. (NetworkFailure, e)))\<lparr>sv_json_loads := (\<lambda>_. Some JNull)\<rparr>"

definition sample_web :: web_framework where
  "sample_web = \<lparr>wf_execution = (\<lambda>_. None), wf_action = (\<lambda>_. None),
     wf_envelope = (\<lambda>_. Some \<lparr>raw_timestamp = Aware (seconds 4600) (seconds 3600),
       raw_fields = \<lparr>schema_version = ''1.0'', request_id = ''request-1'',
         correlation_id = ''correlation-1'', idempotency_key = ''idempotency-key-1'',
         employee_id = ''employee-0001'', target_system = Odoo, operation = Update, timestamp = 0\<rparr>\<rparr>),
     wf_sip_request = (\<lambda>_. None),
     wf_sip_action = (\<lambda>_. Some \<lparr>sa_session_id = ''x'', sa_browser_session_binding = ''y''\<rparr>),
     wf_unmatched = (\<lambda>_ _. (404, Detail ''Not Found''))\<rparr>"

definition sample_incoming :: "string \<Rightarrow> string \<Rightarrow> (string \<times> string) list \<Rightarrow> string \<Rightarrow> incoming" where
  "sample_incoming verb path query body =
     \<lparr>in_method = verb, in_path = path, in_scheme = ''https'', in_content_length = None, in_query = query,
      in_authorization = Some ''Bearer abc'', in_json = True, in_body = body\<rparr>"

definition sample_get :: incoming where
  "sample_get = sample_incoming ''GET'' ''/v1/provisioning/requests/request-1'' [] ''{}''"

definition sample_running_service :: "unit world" where
  "sample_running_service = \<lparr>w_db = sample_db, w_env = ()\<rparr>"

definition sample_handle :: "incoming \<Rightarrow> unit world \<Rightarrow> response \<times> unit world" where
  "sample_handle = handle sample_server (sample_jwt 950 1010) sample_web sample_app"

lemma sample_get_route: "route_of (in_method sample_get) (in_path sample_get) = Some (GetRequest ''request-1'')"
  by code_simp

lemma sample_answered: "\<not> is_error (rs_body (fst (sample_handle sample_get sample_running_service)))"
  by code_simp

theorem service_refines_machine_witness:
  "\<exists>k \<le> 1. reachable (\<lambda>s. s) (0 + k)
     (w_db (service_run sample_server (sample_jwt 950 1010) sample_web sample_app
        [Started, Served sample_get, WorkerPassed] sample_running_service))"
proof -
  have "reachable (sv_sha256 sample_server) 0 (w_db sample_running_service)"
    using sample_db_reachable by (simp add: sample_server_def sample_services_def sample_running_service_def)
  from service_refines_machine [OF this, of "[Started, Served sample_get, WorkerPassed]"]
  show ?thesis by (auto simp: sample_server_def sample_services_def)
qed

theorem token_serves_once_witness:
  "is_error (rs_body (fst (sample_handle sample_get
     (service_run sample_server (sample_jwt 950 1010) sample_web sample_app [WorkerPassed]
       (snd (sample_handle sample_get sample_running_service))))))"
proof -
  let ?lib = "sample_jwt 950 1010 :: unit jwt_library"
  obtain resp w1 where first: "sample_handle sample_get sample_running_service = (resp, w1)"
    by (cases "sample_handle sample_get sample_running_service")
  have header: "in_authorization sample_get = Some ''Bearer abc''"
    by (simp add: sample_get_def sample_incoming_def)
  have token: "presented ?lib ''Bearer abc'' = Some (''jti-1'', 1010)" by code_simp
  have clock: "clock_until sample_server 1010"
    by (simp add: clock_until_def sample_server_def sample_services_def seconds_def epoch_seconds_def)
  have scope: "route_scope (GetRequest ''request-1'') = Some ''provisioning:read''" by simp
  have data: "\<not> is_error (rs_body resp)" using sample_answered by (simp add: first)
  note once = token_serves_once [OF first [unfolded sample_handle_def] data sample_get_route scope header token
      clock refl sample_get_route scope header token]
  show ?thesis using once [of "[WorkerPassed]"] by (simp add: first) (simp add: sample_handle_def)
qed

text \<open>The store of a session that has been revoked.\<close>

definition sample_revoked :: "unit world" where
  "sample_revoked = \<lparr>w_db = snd (revoke_sip_browser_session 20 ''session-1'' sample_session_db), w_env = ()\<rparr>"

definition sample_revoked_row :: sip_session_row where
  "sample_revoked_row = hd (tbl_sip_browser_sessions (w_db sample_revoked))"

theorem service_sessions_exclusive_witness:
  "\<not> is_active sample_revoked_row \<and>
   sample_revoked_row \<in> set (tbl_sip_browser_sessions (w_db (service_run sample_server (sample_jwt 950 1010)
     sample_web sample_app [Started, Served sample_get, WorkerPassed] sample_revoked)))"
proof
  show ended: "\<not> is_active sample_revoked_row" by code_simp
  have "tbl_sip_browser_sessions (w_db sample_revoked) \<noteq> []" by code_simp
  then have "sample_revoked_row \<in> set (tbl_sip_browser_sessions (w_db sample_revoked))"
    by (simp add: sample_revoked_row_def)
  moreover have "sip_inv (w_db sample_revoked)"
  proof -
    have "sip_inv sample_session_db"
      using sip_step_inv [OF sip_step.creates, of empty_db 10 sample_session]
      by (simp add: sample_session_db_def sip_inv_def)
    from sip_step_inv [OF sip_step.revokes this] show ?thesis by (simp add: sample_revoked_def)
  qed
  from service_sessions_exclusive [OF this refl refl, where sv = sample_server and events = "[]"
      and sv' = sample_server and lib' = "sample_jwt 950 1010" and web' = sample_web and a' = sample_app
      and events' = "[Started, Served sample_get, WorkerPassed]"]
  have "{r \<in> set (tbl_sip_browser_sessions (w_db sample_revoked)). \<not> is_active r} \<subseteq>
      set (tbl_sip_browser_sessions (w_db (service_run sample_server (sample_jwt 950 1010) sample_web sample_app
        [Started, Served sample_get, WorkerPassed] sample_revoked)))"
    by (simp add: service_run_def)
  ultimately show "sample_revoked_row \<in> set (tbl_sip_browser_sessions (w_db (service_run sample_server
      (sample_jwt 950 1010) sample_web sample_app [Started, Served sample_get, WorkerPassed] sample_revoked)))"
    using ended by blast
qed

text \<open>The same request over plain HTTP, and with another client's scheme of authorization.\<close>

theorem unauthorized_request_changes_nothing_witness:
  "is_error (rs_body (fst (sample_handle (sample_get\<lparr>in_scheme := ''http''\<rparr>) sample_running_service))) \<and>
   auth_frame sample_db (w_db (snd (sample_handle (sample_get\<lparr>in_authorization := Some ''Basic abc''\<rparr>)
     sample_running_service)))"
proof
  have scope: "route_scope (GetRequest ''request-1'') = Some ''provisioning:read''" by simp
  have plain: "route_of (in_method (sample_get\<lparr>in_scheme := ''http''\<rparr>))
      (in_path (sample_get\<lparr>in_scheme := ''http''\<rparr>)) = Some (GetRequest ''request-1'')"
    using sample_get_route by simp
  show "is_error (rs_body (fst (sample_handle (sample_get\<lparr>in_scheme := ''http''\<rparr>) sample_running_service)))"
    unfolding sample_handle_def
    by (rule unauthorized_request_changes_nothing [OF plain scope, THEN conjunct1]) simp
  let ?basic = "sample_get\<lparr>in_authorization := Some ''Basic abc''\<rparr>"
  have basic: "route_of (in_method ?basic) (in_path ?basic) = Some (GetRequest ''request-1'')"
    using sample_get_route by simp
  have "isl (fst (authorized sample_server (sample_jwt 950 1010) sample_app ?basic ''provisioning:read''
      sample_running_service))"
    by code_simp
  then have "\<forall>p. fst (authorized sample_server (sample_jwt 950 1010) sample_app ?basic ''provisioning:read''
      sample_running_service) \<noteq> Inr p"
    by (auto simp: isl_def)
  note refused = unauthorized_request_changes_nothing [OF basic scope disjI2 [OF disjI2 [OF this]]]
  then show "auth_frame sample_db (w_db (snd (sample_handle ?basic sample_running_service)))"
    using refused [of sample_web] by (simp add: sample_handle_def sample_running_service_def)
qed

definition sample_config :: incoming where
  "sample_config = sample_incoming ''GET'' ''/config''
     [(''session_id'', ''x''), (''browser_session_binding'', ''y'')] []"

definition sample_renewal :: incoming where
  "sample_renewal = sample_incoming ''POST'' ''/renew'' [] ''{}''"

theorem malformed_session_query_witness:
  "rs_status (fst (sample_handle sample_config sample_running_service)) = 500 \<and>
   rs_status (fst (sample_handle sample_renewal sample_running_service)) = 422"
proof -
  let ?auth = "\<lambda>rq scope. authorized sample_server (sample_jwt 950 1010) sample_app rq scope sample_running_service"
  have "\<not> isl (fst (?auth sample_config ''provisioning:read''))"
    and "\<not> isl (fst (?auth sample_renewal ''identity:rotate''))"
    by code_simp+
  then obtain p w1 p' v1 where
    auth: "?auth sample_config ''provisioning:read'' = (Inr p, w1)" "?auth sample_renewal ''identity:rotate'' = (Inr p', v1)"
    by (metis isl_def prod.collapse sum.exhaust_sel)
  have bounds: "boundary_refusal (ap_settings sample_app) sample_config = None"
    "boundary_refusal (ap_settings sample_app) sample_renewal = None"
    by code_simp+
  have query: "config_query sample_config = Inr \<lparr>sa_session_id = ''x'', sa_browser_session_binding = ''y''\<rparr>"
    "parse_sip_action \<lparr>sa_session_id = ''x'', sa_browser_session_binding = ''y''\<rparr> = Inl ValidationError"
    by code_simp+
  have manager: "ap_sip_browser sample_app = Some sample_manager"
    and body: "body_json sample_server sample_renewal = Inr (Some JNull)"
    and fields: "wf_sip_action sample_web JNull = Some \<lparr>sa_session_id = ''x'', sa_browser_session_binding = ''y''\<rparr>"
    by (simp_all add: sample_app_def body_json_def sample_renewal_def sample_incoming_def sample_server_def sample_web_def)
  have names: "in_method sample_config = ''GET''" "in_path sample_config = ''/config''"
    "in_method sample_renewal = ''POST''" "in_path sample_renewal = ''/renew''"
    by (simp_all add: sample_config_def sample_renewal_def sample_incoming_def)
  from malformed_session_query [OF names(1,2) bounds(1) auth(1) manager query names(3,4) bounds(2) auth(2) body fields]
  show ?thesis by (simp add: sample_handle_def)
qed

end
