(* ===== verification/Mailbox.thy ===== *)
theory Mailbox
  imports World Step_History
begin

text \<open>
  The mailbox provisioning service (\<^verbatim>\<open>app/mailbox.py\<close>): its own store of mailboxes and of the requests
  that provisioned them, the steps of a provisioning, and the life cycle. The provider is an
  interface; \<open>mailbox_provider\<close> holds its operations, which act on an environment of unknown type and
  may raise. An answer that is not of its documented type (an external id that is not a text, aliases
  that are not texts) raises here; timestamps are instants.
\<close>

section \<open>Errors and records\<close>

datatype mailbox_error =
    MailboxProviderError string
  | MailboxProviderUnavailable string
  | AddressCollision string
  | LicenseExhausted string
  | InvalidMailboxState string
  | OtherException repo_error

fun error_code :: "mailbox_error \<Rightarrow> string option" where
  "error_code (MailboxProviderError _) = Some ''provider_error''"
| "error_code (MailboxProviderUnavailable _) = Some ''provider_timeout''"
| "error_code (AddressCollision _) = Some ''address_collision''"
| "error_code (LicenseExhausted _) = Some ''license_exhaustion''"
| "error_code (InvalidMailboxState _) = Some ''invalid_mailbox_state''"
| "error_code (OtherException _) = None"

record mailbox_record =
  mb_email_address :: string
  mb_provider :: string
  mb_external_mailbox_id :: string
  mb_aliases :: "string list"
  mb_provisioning_state :: string
  mb_created_at :: time
  mb_activated_at :: "time option"
  mb_suspended_at :: "time option"
  mb_terminated_at :: "time option"
  mb_credential_reference :: string

record mailbox_request_row =
  mr_idempotency_key :: string
  mr_request_hash :: string
  mr_email_address :: string

record mailbox_db =
  tbl_mailboxes :: "mailbox_record list"
  tbl_mailbox_requests :: "mailbox_request_row list"

definition empty_mailbox_db :: mailbox_db where
  "empty_mailbox_db = \<lparr>tbl_mailboxes = [], tbl_mailbox_requests = []\<rparr>"

section \<open>The provider\<close>

record 'e mailbox_world =
  mw_db :: mailbox_db
  mw_env :: 'e

type_synonym ('e, 'a) call = "'e \<Rightarrow> (mailbox_error + 'a) \<times> 'e"

record 'e mailbox_provider =
  mp_check_availability :: "string \<Rightarrow> ('e, bool) call"
  mp_reserve_address :: "string \<Rightarrow> string \<Rightarrow> ('e, dict) call"
  mp_create_mailbox_disabled :: "string \<Rightarrow> string \<Rightarrow> ('e, dict) call"
  mp_assign_license :: "string \<Rightarrow> string \<Rightarrow> ('e, dict) call"
  mp_create_alias :: "string \<Rightarrow> string \<Rightarrow> string \<Rightarrow> ('e, dict) call"
  mp_send_activation :: "string \<Rightarrow> string \<Rightarrow> string \<Rightarrow> ('e, dict) call"
  mp_verify_mailbox :: "string \<Rightarrow> ('e, dict) call"
  mp_activate_mailbox :: "string \<Rightarrow> string \<Rightarrow> string \<Rightarrow> ('e, dict) call"
  mp_suspend_mailbox :: "string \<Rightarrow> string \<Rightarrow> ('e, dict) call"
  mp_reactivate_mailbox :: "string \<Rightarrow> string \<Rightarrow> ('e, dict) call"
  mp_terminate_mailbox :: "string \<Rightarrow> string \<Rightarrow> ('e, dict) call"
  mp_reconcile_mailbox :: "string \<Rightarrow> ('e, dict) call"

text \<open>The provider of a service that has none: every operation raises.\<close>

definition blocked :: "('e, 'a) call" where
  "blocked e = (Inl (MailboxProviderUnavailable ''mailbox_provider_not_configured''), e)"

definition disabled_mailbox_provider :: "'e mailbox_provider" where
  "disabled_mailbox_provider =
     \<lparr>mp_check_availability = (\<lambda>_. blocked), mp_reserve_address = (\<lambda>_ _. blocked),
      mp_create_mailbox_disabled = (\<lambda>_ _. blocked), mp_assign_license = (\<lambda>_ _. blocked),
      mp_create_alias = (\<lambda>_ _ _. blocked), mp_send_activation = (\<lambda>_ _ _. blocked),
      mp_verify_mailbox = (\<lambda>_. blocked), mp_activate_mailbox = (\<lambda>_ _ _. blocked),
      mp_suspend_mailbox = (\<lambda>_ _. blocked), mp_reactivate_mailbox = (\<lambda>_ _. blocked),
      mp_terminate_mailbox = (\<lambda>_ _. blocked), mp_reconcile_mailbox = (\<lambda>_. blocked)\<rparr>"

section \<open>Sequencing\<close>

type_synonym ('e, 'a) mailbox_action = "'e mailbox_world \<Rightarrow> (mailbox_error + 'a) \<times> 'e mailbox_world"

definition mreturn :: "'a \<Rightarrow> ('e, 'a) mailbox_action" where
  "mreturn x w = (Inr x, w)"

definition mraise :: "mailbox_error \<Rightarrow> ('e, 'a) mailbox_action" where
  "mraise e w = (Inl e, w)"

definition mbind ::
  "('e, 'a) mailbox_action \<Rightarrow> ('a \<Rightarrow> ('e, 'b) mailbox_action) \<Rightarrow> ('e, 'b) mailbox_action" where
  "mbind m f w = (case m w of (Inl e, w') \<Rightarrow> (Inl e, w') | (Inr x, w') \<Rightarrow> f x w')"

definition provider_call :: "('e, 'a) call \<Rightarrow> ('e, 'a) mailbox_action" where
  "provider_call c w = (let (r, e) = c (mw_env w) in (r, w\<lparr>mw_env := e\<rparr>))"

fun meach :: "('a \<Rightarrow> ('e, 'b) mailbox_action) \<Rightarrow> 'a list \<Rightarrow> ('e, unit) mailbox_action" where
  "meach f [] = mreturn ()"
| "meach f (x # xs) = mbind (f x) (\<lambda>_. meach f xs)"

definition mnow :: "'e services \<Rightarrow> ('e, time) mailbox_action" where
  "mnow sv w = (let (t, e) = sv_now sv (mw_env w) in (Inr t, w\<lparr>mw_env := e\<rparr>))"

section \<open>The store\<close>

definition get_mailbox :: "string \<Rightarrow> mailbox_db \<Rightarrow> mailbox_record option" where
  "get_mailbox email d = sql_first (filter (\<lambda>r. mb_email_address r = email) (tbl_mailboxes d))"

definition request_payload :: "string \<Rightarrow> string list \<Rightarrow> string \<Rightarrow> dict" where
  "request_payload email aliases recipient =
     [(''email_address'', JStr email), (''aliases'', JList (map JStr (sort (remdups aliases)))),
      (''activation_recipient'', JStr recipient)]"

definition request_hash :: "'e services \<Rightarrow> dict \<Rightarrow> string" where
  "request_hash sv body = sv_sha256 sv (compact_json (JObj body))"

definition recorded_request ::
  "'e services \<Rightarrow> string \<Rightarrow> dict \<Rightarrow> mailbox_db \<Rightarrow> mailbox_error + mailbox_record option" where
  "recorded_request sv key body d =
     (case sql_first (filter (\<lambda>r. mr_idempotency_key r = key) (tbl_mailbox_requests d)) of
        None \<Rightarrow> Inr None
      | Some r \<Rightarrow>
          if mr_request_hash r \<noteq> request_hash sv body
          then Inl (AddressCollision ''idempotency_conflict'')
          else Inr (get_mailbox (mr_email_address r) d))"

text \<open>
  The mailbox is inserted, or replaces the one of its address; an external id that another mailbox
  has violates the table's constraint, and the transaction is rolled back. The request is inserted
  unless its key is there.
\<close>

definition save_mailbox ::
  "'e services \<Rightarrow> mailbox_record \<Rightarrow> (string \<times> dict) option \<Rightarrow> mailbox_db \<Rightarrow> (mailbox_error + unit) \<times> mailbox_db" where
  "save_mailbox sv r request d =
     (if \<exists>r' \<in> set (tbl_mailboxes d). mb_email_address r' \<noteq> mb_email_address r \<and>
           mb_external_mailbox_id r' = mb_external_mailbox_id r
      then (Inl (OtherException IntegrityError), d)
      else
        let d' = d\<lparr>tbl_mailboxes := sql_upsert mb_email_address (\<lambda>_. r) r (tbl_mailboxes d)\<rparr>
        in (Inr (), case request of
              None \<Rightarrow> d'
            | Some (key, body) \<Rightarrow>
                if key = [] \<or> (\<exists>q \<in> set (tbl_mailbox_requests d'). mr_idempotency_key q = key) then d'
                else d'\<lparr>tbl_mailbox_requests := tbl_mailbox_requests d' @
                       [\<lparr>mr_idempotency_key = key, mr_request_hash = request_hash sv body,
                         mr_email_address = mb_email_address r\<rparr>]\<rparr>))"

definition store_mailbox ::
  "'e services \<Rightarrow> mailbox_record \<Rightarrow> (string \<times> dict) option \<Rightarrow> ('e, unit) mailbox_action" where
  "store_mailbox sv r request w =
     (let (x, d) = save_mailbox sv r request (mw_db w) in (x, w\<lparr>mw_db := d\<rparr>))"

section \<open>The service\<close>

record 'e mailbox_service =
  ms_provider_name :: string
  ms_provider :: "'e mailbox_provider"
  ms_credential_reference :: string

text \<open>\<open>json.dumps(...).lower()\<close> is searched; the order of the members makes no difference to that.\<close>

definition mentions_password :: "dict \<Rightarrow> bool" where
  "mentions_password body \<longleftrightarrow> contains (str_lower (default_json (JObj body))) ''password''"

definition external_id_of :: "dict \<Rightarrow> ('e, string) mailbox_action" where
  "external_id_of created =
     (case map_of created ''external_mailbox_id'' of
        None \<Rightarrow> mraise (OtherException KeyError)
      | Some (JStr external_id) \<Rightarrow> mreturn external_id
      | Some _ \<Rightarrow> mraise (OtherException TypeError))"

text \<open>The calls of a provisioning, up to the external id of the mailbox.\<close>

definition provider_steps ::
  "'e mailbox_provider \<Rightarrow> string \<Rightarrow> string list \<Rightarrow> string \<Rightarrow> string \<Rightarrow> ('e, string) mailbox_action" where
  "provider_steps p email aliases recipient key =
     mbind (provider_call (mp_check_availability p email)) (\<lambda>available.
     if \<not> available then mraise (AddressCollision ''address_collision'')
     else
     mbind (provider_call (mp_reserve_address p email (key @ '':reserve''))) (\<lambda>_.
     mbind (provider_call (mp_create_mailbox_disabled p email (key @ '':create''))) (\<lambda>created.
     mbind (external_id_of created) (\<lambda>external_id.
     mbind (provider_call (mp_assign_license p external_id (key @ '':license''))) (\<lambda>_.
     mbind (meach (\<lambda>alias. provider_call (mp_create_alias p external_id alias (key @ '':alias:'' @ alias)))
       (sort (remdups aliases))) (\<lambda>_.
     mbind (provider_call (mp_send_activation p external_id recipient (key @ '':activation''))) (\<lambda>activation.
     if mentions_password activation
     then mraise (MailboxProviderError ''provider_returned_forbidden_secret'')
     else mreturn external_id)))))))"

definition provision ::
  "'e services \<Rightarrow> 'e mailbox_service \<Rightarrow> string \<Rightarrow> string list \<Rightarrow> string \<Rightarrow> string \<Rightarrow>
     ('e, mailbox_record) mailbox_action" where
  "provision sv ms email aliases recipient key =
     (let body = request_payload email aliases recipient in
      mbind (\<lambda>w. (recorded_request sv key body (mw_db w), w)) (\<lambda>replay.
      case replay of
        Some r \<Rightarrow> mreturn r
      | None \<Rightarrow>
          mbind (provider_steps (ms_provider ms) email aliases recipient key) (\<lambda>external_id.
          mbind (mnow sv) (\<lambda>created_at.
          let r = \<lparr>mb_email_address = email, mb_provider = ms_provider_name ms,
                mb_external_mailbox_id = external_id, mb_aliases = sort (remdups aliases),
                mb_provisioning_state = ''awaiting_activation'', mb_created_at = created_at,
                mb_activated_at = None, mb_suspended_at = None, mb_terminated_at = None,
                mb_credential_reference = ms_credential_reference ms\<rparr>
          in mbind (store_mailbox sv r (Some (key, body))) (\<lambda>_. mreturn r)))))"

definition required_mailbox :: "string \<Rightarrow> ('e, mailbox_record) mailbox_action" where
  "required_mailbox email w =
     (case get_mailbox email (mw_db w) of
        None \<Rightarrow> (Inl (InvalidMailboxState ''mailbox_not_found''), w)
      | Some r \<Rightarrow> (Inr r, w))"

definition replace_mailbox :: "'e services \<Rightarrow> mailbox_record \<Rightarrow> ('e, mailbox_record) mailbox_action" where
  "replace_mailbox sv r = mbind (store_mailbox sv r None) (\<lambda>_. mreturn r)"

definition activate_mailbox ::
  "'e services \<Rightarrow> 'e mailbox_service \<Rightarrow> string \<Rightarrow> string \<Rightarrow> string \<Rightarrow> ('e, mailbox_record) mailbox_action" where
  "activate_mailbox sv ms email token key =
     mbind (required_mailbox email) (\<lambda>r.
     mbind (provider_call (mp_activate_mailbox (ms_provider ms) (mb_external_mailbox_id r) token key)) (\<lambda>result.
     if dict_get result ''state'' \<noteq> JStr ''active''
     then mraise (InvalidMailboxState ''activation_not_confirmed'')
     else mbind (mnow sv) (\<lambda>t.
       replace_mailbox sv (r\<lparr>mb_provisioning_state := ''active'', mb_activated_at := Some t\<rparr>))))"

definition suspend_mailbox ::
  "'e services \<Rightarrow> 'e mailbox_service \<Rightarrow> string \<Rightarrow> string \<Rightarrow> ('e, mailbox_record) mailbox_action" where
  "suspend_mailbox sv ms email key =
     mbind (required_mailbox email) (\<lambda>r.
     mbind (provider_call (mp_suspend_mailbox (ms_provider ms) (mb_external_mailbox_id r) key)) (\<lambda>_.
     mbind (mnow sv) (\<lambda>t.
     replace_mailbox sv (r\<lparr>mb_provisioning_state := ''suspended'', mb_suspended_at := Some t\<rparr>))))"

definition reactivate_mailbox ::
  "'e services \<Rightarrow> 'e mailbox_service \<Rightarrow> string \<Rightarrow> string \<Rightarrow> ('e, mailbox_record) mailbox_action" where
  "reactivate_mailbox sv ms email key =
     mbind (required_mailbox email) (\<lambda>r.
     mbind (provider_call (mp_reactivate_mailbox (ms_provider ms) (mb_external_mailbox_id r) key)) (\<lambda>_.
     replace_mailbox sv (r\<lparr>mb_provisioning_state := ''active'', mb_suspended_at := None\<rparr>)))"

definition terminate_mailbox ::
  "'e services \<Rightarrow> 'e mailbox_service \<Rightarrow> string \<Rightarrow> string \<Rightarrow> ('e, mailbox_record) mailbox_action" where
  "terminate_mailbox sv ms email key =
     mbind (required_mailbox email) (\<lambda>r.
     mbind (provider_call (mp_terminate_mailbox (ms_provider ms) (mb_external_mailbox_id r) key)) (\<lambda>_.
     mbind (mnow sv) (\<lambda>t.
     replace_mailbox sv (r\<lparr>mb_provisioning_state := ''terminated'', mb_terminated_at := Some t\<rparr>))))"

text \<open>The aliases the provider reports.\<close>

definition reported_aliases :: "dict \<Rightarrow> string list res" where
  "reported_aliases actual =
     (case dict_get_default actual ''aliases'' (JList []) of
        JList vs \<Rightarrow> map_res (\<lambda>v. case v of JStr s \<Rightarrow> Inr s | _ \<Rightarrow> Inl TypeError) vs
      | _ \<Rightarrow> Inl TypeError)"

definition reconcile_mailbox ::
  "'e mailbox_service \<Rightarrow> string \<Rightarrow> ('e, dict) mailbox_action" where
  "reconcile_mailbox ms email =
     mbind (required_mailbox email) (\<lambda>r.
     mbind (provider_call (mp_reconcile_mailbox (ms_provider ms) (mb_external_mailbox_id r))) (\<lambda>actual.
     let same_state = (dict_get actual ''state'' = JStr (mb_provisioning_state r));
         answer = (\<lambda>aligned. [(''aligned'', JBool aligned), (''expected_state'', JStr (mb_provisioning_state r)),
           (''actual_state'', dict_get actual ''state'')])
     in if \<not> same_state then mreturn (answer False)
        else case reported_aliases actual of
          Inl e \<Rightarrow> mraise (OtherException e)
        | Inr aliases \<Rightarrow> mreturn (answer (sort aliases = sort (mb_aliases r)))))"

definition verify_mailbox :: "'e mailbox_service \<Rightarrow> string \<Rightarrow> ('e, dict) mailbox_action" where
  "verify_mailbox ms email =
     mbind (required_mailbox email) (\<lambda>r.
     provider_call (mp_verify_mailbox (ms_provider ms) (mb_external_mailbox_id r)))"

section \<open>Configuration\<close>

definition approved_providers :: "string list" where
  "approved_providers = [''google_workspace'', ''microsoft_365'', ''cpanel_whm'', ''hosted_mail'']"

definition configured_mailbox_provider :: "environment \<Rightarrow> 'e mailbox_service" where
  "configured_mailbox_provider env =
     (let provider = str_strip (getenv env ''CODESTRA_MAILBOX_PROVIDER'' []);
          reference = str_strip (getenv env ''CODESTRA_MAILBOX_CREDENTIAL_REFERENCE'' [])
      in if provider \<notin> set approved_providers \<or> reference = []
         then \<lparr>ms_provider_name = ''unconfigured'', ms_provider = disabled_mailbox_provider,
           ms_credential_reference = ''unconfigured''\<rparr>
         else \<lparr>ms_provider_name = provider, ms_provider = disabled_mailbox_provider,
           ms_credential_reference = reference\<rparr>)"

section \<open>Histories of calls\<close>

datatype mailbox_event =
    Provision string "string list" string string
  | ActivateMailbox string string string
  | SuspendMailbox string string
  | ReactivateMailbox string string
  | TerminateMailbox string string
  | ReconcileMailbox string
  | VerifyMailbox string

fun mailbox_perform ::
  "'e services \<Rightarrow> 'e mailbox_service \<Rightarrow> mailbox_event \<Rightarrow> 'e mailbox_world \<Rightarrow> 'e mailbox_world" where
  "mailbox_perform sv ms (Provision email aliases recipient key) w =
     snd (provision sv ms email aliases recipient key w)"
| "mailbox_perform sv ms (ActivateMailbox email token key) w = snd (activate_mailbox sv ms email token key w)"
| "mailbox_perform sv ms (SuspendMailbox email key) w = snd (suspend_mailbox sv ms email key w)"
| "mailbox_perform sv ms (ReactivateMailbox email key) w = snd (reactivate_mailbox sv ms email key w)"
| "mailbox_perform sv ms (TerminateMailbox email key) w = snd (terminate_mailbox sv ms email key w)"
| "mailbox_perform sv ms (ReconcileMailbox email) w = snd (reconcile_mailbox ms email w)"
| "mailbox_perform sv ms (VerifyMailbox email) w = snd (verify_mailbox ms email w)"

definition mailbox_history ::
  "'e services \<Rightarrow> 'e mailbox_service \<Rightarrow> mailbox_event list \<Rightarrow> 'e mailbox_world \<Rightarrow> 'e mailbox_world" where
  "mailbox_history sv ms calls w = fold (mailbox_perform sv ms) calls w"

section \<open>What a save keeps\<close>

definition saves :: "'e services \<Rightarrow> mailbox_db \<Rightarrow> mailbox_db \<Rightarrow> bool" where
  "saves sv d d' \<longleftrightarrow> (\<exists>r request. d' = snd (save_mailbox sv r request d))"

text \<open>The hash and the address a key is recorded with, and whether an address has a mailbox.\<close>

definition recorded_key :: "mailbox_db \<Rightarrow> string \<Rightarrow> (string \<times> string) option" where
  "recorded_key d key =
     map_option (\<lambda>r. (mr_request_hash r, mr_email_address r))
       (sql_first (filter (\<lambda>r. mr_idempotency_key r = key) (tbl_mailbox_requests d)))"

definition has_mailbox :: "mailbox_db \<Rightarrow> string \<Rightarrow> unit option" where
  "has_mailbox d email =
     (if \<exists>r \<in> set (tbl_mailboxes d). mb_email_address r = email then Some () else None)"

lemma has_mailbox_iff:
  "has_mailbox d email = Some () \<longleftrightarrow> (\<exists>r \<in> set (tbl_mailboxes d). mb_email_address r = email)"
  by (simp add: has_mailbox_def)

lemma save_mailboxes:
  "tbl_mailboxes (snd (save_mailbox sv r request d)) \<in>
     {tbl_mailboxes d, sql_upsert mb_email_address (\<lambda>_. r) r (tbl_mailboxes d)}"
  by (auto simp: save_mailbox_def Let_def split: option.split)

lemma get_mailbox_has: "has_mailbox d email = Some () \<longleftrightarrow> get_mailbox email d \<noteq> None"
  by (auto simp: has_mailbox_def get_mailbox_def filter_empty_conv)

lemma save_requests:
  "tbl_mailbox_requests (snd (save_mailbox sv r request d)) = tbl_mailbox_requests d \<or>
   (\<exists>key body. request = Some (key, body) \<and>
      filter (\<lambda>q. mr_idempotency_key q = key) (tbl_mailbox_requests d) = [] \<and>
      has_mailbox (snd (save_mailbox sv r request d)) (mb_email_address r) = Some () \<and>
      tbl_mailbox_requests (snd (save_mailbox sv r request d)) = tbl_mailbox_requests d @
        [\<lparr>mr_idempotency_key = key, mr_request_hash = request_hash sv body,
          mr_email_address = mb_email_address r\<rparr>])"
proof -
  have "\<exists>r' \<in> set (sql_upsert mb_email_address (\<lambda>_. r) r (tbl_mailboxes d)). mb_email_address r' = mb_email_address r"
    using sql_upsert_mem [of mb_email_address "\<lambda>_. r" r "tbl_mailboxes d"] by blast
  then show ?thesis
    by (auto simp: save_mailbox_def Let_def has_mailbox_def filter_empty_conv split: option.splits)
qed

lemma save_has_mailbox:
  assumes "has_mailbox d email = Some ()"
  shows "has_mailbox (snd (save_mailbox sv r request d)) email = Some ()"
proof -
  obtain r0 where r0: "r0 \<in> set (tbl_mailboxes d)" "mb_email_address r0 = email"
    using assms by (auto simp: has_mailbox_iff)
  have "\<exists>r' \<in> set (sql_upsert mb_email_address (\<lambda>_. r) r (tbl_mailboxes d)). mb_email_address r' = email"
    using sql_update_memI [OF r0(1), of "\<lambda>x. mb_email_address x = mb_email_address r" "\<lambda>_. r"] r0
    by (auto simp: sql_upsert_def split: if_splits)
  then show ?thesis
    using r0 save_mailboxes [of sv r request d] unfolding has_mailbox_iff by auto
qed

interpretation recorded: write_once recorded_key "saves sv" "\<lambda>_. True"
proof
  fix d d' key v
  assume "saves sv d d'" and known: "recorded_key d key = Some v"
  then obtain r request where d': "d' = snd (save_mailbox sv r request d)" by (auto simp: saves_def)
  have "filter (\<lambda>q. mr_idempotency_key q = key) (tbl_mailbox_requests d) \<noteq> []"
    using known by (auto simp: recorded_key_def)
  then have "sql_first (filter (\<lambda>q. mr_idempotency_key q = key) (tbl_mailbox_requests d')) =
      sql_first (filter (\<lambda>q. mr_idempotency_key q = key) (tbl_mailbox_requests d))"
    using save_requests [of sv r request d] unfolding d'
    by (cases "filter (\<lambda>q. mr_idempotency_key q = key) (tbl_mailbox_requests d)") auto
  then show "recorded_key d' key = Some v" using known by (simp add: recorded_key_def)
qed simp

interpretation existing: write_once has_mailbox "saves sv" "\<lambda>_. True"
  by unfold_locales (auto simp: saves_def save_has_mailbox)

text \<open>Every recorded request has its mailbox.\<close>

definition requests_served :: "mailbox_db \<Rightarrow> bool" where
  "requests_served d \<longleftrightarrow>
     list_all (\<lambda>q. has_mailbox d (mr_email_address q) = Some ()) (tbl_mailbox_requests d)"

lemma saves_served:
  assumes "saves sv d d'" and "requests_served d"
  shows "requests_served d'"
proof -
  obtain r request where d': "d' = snd (save_mailbox sv r request d)"
    using assms(1) by (auto simp: saves_def)
  have "list_all (\<lambda>q. has_mailbox d' (mr_email_address q) = Some ()) (tbl_mailbox_requests d)"
    using assms(2) by (auto simp: requests_served_def list_all_iff d' intro: save_has_mailbox)
  then show ?thesis
    using save_requests [of sv r request d] unfolding requests_served_def d' by auto
qed

text \<open>The calls of the service change the store by saves.\<close>

definition mkeeps :: "(mailbox_db \<Rightarrow> mailbox_db \<Rightarrow> bool) \<Rightarrow> ('e, 'a) mailbox_action \<Rightarrow> bool" where
  "mkeeps R m \<longleftrightarrow> (\<forall>w. R\<^sup>*\<^sup>* (mw_db w) (mw_db (snd (m w))))"

lemma mkeeps_intros:
  "mkeeps R (mreturn x)" "mkeeps R (mraise e)" "mkeeps R (provider_call c)" "mkeeps R (mnow sv)"
  "mkeeps R (required_mailbox email)" "mkeeps R (\<lambda>w. (f (mw_db w), w))"
  by (auto simp: mkeeps_def mreturn_def mraise_def provider_call_def mnow_def required_mailbox_def
      split: prod.split option.split)

lemma mkeeps_store: "mkeeps (saves sv) (store_mailbox sv r request)"
  unfolding mkeeps_def store_mailbox_def saves_def
  by (auto simp: split_beta intro!: r_into_rtranclp; blast)

lemma mkeeps_bind: "mkeeps R m \<Longrightarrow> (\<And>x. mkeeps R (f x)) \<Longrightarrow> mkeeps R (mbind m f)"
  by (fastforce simp: mkeeps_def mbind_def split: prod.split sum.split
      dest: arg_cong [where f = snd] intro: rtranclp_trans)

lemma mkeeps_if: "mkeeps R m \<Longrightarrow> mkeeps R m' \<Longrightarrow> mkeeps R (if c then m else m')"
  by simp

lemma mkeeps_option: "mkeeps R m \<Longrightarrow> (\<And>x. mkeeps R (f x)) \<Longrightarrow> mkeeps R (case v of None \<Rightarrow> m | Some x \<Rightarrow> f x)"
  by (cases v) simp_all

lemma mkeeps_sum: "(\<And>e. mkeeps R (f e)) \<Longrightarrow> (\<And>x. mkeeps R (g x)) \<Longrightarrow> mkeeps R (case v of Inl e \<Rightarrow> f e | Inr x \<Rightarrow> g x)"
  by (cases v) simp_all

lemma mkeeps_each: "(\<And>x. mkeeps R (f x)) \<Longrightarrow> mkeeps R (meach f xs)"
  by (induction xs) (simp_all add: mkeeps_intros mkeeps_bind)

lemmas mkeeps_rules = mkeeps_intros mkeeps_store mkeeps_bind mkeeps_if mkeeps_option mkeeps_sum mkeeps_each

lemma mkeeps_external_id: "mkeeps R (external_id_of created)"
  by (auto simp: external_id_of_def intro!: mkeeps_rules split: option.split json.split)

lemma mkeeps_service:
  "mkeeps (saves sv) (provision sv ms email aliases recipient key)"
  "mkeeps (saves sv) (activate_mailbox sv ms email token key)"
  "mkeeps (saves sv) (suspend_mailbox sv ms email key)"
  "mkeeps (saves sv) (reactivate_mailbox sv ms email key)"
  "mkeeps (saves sv) (terminate_mailbox sv ms email key)"
  "mkeeps (saves sv) (reconcile_mailbox ms email)"
  "mkeeps (saves sv) (verify_mailbox ms email)"
  unfolding provision_def provider_steps_def activate_mailbox_def suspend_mailbox_def reactivate_mailbox_def
    terminate_mailbox_def reconcile_mailbox_def verify_mailbox_def replace_mailbox_def Let_def
  by (intro mkeeps_rules mkeeps_external_id)+

lemma history_saves: "(saves sv)\<^sup>*\<^sup>* (mw_db w) (mw_db (mailbox_history sv ms calls w))"
proof (induction calls arbitrary: w)
  case (Cons call calls)
  have "(saves sv)\<^sup>*\<^sup>* (mw_db w) (mw_db (mailbox_perform sv ms call w))"
    using mkeeps_service [of sv] by (cases call) (simp_all add: mkeeps_def)
  from rtranclp_trans [OF this Cons.IH] show ?case by (simp add: mailbox_history_def)
qed (simp add: mailbox_history_def)

section \<open>Replays and the missing provider\<close>

text \<open>The calls to the provider leave the store as it is.\<close>

lemma quiet_provider_steps: "mkeeps (=) (provider_steps p email aliases recipient key)"
  unfolding provider_steps_def by (intro mkeeps_rules mkeeps_external_id)+

lemma quietD:
  assumes "mkeeps (=) m" and "m w = (x, w')"
  shows "mw_db w' = mw_db w"
proof -
  have "(=)\<^sup>*\<^sup>* (mw_db w) (mw_db w')" using assms unfolding mkeeps_def by (metis snd_conv)
  then show ?thesis by (induction rule: rtranclp_induct) simp_all
qed

lemma mbind_InrE:
  assumes "mbind m f w = (Inr y, w')"
  obtains x w1 where "m w = (Inr x, w1)" and "f x w1 = (Inr y, w')"
  using assms by (auto simp: mbind_def split: prod.splits sum.splits)

lemma get_mailbox_email: "get_mailbox email d = Some r \<Longrightarrow> mb_email_address r = email"
  by (auto simp: get_mailbox_def dest!: sql_first_Some_mem)

lemma recorded_request_conv:
  "recorded_request sv key body d =
     (case recorded_key d key of
        None \<Rightarrow> Inr None
      | Some (h, email) \<Rightarrow>
          if h \<noteq> request_hash sv body then Inl (AddressCollision ''idempotency_conflict'')
          else Inr (get_mailbox email d))"
  by (simp add: recorded_request_def recorded_key_def split: option.split)

lemma served_mailbox:
  assumes "requests_served d" and "recorded_key d key = Some (h, email)"
  shows "get_mailbox email d \<noteq> None"
proof -
  obtain q where "q \<in> set (tbl_mailbox_requests d)" "mr_email_address q = email"
    using assms(2) by (auto simp: recorded_key_def dest!: sql_first_Some_mem)
  then show ?thesis
    using assms(1) get_mailbox_has by (auto simp: requests_served_def list_all_iff)
qed

lemma save_records:
  assumes "save_mailbox sv r (Some (key, body)) d = (Inr (), d')" and "key \<noteq> []"
    and "recorded_key d key = None"
  shows "recorded_key d' key = Some (request_hash sv body, mb_email_address r)"
proof -
  have "filter (\<lambda>q. mr_idempotency_key q = key) (tbl_mailbox_requests d) = []"
    using assms(3) by (cases "filter (\<lambda>q. mr_idempotency_key q = key) (tbl_mailbox_requests d)")
      (auto simp: recorded_key_def)
  then show ?thesis
    using assms(1,2) by (auto simp: save_mailbox_def Let_def recorded_key_def filter_empty_conv split: if_splits)
qed

lemma provision_records:
  assumes "provision sv ms email aliases recipient key w = (Inr r, w')" and served: "requests_served (mw_db w)"
    and key: "key \<noteq> []"
  shows "recorded_key (mw_db w') key =
    Some (request_hash sv (request_payload email aliases recipient), mb_email_address r)"
proof -
  let ?body = "request_payload email aliases recipient"
  obtain replay where replay: "recorded_request sv key ?body (mw_db w) = Inr replay"
    using assms(1) unfolding provision_def Let_def by (elim mbind_InrE) simp
  show ?thesis
  proof (cases replay)
    case (Some r0)
    then show ?thesis
      using assms(1) replay
      by (auto simp: provision_def Let_def mbind_def mreturn_def recorded_request_conv
          split: option.splits if_splits dest: get_mailbox_email)
  next
    case None
    then have fresh: "recorded_key (mw_db w) key = None"
      using replay served_mailbox [OF served, of key]
      by (auto simp: recorded_request_conv split: option.splits if_splits)
    obtain x w1 w2 w3 where steps: "provider_steps (ms_provider ms) email aliases recipient key w = (Inr x, w1)"
      and now: "mnow sv w1 = (Inr w3, w2)" and store: "store_mailbox sv r (Some (key, ?body)) w2 = (Inr (), w')"
      using assms(1) replay None unfolding provision_def Let_def
      by (auto simp: mreturn_def elim!: mbind_InrE)
    have "mw_db w2 = mw_db w"
      using quietD [OF quiet_provider_steps steps] quietD [OF mkeeps_intros(4) now] by simp
    then show ?thesis
      using store save_records [OF _ key fresh] by (auto simp: store_mailbox_def split: prod.splits)
  qed
qed

lemma saves_run_served: "(saves sv)\<^sup>*\<^sup>* d d' \<Longrightarrow> requests_served d \<Longrightarrow> requests_served d'"
  by (induction rule: rtranclp_induct) (auto intro: saves_served)

lemma history_served:
  "requests_served (mw_db w) \<Longrightarrow> requests_served (mw_db (mailbox_history sv ms calls w))"
  by (rule saves_run_served [OF history_saves])

text \<open>A provisioning whose key has been recorded is answered from the store.\<close>

lemma provision_recorded:
  assumes "recorded_key (mw_db w) key = Some (h, email')" and "requests_served (mw_db w)"
  shows "provision sv ms email aliases recipient key w =
    (if request_hash sv (request_payload email aliases recipient) = h
     then (Inr (the (get_mailbox email' (mw_db w))), w)
     else (Inl (AddressCollision ''idempotency_conflict''), w))"
  using assms served_mailbox [OF assms(2,1)]
  by (auto simp: provision_def Let_def mbind_def mreturn_def recorded_request_conv)

lemma request_payload_set:
  "set aliases' = set aliases \<Longrightarrow> request_payload email aliases' recipient = request_payload email aliases recipient"
  unfolding request_payload_def sorted_list_of_set_sort_remdups [symmetric] by simp

text \<open>
  C38. A provisioning that succeeded is done once. After any further calls of the service, the same
  request under its key (the aliases in any order, with any repetitions) is answered with the mailbox
  as it then is, and another request under the key is refused as a conflict; in both cases the
  provider is not called and nothing changes.
\<close>

theorem provision_replayed:
  assumes "provision sv ms email aliases recipient key
      (mailbox_history sv ms0 calls0 \<lparr>mw_db = empty_mailbox_db, mw_env = env0\<rparr>) = (Inr r, w1)"
    and "key \<noteq> []" and "w2 = mailbox_history sv ms1 calls1 w1"
  shows "(set aliases' = set aliases \<longrightarrow>
      (\<exists>r'. get_mailbox (mb_email_address r) (mw_db w2) = Some r' \<and>
        provision sv ms' email aliases' recipient key w2 = (Inr r', w2))) \<and>
    (request_hash sv (request_payload email' aliases'' recipient') \<noteq>
       request_hash sv (request_payload email aliases recipient) \<longrightarrow>
      provision sv ms' email' aliases'' recipient' key w2 =
        (Inl (AddressCollision ''idempotency_conflict''), w2))"
proof -
  let ?w = "mailbox_history sv ms0 calls0 \<lparr>mw_db = empty_mailbox_db, mw_env = env0\<rparr>"
  let ?h = "request_hash sv (request_payload email aliases recipient)"
  have served: "requests_served (mw_db ?w)"
    by (rule history_served) (simp add: requests_served_def empty_mailbox_db_def)
  have "requests_served (mw_db w1)"
    using mkeeps_service(1) [of sv ms email aliases recipient key] assms(1) served
    by (metis mkeeps_def saves_run_served snd_conv)
  then have served2: "requests_served (mw_db w2)" unfolding assms(3) by (rule history_served)
  have known: "recorded_key (mw_db w2) key = Some (?h, mb_email_address r)"
    unfolding assms(3)
    by (rule recorded.persists_run [OF history_saves])
      (simp_all add: provision_records [OF assms(1) served assms(2)])
  show ?thesis
  proof (intro conjI impI)
    assume "set aliases' = set aliases"
    note same = request_payload_set [OF this, of email recipient]
    obtain r' where r': "get_mailbox (mb_email_address r) (mw_db w2) = Some r'"
      using served_mailbox [OF served2 known] by auto
    show "\<exists>r'. get_mailbox (mb_email_address r) (mw_db w2) = Some r' \<and>
        provision sv ms' email aliases' recipient key w2 = (Inr r', w2)"
      unfolding provision_recorded [OF known served2] same using r' by simp
  next
    assume "request_hash sv (request_payload email' aliases'' recipient') \<noteq> ?h"
    then show "provision sv ms' email' aliases'' recipient' key w2 =
        (Inl (AddressCollision ''idempotency_conflict''), w2)"
      unfolding provision_recorded [OF known served2] by simp
  qed
qed

lemma configured_is_disabled: "ms_provider (configured_mailbox_provider env) = disabled_mailbox_provider"
  by (simp add: configured_mailbox_provider_def Let_def)

lemma disabled_calls [simp]:
  "provider_call blocked = mraise (MailboxProviderUnavailable ''mailbox_provider_not_configured'')"
  by (simp add: fun_eq_iff provider_call_def blocked_def mraise_def)

lemma mbind_mraise [simp]: "mbind (mraise e) f = mraise e"
  by (simp add: fun_eq_iff mbind_def mraise_def)

lemma disabled_steps [simp]:
  "provider_steps disabled_mailbox_provider email aliases recipient key =
     mraise (MailboxProviderUnavailable ''mailbox_provider_not_configured'')"
  by (simp add: provider_steps_def disabled_mailbox_provider_def)

lemma disabled_operations [simp]:
  "mp_activate_mailbox disabled_mailbox_provider i t k = blocked"
  "mp_suspend_mailbox disabled_mailbox_provider i k = blocked"
  "mp_reactivate_mailbox disabled_mailbox_provider i k = blocked"
  "mp_terminate_mailbox disabled_mailbox_provider i k = blocked"
  "mp_reconcile_mailbox disabled_mailbox_provider i = blocked"
  "mp_verify_mailbox disabled_mailbox_provider i = blocked"
  by (simp_all add: disabled_mailbox_provider_def)

lemma disabled_quiet:
  assumes "ms_provider ms = disabled_mailbox_provider"
  shows "mw_db (mailbox_perform sv ms call w) = mw_db w"
  using assms
  by (cases call) (auto simp: provision_def activate_mailbox_def suspend_mailbox_def reactivate_mailbox_def
      terminate_mailbox_def reconcile_mailbox_def verify_mailbox_def mbind_def mraise_def mreturn_def
      required_mailbox_def Let_def split: option.split sum.split)

text \<open>
  A service that no approved provider implementation was given fails closed: with the provider
  that \<open>configured_mailbox_provider\<close> selects, whatever the environment holds, no sequence of calls
  changes the store, and a new provisioning is refused with the provider unavailable.
\<close>

theorem unconfigured_provider_fails_closed:
  "mw_db (mailbox_history sv (configured_mailbox_provider env) calls w) = mw_db w \<and>
   fst (provision sv (configured_mailbox_provider env) email aliases recipient key
     \<lparr>mw_db = empty_mailbox_db, mw_env = e\<rparr>) =
     Inl (MailboxProviderUnavailable ''mailbox_provider_not_configured'')"
proof
  show "mw_db (mailbox_history sv (configured_mailbox_provider env) calls w) = mw_db w"
    unfolding mailbox_history_def
    by (induction calls arbitrary: w) (simp_all add: disabled_quiet configured_is_disabled)
qed (simp add: provision_def recorded_request_def empty_mailbox_db_def mbind_def provider_steps_def
    configured_is_disabled disabled_mailbox_provider_def mraise_def)

section \<open>A provider that answers\<close>

definition sample_mail_provider :: "unit mailbox_provider" where
  "sample_mail_provider =
     (let ok = (\<lambda>e. (Inr [], e)) in
      \<lparr>mp_check_availability = (\<lambda>_ e. (Inr True, e)), mp_reserve_address = (\<lambda>_ _. ok),
       mp_create_mailbox_disabled = (\<lambda>email _ e. (Inr [(''external_mailbox_id'', JStr (''id-'' @ email))], e)),
       mp_assign_license = (\<lambda>_ _. ok), mp_create_alias = (\<lambda>_ _ _. ok), mp_send_activation = (\<lambda>_ _ _. ok),
       mp_verify_mailbox = (\<lambda>_. ok), mp_activate_mailbox = (\<lambda>_ _ _ e. (Inr [(''state'', JStr ''active'')], e)),
       mp_suspend_mailbox = (\<lambda>_ _. ok), mp_reactivate_mailbox = (\<lambda>_ _. ok),
       mp_terminate_mailbox = (\<lambda>_ _. ok), mp_reconcile_mailbox = (\<lambda>_. ok)\<rparr>)"

definition sample_mailboxes :: "unit mailbox_service" where
  "sample_mailboxes = \<lparr>ms_provider_name = ''hosted_mail'', ms_provider = sample_mail_provider,
     ms_credential_reference = ''file:/mail''\<rparr>"

definition sample_mail :: "unit services" where
  "sample_mail = sample_services (\<lambda>_ e. (NetworkFailure, e))"

definition sample_provisioning :: "(mailbox_error + mailbox_record) \<times> unit mailbox_world" where
  "sample_provisioning =
     provision sample_mail sample_mailboxes ''ann@x.y'' [''b@x.y'', ''a@x.y''] ''ann'' ''key-1''
       \<lparr>mw_db = empty_mailbox_db, mw_env = ()\<rparr>"

lemma sample_mail_provisioned: "\<not> isl (fst sample_provisioning)"
  by code_simp

text \<open>The mailbox is suspended in between; the replay lists the aliases in another order.\<close>

theorem provision_replayed_witness:
  "\<exists>r w1 w2. sample_provisioning = (Inr r, w1) \<and>
     w2 = mailbox_history sample_mail sample_mailboxes [SuspendMailbox ''ann@x.y'' ''key-2''] w1 \<and>
     (\<exists>r'. get_mailbox (mb_email_address r) (mw_db w2) = Some r' \<and>
       provision sample_mail sample_mailboxes ''ann@x.y'' [''a@x.y'', ''b@x.y''] ''ann'' ''key-1'' w2 =
         (Inr r', w2)) \<and>
     provision sample_mail sample_mailboxes ''bob@x.y'' [] ''bob'' ''key-1'' w2 =
       (Inl (AddressCollision ''idempotency_conflict''), w2)"
proof -
  obtain r w1 where made: "sample_provisioning = (Inr r, w1)"
    using sample_mail_provisioned by (cases sample_provisioning) (metis fst_conv isl_def sum.exhaust)
  let ?w2 = "mailbox_history sample_mail sample_mailboxes [SuspendMailbox ''ann@x.y'' ''key-2''] w1"
  have other: "request_hash sample_mail (request_payload ''bob@x.y'' [] ''bob'') \<noteq>
      request_hash sample_mail (request_payload ''ann@x.y'' [''b@x.y'', ''a@x.y''] ''ann'')"
    by code_simp
  have "provision sample_mail sample_mailboxes ''ann@x.y'' [''b@x.y'', ''a@x.y''] ''ann'' ''key-1''
      (mailbox_history sample_mail sample_mailboxes [] \<lparr>mw_db = empty_mailbox_db, mw_env = ()\<rparr>) = (Inr r, w1)"
    using made by (simp add: sample_provisioning_def mailbox_history_def)
  note replay = provision_replayed [OF this _ refl [of ?w2],
      where aliases' = "[''a@x.y'', ''b@x.y'']" and aliases'' = "[]" and ms' = sample_mailboxes
        and email' = "''bob@x.y''" and recipient' = "''bob''"]
  show ?thesis using made replay other by (intro exI [of _ r] exI [of _ w1] exI [of _ ?w2]) auto
qed

end
