(* ===== verification/Tasks.thy ===== *)
theory Tasks
  imports Engine_Properties
begin

text \<open>
  The calls of the engine as \<^verbatim>\<open>asyncio\<close> tasks. A task is a sequence of steps between which other tasks
  may run: atomic steps on the store, the calls of an adapter, the deliveries of callbacks, and the
  acquisition and release of the employee and request locks of \<^verbatim>\<open>ProvisioningEngine\<close>. The engine of the
  theory Engine is written out once more in this form, with its locks; run alone, a task does what the
  engine's function does. A task may be left at every step on the store here, where \<^verbatim>\<open>asyncio\<close>
  leaves it only at an await, so the interleavings of \<^verbatim>\<open>asyncio\<close> are among those of the tasks.
\<close>

section \<open>Tasks\<close>

datatype lock = EmployeeLock string | RequestLock string

text \<open>
  \<open>Atomic\<close> changes the world and goes on by what it was before. The outcome of a call and the result of
  a delivery are what the task waits for. \<open>Tests\<close> is \<^verbatim>\<open>lock.locked()\<close>. \<open>Exhausted\<close> is a loop that ran
  out of its fuel, which never happens (Interleaving).
\<close>

datatype (dead 'e, 'a) task =
    Finished 'a
  | Atomic "'e world \<Rightarrow> 'e world" "'e world \<Rightarrow> ('e, 'a) task"
  | Calls "'e adapter" operation step_command "dict outcome \<Rightarrow> ('e, 'a) task"
  | Delivers "('e, unit) handler" "unit res \<Rightarrow> ('e, 'a) task"
  | Locks lock "('e, 'a) task"
  | Unlocks lock "('e, 'a) task"
  | Tests lock "bool \<Rightarrow> ('e, 'a) task"
  | Exhausted

primrec tbind :: "('e, 'a) task \<Rightarrow> ('a \<Rightarrow> ('e, 'b) task) \<Rightarrow> ('e, 'b) task" where
  "tbind (Finished x) f = f x"
| "tbind (Atomic u k) f = Atomic u (\<lambda>w. tbind (k w) f)"
| "tbind (Calls a oper c k) f = Calls a oper c (\<lambda>r. tbind (k r) f)"
| "tbind (Delivers m k) f = Delivers m (\<lambda>r. tbind (k r) f)"
| "tbind (Locks l t) f = Locks l (tbind t f)"
| "tbind (Unlocks l t) f = Unlocks l (tbind t f)"
| "tbind (Tests l k) f = Tests l (\<lambda>b. tbind (k b) f)"
| "tbind Exhausted f = Exhausted"

text \<open>Sequencing that stops at an exception, a step on the store, and a look at it.\<close>

definition tthen :: "('e, 'a res) task \<Rightarrow> ('a \<Rightarrow> ('e, 'b res) task) \<Rightarrow> ('e, 'b res) task" where
  "tthen t f = tbind t (\<lambda>r. case r of Inl e \<Rightarrow> Finished (Inl e) | Inr x \<Rightarrow> f x)"

definition atomically :: "('e world \<Rightarrow> 'a \<times> 'e world) \<Rightarrow> ('e, 'a) task" where
  "atomically m = Atomic (\<lambda>w. snd (m w)) (\<lambda>w. Finished (fst (m w)))"

definition observe :: "('e world \<Rightarrow> 'b) \<Rightarrow> ('b \<Rightarrow> ('e, 'a) task) \<Rightarrow> ('e, 'a) task" where
  "observe f k = Atomic (\<lambda>w. w) (\<lambda>w. k (f w))"

text \<open>\<^verbatim>\<open>async with\<close>: the lock is released when the body raises, too.\<close>

definition with_lock :: "lock \<Rightarrow> ('e, 'a) task \<Rightarrow> ('e, 'a) task" where
  "with_lock l t = Locks l (tbind t (\<lambda>r. Unlocks l (Finished r)))"

fun teach :: "('a \<Rightarrow> ('e, unit res) task) \<Rightarrow> 'a list \<Rightarrow> ('e, unit res) task" where
  "teach f [] = Finished (Inr ())"
| "teach f (x # xs) = tthen (f x) (\<lambda>_. teach f xs)"

fun tmap :: "('a \<Rightarrow> ('e, 'b res) task) \<Rightarrow> 'a list \<Rightarrow> ('e, 'b list res) task" where
  "tmap f [] = Finished (Inr [])"
| "tmap f (x # xs) = tthen (f x) (\<lambda>y. tthen (tmap f xs) (\<lambda>ys. Finished (Inr (y # ys))))"

text \<open>A task without others: every lock is free.\<close>

primrec alone :: "('e, 'a) task \<Rightarrow> 'e world \<Rightarrow> ('a \<times> 'e world) option" where
  "alone (Finished x) = (\<lambda>w. Some (x, w))"
| "alone (Atomic u k) = (\<lambda>w. alone (k w) (u w))"
| "alone (Calls a oper c k) = (\<lambda>w. alone (k (fst (a oper c w))) (snd (a oper c w)))"
| "alone (Delivers m k) = (\<lambda>w. alone (k (fst (m w))) (snd (m w)))"
| "alone (Locks l t) = alone t"
| "alone (Unlocks l t) = alone t"
| "alone (Tests l k) = alone (k False)"
| "alone Exhausted = (\<lambda>w. None)"

section \<open>Compensation\<close>

definition executed :: "'e adapter \<Rightarrow> step_command \<Rightarrow> ('e, dict outcome) task" where
  "executed a c =
     (if operation c = Cancel then Finished (PermanentAdapterError ''unsupported_adapter_operation'')
      else Calls a (operation c) c Finished)"

definition looked_up_task ::
  "(string \<Rightarrow> 'e adapter option) \<Rightarrow> step_command \<Rightarrow> ('e adapter \<Rightarrow> ('e, dict outcome) task) \<Rightarrow>
     ('e, dict outcome) task" where
  "looked_up_task adapters c k =
     (case adapters (target_value (target_system c)) of
        None \<Rightarrow> Finished (OtherError KeyError)
      | Some a \<Rightarrow> k a)"

definition write_outcome ::
  "'e services \<Rightarrow> string \<Rightarrow> string \<Rightarrow> operation \<Rightarrow> string \<Rightarrow> string option \<Rightarrow> string option \<Rightarrow> int option \<Rightarrow>
     ('e, unit res) task" where
  "write_outcome sv request step oper state evidence code delay =
     atomically (\<lambda>w. (Inr (), record_outcome sv request step oper state evidence code delay w))"

definition compensate_step_task ::
  "'e services \<Rightarrow> settings \<Rightarrow> (string \<Rightarrow> 'e adapter option) \<Rightarrow> string \<Rightarrow> step_command \<Rightarrow> ('e, unit res) task" where
  "compensate_step_task sv s adapters request original =
     (if operation original \<notin> {CreateDisabled, Update, Activate} then Finished (Inr ())
      else
        let oper = compensation_operation original in
        observe (\<lambda>w. compensation_superseded request (step_id original)
            (target_value (target_system original)) (w_db w)) (\<lambda>superseded.
        if superseded
        then write_outcome sv request (step_id original) oper ''superseded'' None
               (Some ''newer_employee_operation'') None
        else
          tbind (looked_up_task adapters original (\<lambda>a.
              executed a (compensation_command (sv_sha256 sv) request original))) (\<lambda>r.
          case r of
            Returned result \<Rightarrow>
              write_outcome sv request (step_id original) oper ''succeeded''
                (Some (sv_sha256 sv (default_json (JObj result)))) None None
          | RetryableAdapterError code \<Rightarrow>
              write_outcome sv request (step_id original) oper ''failed'' None (Some code)
                (Some (retry_base_seconds s))
          | PermanentAdapterError code \<Rightarrow>
              write_outcome sv request (step_id original) oper ''failed'' None (Some code)
                (Some (retry_base_seconds s))
          | OtherError e \<Rightarrow>
              write_outcome sv request (step_id original) oper ''failed'' None
                (Some ''compensation_unclassified_failure'') (Some (retry_base_seconds s)))))"

definition compensate_task ::
  "'e services \<Rightarrow> settings \<Rightarrow> (string \<Rightarrow> 'e adapter option) \<Rightarrow> string \<Rightarrow> ('e, unit res) task" where
  "compensate_task sv s adapters request =
     observe (\<lambda>w. successful_commands request (w_db w))
       (teach (compensate_step_task sv s adapters request))"

section \<open>Running the steps of a request\<close>

definition unclassified_failure_task ::
  "'e services \<Rightarrow> settings \<Rightarrow> (string \<Rightarrow> 'e adapter option) \<Rightarrow> step_command \<Rightarrow> string \<Rightarrow> ('e, bool res) task" where
  "unclassified_failure_task sv s adapters c request =
     tthen (atomically (fail_claimed sv (step_id c) ''adapter_unclassified_failure'' ''permanent'' None)) (\<lambda>_.
     tthen (compensate_task sv s adapters request) (\<lambda>_. Finished (Inr False)))"

definition adapter_failure_task ::
  "'e services \<Rightarrow> settings \<Rightarrow> (string \<Rightarrow> 'e adapter option) \<Rightarrow> step_command \<Rightarrow> string \<Rightarrow> string \<Rightarrow>
     string \<Rightarrow> time option \<Rightarrow> ('e, bool res) task" where
  "adapter_failure_task sv s adapters c request code retry_class retry_at =
     tthen (atomically (fail_claimed sv (step_id c) code retry_class retry_at)) (\<lambda>state.
     if state = DeadLetter then
       observe (gate_open sv ''DEAD_LETTER_GATE'') (\<lambda>gate.
       if \<not> gate then Finished (Inl (EngineError 503 ''dead_letter_gate_closed''))
       else tthen (compensate_task sv s adapters request) (\<lambda>_. Finished (Inr False)))
     else Finished (Inr False))"

definition settle_step_task ::
  "'e services \<Rightarrow> settings \<Rightarrow> (string \<Rightarrow> 'e adapter option) \<Rightarrow> step_command \<Rightarrow> string \<Rightarrow>
     dict outcome \<Rightarrow> ('e, bool res) task" where
  "settle_step_task sv s adapters c request result =
     (case result of
        Returned raw \<Rightarrow>
          tbind (atomically (with_clock sv (\<lambda>t. complete_step t (step_id c) (done_state (operation c))
              (step_evidence (sv_sha256 sv) c raw)))) (\<lambda>r.
          case r of
            Inr _ \<Rightarrow> Finished (Inr True)
          | Inl e \<Rightarrow> unclassified_failure_task sv s adapters c request)
      | RetryableAdapterError code \<Rightarrow>
          tthen (atomically (retry_time sv s c request)) (\<lambda>t.
          adapter_failure_task sv s adapters c request code ''transient'' (Some t))
      | PermanentAdapterError code \<Rightarrow>
          adapter_failure_task sv s adapters c request code ''permanent'' None
      | OtherError e \<Rightarrow> unclassified_failure_task sv s adapters c request)"

definition run_claimed_task ::
  "'e services \<Rightarrow> settings \<Rightarrow> (string \<Rightarrow> 'e adapter option) \<Rightarrow> string \<Rightarrow> step_command \<Rightarrow> ('e, bool res) task" where
  "run_claimed_task sv s adapters request c =
     observe (\<lambda>w. is_access_enabling (operation c) \<and>
         activation_blockers (employee_id c) [target_value (target_system c)] (w_db w) \<noteq> []) (\<lambda>blocked.
     if blocked
     then atomically (\<lambda>w. (Inr False, snd (with_clock3 sv (\<lambda>t t' t'' d.
            ((), release_activation_claim t t' t'' (step_id c) d)) w)))
     else case adapters (target_value (target_system c)) of
       None \<Rightarrow>
         tthen (atomically (fail_claimed sv (step_id c) ''adapter_not_registered'' ''permanent'' None)) (\<lambda>state.
         if state = DeadLetter
         then tthen (compensate_task sv s adapters request) (\<lambda>_. Finished (Inr False))
         else Finished (Inr False))
     | Some a \<Rightarrow> tbind (executed a c) (settle_step_task sv s adapters c request))"

definition run_step_task ::
  "'e services \<Rightarrow> settings \<Rightarrow> (string \<Rightarrow> 'e adapter option) \<Rightarrow> string \<Rightarrow> ('e, bool res) task" where
  "run_step_task sv s adapters request =
     tbind (atomically (with_clock sv (\<lambda>t. claim_next t request))) (\<lambda>claimed.
     case claimed of
       None \<Rightarrow> Finished (Inr False)
     | Some c \<Rightarrow> run_claimed_task sv s adapters request c)"

fun run_loop_task ::
  "nat \<Rightarrow> 'e services \<Rightarrow> settings \<Rightarrow> (string \<Rightarrow> 'e adapter option) \<Rightarrow> string \<Rightarrow> ('e, unit res) task" where
  "run_loop_task 0 sv s adapters request = Exhausted"
| "run_loop_task (Suc fuel) sv s adapters request =
     tthen (run_step_task sv s adapters request) (\<lambda>goes_on.
     if goes_on then run_loop_task fuel sv s adapters request else Finished (Inr ()))"

definition run_request_task ::
  "'e services \<Rightarrow> settings \<Rightarrow> (string \<Rightarrow> 'e adapter option) \<Rightarrow> string \<Rightarrow> ('e, unit res) task" where
  "run_request_task sv s adapters request =
     observe (\<lambda>w. Suc (waiting_count request (w_db w)))
       (\<lambda>fuel. run_loop_task fuel sv s adapters request)"

section \<open>Submission\<close>

definition callback_task ::
  "'e services \<Rightarrow> settings \<Rightarrow> 'a request_envelope_scheme \<Rightarrow> execution_result \<Rightarrow> ('e, unit res) task" where
  "callback_task sv s envelope r = Delivers (callback sv s envelope r) Finished"

text \<open>Both locks, in the order in which every call takes them.\<close>

definition critical :: "string \<Rightarrow> string \<Rightarrow> ('e, 'a) task \<Rightarrow> ('e, 'a) task" where
  "critical employee request t =
     with_lock (EmployeeLock employee) (with_lock (RequestLock request) t)"

definition fresh_execution_task ::
  "'e services \<Rightarrow> settings \<Rightarrow> (string \<Rightarrow> 'e adapter option) \<Rightarrow> string \<Rightarrow> request_execution \<Rightarrow>
     ('e, execution_result res) task" where
  "fresh_execution_task sv s adapters request normalized =
     tthen (run_request_task sv s adapters request) (\<lambda>_.
     tthen (atomically (required_result sv request 500 ''execution_state_missing'')) (\<lambda>r.
     tthen (callback_task sv s normalized r) (\<lambda>_. Finished (Inr r))))"

definition begin_and_run_task ::
  "'e services \<Rightarrow> settings \<Rightarrow> (string \<Rightarrow> 'e adapter option) \<Rightarrow> string \<Rightarrow> request_execution \<Rightarrow> string \<Rightarrow>
     ('e, execution_result res) task" where
  "begin_and_run_task sv s adapters request normalized request_hash =
     tthen (atomically (with_clock sv (\<lambda>t d.
         case begin_execution (sv_sha256 sv) t normalized request_hash d of
           (r, d') \<Rightarrow> (conflict_409 r, d')))) (\<lambda>(existing, replayed).
     tthen (if replayed then atomically (replay_answer sv request existing) else Finished (Inr None)) (\<lambda>answer.
     case answer of
       Some r \<Rightarrow> Finished (Inr r)
     | None \<Rightarrow> fresh_execution_task sv s adapters request normalized))"

definition submit_locked ::
  "'e services \<Rightarrow> settings \<Rightarrow> (string \<Rightarrow> 'e adapter option) \<Rightarrow> string \<Rightarrow> request_execution \<Rightarrow>
     request_execution \<Rightarrow> ('e, execution_result res) task" where
  "submit_locked sv s adapters request ex normalized =
     (let request_hash = canonical_hash sv normalized in
      tthen (atomically (\<lambda>w.
          (conflict_409 (existing_execution (sv_sha256 sv) normalized request_hash (w_db w)), w)))
        (\<lambda>(existing, replayed).
      tthen (if replayed then atomically (replay_answer sv request existing) else Finished (Inr None)) (\<lambda>answer.
      case answer of
        Some r \<Rightarrow> Finished (Inr r)
      | None \<Rightarrow>
          tthen (atomically (check_blockers ex)) (\<lambda>_.
          begin_and_run_task sv s adapters request normalized request_hash))))"

text \<open>The document is normalized between the two acquisitions.\<close>

definition submit_task ::
  "'e services \<Rightarrow> settings \<Rightarrow> (string \<Rightarrow> 'e adapter option) \<Rightarrow> string \<Rightarrow> request_execution \<Rightarrow>
     ('e, execution_result res) task" where
  "submit_task sv s adapters request ex =
     tthen (atomically (admit sv s request ex)) (\<lambda>_.
     with_lock (EmployeeLock (employee_id ex)) (
     tthen (Finished (normalize_keys (sv_sha256 sv) ex)) (\<lambda>normalized.
     with_lock (RequestLock request) (submit_locked sv s adapters request ex normalized))))"

section \<open>Retry, cancellation and verification\<close>

text \<open>What a retry checks before it waits for the locks.\<close>

definition retry_checks ::
  "'e services \<Rightarrow> settings \<Rightarrow> string \<Rightarrow> action_request \<Rightarrow> ('e, execution_result) handler" where
  "retry_checks sv s request action =
     hbind (retry_gate sv) (\<lambda>_.
     hbind (guard (request_id action = request \<and> operation action = Update)
       (EngineError 422 ''retry_envelope_mismatch'')) (\<lambda>_.
     hbind (validate_freshness sv s (timestamp action)) (\<lambda>_.
     hbind (found_result sv request) (\<lambda>current.
     hbind (not_cancelled request) (\<lambda>_. hreturn current)))))"

definition retry_locked ::
  "'e services \<Rightarrow> settings \<Rightarrow> (string \<Rightarrow> 'e adapter option) \<Rightarrow> string \<Rightarrow> action_request \<Rightarrow>
     ('e, execution_result res) task" where
  "retry_locked sv s adapters request action =
     tthen (atomically (with_clock3 sv (\<lambda>t t' t'' d. case schedule_step_retry t t' t'' request d of
         (scheduled, d') \<Rightarrow> (Inr scheduled, d')))) (\<lambda>scheduled.
     if \<not> scheduled
     then tthen (atomically (the_result sv request True)) (\<lambda>current.
       case current of
         None \<Rightarrow> Finished (Inl (EngineError 404 ''request_not_found''))
       | Some r \<Rightarrow> tthen (callback_task sv s action r) (\<lambda>_. Finished (Inr r)))
     else
       tthen (run_request_task sv s adapters request) (\<lambda>_.
       tthen (atomically (found_result sv request)) (\<lambda>r.
       tthen (callback_task sv s action r) (\<lambda>_. Finished (Inr r)))))"

definition retry_task ::
  "'e services \<Rightarrow> settings \<Rightarrow> (string \<Rightarrow> 'e adapter option) \<Rightarrow> string \<Rightarrow> action_request \<Rightarrow>
     ('e, execution_result res) task" where
  "retry_task sv s adapters request action =
     tthen (atomically (retry_checks sv s request action)) (\<lambda>current.
     critical (er_employee_id current) request (retry_locked sv s adapters request action))"

text \<open>What a cancellation and a verification check before they wait for a lock.\<close>

definition action_checks ::
  "'e services \<Rightarrow> settings \<Rightarrow> string \<Rightarrow> action_request \<Rightarrow> operation \<Rightarrow> string \<Rightarrow> ('e, execution_result) handler" where
  "action_checks sv s request action oper code =
     hbind (guard (request_id action = request \<and> operation action = oper) (EngineError 422 code)) (\<lambda>_.
     hbind (validate_freshness sv s (timestamp action)) (\<lambda>_.
     found_result sv request))"

definition cancel_locked ::
  "'e services \<Rightarrow> settings \<Rightarrow> (string \<Rightarrow> 'e adapter option) \<Rightarrow> string \<Rightarrow> ('e, execution_result res) task" where
  "cancel_locked sv s adapters request =
     tthen (atomically (with_clock sv (\<lambda>t d. (Inr (), snd (cancel_pending t request d))))) (\<lambda>_.
     tthen (atomically (with_clock2 sv (\<lambda>t t' d. (Inr (), mark_cancelled t t' request d)))) (\<lambda>_.
     tthen (compensate_task sv s adapters request) (\<lambda>_.
     atomically (required_result sv request 500 ''execution_state_missing''))))"

definition cancel_task ::
  "'e services \<Rightarrow> settings \<Rightarrow> (string \<Rightarrow> 'e adapter option) \<Rightarrow> string \<Rightarrow> action_request \<Rightarrow>
     ('e, execution_result res) task" where
  "cancel_task sv s adapters request action =
     tthen (atomically (action_checks sv s request action Cancel ''cancel_operation_required'')) (\<lambda>current.
     critical (er_employee_id current) request (cancel_locked sv s adapters request))"

definition verify_one_task ::
  "'e services \<Rightarrow> (string \<Rightarrow> 'e adapter option) \<Rightarrow> action_request \<Rightarrow> execution_result \<Rightarrow> step_command \<Rightarrow>
     ('e, step_result res) task" where
  "verify_one_task sv adapters action current original =
     (let c = verification_command (sv_sha256 sv) action original in
      tbind (looked_up_task adapters c (\<lambda>a. Calls a Verify c Finished)) (\<lambda>r.
      case r of
        Returned raw \<Rightarrow> atomically (confirm_verification sv current c raw)
      | RetryableAdapterError code \<Rightarrow> Finished (copied_result current c step_state.Failed None (Some code))
      | PermanentAdapterError code \<Rightarrow> Finished (copied_result current c step_state.Failed None (Some code))
      | OtherError e \<Rightarrow> Finished (Inl e)))"

definition verify_locked_task ::
  "'e services \<Rightarrow> (string \<Rightarrow> 'e adapter option) \<Rightarrow> string \<Rightarrow> action_request \<Rightarrow> execution_result \<Rightarrow>
     ('e, execution_result res) task" where
  "verify_locked_task sv adapters request action current =
     observe (\<lambda>w. let originals = verification_commands request (w_db w) in
         (originals, list_ex (\<lambda>c. \<not> is_current_verification_candidate (er_employee_id current)
            (target_value (target_system c)) (step_id c) (w_db w)) originals)) (\<lambda>(originals, stale).
     if stale then Finished (Inl (EngineError 409 ''stale_verification_conflict''))
     else tthen (tmap (verify_one_task sv adapters action current) originals) (\<lambda>results.
       Finished (Inr (current\<lparr>er_state := (if all_verified results then ''verified'' else ''verification_failed''),
         er_step_results := results\<rparr>))))"

definition verify_task ::
  "'e services \<Rightarrow> settings \<Rightarrow> (string \<Rightarrow> 'e adapter option) \<Rightarrow> string \<Rightarrow> action_request \<Rightarrow>
     ('e, execution_result res) task" where
  "verify_task sv s adapters request action =
     tthen (atomically (action_checks sv s request action Verify ''verify_operation_required'')) (\<lambda>current.
     with_lock (EmployeeLock (er_employee_id current))
       (verify_locked_task sv adapters request action current))"

section \<open>Identity life cycle and reconciliation\<close>

definition lifecycle_checks ::
  "string \<Rightarrow> operation \<Rightarrow> request_execution \<Rightarrow> ('e, request_execution) handler" where
  "lifecycle_checks employee oper ex =
     hbind (guard (employee_id ex = employee) (EngineError 422 ''employee_id_mismatch'')) (\<lambda>_.
     hbind (guard (operation ex = oper \<and> list_all (\<lambda>c. operation c = oper) (steps ex))
       (EngineError 422 ''operation_mismatch'')) (\<lambda>_ w.
     (parse_execution (ex\<lparr>steps := map (enrich_step (employee_commands employee (w_db w))) (steps ex)\<rparr>), w)))"

definition lifecycle_task ::
  "'e services \<Rightarrow> settings \<Rightarrow> (string \<Rightarrow> 'e adapter option) \<Rightarrow> string \<Rightarrow> operation \<Rightarrow> request_execution \<Rightarrow>
     ('e, execution_result res) task" where
  "lifecycle_task sv s adapters employee oper ex =
     tthen (atomically (lifecycle_checks employee oper ex)) (\<lambda>enriched.
     submit_task sv s adapters (request_id enriched) enriched)"

definition reconcile_one_task ::
  "'e services \<Rightarrow> (string \<Rightarrow> 'e adapter option) \<Rightarrow> action_request \<Rightarrow> step_command \<Rightarrow>
     ('e, step_result res) task" where
  "reconcile_one_task sv adapters action original =
     (let c = reconciliation_command (sv_sha256 sv) action original in
      tbind (looked_up_task adapters c (\<lambda>a. Calls a Reconcile c Finished)) (\<lambda>r.
      case r of
        Returned raw \<Rightarrow> Finished (reconcile_result sv c raw)
      | RetryableAdapterError code \<Rightarrow>
          Finished (Inr (reconcile_row c step_state.Failed None None None (Some code)))
      | PermanentAdapterError code \<Rightarrow>
          Finished (Inr (reconcile_row c step_state.Failed None None None (Some code)))
      | OtherError e \<Rightarrow> Finished (Inl e)))"

definition reconcile_checks ::
  "'e services \<Rightarrow> settings \<Rightarrow> string \<Rightarrow> action_request \<Rightarrow> ('e, unit) handler" where
  "reconcile_checks sv s employee action =
     hbind (\<lambda>w. guard (gate_open sv ''RECONCILIATION_GATE'' w)
       (EngineError 503 ''reconciliation_gate_closed'') w) (\<lambda>_.
     hbind (guard (employee_id action = employee \<and> operation action = Reconcile)
       (EngineError 422 ''reconciliation_envelope_mismatch'')) (\<lambda>_.
     validate_freshness sv s (timestamp action)))"

definition reconcile_task ::
  "'e services \<Rightarrow> settings \<Rightarrow> (string \<Rightarrow> 'e adapter option) \<Rightarrow> string \<Rightarrow> action_request \<Rightarrow>
     ('e, reconciliation_result res) task" where
  "reconcile_task sv s adapters employee action =
     tthen (atomically (reconcile_checks sv s employee action)) (\<lambda>_.
     tthen (observe (\<lambda>w. employee_commands employee (w_db w)) (tmap (reconcile_one_task sv adapters action)))
       (\<lambda>results.
     Finished (Inr \<lparr>rr_employee_id = employee,
       rr_state = (if all_verified results then ''aligned'' else ''drift_or_unavailable''),
       rr_systems = results\<rparr>)))"

section \<open>The worker\<close>

text \<open>A request whose employee or whose request lock is taken is left for the next pass.\<close>

definition worker_request ::
  "'e services \<Rightarrow> settings \<Rightarrow> (string \<Rightarrow> 'e adapter option) \<Rightarrow> string \<Rightarrow> ('e, unit res) task" where
  "worker_request sv s adapters request =
     tthen (atomically (the_result sv request False)) (\<lambda>current.
     case current of
       None \<Rightarrow> Finished (Inr ())
     | Some r \<Rightarrow>
         Tests (EmployeeLock (er_employee_id r)) (\<lambda>locked.
         if locked then Finished (Inr ())
         else with_lock (EmployeeLock (er_employee_id r)) (
           Tests (RequestLock request) (\<lambda>locked.
           if locked then Finished (Inr ())
           else with_lock (RequestLock request) (run_request_task sv s adapters request)))))"

definition compensate_due_task ::
  "'e services \<Rightarrow> settings \<Rightarrow> (string \<Rightarrow> 'e adapter option) \<Rightarrow> string \<Rightarrow> ('e, unit res) task" where
  "compensate_due_task sv s adapters request =
     tthen (atomically (the_result sv request False)) (\<lambda>current.
     case current of
       None \<Rightarrow> Finished (Inr ())
     | Some r \<Rightarrow> critical (er_employee_id r) request (compensate_task sv s adapters request))"

definition worker_task ::
  "'e services \<Rightarrow> settings \<Rightarrow> (string \<Rightarrow> 'e adapter option) \<Rightarrow> ('e, unit res) task" where
  "worker_task sv s adapters =
     tthen (tthen (atomically (with_clock sv (\<lambda>t d. (Inr (pending_request_ids t d), d))))
       (teach (worker_request sv s adapters))) (\<lambda>_.
     tthen (tthen (atomically (with_clock sv (\<lambda>t d. (Inr (due_compensation_request_ids t d), d))))
       (teach (compensate_due_task sv s adapters))) (\<lambda>_.
     Delivers (dispatch_due sv s) Finished))"

text \<open>
  The recovery at the start takes the employee's lock alone for the steps of a request; the service
  awaits it before it serves a request and before the worker starts.
\<close>

definition run_unlocked_task ::
  "'e services \<Rightarrow> settings \<Rightarrow> (string \<Rightarrow> 'e adapter option) \<Rightarrow> string \<Rightarrow> ('e, unit res) task" where
  "run_unlocked_task sv s adapters request =
     tthen (atomically (the_result sv request False)) (\<lambda>current.
     case current of
       None \<Rightarrow> Finished (Inr ())
     | Some r \<Rightarrow> with_lock (EmployeeLock (er_employee_id r)) (run_request_task sv s adapters request))"

definition recover_task ::
  "'e services \<Rightarrow> settings \<Rightarrow> (string \<Rightarrow> 'e adapter option) \<Rightarrow> ('e, unit res) task" where
  "recover_task sv s adapters =
     tthen (atomically (\<lambda>w. guard (gate_open sv ''RESTART_RECOVERY_GATE'' w)
       (EngineError 503 ''restart_recovery_gate_closed'') w)) (\<lambda>_.
     tthen (atomically (with_clock3 sv (\<lambda>t t' t'' d.
       (Inr (), snd (recover_stale t t' t'' (claim_timeout_seconds s) d))))) (\<lambda>_.
     tthen (tthen (atomically (with_clock sv (\<lambda>t d. (Inr (pending_request_ids t d), d))))
       (teach (run_unlocked_task sv s adapters))) (\<lambda>_.
     tthen (atomically (with_clock sv (\<lambda>t d. (Inr (due_compensation_request_ids t d), d))))
       (teach (compensate_due_task sv s adapters)))))"

section \<open>The task of a call\<close>

definition forget :: "('e, 'a) task \<Rightarrow> ('e, unit) task" where
  "forget t = tbind t (\<lambda>_. Finished ())"

fun call_task ::
  "'e services \<Rightarrow> settings \<Rightarrow> (string \<Rightarrow> 'e adapter option) \<Rightarrow> engine_call \<Rightarrow> ('e, unit) task" where
  "call_task sv s adapters (Submit request ex) = forget (submit_task sv s adapters request ex)"
| "call_task sv s adapters (Retry request action) = forget (retry_task sv s adapters request action)"
| "call_task sv s adapters (CancelRequest request action) = forget (cancel_task sv s adapters request action)"
| "call_task sv s adapters (VerifyRequest request action) = forget (verify_task sv s adapters request action)"
| "call_task sv s adapters (Lifecycle employee oper ex) = forget (lifecycle_task sv s adapters employee oper ex)"
| "call_task sv s adapters (ReconcileEmployee employee action) =
     forget (reconcile_task sv s adapters employee action)"
| "call_task sv s adapters WorkerPass = forget (worker_task sv s adapters)"
| "call_task sv s adapters Start = forget (recover_task sv s adapters)"

end
