(* ===== verification/Task_Equivalence.thy ===== *)
theory Task_Equivalence
  imports Tasks
begin

text \<open>
  A task run alone does what the engine's function does: the same result and the same world. The
  rules below relate a task and a handler construct by construct; only the loop over the steps of a
  request, which has fuel in both forms, asks for a consistent store.
\<close>

section \<open>Agreement of a task and a handler\<close>

definition agrees :: "(db \<Rightarrow> bool) \<Rightarrow> ('e, 'a) task \<Rightarrow> ('e world \<Rightarrow> 'a \<times> 'e world) \<Rightarrow> bool" where
  "agrees P t m \<longleftrightarrow> (\<forall>w. P (w_db w) \<longrightarrow> alone t w = Some (m w))"

definition leaves :: "(db \<Rightarrow> bool) \<Rightarrow> ('e world \<Rightarrow> 'a \<times> 'e world) \<Rightarrow> bool" where
  "leaves P m \<longleftrightarrow> (\<forall>w. P (w_db w) \<longrightarrow> P (w_db (snd (m w))))"

named_theorems agrees_intros \<open>agreement, construct by construct\<close>

lemma alone_tbind:
  "alone (tbind t f) w = (case alone t w of None \<Rightarrow> None | Some (x, w') \<Rightarrow> alone (f x) w')"
  by (induction t arbitrary: w) simp_all

lemma agreesD: "agrees P t m \<Longrightarrow> P (w_db w) \<Longrightarrow> alone t w = Some (m w)"
  by (simp add: agrees_def)

lemma agrees_weaken: "agrees (\<lambda>_. True) t m \<Longrightarrow> agrees P t m"
  by (simp add: agrees_def)

lemma agrees_atomically [agrees_intros]: "agrees P (atomically m) m"
  by (simp add: agrees_def atomically_def)

lemma agrees_finished [agrees_intros]:
  "agrees P (Finished x) (\<lambda>w. (x, w))" "agrees P (Finished (Inr y)) (hreturn y)"
  "agrees P (Finished (Inl e)) (hraise e)" "agrees P (Finished r) (hlift r)"
  by (simp_all add: agrees_def hreturn_def hraise_def hlift_def)

lemma agrees_bind:
  assumes "agrees P t m" and "leaves P m" and "\<And>x. agrees P (f x) (g x)"
  shows "agrees P (tbind t f) (\<lambda>w. case m w of (x, w') \<Rightarrow> g x w')"
  using assms by (auto simp: agrees_def leaves_def alone_tbind split: prod.split)

lemma agrees_then [agrees_intros]:
  assumes "agrees P t m" and "leaves P m" and "\<And>x. agrees P (f x) (g x)"
  shows "agrees P (tthen t f) (hbind m g)"
proof -
  have "agrees P (case r of Inl e \<Rightarrow> Finished (Inl e) | Inr x \<Rightarrow> f x)
      (case r of Inl e \<Rightarrow> (\<lambda>w. (Inl e, w)) | Inr x \<Rightarrow> g x)" for r
    using assms(3) by (cases r) (auto intro: agrees_intros)
  from agrees_bind [OF assms(1,2) this] show ?thesis
    unfolding tthen_def hbind_def
    by (rule back_subst [where P = "agrees P _"]) (auto split: prod.split sum.split)
qed

lemma agrees_lock [agrees_intros]: "agrees P t m \<Longrightarrow> agrees P (with_lock l t) m"
  by (simp add: agrees_def with_lock_def alone_tbind split: prod.split)

lemma agrees_critical [agrees_intros]: "agrees P t m \<Longrightarrow> agrees P (critical employee request t) m"
  unfolding critical_def by (intro agrees_intros)

lemma agrees_delivers [agrees_intros]: "agrees P (Delivers m Finished) m"
  by (simp add: agrees_def)

lemma agrees_observe [agrees_intros]:
  "(\<And>x. agrees P (k x) (m x)) \<Longrightarrow> agrees P (observe f k) (\<lambda>w. m (f w) w)"
  by (simp add: agrees_def observe_def)

lemma hbind_assoc: "hbind (hbind m f) g = hbind m (\<lambda>x. hbind (f x) g)"
  by (auto simp: hbind_def fun_eq_iff split: prod.split sum.split)

lemma hbind_pure [simp]: "hbind (\<lambda>w. (f w, w)) g w = (case f w of Inl e \<Rightarrow> (Inl e, w) | Inr x \<Rightarrow> g x w)"
  by (simp add: hbind_def)

lemma agrees_if [agrees_intros]:
  "(b \<Longrightarrow> agrees P t m) \<Longrightarrow> (\<not> b \<Longrightarrow> agrees P t' m') \<Longrightarrow>
     agrees P (if b then t else t') (if b then m else m')"
  by simp

lemma agrees_option [agrees_intros]:
  "agrees P t m \<Longrightarrow> (\<And>x. agrees P (t' x) (m' x)) \<Longrightarrow>
     agrees P (case v of None \<Rightarrow> t | Some x \<Rightarrow> t' x) (case v of None \<Rightarrow> m | Some x \<Rightarrow> m' x)"
  by (cases v) simp_all

lemma agrees_prod [agrees_intros]:
  "(\<And>x y. agrees P (t x y) (m x y)) \<Longrightarrow>
     agrees P (case p of (x, y) \<Rightarrow> t x y) (case p of (x, y) \<Rightarrow> m x y)"
  by (cases p) simp

lemma leaves_True [simp, agrees_intros]: "leaves (\<lambda>_. True) m"
  by (simp add: leaves_def)

lemma agrees_teach [agrees_intros]:
  assumes "\<And>x. agrees P (t x) (m x)" and "\<And>x. leaves P (m x)"
  shows "agrees P (teach t xs) (heach m xs)"
  using assms by (induction xs) (auto intro!: agrees_intros)

lemma agrees_tmap [agrees_intros]:
  assumes "\<And>x. agrees P (t x) (m x)" and "\<And>x. leaves P (m x)" and "\<And>xs. leaves P (hmap m xs)"
  shows "agrees P (tmap t xs) (hmap m xs)"
  using assms by (induction xs) (auto intro!: agrees_intros)

section \<open>Compensation and the steps of a request\<close>

text \<open>No fuel is spent here, so these agree in every store.\<close>

abbreviation same_as :: "('e, 'a) task \<Rightarrow> ('e world \<Rightarrow> 'a \<times> 'e world) \<Rightarrow> bool" where
  "same_as \<equiv> agrees (\<lambda>_. True)"

lemma same_as_iff: "same_as t m \<longleftrightarrow> alone t = (\<lambda>w. Some (m w))"
  by (auto simp: agrees_def fun_eq_iff)

lemma alone_executed [simp]: "alone (executed a c) = (\<lambda>w. Some (execute a c w))"
  by (auto simp: executed_def execute_def permanent_def)

lemma alone_looked_up:
  assumes "\<And>a. alone (k a) = (\<lambda>w. Some (m a w))"
  shows "alone (looked_up_task adapters c k) =
    (\<lambda>w. Some (abind (alift (adapter_for adapters (target_system c))) m w))"
  by (auto simp: looked_up_task_def adapter_for_def abind_def alift_def assms split: option.split)

lemma alone_atomically [simp]: "alone (atomically m) w = Some (m w)"
  by (simp add: atomically_def)

lemma alone_then:
  "alone (tthen t f) w =
     (case alone t w of
        None \<Rightarrow> None
      | Some (Inl e, w') \<Rightarrow> Some (Inl e, w')
      | Some (Inr x, w') \<Rightarrow> alone (f x) w')"
  by (auto simp: tthen_def alone_tbind split: option.split sum.split)

lemma compensate_step_same:
  "alone (compensate_step_task sv s adapters request original) w =
     Some (Inr (), compensate_step sv s adapters request original w)"
proof -
  let ?c = "compensation_command (sv_sha256 sv) request original"
  have "target_system ?c = target_system original"
    by (simp add: compensation_command_def)
  then have "alone (looked_up_task adapters original (\<lambda>a. executed a ?c)) w' =
      Some (call_adapter adapters ?c w')" for w'
    unfolding call_adapter_def by (subst alone_looked_up [where m = "\<lambda>a. execute a ?c"]) simp_all
  then show ?thesis
    by (auto simp: compensate_step_task_def compensate_step_def Let_def observe_def write_outcome_def
        alone_tbind split: prod.split outcome.split)
qed

lemma compensate_same: "same_as (compensate_task sv s adapters request) (\<lambda>w. (Inr (), compensate sv s adapters request w))"
proof -
  have "alone (teach (compensate_step_task sv s adapters request) cs) w =
      Some (Inr (), fold (compensate_step sv s adapters request) cs w)" for cs w
    by (induction cs arbitrary: w) (simp_all add: alone_then compensate_step_same)
  then show ?thesis
    by (simp add: agrees_def compensate_task_def compensate_def observe_def)
qed

lemma alone_compensate [simp]:
  "alone (compensate_task sv s adapters request) w = Some (Inr (), compensate sv s adapters request w)"
  using compensate_same by (rule agreesD) simp

lemma failures_same:
  "same_as (unclassified_failure_task sv s adapters c request) (unclassified_failure sv s adapters c request)"
  "same_as (adapter_failure_task sv s adapters c request code cls at)
     (adapter_failure sv s adapters c request code cls at)"
  by (auto simp: agrees_def unclassified_failure_task_def unclassified_failure_def adapter_failure_task_def
      adapter_failure_def alone_then hbind_def observe_def split: prod.split sum.split)

lemma settle_step_same: "same_as (settle_step_task sv s adapters c request r) (settle_step sv s adapters c request r)"
proof (cases r)
  case (RetryableAdapterError code)
  show ?thesis unfolding RetryableAdapterError settle_step_task_def settle_step_def outcome.case
    by (intro agrees_intros failures_same)
qed (auto simp: settle_step_task_def settle_step_def agrees_def alone_tbind
    failures_same [unfolded same_as_iff] split: prod.split sum.split)

lemma run_claimed_same: "same_as (run_claimed_task sv s adapters request c) (run_claimed sv s adapters request c)"
  by (auto simp: agrees_def run_claimed_task_def run_claimed_def observe_def alone_then alone_tbind hbind_def
      settle_step_same [unfolded same_as_iff] split: prod.split sum.split option.split)

lemma run_step_same: "same_as (run_step_task sv s adapters request) (run_step sv s adapters request)"
  by (auto simp: agrees_def run_step_task_def run_step_def alone_tbind
      run_claimed_same [unfolded same_as_iff] split: prod.split option.split)

lemma alone_run_loop:
  "alone (run_loop_task fuel sv s adapters request) w = run_loop fuel sv s adapters request w"
  by (induction fuel arbitrary: w)
     (auto simp: alone_then run_step_same [unfolded same_as_iff] split: prod.split sum.split)

section \<open>The calls of the engine\<close>

abbreviation consistent_db :: "db \<Rightarrow> bool" where
  "consistent_db d \<equiv> \<exists>n. machine_inv n d"

context engine_adapters begin

lemma leaves_run [agrees_intros]: "keeps run m \<Longrightarrow> leaves consistent_db m"
  unfolding keeps_def leaves_def using run_of_inv by blast

lemma run_request_agrees [agrees_intros]:
  "agrees consistent_db (run_request_task sv s adapters request) (run_request sv s adapters request)"
  using run_loop_is_run_request [OF _ lessI]
  by (auto simp: agrees_def run_request_task_def observe_def alone_run_loop
      simp del: run_loop.simps run_loop_task.simps)

lemma callback_agrees [agrees_intros]: "agrees P (callback_task sv s envelope r) (callback sv s envelope r)"
  unfolding callback_task_def by (rule agrees_delivers)

lemma replay_agrees [agrees_intros]:
  "agrees P (if b then atomically m else Finished (Inr None)) (if b then m else hreturn None)"
  by (auto intro: agrees_intros)

lemma fresh_execution_agrees [agrees_intros]:
  "agrees consistent_db (fresh_execution_task sv s adapters request normalized)
     (fresh_execution sv s adapters request normalized)"
  unfolding fresh_execution_task_def fresh_execution_def by (intro agrees_intros keeps_intros)

lemma submit_agrees [agrees_intros]:
  "agrees consistent_db (submit_task sv s adapters request ex) (submit sv s adapters request ex)"
proof -
  let ?locked = "\<lambda>normalized. let request_hash = canonical_hash sv normalized in
       hbind (\<lambda>w. (conflict_409 (existing_execution (sv_sha256 sv) normalized request_hash (w_db w)), w))
         (\<lambda>(existing, replayed).
       hbind (if replayed then replay_answer sv request existing else hreturn None) (\<lambda>answer.
       case answer of
         Some r \<Rightarrow> hreturn r
       | None \<Rightarrow>
           hbind (check_blockers ex) (\<lambda>_.
           begin_and_run sv s adapters request normalized request_hash)))"
  have begins: "keeps run (with_clock sv (\<lambda>t d. case begin_execution (sv_sha256 sv) t normalized h d of
      (r, d') \<Rightarrow> (conflict_409 r, d')))" if "normalize_keys (sv_sha256 sv) ex = Inr normalized" for normalized h
    using normalized_steps_belong [OF that]
    by (intro keeps_intros) (auto simp: split_beta intro: run_of_step store_step.begins)
  have "agrees consistent_db (submit_locked sv s adapters request ex normalized) (?locked normalized)"
    if "normalize_keys (sv_sha256 sv) ex = Inr normalized" for normalized
    unfolding submit_locked_def begin_and_run_task_def begin_and_run_def Let_def
    by (intro begins [OF that] agrees_intros keeps_intros)
  then have whole: "agrees consistent_db
      (tthen (Finished (normalize_keys (sv_sha256 sv) ex)) (\<lambda>normalized.
         with_lock (RequestLock request) (submit_locked sv s adapters request ex normalized)))
      (hbind (hlift (normalize_keys (sv_sha256 sv) ex)) ?locked)"
    using agrees_lock
    by (cases "normalize_keys (sv_sha256 sv) ex")
       (simp_all add: agrees_def tthen_def hbind_def hlift_def with_lock_def alone_tbind split: prod.split)
  show ?thesis
    unfolding submit_task_def submit_def by (intro agrees_then agrees_lock agrees_atomically leaves_run keeps_admit whole)
qed

lemma retry_agrees [agrees_intros]:
  "agrees consistent_db (retry_task sv s adapters request action) (retry sv s adapters request action)"
proof -
  have schedules: "keeps run (with_clock3 sv (\<lambda>t t' t'' d. case schedule_step_retry t t' t'' request d of
      (scheduled, d') \<Rightarrow> (Inr scheduled, d')))"
    by (intro keeps_intros) (auto simp: split_beta intro: run_of_step store_step.retries)
  have "keeps run (retry_checks sv s request action)"
    unfolding retry_checks_def retry_gate_def not_cancelled_def by (intro keeps_intros)
  moreover have "retry sv s adapters request action =
      hbind (retry_checks sv s request action) (\<lambda>_.
      hbind (with_clock3 sv (\<lambda>t t' t'' d. case schedule_step_retry t t' t'' request d of
          (scheduled, d') \<Rightarrow> (Inr scheduled, d'))) (\<lambda>scheduled.
      if \<not> scheduled
      then hbind (the_result sv request True) (\<lambda>current.
        case current of
          None \<Rightarrow> hraise (EngineError 404 ''request_not_found'')
        | Some r \<Rightarrow> hbind (callback sv s action r) (\<lambda>_. hreturn r))
      else
        hbind (run_request sv s adapters request) (\<lambda>_.
        hbind (found_result sv request) (\<lambda>r.
        hbind (callback sv s action r) (\<lambda>_. hreturn r)))))"
    unfolding retry_def retry_checks_def hbind_assoc by simp
  ultimately show ?thesis
    unfolding retry_task_def retry_locked_def
    by (auto intro!: schedules agrees_intros keeps_intros)
qed

lemma action_checks_keep [keeps_intros]: "keeps run (action_checks sv s request action oper code)"
  unfolding action_checks_def by (intro keeps_intros)

lemma compensate_agrees [agrees_intros]:
  "agrees P (compensate_task sv s adapters request) (\<lambda>w. (Inr (), compensate sv s adapters request w))"
  using compensate_same by (rule agrees_weaken)

lemma cancel_agrees [agrees_intros]:
  "agrees consistent_db (cancel_task sv s adapters request action) (cancel sv s adapters request action)"
proof -
  have writes: "keeps run (with_clock sv (\<lambda>t d. (Inr (), snd (cancel_pending t request d))))"
    "keeps run (with_clock2 sv (\<lambda>t t' d. (Inr (), mark_cancelled t t' request d)))"
    by (intro keeps_intros, auto intro: run_of_step store_step.cancels store_step.marks)+
  have "cancel sv s adapters request action =
      hbind (action_checks sv s request action Cancel ''cancel_operation_required'') (\<lambda>_.
      hbind (with_clock sv (\<lambda>t d. (Inr (), snd (cancel_pending t request d)))) (\<lambda>_.
      hbind (with_clock2 sv (\<lambda>t t' d. (Inr (), mark_cancelled t t' request d))) (\<lambda>_.
      hbind (\<lambda>w. (Inr (), compensate sv s adapters request w)) (\<lambda>_.
      required_result sv request 500 ''execution_state_missing''))))"
    unfolding cancel_def action_checks_def hbind_assoc by (rule refl)
  then show ?thesis
    unfolding cancel_task_def cancel_locked_def
    by (auto intro!: writes agrees_intros keeps_intros)
qed

lemma confirm_keeps [keeps_intros]: "keeps run (confirm_verification sv current c raw)"
proof -
  have "run d (snd (case record_verification t e system step evidence d of
      (accepted, d') \<Rightarrow> (Inr accepted, d')))" for t e system step evidence d
    by (rule same_steps_run_of)
       (simp add: same_steps_def record_verification_def upsert_verification_def)
  then show ?thesis
    unfolding confirm_verification_def Let_def by (intro keeps_intros)
qed

lemma alone_method:
  "alone (looked_up_task adapters c (\<lambda>a. Calls a oper c Finished)) =
     (\<lambda>w. Some (abind (alift (adapter_for adapters (target_system c))) (\<lambda>a. a oper c) w))"
  by (rule alone_looked_up) auto

lemma verify_one_agrees [agrees_intros]:
  "agrees P (verify_one_task sv adapters action current original) (verify_one sv adapters action current original)"
  by (auto simp: agrees_def verify_one_task_def verify_one_def Let_def alone_tbind alone_method
      split: prod.split outcome.split)

lemma reconcile_one_agrees [agrees_intros]:
  "agrees P (reconcile_one_task sv adapters action original) (reconcile_one sv adapters action original)"
  by (auto simp: agrees_def reconcile_one_task_def reconcile_one_def Let_def alone_tbind alone_method
      split: prod.split outcome.split)

lemma verify_agrees [agrees_intros]:
  "agrees consistent_db (verify_task sv s adapters request action) (verify sv s adapters request action)"
proof -
  have "same_as (tthen (tmap (verify_one_task sv adapters action current) originals)
        (\<lambda>results. Finished (Inr (g results))))
      (hbind (hmap (verify_one sv adapters action current) originals) (\<lambda>results. hreturn (g results)))"
    for current originals and g :: "step_result list \<Rightarrow> execution_result"
    by (intro agrees_intros)
  then have locked: "same_as (verify_locked_task sv adapters request action current)
      (verify_locked sv adapters request action current)" for current
    unfolding agrees_def by (simp add: verify_locked_task_def verify_locked_def Let_def observe_def)
  have "verify sv s adapters request action =
      hbind (action_checks sv s request action Verify ''verify_operation_required'') (\<lambda>current.
      verify_locked sv adapters request action current)"
    unfolding verify_def action_checks_def hbind_assoc by (rule refl)
  then show ?thesis
    unfolding verify_task_def by (auto intro!: agrees_weaken [OF locked] agrees_intros keeps_intros)
qed

lemma lifecycle_agrees [agrees_intros]:
  "agrees consistent_db (lifecycle_task sv s adapters employee oper ex) (lifecycle sv s adapters employee oper ex)"
proof -
  have "keeps run (lifecycle_checks employee oper ex)"
    unfolding lifecycle_checks_def by (intro keeps_intros)
  moreover have "lifecycle sv s adapters employee oper ex =
      hbind (lifecycle_checks employee oper ex) (\<lambda>enriched. submit sv s adapters (request_id enriched) enriched)"
    unfolding lifecycle_def lifecycle_checks_def hbind_assoc by (rule refl)
  ultimately show ?thesis
    unfolding lifecycle_task_def by (auto intro!: agrees_intros)
qed

lemma reconcile_agrees [agrees_intros]:
  "agrees consistent_db (reconcile_task sv s adapters employee action) (reconcile sv s adapters employee action)"
proof -
  have "reconcile sv s adapters employee action =
      hbind (reconcile_checks sv s employee action) (\<lambda>_.
      hbind (\<lambda>w. hmap (reconcile_one sv adapters action) (employee_commands employee (w_db w)) w) (\<lambda>results.
      hreturn \<lparr>rr_employee_id = employee,
        rr_state = (if all_verified results then ''aligned'' else ''drift_or_unavailable''),
        rr_systems = results\<rparr>))"
    unfolding reconcile_def reconcile_checks_def hbind_assoc by (rule refl)
  moreover have "agrees (\<lambda>_. True) (reconcile_task sv s adapters employee action) \<dots>"
    unfolding reconcile_task_def by (intro agrees_intros)
  ultimately show ?thesis by (simp add: agrees_weaken)
qed

lemma worker_request_agrees [agrees_intros]:
  "agrees consistent_db (worker_request sv s adapters request) (run_unlocked sv s adapters request)"
proof -
  have "agrees consistent_db (case current of None \<Rightarrow> Finished (Inr ()) | Some r \<Rightarrow>
       Tests (EmployeeLock (er_employee_id r)) (\<lambda>locked.
         if locked then Finished (Inr ())
         else with_lock (EmployeeLock (er_employee_id r)) (
           Tests (RequestLock request) (\<lambda>locked.
           if locked then Finished (Inr ())
           else with_lock (RequestLock request) (run_request_task sv s adapters request)))))
     (if current = None then hreturn () else run_request sv s adapters request)" for current
    using run_request_agrees [of s request]
    by (auto simp: agrees_def with_lock_def alone_tbind hreturn_def split: option.split)
  then show ?thesis
    unfolding worker_request_def run_unlocked_def by (intro agrees_intros keeps_intros)
qed

lemma run_unlocked_agrees [agrees_intros]:
  "agrees consistent_db (run_unlocked_task sv s adapters request) (run_unlocked sv s adapters request)"
proof -
  have "agrees consistent_db (case current of None \<Rightarrow> Finished (Inr ())
       | Some r \<Rightarrow> with_lock (EmployeeLock (er_employee_id r)) (run_request_task sv s adapters request))
     (if current = None then hreturn () else run_request sv s adapters request)" for current
    by (cases current) (auto intro: agrees_intros)
  then show ?thesis
    unfolding run_unlocked_task_def run_unlocked_def by (intro agrees_intros keeps_intros)
qed

lemma compensate_due_agrees [agrees_intros]:
  "agrees consistent_db (compensate_due_task sv s adapters request) (compensate_due sv s adapters request)"
proof -
  have "agrees consistent_db (case current of None \<Rightarrow> Finished (Inr ())
       | Some r \<Rightarrow> critical (er_employee_id r) request (compensate_task sv s adapters request))
     (\<lambda>w. (Inr (), if current = None then w else compensate sv s adapters request w))" for current
    by (cases current) (auto intro!: agrees_intros)
  then show ?thesis
    unfolding compensate_due_task_def compensate_due_def by (intro agrees_intros keeps_intros)
qed

lemma listed_agrees [agrees_intros]:
  assumes "\<And>x. agrees consistent_db (t x) (m x)" and "\<And>x. keeps run (m x)"
  shows "agrees consistent_db (tthen (atomically (with_clock sv (\<lambda>t d. (Inr (f t d), d)))) (teach t))
    (hbind (with_clock sv (\<lambda>t d. (Inr (f t d), d))) (heach m))"
proof (intro agrees_then agrees_atomically)
  show "leaves consistent_db (with_clock sv (\<lambda>t d. (Inr (f t d), d)))"
    by (intro leaves_run keeps_clock) (simp add: run_of_def)
qed (intro agrees_teach assms leaves_run)

lemma worker_agrees [agrees_intros]:
  "agrees consistent_db (worker_task sv s adapters) (worker_pass sv s adapters)"
  unfolding worker_task_def worker_pass_def run_pending_def compensate_pending_def
  by (intro agrees_then listed_agrees worker_request_agrees compensate_due_agrees agrees_delivers leaves_run
      keeps_run_unlocked keeps_compensate_due keeps_pending [unfolded run_pending_def compensate_pending_def])

lemma recover_agrees [agrees_intros]:
  "agrees consistent_db (recover_task sv s adapters) (recover sv s adapters)"
proof -
  let ?scan = "with_clock3 sv (\<lambda>t t' t'' d.
    (Inr () :: unit res, snd (recover_stale t t' t'' (claim_timeout_seconds s) d)))"
  have scan: "leaves consistent_db ?scan"
    unfolding leaves_def
  proof (intro allI impI)
    fix w :: "'e world" assume "consistent_db (w_db w)"
    moreover have "\<exists>t t' t''. w_db (snd (?scan w)) = snd (recover_stale t t' t'' (claim_timeout_seconds s) (w_db w))"
      by (auto simp: with_clock_def with_clock2_def with_clock3_def Let_def split: prod.splits dest!: tick_eqD) blast
    ultimately show "consistent_db (w_db (snd (?scan w)))"
      using store_step_inv [OF store_step.recovers] by metis
  qed
  have gate: "keeps run (\<lambda>w. guard (gate_open sv ''RESTART_RECOVERY_GATE'' w)
       (EngineError 503 ''restart_recovery_gate_closed'') w)"
    by (intro keeps_intros)
  show ?thesis
    unfolding recover_task_def recover_def run_pending_def compensate_pending_def
    by (intro listed_agrees run_unlocked_agrees compensate_due_agrees agrees_then agrees_atomically scan
        leaves_run [OF gate] leaves_run [OF keeps_pending(1) [unfolded run_pending_def]]
        keeps_run_unlocked keeps_compensate_due)
qed

end

section \<open>The property\<close>

text \<open>C10. The engine as concurrent tasks is the engine: with the adapters the service has loaded, the
  task of each call, run without others from a reachable store, ends with the answer that the engine's
  function gives (its result, or the exception it raises), in the world that the function leaves.\<close>

theorem task_alone_is_engine:
  fixes objects :: "(string \<times> adapter_object) list"
  assumes "reachable (sv_sha256 sv) n (w_db w)"
  defines "adapters \<equiv> adapter_table sv objects"
  shows "alone (submit_task sv s adapters request ex) w = Some (submit sv s adapters request ex w) \<and>
    alone (retry_task sv s adapters request action) w = Some (retry sv s adapters request action w) \<and>
    alone (cancel_task sv s adapters request action) w = Some (cancel sv s adapters request action w) \<and>
    alone (verify_task sv s adapters request action) w = Some (verify sv s adapters request action w) \<and>
    alone (lifecycle_task sv s adapters employee oper ex) w = Some (lifecycle sv s adapters employee oper ex w) \<and>
    alone (reconcile_task sv s adapters employee action) w = Some (reconcile sv s adapters employee action w) \<and>
    alone (worker_task sv s adapters) w = Some (worker_pass sv s adapters w) \<and>
    alone (recover_task sv s adapters) w = Some (recover sv s adapters w)"
proof -
  have inv: "consistent_db (w_db w)" using reachable_machine_inv [OF assms(1)] by blast
  note agree = table.submit_agrees table.retry_agrees table.cancel_agrees table.verify_agrees
    table.lifecycle_agrees table.reconcile_agrees table.worker_agrees table.recover_agrees
  show ?thesis
    unfolding adapters_def by (intro conjI agree [THEN agreesD, OF inv])
qed

theorem task_alone_is_engine_witness:
  "\<exists>w'. alone (submit_task sample_sv sample_settings (adapter_table sample_sv []) ''request-9'' sample_submission)
     (sample_begun ''hash'') = Some (Inl (EngineError 422 ''request_id_mismatch''), w')"
proof -
  have "fst (submit sample_sv sample_settings (adapter_table sample_sv []) ''request-9'' sample_submission
      (sample_begun ''hash'')) = Inl (EngineError 422 ''request_id_mismatch'')"
    by code_simp
  then show ?thesis
    using task_alone_is_engine [OF sample_begun_reachable, of sample_settings "[]" "''request-9''" sample_submission]
    by (metis prod.collapse)
qed

end
