(* ===== verification/Isolation.thy ===== *)
theory Isolation
  imports Task_Equivalence
begin

text \<open>
  What the locks of the engine protect in the store. The rows of a request belong to whoever holds its
  request lock; the steps and verification records of an employee, which decide whether access may be
  enabled, belong to whoever holds the employee's lock. \<open>rely\<close> is what a task that holds a set of locks
  may expect of the others; a task guarantees to the others what holders of all other locks may rely
  on. Here are the two relations and the moves of the repository's calls within them.
\<close>

section \<open>Employees of steps\<close>

definition employee_of :: "string \<Rightarrow> db \<Rightarrow> string option" where
  "employee_of request d = map_option ex_employee_id
     (sql_first (filter (\<lambda>e. ex_request_id e = request) (tbl_executions d)))"

lemma step_employee_of: "step_employee d s = employee_of (st_request_id s) d"
  by (simp add: step_employee_def employee_of_def)

text \<open>The command of a step names the employee of its execution.\<close>

definition employee_inv :: "db \<Rightarrow> bool" where
  "employee_inv d \<longleftrightarrow>
     (\<forall>s \<in> set (tbl_steps d). employee_of (st_request_id s) d = Some (employee_id (st_command s)))"

definition sound_db :: "db \<Rightarrow> bool" where
  "sound_db d \<longleftrightarrow> consistent_db d \<and> employee_inv d"

lemma sound_store: "sound_db d \<Longrightarrow> store_inv d"
  by (auto simp: sound_db_def machine_inv_def)

lemma sound_empty: "sound_db empty_db"
  using reachable_machine_inv [OF reachable.initial] by (auto simp: sound_db_def employee_inv_def)

lemma employee_of_ident:
  assumes "map exec_ident (tbl_executions d') = map exec_ident (tbl_executions d)"
  shows "employee_of request d' = employee_of request d"
  unfolding employee_of_def
  by (rule sql_first_map_cong [OF assms, where Q = "\<lambda>(r, e, c). r = request" and h = "\<lambda>(r, e, c). e"])
     (auto simp: exec_ident_def)

lemma employee_of_begin:
  assumes "employee_of request d = Some e"
  shows "employee_of request (snd (begin_execution sha t ex h d)) = Some e"
proof (cases rule: begin_cases [of sha t ex h d])
  case (fresh d')
  then show ?thesis using assms
    by (auto simp: begin_fresh(2) [OF fresh] employee_of_def dest: sql_first_append)
qed (use assms in simp_all)

lemma begun_employee:
  assumes "begin_execution sha t ex h d = (Inr (None, False), d')"
  shows "employee_of (request_id ex) d' = Some (employee_id ex)"
proof -
  have "filter (\<lambda>e. ex_request_id e = request_id ex) (tbl_executions d) = []"
    using begin_fresh(4) [OF assms] by (metis (mono_tags, lifting) filter_False image_eqI)
  then show ?thesis
    by (simp add: employee_of_def begin_fresh(2) [OF assms] new_exec_row_def)
qed

lemma employee_inv_begin:
  assumes "employee_inv d" and "steps_belong ex"
  shows "employee_inv (snd (begin_execution sha t ex h d))"
proof (cases rule: begin_cases [of sha t ex h d])
  case (fresh d')
  have old: "employee_of (st_request_id s) d' = Some (employee_id (st_command s))" if "s \<in> set (tbl_steps d)" for s
    using employee_of_begin [of "st_request_id s" d _ sha t ex h] assms(1) that fresh
    by (auto simp: employee_inv_def)
  have "employee_of (st_request_id s) d' = Some (employee_id (st_command s))"
    if "s \<in> new_step_row sha t (request_id ex) ` set (steps ex)" for s
    using that begun_employee [OF fresh] assms(2) by (auto simp: new_step_row_def steps_belong_def)
  then show ?thesis
    using old fresh by (auto simp: employee_inv_def begin_fresh(2) [OF fresh])
qed (use assms in simp_all)

lemma employee_inv_idents:
  assumes "map step_ident (tbl_steps d') = map step_ident (tbl_steps d)"
    and execs: "map exec_ident (tbl_executions d') = map exec_ident (tbl_executions d)"
  shows "employee_inv d' = employee_inv d"
proof -
  have "map (\<lambda>s. employee_of (st_request_id s) d = Some (employee_id (st_command s))) (tbl_steps d') =
      map (\<lambda>s. employee_of (st_request_id s) d = Some (employee_id (st_command s))) (tbl_steps d)"
    by (rule map_eq_via [OF assms(1), where h = "\<lambda>(i, r, q, k, c, m). employee_of r d = Some (employee_id c)"])
       (simp add: step_ident_def)
  then show ?thesis
    using list_all_map_cong [of "\<lambda>s. employee_of (st_request_id s) d = Some (employee_id (st_command s))"]
    by (simp add: employee_inv_def employee_of_ident [OF execs] list_all_iff)
qed

lemmas step_step_idents = complete.keeps_step_ident fail.keeps_step_ident
  retry.keeps_step_ident release.keeps_step_ident cancel.keeps_step_ident
  mark.keeps_step_ident result.keeps_step_ident recover.keeps_step_ident
  claim.keeps_step_ident

lemma store_step_idents:
  "store_step sha k d d' \<Longrightarrow> store_inv d \<Longrightarrow>
     (\<exists>ex t h. steps_belong ex \<and> d' = snd (begin_execution sha t ex h d)) \<or>
     map step_ident (tbl_steps d') = map step_ident (tbl_steps d) \<and>
     map exec_ident (tbl_executions d') = map exec_ident (tbl_executions d)"
proof (induction rule: store_step.induct)
  case (begins ex d t h)
  show ?case by (rule disjI1, intro exI conjI, rule begins, rule refl)
qed (rule disjI2, simp add: step_step_idents step_exec_idents store_inv_distinct)+

lemma store_step_sound:
  assumes "store_step sha 0 d d'" and "sound_db d"
  shows "sound_db d'" and "employee_of request d = Some e \<Longrightarrow> employee_of request d' = Some e"
proof -
  have inv: "store_inv d" using assms(2) by (rule sound_store)
  have "consistent_db d'" using assms store_step_inv [OF assms(1)] by (auto simp: sound_db_def)
  moreover have "employee_inv d'"
    using store_step_idents [OF assms(1) inv]
  proof (elim disjE exE conjE)
    fix ex t h assume "steps_belong ex" and d': "d' = snd (begin_execution sha t ex h d)"
    then show ?thesis using employee_inv_begin assms(2) by (simp add: sound_db_def)
  next
    assume "map step_ident (tbl_steps d') = map step_ident (tbl_steps d)"
      and "map exec_ident (tbl_executions d') = map exec_ident (tbl_executions d)"
    from employee_inv_idents [OF this] show ?thesis using assms(2) by (simp add: sound_db_def)
  qed
  ultimately show "sound_db d'" by (simp add: sound_db_def)
  show "employee_of request d' = Some e" if "employee_of request d = Some e"
    using store_step_idents [OF assms(1) inv] that employee_of_begin employee_of_ident by metis
qed

lemma store_steps_sound:
  assumes "(store_step sha 0)\<^sup>*\<^sup>* d d'" and "sound_db d"
  shows "sound_db d'" and "employee_of request d = Some e \<Longrightarrow> employee_of request d' = Some e"
proof -
  have "sound_db d' \<and> (employee_of request d = Some e \<longrightarrow> employee_of request d' = Some e)"
    using assms(1)
  proof (induction rule: rtranclp_induct)
    case (step y z)
    then show ?case using store_step_sound [OF step.hyps(2)] by blast
  qed (use assms(2) in simp)
  then show "sound_db d'" and "employee_of request d = Some e \<Longrightarrow> employee_of request d' = Some e"
    by auto
qed

section \<open>Rely and guarantee\<close>

text \<open>What decides on the access of an employee.\<close>

definition employee_view :: "string \<Rightarrow> db \<Rightarrow> step_row list \<times> verification_row list" where
  "employee_view employee d =
     (filter (\<lambda>s. employee_of (st_request_id s) d = Some employee) (tbl_steps d),
      filter (\<lambda>r. vr_employee_id r = employee) (tbl_verification_records d))"

lemma activation_blockers_view:
  assumes "employee_view employee d' = employee_view employee d"
  shows "activation_blockers employee required d' = activation_blockers employee required d"
proof -
  have "employee_steps employee d' = employee_steps employee d"
    using assms by (simp add: employee_view_def employee_steps_def step_employee_of)
  moreover have "verified_sources employee d' = verified_sources employee d"
    using assms by (simp add: employee_view_def verified_sources_def)
  ultimately show ?thesis by (simp only: activation_blockers_def)
qed

text \<open>What the holder of the locks \<open>L\<close> may rely on.\<close>

definition rely :: "(string \<Rightarrow> string) \<Rightarrow> lock set \<Rightarrow> db \<Rightarrow> db \<Rightarrow> bool" where
  "rely sha L d d' \<longleftrightarrow>
     sound_db d \<and> sound_db d' \<and> (store_step sha 0)\<^sup>*\<^sup>* d d' \<and>
     (\<forall>r. RequestLock r \<in> L \<longrightarrow> rows_of r d' = rows_of r d) \<and>
     (\<forall>e. EmployeeLock e \<in> L \<longrightarrow> employee_view e d' = employee_view e d)"

text \<open>And what it guarantees: what the holders of every other lock rely on.\<close>

abbreviation guarantee :: "(string \<Rightarrow> string) \<Rightarrow> lock set \<Rightarrow> db \<Rightarrow> db \<Rightarrow> bool" where
  "guarantee sha L \<equiv> rely sha (- L)"

lemma rely_refl [simp]: "rely sha L d d \<longleftrightarrow> sound_db d"
  by (simp add: rely_def)

lemma rely_trans: "rely sha L d d' \<Longrightarrow> rely sha L d' d'' \<Longrightarrow> rely sha L d d''"
  by (auto simp: rely_def intro: rtranclp_trans)

lemma rely_antimono: "rely sha L d d' \<Longrightarrow> L' \<subseteq> L \<Longrightarrow> rely sha L' d d'"
  by (auto simp: rely_def)

text \<open>Two holders of disjoint sets of locks do not interfere.\<close>

lemma guarantee_rely: "guarantee sha L d d' \<Longrightarrow> L \<inter> L' = {} \<Longrightarrow> rely sha L' d d'"
  by (rule rely_antimono) auto

lemma relyD:
  assumes "rely sha L d d'"
  shows "sound_db d'" "(store_step sha 0)\<^sup>*\<^sup>* d d'" "sound_db d"
    "RequestLock r \<in> L \<Longrightarrow> rows_of r d' = rows_of r d"
    "EmployeeLock e \<in> L \<Longrightarrow> employee_view e d' = employee_view e d"
  using assms by (auto simp: rely_def)

section \<open>Moves that concern nobody\<close>

text \<open>Reads of results, and writes to the other tables.\<close>

definition quiet_db :: "(string \<Rightarrow> string) \<Rightarrow> db \<Rightarrow> db \<Rightarrow> bool" where
  "quiet_db sha d d' \<longleftrightarrow>
     (store_step sha 0)\<^sup>*\<^sup>* d d' \<and> tbl_steps d' = tbl_steps d \<and>
     map exec_ident (tbl_executions d') = map exec_ident (tbl_executions d) \<and>
     tbl_verification_records d' = tbl_verification_records d"

lemma quiet_preorder [simp, keeps_intros]: "reflp (quiet_db sha)" "transp (quiet_db sha)"
proof -
  show "reflp (quiet_db sha)" by (simp add: reflp_def quiet_db_def)
  show "transp (quiet_db sha)" unfolding quiet_db_def by (rule transpI) (metis rtranclp_trans)
qed

lemma quiet_rows: "quiet_db sha d d' \<Longrightarrow> rows_of r d' = rows_of r d"
  "quiet_db sha d d' \<Longrightarrow> employee_of r d' = employee_of r d"
  "quiet_db sha d d' \<Longrightarrow> employee_view e d' = employee_view e d"
proof -
  have emp: "employee_of r d' = employee_of r d" if "quiet_db sha d d'" for r
    using that by (intro employee_of_ident) (simp add: quiet_db_def)
  show "quiet_db sha d d' \<Longrightarrow> employee_of r d' = employee_of r d" by (rule emp)
  show "quiet_db sha d d' \<Longrightarrow> rows_of r d' = rows_of r d" by (simp add: quiet_db_def rows_of_def)
  show "quiet_db sha d d' \<Longrightarrow> employee_view e d' = employee_view e d"
    by (simp add: employee_view_def emp) (simp add: quiet_db_def)
qed

lemma quiet_rely: "quiet_db sha d d' \<Longrightarrow> sound_db d \<Longrightarrow> rely sha L d d'"
  using store_steps_sound(1) [of sha d d'] quiet_rows [of sha d d']
  by (simp add: rely_def quiet_db_def)

lemma quiet_result: "quiet_db sha d (snd (request_result t t' request replayed d))"
  unfolding quiet_db_def
proof (intro conjI)
  show "tbl_verification_records (snd (request_result t t' request replayed d)) = tbl_verification_records d"
    by (simp add: request_result_def Let_def split: option.split sum.split)
qed (simp_all add: r_into_rtranclp store_step.reads request_result_tables step_exec_idents)

text \<open>What the rest of the service does to the store, the adapters and the deliveries included.\<close>

definition elsewhere_db :: "db \<Rightarrow> db \<Rightarrow> bool" where
  "elsewhere_db d d' \<longleftrightarrow> same_steps d d' \<and> tbl_verification_records d' = tbl_verification_records d"

lemma elsewhere_quiet: "elsewhere_db d d' \<Longrightarrow> quiet_db sha d d'"
  using same_steps_run by (auto simp: elsewhere_db_def same_steps_def quiet_db_def)

lemma adapter_elsewhere: "adapter_frame d d' \<Longrightarrow> elsewhere_db d d'"
  by (simp add: adapter_frame_def elsewhere_db_def same_steps_def)

section \<open>Moves of the holder of a request\<close>

text \<open>An update of rows of one request.\<close>

definition writes_rows :: "string \<Rightarrow> db \<Rightarrow> db \<Rightarrow> bool" where
  "writes_rows request d d' \<longleftrightarrow>
     (\<exists>P f. tbl_steps d' = sql_update P f (tbl_steps d) \<and>
        (\<forall>s \<in> set (tbl_steps d). P s \<longrightarrow> st_request_id s = request \<and> st_request_id (f s) = request)) \<and>
     map exec_ident (tbl_executions d') = map exec_ident (tbl_executions d) \<and>
     tbl_verification_records d' = tbl_verification_records d"

lemma writes_rowsI:
  assumes "tbl_steps d' = sql_update P f (tbl_steps d)"
    and "\<And>s. s \<in> set (tbl_steps d) \<Longrightarrow> P s \<Longrightarrow> st_request_id s = request \<and> st_request_id (f s) = request"
    and "map exec_ident (tbl_executions d') = map exec_ident (tbl_executions d)"
    and "tbl_verification_records d' = tbl_verification_records d"
  shows "writes_rows request d d'"
  using assms unfolding writes_rows_def by blast

lemma writes_rows_refl: "writes_rows request d d"
  by (rule writes_rowsI [where P = "\<lambda>_. False"]) (simp_all add: sql_update_def)

text \<open>Every step of the request is one of the employee.\<close>

definition owned :: "string \<Rightarrow> string \<Rightarrow> db \<Rightarrow> bool" where
  "owned employee request d \<longleftrightarrow> (rows_of request d \<noteq> [] \<longrightarrow> employee_of request d = Some employee)"

lemma filter_update_elsewhere:
  "(\<And>s. s \<in> set xs \<Longrightarrow> P s \<Longrightarrow> \<not> G s \<and> \<not> G (f s)) \<Longrightarrow> filter G (sql_update P f xs) = filter G xs"
  by (induction xs) (auto simp: sql_update_def)

lemma writes_rows_move:
  assumes move: "store_step sha 0 d d'" and writes: "writes_rows request d d'"
    and sound: "sound_db d" and owned: "owned employee request d"
  shows "guarantee sha {EmployeeLock employee, RequestLock request} d d'"
    and "owned employee request d'"
proof -
  obtain P f where steps: "tbl_steps d' = sql_update P f (tbl_steps d)"
      and local: "\<And>s. s \<in> set (tbl_steps d) \<Longrightarrow> P s \<Longrightarrow>
        st_request_id s = request \<and> st_request_id (f s) = request"
    using writes by (auto simp: writes_rows_def)
  have emp: "employee_of r d' = employee_of r d" for r
    using writes by (intro employee_of_ident) (simp add: writes_rows_def)
  have "rows_of r d' = rows_of r d" if "r \<noteq> request" for r
    unfolding rows_of_def steps by (rule filter_update_elsewhere) (use local that in auto)
  moreover have "employee_view e d' = employee_view e d" if "e \<noteq> employee" for e
  proof -
    have "employee_of request d = Some employee" if "s \<in> set (tbl_steps d)" "P s" for s
    proof -
      have "s \<in> set (rows_of request d)" using local [OF that] that(1) by (simp add: rows_of_def)
      then show ?thesis using owned unfolding owned_def by (cases "rows_of request d") simp_all
    qed
    then have "filter (\<lambda>s. employee_of (st_request_id s) d = Some e) (sql_update P f (tbl_steps d)) =
        filter (\<lambda>s. employee_of (st_request_id s) d = Some e) (tbl_steps d)"
      using that local by (intro filter_update_elsewhere) simp
    then show ?thesis
      using writes by (simp add: employee_view_def emp steps writes_rows_def)
  qed
  ultimately show "guarantee sha {EmployeeLock employee, RequestLock request} d d'"
    using store_step_sound(1) [OF move sound] sound r_into_rtranclp [of "store_step sha 0", OF move]
    by (simp add: rely_def)
  have "st_request_id s = request" if "s \<in> set (tbl_steps d)"
      "st_request_id (if P s then f s else s) = request" for s
    using local [OF that(1)] that(2) by (cases "P s") simp_all
  then have "rows_of request d = [] \<Longrightarrow> rows_of request d' = []"
    unfolding rows_of_def steps filter_empty_conv set_sql_update by blast
  then show "owned employee request d'"
    using owned unfolding owned_def emp by blast
qed

text \<open>The steps with the identifier of a row of the request are rows of the request.\<close>

definition holds_step :: "string \<Rightarrow> string \<Rightarrow> db \<Rightarrow> bool" where
  "holds_step request step d \<longleftrightarrow>
     (\<exists>s \<in> set (rows_of request d). st_step_id s = step \<and> st_state s = Running)"

lemma holds_step_rows: "rows_of request d' = rows_of request d \<Longrightarrow> holds_step request step d' = holds_step request step d"
  by (simp add: holds_step_def)

lemma held_step:
  assumes "holds_step request step d" and "sound_db d" and "s \<in> set (tbl_steps d)" "st_step_id s = step"
  shows "st_request_id s = request" and "st_state s = Running"
proof -
  obtain s' where s': "s' \<in> set (tbl_steps d)" "st_request_id s' = request" "st_step_id s' = step"
      "st_state s' = Running"
    using assms(1) by (auto simp: holds_step_def rows_of_def)
  then have "s = s'"
    using unique_key_eq [OF store_inv_distinct [OF sound_store [OF assms(2)]] assms(3) s'(1)] assms(4) by simp
  then show "st_request_id s = request" and "st_state s = Running" using s' by simp_all
qed

lemma held_in_flight: "holds_step request step d \<Longrightarrow> sound_db d \<Longrightarrow> in_flight step d"
  unfolding in_flight_def using held_step(2) by blast

lemma claim_records [simp]:
  "tbl_verification_records (snd (claim_next t request d)) = tbl_verification_records d"
  "tbl_verification_records (snd (fail_step t t' step code cls at d)) = tbl_verification_records d"
  "tbl_verification_records (snd (schedule_step_retry t t' t'' request d)) = tbl_verification_records d"
  by (simp_all add: claim_next_def fail_step_def insert_dead_letter_def schedule_step_retry_def Let_def
      split: option.split)

lemma writes_held:
  assumes held: "holds_step request step d" and sound: "sound_db d"
  shows "writes_rows request d (snd (complete_step t step done_st result d))"
    and "writes_rows request d (snd (fail_step t t' step code cls at d))"
    and "writes_rows request d (release_activation_claim t t' t'' step d)"
proof -
  note only = held_step(1) [OF held sound]
  show "writes_rows request d (snd (complete_step t step done_st result d))"
  proof (cases "is_done done_st")
    case True
    show ?thesis
      by (rule writes_rowsI [where P = "\<lambda>s. st_step_id s = step"])
         (simp_all add: complete_step_def True, simp add: only)
  qed (simp add: complete_step_def writes_rows_refl)
  show "writes_rows request d (snd (fail_step t t' step code cls at d))"
  proof (cases "sql_first (filter (\<lambda>s. st_step_id s = step) (tbl_steps d))")
    case None
    then show ?thesis by (simp add: fail_step_def writes_rows_refl)
  next
    case (Some row)
    show ?thesis
      by (rule writes_rowsI [where P = "\<lambda>s. st_step_id s = step"])
         (simp_all add: fail_step_tables Some, simp add: only)
  qed
  show "writes_rows request d (release_activation_claim t t' t'' step d)"
    using release.keeps_exec_ident
    by (intro writes_rowsI [where P = "\<lambda>s. st_step_id s = step \<and> st_state s = Running"])
       (simp_all add: release_activation_claim_def, simp add: only)
qed

lemma writes_request:
  "writes_rows request d (snd (cancel_pending t request d))"
  "writes_rows request d (mark_cancelled t t' request d)"
  "writes_rows request d (snd (schedule_step_retry t t' t'' request d))"
  "writes_rows request d (snd (claim_next t request d))"
  if "sound_db d"
proof -
  have one: "st_request_id s = request"
    if "s \<in> set (tbl_steps d)" "row \<in> set (tbl_steps d)" "st_step_id s = st_step_id row" "st_request_id row = request"
    for s row
    using unique_key_eq [OF store_inv_distinct [OF sound_store [OF \<open>sound_db d\<close>]] that(1,2)] that(3,4) by simp
  show "writes_rows request d (snd (cancel_pending t request d))"
    by (rule writes_rowsI [where P = "cancellable request"]) (simp_all add: cancel_pending_def, simp add: cancellable_def)
  show "writes_rows request d (mark_cancelled t t' request d)"
    by (rule writes_rowsI [where P = "\<lambda>_. False"])
       (simp_all add: mark.keeps_exec_ident, simp_all add: mark_cancelled_def sql_update_def)
  show "writes_rows request d (snd (schedule_step_retry t t' t'' request d))"
  proof (cases "fst (schedule_step_retry t t' t'' request d)")
    case True
    then obtain row where row: "row \<in> set (tbl_steps d)" "st_request_id row = request"
        "tbl_steps (snd (schedule_step_retry t t' t'' request d)) =
           sql_update (\<lambda>s. st_step_id s = st_step_id row)
             (\<lambda>s. s\<lparr>st_state := RetryWait, st_next_retry_at := Some t, st_claimed_at := None, st_updated_at := t'\<rparr>)
             (tbl_steps d)"
    proof (cases "sql_first (order_by st_sequence
             (filter (\<lambda>s. st_request_id s = request \<and>
                          st_state s \<in> {Failed, DeadLetter, RetryWait} \<and>
                          st_attempt_count s < st_max_attempts s) (tbl_steps d)))")
      case (Some row)
      show thesis
        by (rule that [of row]) (use Some in \<open>auto simp: schedule_step_retry_def dest!: sql_first_Some_mem\<close>)
    qed (use True in \<open>simp add: schedule_step_retry_def\<close>)
    show ?thesis
    proof (rule writes_rowsI [OF row(3)])
      show "st_request_id s = request \<and> st_request_id (s\<lparr>st_state := RetryWait, st_next_retry_at := Some t,
          st_claimed_at := None, st_updated_at := t'\<rparr>) = request"
        if "s \<in> set (tbl_steps d)" "st_step_id s = st_step_id row" for s
        using one [OF that(1) row(1) that(2) row(2)] by simp
    qed (simp_all add: retry.keeps_exec_ident store_inv_distinct sound_store \<open>sound_db d\<close>)
  next
    case False
    then show ?thesis by (simp add: schedule_step_retry_def writes_rows_refl split: option.splits)
  qed
  show "writes_rows request d (snd (claim_next t request d))"
  proof (cases rule: claim_next_cases [of t request d])
    case (claimed row)
    show ?thesis
    proof (rule writes_rowsI [OF claimed(6)])
      show "st_request_id s = request \<and> st_request_id (s\<lparr>st_state := Running,
          st_attempt_count := st_attempt_count s + 1, st_claimed_at := Some t, st_updated_at := t\<rparr>) = request"
        if "s \<in> set (tbl_steps d)" "st_step_id s = st_step_id row" for s
        using one [OF that(1) claimed(1) that(2) runnableD(1) [OF claimed(2)]] by simp
    qed (simp_all add: claim.keeps_exec_ident)
  qed (simp add: writes_rows_refl)
qed

section \<open>Moves of the holder of an employee\<close>

lemma begin_move:
  assumes sound: "sound_db d" and belong: "steps_belong ex"
  shows "guarantee sha {EmployeeLock (employee_id ex), RequestLock (request_id ex)} d
    (snd (begin_execution sha t ex h d))"
proof -
  let ?d' = "snd (begin_execution sha t ex h d)"
  note step = store_step.begins [OF belong, of sha d t h]
  have local: "(\<forall>r. r \<noteq> request_id ex \<longrightarrow> rows_of r ?d' = rows_of r d) \<and>
      (\<forall>e. e \<noteq> employee_id ex \<longrightarrow> employee_view e ?d' = employee_view e d)"
  proof (cases rule: begin_cases [of sha t ex h d])
    case (fresh d')
    note d' = begin_fresh(2) [OF fresh]
    let ?new = "map (new_step_row sha t (request_id ex)) (order_by sequence (steps ex))"
    have new: "st_request_id s = request_id ex" if "s \<in> set ?new" for s
      using that by (auto simp: new_step_row_def)
    have old: "employee_of (st_request_id s) d' = employee_of (st_request_id s) d" if "s \<in> set (tbl_steps d)" for s
      using employee_of_begin [of "st_request_id s" d _ sha t ex h] sound that fresh
      by (auto simp: sound_db_def employee_inv_def)
    have "filter (\<lambda>s. employee_of (st_request_id s) d' = Some e) (tbl_steps d) =
        filter (\<lambda>s. employee_of (st_request_id s) d = Some e) (tbl_steps d)" for e
      by (rule filter_cong) (simp_all add: old)
    moreover have "filter (\<lambda>s. employee_of (st_request_id s) d' = Some e) ?new = []"
      if "e \<noteq> employee_id ex" for e
      using that new begun_employee [OF fresh] by (auto simp: filter_empty_conv)
    ultimately have "employee_view e d' = employee_view e d" if "e \<noteq> employee_id ex" for e
      using that by (simp add: employee_view_def d')
    moreover have "rows_of r d' = rows_of r d" if "r \<noteq> request_id ex" for r
      using that new by (auto simp: rows_of_def d' filter_empty_conv)
    ultimately show ?thesis using fresh by simp
  qed simp_all
  then show ?thesis
    using store_step_sound(1) [OF step sound] sound r_into_rtranclp [of "store_step sha 0", OF step]
    by (simp add: rely_def)
qed

lemma begun_owned:
  "begin_execution sha t ex h d = (Inr (None, False), d') \<Longrightarrow> owned (employee_id ex) (request_id ex) d'"
  by (simp add: owned_def begun_employee)

lemma verification_move:
  assumes "sound_db d"
  shows "guarantee sha {EmployeeLock employee} d (snd (record_verification t employee system step evidence d))"
proof -
  let ?d' = "snd (record_verification t employee system step evidence d)"
  have same: "same_steps d ?d'"
    by (simp add: same_steps_def record_verification_def upsert_verification_def)
  have "filter (\<lambda>r. vr_employee_id r = e) (tbl_verification_records ?d') =
      filter (\<lambda>r. vr_employee_id r = e) (tbl_verification_records d)" if "e \<noteq> employee" for e
    using that
    by (auto simp: record_verification_def upsert_verification_def sql_upsert_def verification_row_key_def
        intro!: filter_update_elsewhere)
  then have "employee_view e ?d' = employee_view e d" if "e \<noteq> employee" for e
    using that same by (simp add: employee_view_def employee_of_def same_steps_def)
  moreover have "rows_of r ?d' = rows_of r d" for r
    using same by (simp add: rows_of_def same_steps_def)
  ultimately show ?thesis
    using store_steps_sound(1) [OF same_steps_run [OF same] assms] assms same_steps_run [OF same]
    by (simp add: rely_def)
qed

end
