(* ===== verification/Task_Safety.thy ===== *)
theory Task_Safety
  imports Isolation
begin

text \<open>
  The tasks of the engine keep to their locks. A task is safe from a store when, whatever the others do
  to the store within what the task's locks allow, each of its steps stays within what it guarantees,
  each of its adapter calls is allowed, and it takes the locks in order and never twice. The rules are
  those of a Hoare logic over stable assertions; the theory Engine\_Safety applies them to the tasks of
  the engine.
\<close>

section \<open>Safe tasks\<close>

text \<open>An employee lock is taken first, and one request lock after it.\<close>

definition in_order :: "lock \<Rightarrow> lock set \<Rightarrow> bool" where
  "in_order l L \<longleftrightarrow>
     l \<notin> L \<and> (case l of EmployeeLock _ \<Rightarrow> L = {} | RequestLock _ \<Rightarrow> \<forall>r. RequestLock r \<notin> L)"

text \<open>
  A call that may change something on the remote side holds the locks of its employee and its request,
  and a call that enables access finds nothing that blocks it.
\<close>

definition call_allowed :: "lock set \<Rightarrow> operation \<Rightarrow> step_command \<Rightarrow> db \<Rightarrow> bool" where
  "call_allowed L oper c d \<longleftrightarrow>
     (oper \<notin> {Verify, Reconcile} \<longrightarrow> EmployeeLock (employee_id c) \<in> L \<and> RequestLock (request_id c) \<in> L) \<and>
     (is_access_enabling oper \<longrightarrow>
        activation_blockers (employee_id c) [target_value (target_system c)] d = [])"

inductive safe :: "(string \<Rightarrow> string) \<Rightarrow> ('a \<Rightarrow> lock set \<Rightarrow> db \<Rightarrow> bool) \<Rightarrow> lock set \<Rightarrow> db \<Rightarrow> ('e, 'a) task \<Rightarrow> bool"
  for sha Q where
  finished: "(\<And>d'. rely sha L d d' \<Longrightarrow> Q x L d') \<Longrightarrow> safe sha Q L d (Finished x)"
| atomic: "(\<And>w. rely sha L d (w_db w) \<Longrightarrow> guarantee sha L (w_db w) (w_db (u w))) \<Longrightarrow>
     (\<And>w. rely sha L d (w_db w) \<Longrightarrow> safe sha Q L (w_db (u w)) (k w)) \<Longrightarrow> safe sha Q L d (Atomic u k)"
| calls: "(\<And>d'. rely sha L d d' \<Longrightarrow> call_allowed L oper c d') \<Longrightarrow>
     (\<And>d' r. rely sha L d d' \<Longrightarrow> safe sha Q L d' (k r)) \<Longrightarrow> safe sha Q L d (Calls a oper c k)"
| delivers: "(\<And>d' r. rely sha L d d' \<Longrightarrow> safe sha Q L d' (k r)) \<Longrightarrow> safe sha Q L d (Delivers m k)"
| locks: "in_order l L \<Longrightarrow> (\<And>d'. rely sha L d d' \<Longrightarrow> safe sha Q (insert l L) d' t) \<Longrightarrow>
     safe sha Q L d (Locks l t)"
| unlocks: "l \<in> L \<Longrightarrow> (\<And>d'. rely sha L d d' \<Longrightarrow> safe sha Q (L - {l}) d' t) \<Longrightarrow>
     safe sha Q L d (Unlocks l t)"
| tests: "(\<And>d' b. rely sha L d d' \<Longrightarrow> safe sha Q L d' (k b)) \<Longrightarrow> safe sha Q L d (Tests l k)"

inductive_cases safe_elims:
  "safe sha Q L d (Finished x)" "safe sha Q L d (Atomic u k)" "safe sha Q L d (Calls a oper c k)"
  "safe sha Q L d (Delivers m k)" "safe sha Q L d (Locks l t)" "safe sha Q L d (Unlocks l t)"
  "safe sha Q L d (Tests l k)" "safe sha Q L d Exhausted"

text \<open>What the others do keeps a task safe.\<close>

lemma safe_later:
  assumes "safe sha Q L d t" and "rely sha L d d'"
  shows "safe sha Q L d' t"
proof -
  have next_rely: "rely sha L d d''" if "rely sha L d' d''" for d''
    using assms(2) that by (rule rely_trans)
  show ?thesis
    using assms(1) by (cases rule: safe.cases) (auto intro!: safe.intros dest!: next_rely)
qed

lemma safe_now:
  assumes "\<And>d'. rely sha L d d' \<Longrightarrow> safe sha Q L d' t" and "sound_db d"
  shows "safe sha Q L d t"
  using assms(1) [of d] assms(2) by simp

lemma safe_bind:
  assumes "safe sha Q L d t" and "sound_db d"
    and post: "\<And>x L d. Q x L d \<Longrightarrow> sound_db d \<Longrightarrow> safe sha R L d (f x)"
  shows "safe sha R L d (tbind t f)"
  using assms(1,2)
proof (induction rule: safe.induct)
  case (finished L d x)
  then show ?case using post by simp
next
  case (atomic L d u k)
  show ?case
    unfolding tbind.simps by (rule safe.atomic, rule atomic(1), assumption) (blast intro: relyD(1) atomic)
next
  case (calls L d oper c k a)
  show ?case
    unfolding tbind.simps by (rule safe.calls, rule calls(1), assumption) (blast intro: relyD(1) calls)
next
  case (delivers L d k m)
  show ?case unfolding tbind.simps by (rule safe.delivers) (blast intro: relyD(1) delivers)
next
  case (tests L d k l)
  show ?case unfolding tbind.simps by (rule safe.tests) (blast intro: relyD(1) tests)
qed (auto intro!: safe.locks safe.unlocks intro: relyD(1))

section \<open>Assertions\<close>

definition stable :: "(string \<Rightarrow> string) \<Rightarrow> lock set \<Rightarrow> (db \<Rightarrow> bool) \<Rightarrow> bool" where
  "stable sha L P \<longleftrightarrow> (\<forall>d d'. rely sha L d d' \<longrightarrow> P d \<longrightarrow> P d')"

text \<open>From \<open>P\<close>, with the locks \<open>L\<close> held, the task is safe and ends in \<open>Q\<close> with the same locks.\<close>

definition holds ::
  "(string \<Rightarrow> string) \<Rightarrow> lock set \<Rightarrow> (db \<Rightarrow> bool) \<Rightarrow> ('e, 'a) task \<Rightarrow> ('a \<Rightarrow> db \<Rightarrow> bool) \<Rightarrow> bool" where
  "holds sha L P t Q \<longleftrightarrow>
     (\<forall>d. sound_db d \<longrightarrow> P d \<longrightarrow> safe sha (\<lambda>x L' d'. L' = L \<and> Q x d') L d t)"

lemma holdsD: "holds sha L P t Q \<Longrightarrow> sound_db d \<Longrightarrow> P d \<Longrightarrow> safe sha (\<lambda>x L' d'. L' = L \<and> Q x d') L d t"
  by (simp add: holds_def)

lemma stableD: "stable sha L P \<Longrightarrow> rely sha L d d' \<Longrightarrow> P d \<Longrightarrow> P d'"
  by (simp add: stable_def)

lemma stable_later: "stable sha L P \<Longrightarrow> P d \<Longrightarrow> rely sha L d d' \<Longrightarrow> sound_db d' \<and> P d'"
  using stableD relyD(1) by blast

named_theorems stable_intros \<open>assertions the others keep\<close>

lemma stable_logic [stable_intros]:
  "stable sha L (\<lambda>_. b)"
  "stable sha L P \<Longrightarrow> stable sha L P' \<Longrightarrow> stable sha L (\<lambda>d. P d \<and> P' d)"
  "stable sha L P \<Longrightarrow> stable sha L (\<lambda>d. b \<longrightarrow> P d)"
  by (auto simp: stable_def)

lemma waiting_of_rows:
  "waiting_count request d = length (filter (\<lambda>s. is_waiting (st_state s)) (rows_of request d))"
  by (simp add: waiting_count_def rows_of_def conj_commute)

lemma stable_rows [stable_intros]:
  "RequestLock r \<in> L \<Longrightarrow> stable sha L (holds_step r step)"
  "RequestLock r \<in> L \<Longrightarrow> stable sha L (\<lambda>d. waiting_count r d < n)"
  unfolding stable_def waiting_of_rows by (metis relyD(4) holds_step_rows)+

lemma stable_employee [stable_intros]: "stable sha L (\<lambda>d. employee_of r d = Some e)"
  unfolding stable_def using store_steps_sound(2) relyD by blast

lemma stable_owned [stable_intros]: "RequestLock r \<in> L \<Longrightarrow> stable sha L (owned e r)"
  unfolding stable_def owned_def using store_steps_sound(2) relyD by metis

lemma stable_blockers [stable_intros]:
  "EmployeeLock e \<in> L \<Longrightarrow> stable sha L (\<lambda>d. activation_blockers e required d = [])"
  unfolding stable_def using activation_blockers_view relyD(5) by metis

section \<open>Rules\<close>

lemma holds_finished:
  "stable sha L (Q x) \<Longrightarrow> (\<And>d. P d \<Longrightarrow> sound_db d \<Longrightarrow> Q x d) \<Longrightarrow> holds sha L P (Finished x) Q"
  unfolding holds_def by (auto intro!: safe.finished dest: stableD)

lemma holds_bind:
  assumes "holds sha L P t R" and "\<And>x. holds sha L (R x) (f x) Q"
  shows "holds sha L P (tbind t f) Q"
  unfolding holds_def
proof (intro allI impI)
  fix d assume d: "sound_db d" "P d"
  show "safe sha (\<lambda>x L' d'. L' = L \<and> Q x d') L d (tbind t f)"
    by (rule safe_bind [OF holdsD [OF assms(1) d] d(1)]) (auto intro: holdsD [OF assms(2)])
qed

lemma holds_then:
  assumes "holds sha L P t (\<lambda>r d. case r of Inl e \<Rightarrow> Q (Inl e) d | Inr x \<Rightarrow> R x d)"
    and "\<And>e. stable sha L (Q (Inl e))" and "\<And>x. holds sha L (R x) (f x) Q"
  shows "holds sha L P (tthen t f) Q"
  unfolding tthen_def
proof (rule holds_bind [OF assms(1)])
  show "holds sha L (\<lambda>d. case r of Inl e \<Rightarrow> Q (Inl e) d | Inr x \<Rightarrow> R x d)
      (case r of Inl e \<Rightarrow> Finished (Inl e) | Inr x \<Rightarrow> f x) Q" for r
    using assms(2,3) by (cases r) (simp_all add: holds_finished)
qed

lemma holds_atomically:
  fixes m :: "'e world \<Rightarrow> 'a \<times> 'e world"
  assumes "stable sha L P" and "\<And>x. stable sha L (Q x)"
    and "\<And>w. sound_db (w_db w) \<Longrightarrow> P (w_db w) \<Longrightarrow> guarantee sha L (w_db w) (w_db (snd (m w))) \<and>
      Q (fst (m w)) (w_db (snd (m w)))"
  shows "holds sha L P (atomically m) Q"
  unfolding holds_def atomically_def
proof (intro allI impI safe.atomic safe.finished conjI refl)
  fix d d' and w :: "'e world" assume d: "sound_db d" "P d" and w: "rely sha L d (w_db w)"
  have "sound_db (w_db w)" "P (w_db w)" using stable_later [OF assms(1) d(2) w] by auto
  from assms(3) [OF this] show "guarantee sha L (w_db w) (w_db (snd (m w)))"
    and "rely sha L (w_db (snd (m w))) d' \<Longrightarrow> Q (fst (m w)) d'"
    using stableD [OF assms(2)] by blast+
qed

lemma holds_observe:
  fixes f :: "'e world \<Rightarrow> 'b"
  assumes "stable sha L P" and "\<And>w. sound_db (w_db w) \<Longrightarrow> P (w_db w) \<Longrightarrow> R (f w) (w_db w)"
    and "\<And>x. holds sha L (R x) (k x) Q"
  shows "holds sha L P (observe f k) Q"
  unfolding holds_def observe_def
proof (intro allI impI safe.atomic)
  fix d and w :: "'e world" assume d: "sound_db d" "P d" and w: "rely sha L d (w_db w)"
  have pre: "sound_db (w_db w)" "P (w_db w)" using relyD(1) [OF w] stableD [OF assms(1) w d(2)] by auto
  then show "guarantee sha L (w_db w) (w_db w)" by simp
  show "safe sha (\<lambda>x L' d'. L' = L \<and> Q x d') L (w_db w) (k (f w))"
    using holdsD [OF assms(3) pre(1)] assms(2) [OF pre] .
qed

lemma holds_calls:
  assumes "stable sha L P" and "\<And>d. P d \<Longrightarrow> call_allowed L oper c d" and "\<And>r. holds sha L P (k r) Q"
  shows "holds sha L P (Calls a oper c k) Q"
  unfolding holds_def
  by (intro allI impI safe.calls) (blast dest: stable_later [OF assms(1)] intro: assms(2) holdsD [OF assms(3)])+

lemma holds_delivers:
  assumes "stable sha L P" and "\<And>r. holds sha L P (k r) Q"
  shows "holds sha L P (Delivers m k) Q"
  unfolding holds_def by (intro allI impI safe.delivers) (blast dest: stable_later [OF assms(1)] intro: holdsD [OF assms(2)])

lemma holds_tests:
  assumes "stable sha L P" and "\<And>b. holds sha L P (k b) Q"
  shows "holds sha L P (Tests l k) Q"
  unfolding holds_def by (intro allI impI safe.tests) (blast dest: stable_later [OF assms(1)] intro: holdsD [OF assms(2)])

lemma holds_lock:
  assumes order: "in_order l L" and "stable sha L P" and "\<And>x. stable sha L (Q x)"
    and body: "holds sha (insert l L) P t Q"
  shows "holds sha L P (with_lock l t) Q"
  unfolding holds_def with_lock_def
proof (intro allI impI safe.locks [OF order])
  fix d d' assume d: "sound_db d" "P d" and d': "rely sha L d d'"
  have "sound_db d'" "P d'" using relyD(1) [OF d'] stableD [OF assms(2) d' d(2)] by auto
  then show "safe sha (\<lambda>x L' d'. L' = L \<and> Q x d') (insert l L) d' (tbind t (\<lambda>r. Unlocks l (Finished r)))"
  proof (intro safe_bind [OF holdsD [OF body]])
    fix x L' d assume "L' = insert l L \<and> Q x d" and sound: "sound_db d"
    then have L': "L' = insert l L" and q: "Q x d" by auto
    have out: "insert l L - {l} = L" using order by (simp add: in_order_def)
    have "safe sha (\<lambda>x L' d'. L' = L \<and> Q x d') L d' (Finished x)" if "rely sha L d d'" for d'
      by (rule safe.finished) (use stableD [OF assms(3)] that q in blast)
    then show "safe sha (\<lambda>x L' d'. L' = L \<and> Q x d') L' d (Unlocks l (Finished x))"
      unfolding L' by (intro safe.unlocks) (auto simp: out intro: rely_antimono)
  qed
qed

lemma holds_weaken:
  "holds sha L P t Q \<Longrightarrow> (\<And>d. P' d \<Longrightarrow> P d) \<Longrightarrow> holds sha L P' t Q"
  by (simp add: holds_def)

lemma safe_mono:
  assumes "safe sha Q L d t" and "\<And>x L d. Q x L d \<Longrightarrow> Q' x L d"
  shows "safe sha Q' L d t"
  using assms(1) by (induction rule: safe.induct) (auto intro: safe.intros assms(2))

lemma holds_post: "holds sha L P t Q \<Longrightarrow> (\<And>x d. Q x d \<Longrightarrow> Q' x d) \<Longrightarrow> holds sha L P t Q'"
  unfolding holds_def by (auto elim!: safe_mono)

lemma holds_then_inv:
  assumes "holds sha L P t (\<lambda>_. I)" and "\<And>e. stable sha L (Q (Inl e))"
    and "\<And>e d. I d \<Longrightarrow> Q (Inl e) d" and "\<And>x. holds sha L I (f x) Q"
  shows "holds sha L P (tthen t f) Q"
  by (rule holds_then [OF holds_post [OF assms(1)] assms(2,4)]) (auto simp: assms(3) split: sum.split)

lemma holds_if:
  "(b \<Longrightarrow> holds sha L P t Q) \<Longrightarrow> (\<not> b \<Longrightarrow> holds sha L P t' Q) \<Longrightarrow> holds sha L P (if b then t else t') Q"
  by simp

lemma holds_fact: "(b \<Longrightarrow> holds sha L P t Q) \<Longrightarrow> holds sha L (\<lambda>d. b \<and> P d) t Q"
  by (simp add: holds_def)

lemma holds_teach:
  assumes "stable sha L P" and "\<And>x. x \<in> set xs \<Longrightarrow> holds sha L P (f x) (\<lambda>_. P)"
  shows "holds sha L P (teach f xs) (\<lambda>_. P)"
  using assms(2)
proof (induction xs)
  case (Cons x xs)
  have "holds sha L P (tthen (f x) (\<lambda>_. teach f xs)) (\<lambda>_. P)"
  proof (rule holds_then [where R = "\<lambda>_. P"])
    have "(\<lambda>r d. case r of Inl e \<Rightarrow> P d | Inr x \<Rightarrow> P d) = (\<lambda>_. P)"
      by (auto simp: fun_eq_iff split: sum.split)
    then show "holds sha L P (f x) (\<lambda>r d. case r of Inl e \<Rightarrow> P d | Inr x \<Rightarrow> P d)"
      using Cons.prems by simp
  qed (use Cons assms(1) in auto)
  then show ?case by simp
qed (simp add: holds_finished assms(1))

text \<open>What an atomic step reads from the store it finds and leaves in the store.\<close>

definition yields :: "(db \<Rightarrow> 'a \<Rightarrow> db \<Rightarrow> bool) \<Rightarrow> ('e world \<Rightarrow> 'a \<times> 'e world) \<Rightarrow> bool" where
  "yields F m \<longleftrightarrow> (\<forall>w. F (w_db w) (fst (m w)) (w_db (snd (m w))))"

lemma yields_clock:
  "(\<And>t d. F d (fst (f t d)) (snd (f t d))) \<Longrightarrow> yields F (with_clock sv f)"
  "(\<And>t t' d. F d (fst (f2 t t' d)) (snd (f2 t t' d))) \<Longrightarrow> yields F (with_clock2 sv f2)"
  "(\<And>t t' t'' d. F d (fst (f3 t t' t'' d)) (snd (f3 t t' t'' d))) \<Longrightarrow> yields F (with_clock3 sv f3)"
  by (auto simp: yields_def with_clock_def with_clock2_def with_clock3_def split_beta dest!: tick_eqD)

lemma holds_moves:
  fixes m :: "'e world \<Rightarrow> 'a \<times> 'e world"
  assumes "yields F m" and "stable sha L P" and "\<And>x. stable sha L (Q x)"
    and "\<And>d x d'. sound_db d \<Longrightarrow> P d \<Longrightarrow> F d x d' \<Longrightarrow> guarantee sha L d d' \<and> Q x d'"
  shows "holds sha L P (atomically m) Q"
proof (rule holds_atomically [OF assms(2,3)])
  fix w :: "'e world" assume "sound_db (w_db w)" and "P (w_db w)"
  then show "guarantee sha L (w_db w) (w_db (snd (m w))) \<and> Q (fst (m w)) (w_db (snd (m w)))"
    by (rule assms(4)) (use assms(1) in \<open>simp add: yields_def\<close>)
qed

lemma holds_quiet:
  fixes m :: "'e world \<Rightarrow> 'a \<times> 'e world"
  assumes "keeps (quiet_db sha) m" and "stable sha L P"
  shows "holds sha L P (atomically m) (\<lambda>_. P)"
proof (rule holds_atomically)
  fix w :: "'e world" assume w: "sound_db (w_db w)" "P (w_db w)"
  have quiet: "quiet_db sha (w_db w) (w_db (snd (m w)))" using assms(1) by (simp add: keeps_def)
  show "guarantee sha L (w_db w) (w_db (snd (m w))) \<and> P (w_db (snd (m w)))"
    using quiet_rely [OF quiet w(1)] stableD [OF assms(2) quiet_rely [OF quiet w(1)] w(2)] by simp
qed (rule assms)+

end
