(* ===== verification/Engine_Safety.thy ===== *)
theory Engine_Safety
  imports Task_Safety
begin

text \<open>
  The tasks of the engine are safe: within the section that holds the locks of an employee and a
  request, a task changes rows of the request only and calls adapters for the employee only, and the
  loop over the steps ends within its fuel whatever the other tasks do; outside it changes nothing that
  a lock protects.
\<close>

section \<open>The locked section of a request\<close>

abbreviation section_locks :: "string \<Rightarrow> string \<Rightarrow> lock set" where
  "section_locks employee request \<equiv> {EmployeeLock employee, RequestLock request}"

lemma holds_writes:
  assumes "yields (\<lambda>d x d'. \<exists>y. F d x y d') m"
    and pre: "\<And>d. P d \<Longrightarrow> owned e r d" "stable sha (section_locks e r) P"
    and move: "\<And>d x y d'. sound_db d \<Longrightarrow> P d \<Longrightarrow> F d x y d' \<Longrightarrow> writes_rows r d d' \<and> store_step sha 0 d d'"
    and post: "\<And>d x y d'. sound_db d \<Longrightarrow> P d \<Longrightarrow> F d x y d' \<Longrightarrow> sound_db d' \<Longrightarrow> owned e r d' \<Longrightarrow> Q x d'"
      "\<And>x. stable sha (section_locks e r) (Q x)"
  shows "holds sha (section_locks e r) P (atomically m) Q"
proof (rule holds_moves [OF assms(1) pre(2) post(2)])
  fix d x d' assume d: "sound_db d" "P d" and "\<exists>y. F d x y d'"
  then obtain y where F: "F d x y d'" by blast
  have "writes_rows r d d'" "store_step sha 0 d d'" using move [OF d F] by auto
  note moved = writes_rows_move [OF this(2,1) d(1) pre(1) [OF d(2)]]
  then show "guarantee sha (section_locks e r) d d' \<and> Q x d'"
    using post(1) [OF d F relyD(1)] by blast
qed

lemma owned_stable: "stable sha (section_locks e r) (owned e r)"
  by (rule stable_owned) simp

lemma holds_step_stable: "stable sha (section_locks e r) (\<lambda>d. owned e r d \<and> holds_step r step d)"
  by (intro stable_intros) simp_all

text \<open>The commands of the rows of a request name the request and the employee.\<close>

definition names :: "string \<Rightarrow> string \<Rightarrow> step_command \<Rightarrow> bool" where
  "names employee request c \<longleftrightarrow> employee_id c = employee \<and> request_id c = request"

lemma names_row:
  assumes "sound_db d" and "owned e r d" and s: "s \<in> set (rows_of r d)"
  shows "names e r (st_command s)"
proof -
  have "s \<in> set (tbl_steps d)" "st_request_id s = r" using s by (auto simp: rows_of_def)
  moreover have "employee_of r d = Some e"
    using assms(2) s by (cases "rows_of r d") (auto simp: owned_def)
  moreover have "step_row_wf s" if "s \<in> set (tbl_steps d)"
    using sound_store [OF assms(1)] that by (auto simp: store_inv_def ident_inv_def list_all_iff)
  ultimately show ?thesis
    using assms(1) by (auto simp: names_def sound_db_def employee_inv_def step_row_wf_def)
qed

lemma latest_commands_subset: "snd ` set (latest_commands ops cs) \<subseteq> set cs"
proof -
  let ?add = "\<lambda>c latest. if operation c \<in> ops
      then dict_setdefault (target_value (target_system c)) c latest else latest"
  have "snd ` set (?add c m) \<subseteq> insert c (snd ` set m)" for c and m :: "(string \<times> step_command) list"
    by (auto simp: dict_setdefault_def split: option.split)
  then have "snd ` set (fold ?add cs m) \<subseteq> snd ` set m \<union> set cs" for m
    by (induction cs arbitrary: m) (simp, simp only: fold_Cons o_apply list.set, blast)
  from this [of "[]"] show ?thesis by (simp add: latest_commands_def)
qed

lemma successful_names:
  assumes "sound_db d" and "owned e r d" and "c \<in> set (successful_commands r d)"
  shows "names e r c"
proof -
  have "c \<in> st_command ` set (successful_rows r d)"
    using assms(3) latest_commands_subset unfolding successful_commands_def by fastforce
  then show ?thesis
    using names_row [OF assms(1,2)] by (auto simp: successful_rows_def rows_of_def)
qed

section \<open>Compensation\<close>

abbreviation guarded ::
  "'e services \<Rightarrow> string \<Rightarrow> string \<Rightarrow> (db \<Rightarrow> bool) \<Rightarrow> ('e, 'a) task \<Rightarrow> ('a \<Rightarrow> db \<Rightarrow> bool) \<Rightarrow> bool" where
  "guarded sv e r \<equiv> holds (sv_sha256 sv) (section_locks e r)"

lemma record_outcome_quiet:
  "keeps (quiet_db sha) (\<lambda>w. (Inr (), record_outcome sv request step oper state evidence code delay w))"
proof -
  have "keeps (quiet_db sha) (with_clock2 sv (\<lambda>t t' d.
      ((), record_compensation t t' request step (operation_value oper) state evidence code delay d)))"
    by (intro keeps_clock2)
       (auto intro!: elsewhere_quiet simp: elsewhere_db_def same_steps_def record_compensation_def Let_def)
  then show ?thesis by (simp add: keeps_def record_outcome_def)
qed

lemma write_outcome_holds:
  "stable (sv_sha256 sv) L P \<Longrightarrow>
     holds (sv_sha256 sv) L P (write_outcome sv request step oper state evidence code delay) (\<lambda>_. P)"
  unfolding write_outcome_def by (rule holds_quiet [OF record_outcome_quiet])

text \<open>A call that changes no access and is made for the employee and the request of the section.\<close>

lemma executed_holds:
  assumes "names e r c" and "stable sha (section_locks e r) P"
    and "\<And>d. P d \<Longrightarrow> is_access_enabling (operation c) \<Longrightarrow>
      activation_blockers e [target_value (target_system c)] d = []"
  shows "holds sha (section_locks e r) P (executed a c) (\<lambda>_. P)"
  unfolding executed_def
proof (intro holds_if holds_finished holds_calls)
  show "call_allowed (section_locks e r) (operation c) c d" if "P d" for d
    using assms(1,3) that by (auto simp: call_allowed_def names_def)
qed (use assms(2) in simp_all)

lemma compensation_holds:
  assumes "names e r original"
  shows "guarded sv e r (owned e r) (compensate_step_task sv s adapters r original) (\<lambda>_. owned e r)"
proof -
  let ?c = "compensation_command (sv_sha256 sv) r original"
  have c: "names e r ?c" "\<not> is_access_enabling (operation ?c)"
    using assms by (simp_all add: names_def compensation_command_def compensation_operation_def is_access_enabling_def)
  have call: "guarded sv e r (owned e r) (looked_up_task adapters original (\<lambda>a. executed a ?c)) (\<lambda>_. owned e r)"
    using executed_holds [OF c(1) owned_stable] c(2)
    by (auto simp: looked_up_task_def intro: holds_finished owned_stable split: option.split)
  show ?thesis
    unfolding compensate_step_task_def Let_def
    by (intro holds_if holds_finished owned_stable
          holds_observe [where R = "\<lambda>_. owned e r"] write_outcome_holds holds_bind [OF call])
       (auto intro: write_outcome_holds owned_stable split: outcome.split)
qed

lemma compensate_holds:
  "guarded sv e r (owned e r) (compensate_task sv s adapters r) (\<lambda>_. owned e r)"
  unfolding compensate_task_def
proof (rule holds_observe [where R = "\<lambda>cs d. (\<forall>c \<in> set cs. names e r c) \<and> owned e r d"])
  show "(\<forall>c \<in> set (successful_commands r (w_db w)). names e r c) \<and> owned e r (w_db w)"
    if "sound_db (w_db w)" "owned e r (w_db w)" for w
    using that successful_names by blast
  show "guarded sv e r (\<lambda>d. (\<forall>c \<in> set cs. names e r c) \<and> owned e r d)
      (teach (compensate_step_task sv s adapters r) cs) (\<lambda>_. owned e r)" for cs
    by (intro holds_fact holds_teach owned_stable compensation_holds) simp
qed (rule owned_stable)

section \<open>Running the steps of a request\<close>

lemma owned_post: "stable sha (section_locks e r) (\<lambda>d. owned e r d \<and> b)"
  by (intro stable_intros) simp

lemma fail_claimed_holds:
  "guarded sv e r (\<lambda>d. owned e r d \<and> holds_step r step d)
     (atomically (fail_claimed sv step code cls at)) (\<lambda>_. owned e r)"
proof (rule holds_writes [where F = "\<lambda>d x y d'. (x, d') = fail_step (fst y) (snd y) step code cls at d"])
  show "yields (\<lambda>d x d'. \<exists>y. (x, d') = fail_step (fst y) (snd y) step code cls at d)
      (fail_claimed sv step code cls at)"
    unfolding fail_claimed_def
  proof (rule yields_clock(2))
    show "\<exists>y. (fst (fail_step t t' step code cls at d), snd (fail_step t t' step code cls at d)) =
        fail_step (fst y) (snd y) step code cls at d" for t t' d
      by (rule exI [of _ "(t, t')"]) simp
  qed
  show "writes_rows r d d' \<and> store_step (sv_sha256 sv) 0 d d'"
    if "sound_db d" "owned e r d \<and> holds_step r step d"
      "(x, d') = fail_step (fst y) (snd y) step code cls at d" for d d' :: db and x and y :: "time \<times> time"
  proof -
    have "d' = snd (fail_step (fst y) (snd y) step code cls at d)" using that(3) by (metis snd_conv)
    then show ?thesis
      using writes_held(2) [of r step d "fst y" "snd y" code cls at] that held_in_flight [of r step d] store_step.fails
      by blast
  qed
qed (auto intro: owned_stable holds_step_stable)

text \<open>After a failure the loop does not go on.\<close>

abbreviation ends_owned :: "string \<Rightarrow> string \<Rightarrow> bool res \<Rightarrow> db \<Rightarrow> bool" where
  "ends_owned e r \<equiv> \<lambda>res d. owned e r d \<and> res \<noteq> Inr True"

lemma compensated_holds:
  "guarded sv e r (owned e r) (tthen (compensate_task sv s adapters r) (\<lambda>_. Finished (Inr False))) (ends_owned e r)"
  by (rule holds_then_inv [OF compensate_holds]) (auto intro!: holds_finished stable_intros)

lemma unclassified_holds:
  "guarded sv e r (\<lambda>d. owned e r d \<and> holds_step r (step_id c) d)
     (unclassified_failure_task sv s adapters c r) (ends_owned e r)"
  unfolding unclassified_failure_task_def
  by (rule holds_then_inv [OF fail_claimed_holds]) (auto intro!: compensated_holds stable_intros)

lemma adapter_failure_holds:
  "guarded sv e r (\<lambda>d. owned e r d \<and> holds_step r (step_id c) d)
     (adapter_failure_task sv s adapters c r code cls at) (ends_owned e r)"
proof -
  have gate: "guarded sv e r (owned e r) (observe (gate_open sv ''DEAD_LETTER_GATE'') (\<lambda>gate.
       if \<not> gate then Finished (Inl (EngineError 503 ''dead_letter_gate_closed''))
       else tthen (compensate_task sv s adapters r) (\<lambda>_. Finished (Inr False)))) (ends_owned e r)"
    by (rule holds_observe [where R = "\<lambda>_. owned e r"])
       (auto intro!: holds_if holds_finished compensated_holds stable_intros)
  show ?thesis
    unfolding adapter_failure_task_def
    by (rule holds_then_inv [OF fail_claimed_holds])
       (auto intro!: holds_if gate holds_finished stable_intros)
qed

text \<open>The assertion while a claimed step runs, with at most \<open>n\<close> steps still waiting.\<close>

abbreviation running :: "string \<Rightarrow> string \<Rightarrow> nat \<Rightarrow> string \<Rightarrow> db \<Rightarrow> bool" where
  "running e r n step \<equiv> \<lambda>d. owned e r d \<and> holds_step r step d \<and> waiting_count r d < n"

abbreviation turn_ended :: "string \<Rightarrow> string \<Rightarrow> nat \<Rightarrow> bool res \<Rightarrow> db \<Rightarrow> bool" where
  "turn_ended e r n \<equiv> \<lambda>res d. owned e r d \<and> (res = Inr True \<longrightarrow> waiting_count r d < n)"

lemma done_state_is_done [simp]: "is_done (done_state oper)"
  by (simp add: done_state_def)

lemma running_stable: "stable sha (section_locks e r) (running e r n step)"
  by (intro stable_intros) simp_all

lemma turn_stable: "stable sha (section_locks e r) (turn_ended e r n res)"
  by (intro stable_intros) simp_all

lemma failed_turn:
  assumes "guarded sv e r (\<lambda>d. owned e r d \<and> holds_step r step d) t (ends_owned e r)"
  shows "guarded sv e r (running e r n step) t (turn_ended e r n)"
  by (rule holds_weaken [OF holds_post [OF assms]]) auto

lemma quiet_result_keeps: "keeps (quiet_db sha) (the_result sv request replayed)"
  unfolding the_result_def by (intro keeps_intros quiet_result)

lemma retry_time_quiet: "keeps (quiet_db sha) (retry_time sv s c request)"
  unfolding retry_time_def by (intro keeps_intros quiet_result_keeps)

lemma waiting_complete:
  assumes "holds_step r step d" and "sound_db d" and "is_done done_st"
  shows "waiting_count r (snd (complete_step t step done_st evidence d)) = waiting_count r d"
proof -
  have "filter (\<lambda>s. st_request_id s = r \<and> is_waiting (st_state s))
      (tbl_steps (snd (complete_step t step done_st evidence d))) =
    filter (\<lambda>s. st_request_id s = r \<and> is_waiting (st_state s)) (tbl_steps d)"
    using assms(3) held_step(2) [OF assms(1,2)]
    by (simp add: complete_step_def, intro filter_update_elsewhere) (auto simp: is_waiting_def is_done_def)
  then show ?thesis by (simp add: waiting_count_def)
qed

lemma complete_holds:
  assumes "is_done done_st"
  shows "guarded sv e r (running e r n step)
    (atomically (with_clock sv (\<lambda>t. complete_step t step done_st evidence)))
    (\<lambda>x d. x = Inr () \<and> owned e r d \<and> waiting_count r d < n)"
proof (rule holds_writes [where F = "\<lambda>d x t d'. (x, d') = complete_step t step done_st evidence d"])
  show "yields (\<lambda>d x d'. \<exists>t. (x, d') = complete_step t step done_st evidence d)
      (with_clock sv (\<lambda>t. complete_step t step done_st evidence))"
    by (rule yields_clock(1)) auto
  show "writes_rows r d d' \<and> store_step (sv_sha256 sv) 0 d d'"
    if "sound_db d" "running e r n step d" "(x, d') = complete_step t step done_st evidence d" for d x t d'
  proof -
    have "d' = snd (complete_step t step done_st evidence d)" using that(3) by (metis snd_conv)
    then show ?thesis
      using writes_held(1) [of r step d t done_st evidence] that held_in_flight [of r step d] store_step.completes
      by blast
  qed
  show "x = Inr () \<and> owned e r d' \<and> waiting_count r d' < n"
    if "sound_db d" "running e r n step d" "(x, d') = complete_step t step done_st evidence d"
      "owned e r d'" for d x t d'
  proof -
    have "d' = snd (complete_step t step done_st evidence d)" using that(3) by (metis snd_conv)
    then show ?thesis
      using that waiting_complete [OF _ that(1) assms] assms by (auto simp: complete_step_def)
  qed
  show "stable (sv_sha256 sv) (section_locks e r) (\<lambda>d. x = Inr () \<and> owned e r d \<and> waiting_count r d < n)" for x
    by (intro stable_intros) simp_all
qed (blast, rule running_stable)

lemma settle_holds:
  "guarded sv e r (running e r n (step_id c)) (settle_step_task sv s adapters c r result) (turn_ended e r n)"
proof (cases result)
  case (Returned raw)
  have "guarded sv e r (\<lambda>d. x = Inr () \<and> owned e r d \<and> waiting_count r d < n)
      (case x of Inr _ \<Rightarrow> Finished (Inr True) | Inl err \<Rightarrow> unclassified_failure_task sv s adapters c r)
      (turn_ended e r n)" for x :: "unit res"
    by (cases x) (auto intro!: holds_finished turn_stable, simp add: holds_def)
  then show ?thesis
    unfolding Returned settle_step_task_def outcome.case
    by (intro holds_bind [OF complete_holds]) simp_all
next
  case (RetryableAdapterError code)
  show ?thesis
    unfolding RetryableAdapterError settle_step_task_def outcome.case
    by (rule holds_then_inv [OF holds_quiet [OF retry_time_quiet running_stable]],
        rule turn_stable, simp, rule failed_turn, rule adapter_failure_holds)
qed (auto simp: settle_step_task_def intro!: failed_turn adapter_failure_holds unclassified_holds)

lemma run_claimed_holds:
  assumes c: "names e r c"
  shows "guarded sv e r (running e r n (step_id c)) (run_claimed_task sv s adapters r c) (turn_ended e r n)"
proof -
  let ?free = "activation_blockers e [target_value (target_system c)]"
  let ?P = "\<lambda>d. running e r n (step_id c) d \<and> (is_access_enabling (operation c) \<longrightarrow> ?free d = [])"
  have stable: "stable (sv_sha256 sv) (section_locks e r) ?P"
    by (intro stable_intros) simp_all
  have released: "guarded sv e r (running e r n (step_id c)) (atomically (\<lambda>w. (Inr False,
      snd (with_clock3 sv (\<lambda>t t' t'' d. ((), release_activation_claim t t' t'' (step_id c) d)) w))))
      (turn_ended e r n)"
  proof (rule holds_writes [where F = "\<lambda>d x y d'. x = Inr False \<and>
        d' = release_activation_claim (fst y) (fst (snd y)) (snd (snd y)) (step_id c) d"])
    have "yields (\<lambda>d x d'. \<exists>y. d' = release_activation_claim (fst y) (fst (snd y)) (snd (snd y)) (step_id c) d)
        (with_clock3 sv (\<lambda>t t' t'' d. ((), release_activation_claim t t' t'' (step_id c) d)))"
      by (rule yields_clock(3)) (metis fst_conv snd_conv)
    then show "yields (\<lambda>d x d'. \<exists>y. x = Inr False \<and>
        d' = release_activation_claim (fst y) (fst (snd y)) (snd (snd y)) (step_id c) d)
      (\<lambda>w. (Inr False, snd (with_clock3 sv (\<lambda>t t' t'' d. ((), release_activation_claim t t' t'' (step_id c) d)) w)))"
      by (simp add: yields_def)
  qed (blast, rule running_stable, blast intro: writes_held(3) store_step.releases, simp, rule turn_stable)
  have called: "guarded sv e r ?P (tbind (executed a c) (settle_step_task sv s adapters c r)) (turn_ended e r n)" for a
    by (rule holds_bind [OF executed_holds [OF c stable]]) (simp, rule holds_weaken [OF settle_holds], simp)
  have missing: "guarded sv e r (running e r n (step_id c))
      (tthen (atomically (fail_claimed sv (step_id c) code ''permanent'' None)) (\<lambda>state.
         if state = DeadLetter
         then tthen (compensate_task sv s adapters r) (\<lambda>_. Finished (Inr False))
         else Finished (Inr False))) (turn_ended e r n)" for code
    by (rule failed_turn, rule holds_then_inv [OF fail_claimed_holds])
       (auto intro!: holds_if compensated_holds holds_finished stable_intros)
  show ?thesis
    unfolding run_claimed_task_def
  proof (rule holds_observe [where R = "\<lambda>blocked d. running e r n (step_id c) d \<and>
        (\<not> blocked \<longrightarrow> is_access_enabling (operation c) \<longrightarrow> ?free d = [])", OF running_stable])
    show "guarded sv e r (\<lambda>d. running e r n (step_id c) d \<and>
        (\<not> blocked \<longrightarrow> is_access_enabling (operation c) \<longrightarrow> ?free d = []))
      (if blocked then atomically (\<lambda>w. (Inr False,
          snd (with_clock3 sv (\<lambda>t t' t'' d. ((), release_activation_claim t t' t'' (step_id c) d)) w)))
       else case adapters (target_value (target_system c)) of
         None \<Rightarrow> tthen (atomically (fail_claimed sv (step_id c) ''adapter_not_registered'' ''permanent'' None)) (\<lambda>state.
           if state = DeadLetter then tthen (compensate_task sv s adapters r) (\<lambda>_. Finished (Inr False))
           else Finished (Inr False))
       | Some a \<Rightarrow> tbind (executed a c) (settle_step_task sv s adapters c r)) (turn_ended e r n)" for blocked
      by (cases blocked; cases "adapters (target_value (target_system c))")
         (simp_all, (rule holds_weaken [OF released] holds_weaken [OF missing] holds_weaken [OF called], simp)+)
  qed (use c in \<open>auto simp: names_def\<close>)
qed

lemma filter_update_le:
  "(\<And>s. \<not> G (f s)) \<Longrightarrow> length (filter G (sql_update P f xs)) \<le> length (filter G xs)"
  by (induction xs) (auto simp: sql_update_def)

lemma filter_update_less:
  assumes "\<And>s. \<not> G (f s)" and "x \<in> set xs" "P x" "G x"
  shows "length (filter G (sql_update P f xs)) < length (filter G xs)"
  using assms(2)
proof (induction xs)
  case (Cons y ys)
  then show ?case
    using filter_update_le [of G f P ys, OF assms(1)] assms
    by (cases "x = y") (auto simp: sql_update_def)
qed simp

lemma claim_waiting:
  assumes "sound_db d" and "claim_next t r d = (Some c, d')"
  shows "waiting_count r d' < waiting_count r d" and "holds_step r (step_id c) d'"
    and "\<exists>row \<in> set (rows_of r d'). st_command row = c"
proof -
  note store = sound_store [OF assms(1)]
  show "waiting_count r d' < waiting_count r d"
  proof (rule claim_next_Some [OF store assms(2)], goal_cases)
    case row: (1 row)
    have "st_request_id row = r \<and> is_waiting (st_state row)" using runnableD(1,2) [OF row(2)] by simp
    then show ?case
      unfolding waiting_count_def row(6)
      by (intro filter_update_less [where x = row]) (simp_all add: row(1,4) is_waiting_def)
  qed
  obtain row where "row \<in> set (tbl_steps d')" "st_command row = c" "st_step_id row = step_id c"
      "st_request_id row = r" "st_state row = Running"
    using claimed_row [OF store assms(2)] by blast
  then show "holds_step r (step_id c) d'" and "\<exists>row \<in> set (rows_of r d'). st_command row = c"
    by (auto simp: holds_step_def rows_of_def)
qed

lemma run_step_holds:
  "guarded sv e r (\<lambda>d. owned e r d \<and> waiting_count r d < Suc n) (run_step_task sv s adapters r) (turn_ended e r n)"
proof -
  let ?Q = "\<lambda>x d. case x of None \<Rightarrow> owned e r d | Some c \<Rightarrow> names e r c \<and> running e r n (step_id c) d"
  have stable: "stable (sv_sha256 sv) (section_locks e r) (?Q x)" for x
    by (cases x) (auto intro!: stable_intros)
  have claim: "guarded sv e r (\<lambda>d. owned e r d \<and> waiting_count r d < Suc n)
      (atomically (with_clock sv (\<lambda>t. claim_next t r))) ?Q"
  proof (rule holds_writes [where F = "\<lambda>d x t d'. (x, d') = claim_next t r d"])
    show "yields (\<lambda>d x d'. \<exists>t. (x, d') = claim_next t r d) (with_clock sv (\<lambda>t. claim_next t r))"
      by (rule yields_clock(1)) auto
    show "writes_rows r d d' \<and> store_step (sv_sha256 sv) 0 d d'"
      if "sound_db d" "(x, d') = claim_next t r d" for d x t d'
      using writes_request(4) [OF that(1), of r t] store_step.claims [of "sv_sha256 sv" d t r] that(2)
      by (metis snd_conv)
    show "?Q x d'" if d: "sound_db d" "owned e r d \<and> waiting_count r d < Suc n" "(x, d') = claim_next t r d"
        and d': "sound_db d'" "owned e r d'" for d x t d'
    proof (cases x)
      case (Some c)
      have claimed: "claim_next t r d = (Some c, d')" using d(3) Some by simp
      have "names e r c" using claim_waiting(3) [OF d(1) claimed] names_row [OF d'] by blast
      then show ?thesis
        using claim_waiting(1,2) [OF d(1) claimed] d(2) d'(2) by (simp add: Some)
    qed (use d' in simp)
    show "stable (sv_sha256 sv) (section_locks e r) (\<lambda>d. owned e r d \<and> waiting_count r d < Suc n)"
      by (intro stable_intros) simp_all
  qed (auto intro: stable)
  show ?thesis
    unfolding run_step_task_def
  proof (rule holds_bind [OF claim])
    show "guarded sv e r (?Q x) (case x of None \<Rightarrow> Finished (Inr False) | Some c \<Rightarrow> run_claimed_task sv s adapters r c)
        (turn_ended e r n)" for x
      by (cases x) (auto intro!: holds_finished holds_fact run_claimed_holds turn_stable stable_intros)
  qed
qed

lemma run_loop_holds:
  "guarded sv e r (\<lambda>d. owned e r d \<and> waiting_count r d < n) (run_loop_task n sv s adapters r) (\<lambda>_. owned e r)"
proof (induction n)
  case 0
  show ?case by (simp add: holds_def)
next
  case (Suc n)
  show ?case
    unfolding run_loop_task.simps
  proof (rule holds_then [OF holds_post [OF run_step_holds]])
    show "case res of Inl err \<Rightarrow> owned e r d | Inr goes_on \<Rightarrow> owned e r d \<and> (goes_on \<longrightarrow> waiting_count r d < n)"
      if "turn_ended e r n res d" for res d
      using that by (auto split: sum.split)
    show "guarded sv e r (\<lambda>d. owned e r d \<and> (goes_on \<longrightarrow> waiting_count r d < n))
        (if goes_on then run_loop_task n sv s adapters r else Finished (Inr ())) (\<lambda>_. owned e r)" for goes_on
      using Suc by (cases goes_on) (auto intro!: holds_finished owned_stable)
  qed (rule owned_stable)
qed

lemma run_request_holds:
  "guarded sv e r (owned e r) (run_request_task sv s adapters r) (\<lambda>_. owned e r)"
  unfolding run_request_task_def
  by (rule holds_observe [where R = "\<lambda>n d. owned e r d \<and> waiting_count r d < n"])
     (auto intro: run_loop_holds owned_stable)

section \<open>Checks before a lock\<close>

text \<open>What a handler's value says of the store it leaves.\<close>

definition answers :: "('a \<Rightarrow> db \<Rightarrow> bool) \<Rightarrow> ('e, 'a) handler \<Rightarrow> bool" where
  "answers P m \<longleftrightarrow> (\<forall>w x w'. m w = (Inr x, w') \<longrightarrow> P x (w_db w'))"

lemma answers_bind: "(\<And>x. answers P (f x)) \<Longrightarrow> answers P (hbind m f)"
  unfolding answers_def by (blast elim: hbind_InrE)

lemma holds_checks:
  fixes m :: "('e, 'a) handler"
  assumes "keeps (quiet_db sha) m" and "answers P m" and "\<And>x. stable sha L (P x)"
  shows "holds sha L (\<lambda>_. True) (atomically m) (\<lambda>res d. case res of Inl e \<Rightarrow> True | Inr x \<Rightarrow> P x d)"
proof (rule holds_atomically)
  show "stable sha L (\<lambda>d. case res of Inl e \<Rightarrow> True | Inr x \<Rightarrow> P x d)" for res :: "'a res"
    using assms(3) by (cases res) (auto intro: stable_intros)
  fix w :: "'e world" assume "sound_db (w_db w)"
  moreover have "quiet_db sha (w_db w) (w_db (snd (m w)))" using assms(1) by (simp add: keeps_def)
  moreover have "case fst (m w) of Inl e \<Rightarrow> True | Inr x \<Rightarrow> P x (w_db (snd (m w)))"
    using assms(2) by (auto simp: answers_def split: sum.split) (metis prod.collapse)
  ultimately show "guarantee sha L (w_db w) (w_db (snd (m w))) \<and>
      (case fst (m w) of Inl e \<Rightarrow> True | Inr x \<Rightarrow> P x (w_db (snd (m w))))"
    using quiet_rely by blast
qed (rule stable_intros)

lemma request_result_employee:
  assumes "request_result t t' request replayed d = (Inr res, d')"
  shows "case res of None \<Rightarrow> request \<notin> ex_request_id ` set (tbl_executions d)
    | Some x \<Rightarrow> employee_of request d' = Some (er_employee_id x)"
proof (cases "sql_first (filter (\<lambda>e. ex_request_id e = request) (tbl_executions d))")
  case None
  then have "filter (\<lambda>e. ex_request_id e = request) (tbl_executions d) = []"
    by (cases "filter (\<lambda>e. ex_request_id e = request) (tbl_executions d)") simp_all
  then show ?thesis using assms None by (auto simp: request_result_def filter_empty_conv)
next
  case (Some execution)
  have "d' = snd (request_result t t' request replayed d)" using assms by simp
  then have "employee_of request d' = employee_of request d"
    by (intro employee_of_ident) (simp add: result.keeps_exec_ident)
  then show ?thesis
    using assms Some by (auto simp: request_result_def employee_of_def Let_def split: sum.splits)
qed

lemma the_result_answers:
  "answers (\<lambda>res d. case res of None \<Rightarrow> True | Some x \<Rightarrow> employee_of request d = Some (er_employee_id x))
     (the_result sv request replayed)"
  unfolding answers_def
  by (auto elim!: the_resultE dest!: request_result_employee split: option.splits)

lemma found_result_answers:
  "answers (\<lambda>x d. employee_of request d = Some (er_employee_id x)) (found_result sv request)"
  unfolding answers_def found_result_def required_result_def
proof (intro allI impI)
  fix w x w'
  assume "hbind (the_result sv request False) (\<lambda>r. case r of
      None \<Rightarrow> hraise (EngineError 404 ''request_not_found'') | Some x \<Rightarrow> hreturn x) w = (Inr x, w')"
  then obtain res w1 where "the_result sv request False w = (Inr res, w1)"
      "(case res of None \<Rightarrow> hraise (EngineError 404 ''request_not_found'') | Some x \<Rightarrow> hreturn x) w1 = (Inr x, w')"
    by (rule hbind_InrE)
  then show "employee_of request (w_db w') = Some (er_employee_id x)"
    using the_result_answers [of request sv False]
    by (fastforce simp: answers_def hraise_def hreturn_def split: option.splits)
qed

lemma quiet_look [keeps_intros]: "keeps (quiet_db sha) (\<lambda>w. (r w, w))"
  by (simp add: keeps_def quiet_db_def)

lemma quiet_guard [keeps_intros]: "keeps (quiet_db sha) (\<lambda>w. guard (b w) e w)" "keeps (quiet_db sha) (guard b' e)"
  by (simp_all add: keeps_def guard_def hreturn_def hraise_def quiet_db_def)

lemma quiet_freshness [keeps_intros]: "keeps (quiet_db sha) (validate_freshness sv s stamp)"
  by (simp add: keeps_def validate_freshness_def split_beta quiet_db_def)

lemma quiet_results [keeps_intros]: "keeps (quiet_db sha) (the_result sv request replayed)"
  "keeps (quiet_db sha) (required_result sv request st code)" "keeps (quiet_db sha) (found_result sv request)"
  unfolding required_result_def found_result_def by (intro keeps_intros quiet_result_keeps)+

lemma quiet_checks [keeps_intros]:
  "keeps (quiet_db sha) (action_checks sv s request action oper code)"
  "keeps (quiet_db sha) (retry_checks sv s request action)"
  "keeps (quiet_db sha) (reconcile_checks sv s employee action)"
  "keeps (quiet_db sha) (lifecycle_checks employee oper ex)"
  unfolding action_checks_def retry_checks_def reconcile_checks_def lifecycle_checks_def retry_gate_def
    not_cancelled_def by (intro keeps_intros)+

lemma quiet_admit [keeps_intros]: "keeps (quiet_db sha) (admit sv s request ex)"
proof -
  have branch: "keeps (quiet_db sha) (\<lambda>w. if b w then m w else m' w)"
    if "keeps (quiet_db sha) m" "keeps (quiet_db sha) m'" for b and m m' :: "'a world \<Rightarrow> unit res \<times> 'a world"
    using that by (simp add: keeps_def)
  show ?thesis unfolding admit_def by (intro branch keeps_intros)
qed

lemma quiet_replay [keeps_intros]: "keeps (quiet_db sha) (replay_answer sv request existing)"
  unfolding replay_answer_def by (intro keeps_intros)

lemma quiet_blockers [keeps_intros]: "keeps (quiet_db sha) (check_blockers ex)"
  by (simp add: keeps_def check_blockers_def quiet_db_def)

lemma quiet_listed [keeps_intros]: "keeps (quiet_db sha) (with_clock sv (\<lambda>t d. (f t d, d)))"
  by (intro keeps_clock) (simp add: quiet_db_def)

lemma checks_answer:
  "answers (\<lambda>x d. employee_of request d = Some (er_employee_id x)) (action_checks sv s request action oper code)"
  "answers (\<lambda>x d. employee_of request d = Some (er_employee_id x)) (retry_checks sv s request action)"
proof -
  show "answers (\<lambda>x d. employee_of request d = Some (er_employee_id x)) (action_checks sv s request action oper code)"
    unfolding action_checks_def by (intro answers_bind found_result_answers)
  have last: "answers (\<lambda>x d. employee_of request d = Some (er_employee_id x))
      (hbind (found_result sv request) (\<lambda>current. hbind (not_cancelled request) (\<lambda>_. hreturn current)))"
    using found_result_answers [of request sv]
    by (auto simp: answers_def not_cancelled_def guard_def hreturn_def hraise_def elim!: hbind_InrE split: if_splits)
  show "answers (\<lambda>x d. employee_of request d = Some (er_employee_id x)) (retry_checks sv s request action)"
    unfolding retry_checks_def by (intro last answers_bind)
qed

section \<open>The calls\<close>

abbreviation anywhere :: "db \<Rightarrow> bool" where
  "anywhere \<equiv> \<lambda>_. True"

lemma stable_anywhere [simp]: "stable sha L anywhere"
  by (rule stable_intros)

lemma holds_quietly: "keeps (quiet_db sha) m \<Longrightarrow> holds sha L anywhere (atomically m) (\<lambda>_. anywhere)"
  by (rule holds_quiet) simp_all

lemma holds_true: "holds sha L P t Q \<Longrightarrow> holds sha L P t (\<lambda>_. anywhere)"
  by (rule holds_post) simp_all

lemma holds_anywhere: "holds sha L anywhere t Q \<Longrightarrow> holds sha L P t Q"
  by (rule holds_weaken) simp_all

lemma holds_then_any:
  assumes "holds sha L P t (\<lambda>_. anywhere)" and "\<And>x. holds sha L anywhere (f x) (\<lambda>_. anywhere)"
  shows "holds sha L P (tthen t f) (\<lambda>_. anywhere)"
  by (rule holds_then_inv [OF assms(1)]) (simp_all add: assms(2))

lemma holds_tmap:
  assumes "\<And>x. holds sha L anywhere (f x) (\<lambda>_. anywhere)"
  shows "holds sha L anywhere (tmap f xs) (\<lambda>_. anywhere)"
  by (induction xs) (auto intro!: holds_finished holds_then_any assms)

lemma critical_holds:
  assumes body: "holds sha (section_locks e r) P t (\<lambda>_. anywhere)"
    and stable: "stable sha {} P" "stable sha {EmployeeLock e} P"
  shows "holds sha {} P (critical e r t) (\<lambda>_. anywhere)"
  unfolding critical_def
proof (intro holds_lock stable)
  show "holds sha {RequestLock r, EmployeeLock e} P t (\<lambda>_. anywhere)"
    using body by (simp add: insert_commute)
qed (simp_all add: in_order_def)

text \<open>The employee a result names is the one whose lock is taken.\<close>

lemma employee_owns: "employee_of r d = Some e \<Longrightarrow> owned e r d"
  by (simp add: owned_def)

lemma critical_employee:
  assumes "guarded sv e r (owned e r) t (\<lambda>_. anywhere)"
  shows "holds (sv_sha256 sv) {} (\<lambda>d. employee_of r d = Some e) (critical e r t) (\<lambda>_. anywhere)"
  by (intro critical_holds holds_weaken [OF assms] employee_owns stable_employee)

lemma callback_holds: "holds sha L anywhere (callback_task sv s envelope x) (\<lambda>_. anywhere)"
  unfolding callback_task_def by (intro holds_delivers holds_finished) simp_all

lemma holds_owned_writes:
  assumes "yields (\<lambda>d x d'. \<exists>y. d' = g y d) m"
    and "\<And>d y. sound_db d \<Longrightarrow> writes_rows r d (g y d)" and "\<And>d y. store_step sha 0 d (g y d)"
  shows "holds sha (section_locks e r) (owned e r) (atomically m) (\<lambda>_. owned e r)"
  by (rule holds_writes [where F = "\<lambda>d x y d'. d' = g y d"]) (simp_all add: assms owned_stable)

lemma retry_locked_holds:
  "guarded sv e r (owned e r) (retry_locked sv s adapters r action) (\<lambda>_. anywhere)"
proof -
  have schedule: "guarded sv e r (owned e r) (atomically (with_clock3 sv (\<lambda>t t' t'' d.
      case schedule_step_retry t t' t'' r d of (scheduled, d') \<Rightarrow> (Inr scheduled, d')))) (\<lambda>_. owned e r)"
  proof (rule holds_owned_writes [where g = "\<lambda>y d. snd (schedule_step_retry (fst y) (fst (snd y)) (snd (snd y)) r d)"])
    show "yields (\<lambda>d x d'. \<exists>y. d' = snd (schedule_step_retry (fst y) (fst (snd y)) (snd (snd y)) r d))
      (with_clock3 sv (\<lambda>t t' t'' d. case schedule_step_retry t t' t'' r d of (scheduled, d') \<Rightarrow> (Inr scheduled, d')))"
      by (rule yields_clock(3)) (simp add: split_beta, metis fst_conv snd_conv)
  qed (rule writes_request(3) store_step.retries; assumption?)+
  show ?thesis
    unfolding retry_locked_def
    by (rule holds_then_inv [OF schedule])
       (auto intro!: holds_if holds_then_any holds_anywhere [OF holds_quietly] holds_true [OF run_request_holds]
          callback_holds holds_finished quiet_results split: option.split)
qed

lemma retry_holds: "holds (sv_sha256 sv) {} anywhere (retry_task sv s adapters r action) (\<lambda>_. anywhere)"
  unfolding retry_task_def
  by (rule holds_then [OF holds_post [OF holds_checks [OF quiet_checks(2) checks_answer(2)]]])
     (auto intro: critical_employee retry_locked_holds stable_employee split: sum.split)

lemma cancel_locked_holds:
  "guarded sv e r (owned e r) (cancel_locked sv s adapters r) (\<lambda>_. anywhere)"
proof -
  have pending: "guarded sv e r (owned e r)
      (atomically (with_clock sv (\<lambda>t d. (Inr () :: unit res, snd (cancel_pending t r d))))) (\<lambda>_. owned e r)"
  proof (rule holds_owned_writes [where g = "\<lambda>t d. snd (cancel_pending t r d)"])
    show "yields (\<lambda>d x d'. \<exists>t. d' = snd (cancel_pending t r d))
        (with_clock sv (\<lambda>t d. (Inr () :: unit res, snd (cancel_pending t r d))))"
      by (rule yields_clock(1)) auto
  qed (rule writes_request(1) store_step.cancels; assumption?)+
  have mark: "guarded sv e r (owned e r)
      (atomically (with_clock2 sv (\<lambda>t t' d. (Inr () :: unit res, mark_cancelled t t' r d)))) (\<lambda>_. owned e r)"
  proof (rule holds_owned_writes [where g = "\<lambda>y d. mark_cancelled (fst y) (snd y) r d"])
    show "yields (\<lambda>d x d'. \<exists>y. d' = mark_cancelled (fst y) (snd y) r d)
        (with_clock2 sv (\<lambda>t t' d. (Inr () :: unit res, mark_cancelled t t' r d)))"
      by (rule yields_clock(2)) (metis fst_conv snd_conv)
  qed (rule writes_request(2) store_step.marks; assumption?)+
  show ?thesis
    unfolding cancel_locked_def
    by (rule holds_then_inv [OF pending], simp, simp, rule holds_then_inv [OF mark], simp, simp,
        rule holds_then_any [OF holds_true [OF compensate_holds]])
       (rule holds_quietly [OF quiet_results(2)])
qed

lemma cancel_holds: "holds (sv_sha256 sv) {} anywhere (cancel_task sv s adapters r action) (\<lambda>_. anywhere)"
  unfolding cancel_task_def
  by (rule holds_then [OF holds_post [OF holds_checks [OF quiet_checks(1) checks_answer(1)]]])
     (auto intro: critical_employee cancel_locked_holds stable_employee split: sum.split)

end
