(* ===== verification/Call_Safety.thy ===== *)
theory Call_Safety
  imports Engine_Safety
begin

text \<open>
  The tasks of submissions, verifications, reconciliations and the worker are safe, and with those of
  Engine\_Safety every call of the engine is, from any sound store and with no lock held.
\<close>

section \<open>Submission\<close>

lemma nothing_owned: "sound_db d \<Longrightarrow> employee_of r d = None \<Longrightarrow> owned e r d"
  by (force simp: owned_def rows_of_def sound_db_def employee_inv_def filter_empty_conv)

text \<open>A replay without an answer finds no execution of the request.\<close>

abbreviation unanswered :: "string \<Rightarrow> string \<Rightarrow> execution_result option res \<Rightarrow> db \<Rightarrow> bool" where
  "unanswered e r \<equiv> \<lambda>res d. case res of Inl _ \<Rightarrow> True | Inr answer \<Rightarrow> answer = None \<longrightarrow> owned e r d"

lemma unanswered_stable: "stable sha (section_locks e r) (unanswered e r res)"
  by (cases res) (simp_all add: stable_intros)

lemma unanswered_owned:
  assumes "request_result t t' r replayed d = (Inr None, d')" and "sound_db d'"
  shows "owned e r d'"
proof -
  have "d' = d" using assms(1) by (auto simp: request_result_def Let_def split: option.splits sum.splits)
  moreover have "r \<notin> ex_request_id ` set (tbl_executions d)"
    using request_result_employee [OF assms(1)] by simp
  then have "employee_of r d = None" by (auto simp: employee_of_def filter_empty_conv)
  ultimately show ?thesis using nothing_owned assms(2) by simp
qed

lemma replay_holds:
  "guarded sv e r anywhere (atomically (replay_answer sv r existing)) (unanswered e r)"
proof (rule holds_atomically)
  fix w :: "'a world" assume sound: "sound_db (w_db w)"
  let ?run = "replay_answer sv r existing w"
  have "keeps (quiet_db (sv_sha256 sv)) (replay_answer sv r existing)" by (rule quiet_replay)
  then have quiet: "quiet_db (sv_sha256 sv) (w_db w) (w_db (snd ?run))" by (simp add: keeps_def)
  have "owned e r w'" if "fst ?run = Inr None" "w' = w_db (snd ?run)" for w'
  proof -
    have "existing = None" using that(1) by (auto simp: replay_answer_def hreturn_def split: option.splits)
    moreover obtain x w1 where result: "the_result sv r True w = (x, w1)" by fastforce
    ultimately have run: "the_result sv r True w = (Inr None, w1)" "snd ?run = w1"
      using that(1) by (cases x; simp add: replay_answer_def hbind_def hreturn_def)+
    show ?thesis
      using run(1) unanswered_owned relyD(1) [OF quiet_rely [OF quiet sound]] that(2) run(2)
      by (auto elim!: the_resultE)
  qed
  then show "guarantee (sv_sha256 sv) (section_locks e r) (w_db w) (w_db (snd ?run)) \<and>
      unanswered e r (fst ?run) (w_db (snd ?run))"
    using quiet_rely [OF quiet sound] by (auto split: sum.split)
qed (simp_all add: unanswered_stable)

lemma fresh_holds:
  "guarded sv e r (owned e r) (fresh_execution_task sv s adapters r normalized) (\<lambda>_. anywhere)"
  unfolding fresh_execution_task_def
  by (intro holds_then_any holds_true [OF run_request_holds] holds_quietly quiet_results callback_holds
      holds_finished) simp_all

text \<open>A document whose texts are stripped keeps its employee and its request when its keys are hashed.\<close>

definition parsed :: "request_execution \<Rightarrow> bool" where
  "parsed ex \<longleftrightarrow> str_trim (employee_id ex) = employee_id ex \<and> str_trim (request_id ex) = request_id ex"

lemma parse_stripped:
  assumes "parse_execution raw = Inr ex"
  shows "ex = strip_execution raw"
  using assms validate_execution_cases [of "strip_execution raw"] by (auto simp: parse_execution_def)

lemma parse_parsed: "parse_execution raw = Inr ex \<Longrightarrow> parsed ex"
  by (drule parse_stripped) (simp add: parsed_def strip_execution_def strip_envelope_def str_trim_def)

lemma normalize_names:
  assumes "normalize_keys sha ex = Inr normalized" and "parsed ex"
  shows "employee_id normalized = employee_id ex" and "request_id normalized = request_id ex"
  using parse_stripped [OF assms(1) [unfolded normalize_keys_def]] assms(2)
  by (simp_all add: parsed_def strip_execution_def strip_envelope_def)

lemma begin_holds:
  assumes "steps_belong normalized" and "employee_id normalized = e" and "request_id normalized = r"
  shows "guarded sv e r anywhere (atomically (with_clock sv (\<lambda>t d.
      case begin_execution (sv_sha256 sv) t normalized h d of (res, d') \<Rightarrow> (conflict_409 res, d'))))
    (\<lambda>res d. case res of Inl _ \<Rightarrow> True | Inr x \<Rightarrow> \<not> snd x \<longrightarrow> owned e r d)"
    (is "guarded sv e r anywhere (atomically ?m) ?Q")
proof (rule holds_moves [where F = "\<lambda>d x d'. \<exists>t. (x, d') =
      (case begin_execution (sv_sha256 sv) t normalized h d of (res, d') \<Rightarrow> (conflict_409 res, d'))"])
  show "stable (sv_sha256 sv) (section_locks e r) (?Q res)" for res
    by (cases res) (auto intro!: stable_intros)
  fix d d' :: db and x
  assume d: "sound_db d" and "\<exists>t. (x, d') =
      (case begin_execution (sv_sha256 sv) t normalized h d of (res, d') \<Rightarrow> (conflict_409 res, d'))"
  then obtain t where t: "(x, d') =
      (case begin_execution (sv_sha256 sv) t normalized h d of (res, d') \<Rightarrow> (conflict_409 res, d'))" by blast
  have "d' = snd (begin_execution (sv_sha256 sv) t normalized h d)" using t by (simp add: split_beta)
  then have "guarantee (sv_sha256 sv) (section_locks e r) d d'"
    using begin_move [OF d assms(1)] assms(2,3) by blast
  moreover have "?Q x d'"
  proof (cases rule: begin_cases [of "sv_sha256 sv" t normalized h d])
    case (fresh d1)
    then show ?thesis using t begun_owned [OF fresh] assms(2,3) by (simp add: conflict_409_def)
  next
    case (raised err)
    then show ?thesis using t by (cases err) (simp_all add: conflict_409_def)
  qed (use t in \<open>simp add: conflict_409_def\<close>)
  ultimately show "guarantee (sv_sha256 sv) (section_locks e r) d d' \<and> ?Q x d'" by blast
qed (auto intro!: yields_clock(1))

lemma begin_and_run_holds:
  assumes "steps_belong normalized" and "employee_id normalized = e" and "request_id normalized = r"
  shows "guarded sv e r anywhere (begin_and_run_task sv s adapters r normalized h) (\<lambda>_. anywhere)"
  unfolding begin_and_run_task_def
proof (rule holds_then [OF begin_holds [OF assms]])
  fix x :: "execution_result option \<times> bool"
  obtain existing replayed where x: "x = (existing, replayed)" by force
  have answer: "guarded sv e r (\<lambda>d. \<not> replayed \<longrightarrow> owned e r d)
      (if replayed then atomically (replay_answer sv r existing) else Finished (Inr None)) (unanswered e r)"
    by (rule holds_if) (auto intro!: holds_anywhere [OF replay_holds] holds_finished unanswered_stable)
  have rest: "guarded sv e r (\<lambda>d. answer = None \<longrightarrow> owned e r d)
      (case answer of Some res \<Rightarrow> Finished (Inr res)
       | None \<Rightarrow> fresh_execution_task sv s adapters r normalized) (\<lambda>_. anywhere)" for answer
    by (cases answer) (auto intro!: holds_finished fresh_holds)
  show "guarded sv e r (\<lambda>d. \<not> snd x \<longrightarrow> owned e r d)
      (case x of (existing, replayed) \<Rightarrow>
        tthen (if replayed then atomically (replay_answer sv r existing) else Finished (Inr None)) (\<lambda>answer.
        case answer of Some res \<Rightarrow> Finished (Inr res)
        | None \<Rightarrow> fresh_execution_task sv s adapters r normalized)) (\<lambda>_. anywhere)"
    unfolding x prod.case snd_conv by (rule holds_then [OF answer stable_anywhere rest])
qed simp

lemma submit_locked_holds:
  assumes "normalize_keys (sv_sha256 sv) ex = Inr normalized" and "parsed ex"
  shows "guarded sv (employee_id ex) (request_id ex) anywhere
    (submit_locked sv s adapters (request_id ex) ex normalized) (\<lambda>_. anywhere)"
proof -
  note names = normalize_names [OF assms]
  have start: "guarded sv e r anywhere (case answer of Some res \<Rightarrow> Finished (Inr res)
      | None \<Rightarrow> tthen (atomically (check_blockers ex)) (\<lambda>_. t)) (\<lambda>_. anywhere)"
    if "guarded sv e r anywhere t (\<lambda>_. anywhere)" for t :: "('a, execution_result res) task" and e r answer
    using that by (cases answer) (auto intro!: holds_finished holds_then_any holds_quietly quiet_blockers)
  show ?thesis
    unfolding submit_locked_def Let_def
  proof (rule holds_then_any [OF holds_quietly [OF quiet_look]])
    fix x :: "execution_result option \<times> bool"
    obtain existing replayed where x: "x = (existing, replayed)" by force
    have answer: "guarded sv e r anywhere
        (if replayed then atomically (replay_answer sv r existing) else Finished (Inr None)) (\<lambda>_. anywhere)" for e r
      by (rule holds_if) (auto intro!: holds_finished holds_quietly quiet_replay)
    show "guarded sv (employee_id ex) (request_id ex) anywhere
      (case x of (existing, replayed) \<Rightarrow>
        tthen (if replayed then atomically (replay_answer sv (request_id ex) existing) else Finished (Inr None))
          (\<lambda>answer. case answer of Some res \<Rightarrow> Finished (Inr res)
           | None \<Rightarrow> tthen (atomically (check_blockers ex)) (\<lambda>_.
               begin_and_run_task sv s adapters (request_id ex) normalized (canonical_hash sv normalized))))
      (\<lambda>_. anywhere)"
      unfolding x prod.case
      by (intro holds_then_any answer start begin_and_run_holds normalized_steps_belong [OF assms(1)] names)
  qed
qed

lemma admit_answers: "answers (\<lambda>_ _. request_id ex = request) (admit sv s request ex)"
  by (auto simp: answers_def admit_def)

lemma submit_holds:
  assumes "parsed ex"
  shows "holds (sv_sha256 sv) {} anywhere (submit_task sv s adapters request ex) (\<lambda>_. anywhere)"
  unfolding submit_task_def
proof (rule holds_then [OF holds_post [OF holds_checks [OF quiet_admit admit_answers]]])
  show "holds (sv_sha256 sv) {} (\<lambda>_. request_id ex = request)
      (with_lock (EmployeeLock (employee_id ex)) (tthen (Finished (normalize_keys (sv_sha256 sv) ex)) (\<lambda>normalized.
         with_lock (RequestLock request) (submit_locked sv s adapters request ex normalized)))) (\<lambda>_. anywhere)"
  proof (cases "request_id ex = request")
    case True
    have body: "guarded sv (employee_id ex) request anywhere
        (submit_locked sv s adapters request ex normalized) (\<lambda>_. anywhere)"
      if "normalize_keys (sv_sha256 sv) ex = Inr normalized" for normalized
      using submit_locked_holds [OF that assms] True by simp
    have "holds (sv_sha256 sv) {EmployeeLock (employee_id ex)} anywhere
        (with_lock (RequestLock request) (submit_locked sv s adapters request ex normalized)) (\<lambda>_. anywhere)"
      if "normalize_keys (sv_sha256 sv) ex = Inr normalized" for normalized
      using body [OF that] by (intro holds_lock) (simp_all add: in_order_def insert_commute)
    then have "holds (sv_sha256 sv) {EmployeeLock (employee_id ex)} anywhere
        (tthen (Finished (normalize_keys (sv_sha256 sv) ex)) (\<lambda>normalized.
         with_lock (RequestLock request) (submit_locked sv s adapters request ex normalized))) (\<lambda>_. anywhere)"
      by (cases "normalize_keys (sv_sha256 sv) ex") (simp_all add: tthen_def holds_finished)
    then show ?thesis
      using True by (intro holds_anywhere [OF holds_lock]) (simp_all add: in_order_def)
  qed (simp add: holds_def)
qed (auto intro: stable_intros split: sum.split)

section \<open>Identity life cycle\<close>

lemma lifecycle_answers: "answers (\<lambda>x _. parsed x) (lifecycle_checks employee oper ex)"
  unfolding lifecycle_checks_def
  by (intro answers_bind) (auto simp: answers_def intro: parse_parsed)

lemma lifecycle_holds:
  "holds (sv_sha256 sv) {} anywhere (lifecycle_task sv s adapters employee oper ex) (\<lambda>_. anywhere)"
  unfolding lifecycle_task_def
proof (rule holds_then [OF holds_post [OF holds_checks [OF quiet_checks(4) lifecycle_answers]]])
  show "holds (sv_sha256 sv) {} (\<lambda>_. parsed x) (submit_task sv s adapters (request_id x) x) (\<lambda>_. anywhere)" for x
    by (cases "parsed x") (simp_all add: submit_holds, simp add: holds_def)
qed (auto intro: stable_intros split: sum.split)

section \<open>Verification and reconciliation\<close>

text \<open>Calls that ask, made under any locks.\<close>

lemma holds_asks:
  assumes "oper \<in> {Verify, Reconcile}" and "\<And>r. holds sha L anywhere (k r) (\<lambda>_. anywhere)"
  shows "holds sha L anywhere
    (tbind (looked_up_task adapters c (\<lambda>a. Calls a oper c Finished)) k) (\<lambda>_. anywhere)"
proof (rule holds_bind [where R = "\<lambda>_. anywhere"])
  show "holds sha L anywhere (looked_up_task adapters c (\<lambda>a. Calls a oper c Finished)) (\<lambda>_. anywhere)"
    using assms(1) unfolding looked_up_task_def
    by (auto intro!: holds_finished holds_calls simp: call_allowed_def is_access_enabling_def split: option.split)
qed (rule assms(2))

lemma holds_guaranteed:
  assumes "keeps (\<lambda>d d'. sound_db d \<longrightarrow> guarantee sha L d d') m"
  shows "holds sha L anywhere (atomically m) (\<lambda>_. anywhere)"
  by (rule holds_atomically) (use assms in \<open>simp_all add: keeps_def\<close>)

lemma guarantee_preorder [keeps_intros]:
  "reflp (\<lambda>d d'. sound_db d \<longrightarrow> guarantee sha L d d')" "transp (\<lambda>d d'. sound_db d \<longrightarrow> guarantee sha L d d')"
  by (simp add: reflp_def) (rule transpI, blast intro: rely_trans dest: relyD(1))

lemma confirm_guaranteed:
  "keeps (\<lambda>d d'. sound_db d \<longrightarrow> guarantee sha {EmployeeLock (er_employee_id current)} d d')
     (confirm_verification sv current c raw)"
proof -
  have written: "keeps (\<lambda>d d'. sound_db d \<longrightarrow> guarantee sha {EmployeeLock (er_employee_id current)} d d')
      (with_clock sv (\<lambda>t d. case record_verification t (er_employee_id current) system step evidence d of
         (accepted, d') \<Rightarrow> (Inr accepted, d')))" for system step evidence
    by (intro keeps_intros) (simp add: split_beta verification_move)
  show ?thesis
    unfolding confirm_verification_def Let_def by (intro keeps_intros written)
qed

lemma verify_one_holds:
  "holds sha {EmployeeLock (er_employee_id current)} anywhere (verify_one_task sv adapters action current original)
     (\<lambda>_. anywhere)"
  unfolding verify_one_task_def Let_def
proof (rule holds_asks)
  show "holds sha {EmployeeLock (er_employee_id current)} anywhere
      (case r of Returned raw \<Rightarrow> atomically (confirm_verification sv current c raw)
       | RetryableAdapterError code \<Rightarrow> Finished (copied_result current c step_state.Failed None (Some code))
       | PermanentAdapterError code \<Rightarrow> Finished (copied_result current c step_state.Failed None (Some code))
       | OtherError e \<Rightarrow> Finished (Inl e)) (\<lambda>_. anywhere)" for r c
    by (cases r) (auto intro!: holds_finished holds_guaranteed confirm_guaranteed)
qed simp

lemma verify_locked_holds:
  "holds sha {EmployeeLock (er_employee_id current)} anywhere
     (verify_locked_task sv adapters request action current) (\<lambda>_. anywhere)"
  unfolding verify_locked_task_def
proof (rule holds_observe [where R = "\<lambda>_. anywhere"])
  show "holds sha {EmployeeLock (er_employee_id current)} anywhere
      (case x of (originals, outdated) \<Rightarrow>
        if outdated then Finished (Inl (EngineError 409 ''stale_verification_conflict''))
        else tthen (tmap (verify_one_task sv adapters action current) originals) (\<lambda>results.
          Finished (Inr (current\<lparr>er_state := (if all_verified results then ''verified'' else ''verification_failed''),
            er_step_results := results\<rparr>)))) (\<lambda>_. anywhere)" for x
    by (cases x) (auto intro!: holds_if holds_finished holds_then_any holds_tmap verify_one_holds)
qed simp_all

lemma verify_holds: "holds (sv_sha256 sv) {} anywhere (verify_task sv s adapters request action) (\<lambda>_. anywhere)"
  unfolding verify_task_def
  by (rule holds_then_any [OF holds_quietly [OF quiet_checks(1)]])
     (intro holds_lock verify_locked_holds, simp_all add: in_order_def)

lemma reconcile_one_holds:
  "holds sha L anywhere (reconcile_one_task sv adapters action original) (\<lambda>_. anywhere)"
  unfolding reconcile_one_task_def Let_def
proof (rule holds_asks)
  show "holds sha L anywhere
      (case r of Returned raw \<Rightarrow> Finished (reconcile_result sv c raw)
       | RetryableAdapterError code \<Rightarrow> Finished (Inr (reconcile_row c step_state.Failed None None None (Some code)))
       | PermanentAdapterError code \<Rightarrow> Finished (Inr (reconcile_row c step_state.Failed None None None (Some code)))
       | OtherError e \<Rightarrow> Finished (Inl e)) (\<lambda>_. anywhere)" for r c
    by (cases r) (auto intro!: holds_finished)
qed simp

lemma reconcile_holds:
  "holds sha {} anywhere (reconcile_task sv s adapters employee action) (\<lambda>_. anywhere)"
  unfolding reconcile_task_def
proof (intro holds_then_any holds_quietly quiet_checks(3) holds_finished)
  show "holds sha {} anywhere (observe (\<lambda>w. employee_commands employee (w_db w))
      (tmap (reconcile_one_task sv adapters action))) (\<lambda>_. anywhere)"
    by (rule holds_observe [where R = "\<lambda>_. anywhere"]) (auto intro: holds_tmap reconcile_one_holds)
qed simp_all

section \<open>The worker\<close>

text \<open>The employee of the result read before the locks are taken.\<close>

lemma holds_current:
  assumes "\<And>res. holds (sv_sha256 sv) {} (\<lambda>d. employee_of r d = Some (er_employee_id res)) (t res) (\<lambda>_. anywhere)"
  shows "holds (sv_sha256 sv) {} anywhere
    (tthen (atomically (the_result sv r False)) (\<lambda>current.
      case current of None \<Rightarrow> Finished (Inr ()) | Some res \<Rightarrow> t res)) (\<lambda>_. anywhere)"
proof (rule holds_then [OF holds_post [OF holds_checks [OF quiet_results(1) the_result_answers [of r]]]])
  let ?P = "\<lambda>current d. case current of None \<Rightarrow> True | Some res \<Rightarrow> employee_of r d = Some (er_employee_id res)"
  show stable: "stable (sv_sha256 sv) {} (?P current)" for current
    by (cases current) (auto intro: stable_intros)
  show "holds (sv_sha256 sv) {} (?P current)
      (case current of None \<Rightarrow> Finished (Inr ()) | Some res \<Rightarrow> t res) (\<lambda>_. anywhere)" for current
    using assms by (cases current) (auto intro: holds_finished)
qed (auto split: sum.split)

lemma worker_request_holds:
  "holds (sv_sha256 sv) {} anywhere (worker_request sv s adapters r) (\<lambda>_. anywhere)"
  unfolding worker_request_def
proof (rule holds_current)
  fix res :: execution_result
  let ?e = "er_employee_id res"
  let ?P = "\<lambda>d. employee_of r d = Some ?e"
  have run: "guarded sv ?e r ?P (run_request_task sv s adapters r) (\<lambda>_. anywhere)"
    by (rule holds_weaken [OF holds_true [OF run_request_holds]]) (rule employee_owns)
  have inner: "holds (sv_sha256 sv) {EmployeeLock ?e} ?P (with_lock (RequestLock r) (run_request_task sv s adapters r))
      (\<lambda>_. anywhere)"
    using run by (intro holds_lock stable_employee) (simp_all add: in_order_def insert_commute)
  have "holds (sv_sha256 sv) {EmployeeLock ?e} ?P (Tests (RequestLock r) (\<lambda>locked.
      if locked then Finished (Inr ()) else with_lock (RequestLock r) (run_request_task sv s adapters r)))
      (\<lambda>_. anywhere)"
    by (intro holds_tests holds_if holds_finished inner stable_employee) simp_all
  then have "holds (sv_sha256 sv) {} ?P (with_lock (EmployeeLock ?e) (Tests (RequestLock r) (\<lambda>locked.
      if locked then Finished (Inr ()) else with_lock (RequestLock r) (run_request_task sv s adapters r))))
      (\<lambda>_. anywhere)"
    by (intro holds_lock stable_employee) (simp_all add: in_order_def)
  then show "holds (sv_sha256 sv) {} ?P (Tests (EmployeeLock ?e) (\<lambda>locked.
      if locked then Finished (Inr ())
      else with_lock (EmployeeLock ?e) (Tests (RequestLock r) (\<lambda>locked.
        if locked then Finished (Inr ()) else with_lock (RequestLock r) (run_request_task sv s adapters r)))))
      (\<lambda>_. anywhere)"
    by (intro holds_tests holds_if holds_finished stable_employee) simp_all
qed

lemma compensate_due_holds:
  "holds (sv_sha256 sv) {} anywhere (compensate_due_task sv s adapters r) (\<lambda>_. anywhere)"
  unfolding compensate_due_task_def
  by (intro holds_current critical_employee holds_true [OF compensate_holds])

lemma worker_holds: "holds (sv_sha256 sv) {} anywhere (worker_task sv s adapters) (\<lambda>_. anywhere)"
  unfolding worker_task_def
  by (intro holds_then_any holds_quietly quiet_listed holds_teach stable_anywhere
      worker_request_holds compensate_due_holds holds_delivers holds_finished) simp_all

section \<open>Every call\<close>

text \<open>
  The calls of a service that has started, on documents that passed their model: the recovery at the
  start is over before the first of them.
\<close>

fun admissible :: "engine_call \<Rightarrow> bool" where
  "admissible (Submit request ex) = parsed ex"
| "admissible Start = False"
| "admissible _ = True"

lemma forget_holds: "holds sha L P t (\<lambda>_. anywhere) \<Longrightarrow> holds sha L P (forget t) (\<lambda>_. anywhere)"
  unfolding forget_def by (erule holds_bind) (simp add: holds_finished)

text \<open>When a task of a call is over, it holds no lock.\<close>

abbreviation released :: "unit \<Rightarrow> lock set \<Rightarrow> db \<Rightarrow> bool" where
  "released \<equiv> \<lambda>_ L d. L = {}"

lemma call_safe:
  assumes "admissible call" and "sound_db d"
  shows "safe (sv_sha256 sv) released {} d (call_task sv s adapters call)"
proof -
  have "holds (sv_sha256 sv) {} anywhere (call_task sv s adapters call) (\<lambda>_. anywhere)"
    using assms(1)
    by (cases call) (simp_all add: forget_holds submit_holds retry_holds cancel_holds verify_holds
        lifecycle_holds reconcile_holds worker_holds)
  from holdsD [OF this assms(2)] show ?thesis by simp
qed

end
