(* ===== verification/Interleaving.thy ===== *)
theory Interleaving
  imports Call_Safety
begin

text \<open>
  The service as a pool of tasks that share the store. Calls arrive at any time; the tasks run in any
  order, a step at a time; an adapter answers a call with anything, and a delivery ends in anything; the
  environment and the rest of the service change the tables the engine does not decide by; a task may be
  cancelled where it waits. In every pool so reached the store is one that the repository's calls reach
  one after the other, no two holders of a lock exist, no adapter call is made without the locks of its
  employee and request, no pool is stuck, and every schedule ends.
\<close>

section \<open>Pools\<close>

type_synonym 'e pool = "'e world \<times> (lock set \<times> ('e, unit) task) list"

definition locks_of :: "(lock set \<times> ('e, unit) task) list \<Rightarrow> lock set" where
  "locks_of ts = \<Union> (fst ` set ts)"

text \<open>One step of a task with its locks; the locks taken are those of all tasks.\<close>

inductive steps_to ::
  "lock set \<Rightarrow> 'e world \<Rightarrow> lock set \<times> ('e, 'a) task \<Rightarrow> 'e world \<Rightarrow> lock set \<times> ('e, 'a) task \<Rightarrow> bool"
  for taken w where
  changes: "steps_to taken w (L, Atomic u k) (u w) (L, k w)"
| answered: "steps_to taken w (L, Calls a oper c k) w (L, k r)"
| delivered: "steps_to taken w (L, Delivers m k) w (L, k r)"
| acquires: "l \<notin> taken \<Longrightarrow> steps_to taken w (L, Locks l t) w (insert l L, t)"
| releases: "steps_to taken w (L, Unlocks l t) w (L - {l}, t)"
| looks: "steps_to taken w (L, Tests l k) w (L, k (l \<in> taken))"

inductive_cases steps_to_elims:
  "steps_to taken w (L, Finished x) w' y" "steps_to taken w (L, Atomic u k) w' y"
  "steps_to taken w (L, Calls a oper c k) w' y" "steps_to taken w (L, Delivers m k) w' y"
  "steps_to taken w (L, Locks l t) w' y" "steps_to taken w (L, Unlocks l t) w' y"
  "steps_to taken w (L, Tests l k) w' y" "steps_to taken w (L, Exhausted) w' y"

text \<open>Where a task awaits something, \<^verbatim>\<open>CancelledError\<close> ends it and releases its locks.\<close>

fun awaits :: "('e, 'a) task \<Rightarrow> bool" where
  "awaits (Calls a oper c k) = True"
| "awaits (Delivers m k) = True"
| "awaits (Locks l t) = True"
| "awaits _ = False"

inductive turn :: "'e pool \<Rightarrow> 'e pool \<Rightarrow> bool" where
  runs: "i < length ts \<Longrightarrow> steps_to (locks_of ts) w (ts ! i) w' x \<Longrightarrow> turn (w, ts) (w', ts[i := x])"

inductive pool_step ::
  "'e services \<Rightarrow> settings \<Rightarrow> (string \<Rightarrow> 'e adapter option) \<Rightarrow> 'e pool \<Rightarrow> 'e pool \<Rightarrow> bool"
  for sv s adapters where
  turns: "turn p p' \<Longrightarrow> pool_step sv s adapters p p'"
| arrives: "admissible call \<Longrightarrow>
     pool_step sv s adapters (w, ts) (w, ts @ [({}, call_task sv s adapters call)])"
| elsewhere: "elsewhere_db (w_db w) (w_db w') \<Longrightarrow> pool_step sv s adapters (w, ts) (w', ts)"
| cancelled: "i < length ts \<Longrightarrow> awaits (snd (ts ! i)) \<Longrightarrow>
     pool_step sv s adapters (w, ts) (w, ts[i := ({}, Finished ())])"

text \<open>The service starts on any store an earlier run has left.\<close>

inductive served ::
  "'e services \<Rightarrow> settings \<Rightarrow> (string \<Rightarrow> 'e adapter option) \<Rightarrow> nat \<Rightarrow> 'e pool \<Rightarrow> bool"
  for sv s adapters n where
  starts: "reachable (sv_sha256 sv) n (w_db w) \<Longrightarrow> served sv s adapters n (w, [])"
| goes_on: "served sv s adapters n p \<Longrightarrow> pool_step sv s adapters p p' \<Longrightarrow> served sv s adapters n p'"

section \<open>The invariant of a pool\<close>

definition apart :: "(lock set \<times> ('e, unit) task) list \<Rightarrow> bool" where
  "apart ts \<longleftrightarrow> (\<forall>i j. i < length ts \<longrightarrow> j < length ts \<longrightarrow> i \<noteq> j \<longrightarrow> fst (ts ! i) \<inter> fst (ts ! j) = {})"

definition all_safe :: "(string \<Rightarrow> string) \<Rightarrow> 'e pool \<Rightarrow> bool" where
  "all_safe sha p \<longleftrightarrow> (\<forall>x \<in> set (snd p). safe sha released (fst x) (w_db (fst p)) (snd x))"

definition pool_ok :: "(string \<Rightarrow> string) \<Rightarrow> 'e pool \<Rightarrow> bool" where
  "pool_ok sha p \<longleftrightarrow> sound_db (w_db (fst p)) \<and> apart (snd p) \<and> all_safe sha p"

lemma apart_update:
  assumes "apart ts" and "i < length ts" and "\<And>j. j < length ts \<Longrightarrow> j \<noteq> i \<Longrightarrow> fst x \<inter> fst (ts ! j) = {}"
  shows "apart (ts[i := x])"
  using assms unfolding apart_def by (auto simp: nth_list_update)

lemma apart_append: "apart ts \<Longrightarrow> apart (ts @ [({}, t)])"
  unfolding apart_def by (auto simp: nth_append)

lemma locks_of_iff: "l \<in> locks_of ts \<longleftrightarrow> (\<exists>j < length ts. l \<in> fst (ts ! j))"
  by (simp add: locks_of_def) (metis in_set_conv_nth)

text \<open>A step of a safe task stays within what it guarantees, and takes only free locks.\<close>

lemma step_safe:
  assumes "steps_to taken w (L, t) w' (L', t')" and "safe sha Q L (w_db w) t" and "sound_db (w_db w)"
  shows "guarantee sha L (w_db w) (w_db w')" and "safe sha Q L' (w_db w') t'" and "L' \<inter> taken \<subseteq> L"
proof -
  have refl: "rely sha L (w_db w) (w_db w)" using assms(3) by simp
  have "guarantee sha L (w_db w) (w_db w') \<and> safe sha Q L' (w_db w') t' \<and> L' \<inter> taken \<subseteq> L"
    using assms(1)
  proof (cases rule: steps_to.cases)
    case (changes u k)
    then show ?thesis using assms(2) refl by (auto elim!: safe_elims)
  qed (use assms(2,3) refl in \<open>auto elim!: safe_elims\<close>)
  then show "guarantee sha L (w_db w) (w_db w')" and "safe sha Q L' (w_db w') t'" and "L' \<inter> taken \<subseteq> L"
    by auto
qed

lemma turn_ok:
  assumes "turn p p'" and "pool_ok sha p"
  shows "pool_ok sha p'" and "(store_step sha 0)\<^sup>*\<^sup>* (w_db (fst p)) (w_db (fst p'))"
proof -
  have "pool_ok sha p' \<and> (store_step sha 0)\<^sup>*\<^sup>* (w_db (fst p)) (w_db (fst p'))"
    using assms(1)
  proof (cases rule: turn.cases)
    case (runs i ts w w' x)
    obtain L t where old: "ts ! i = (L, t)" by force
    obtain L' t' where new: "x = (L', t')" by force
    have ok: "sound_db (w_db w)" "apart ts" "\<And>y. y \<in> set ts \<Longrightarrow> safe sha released (fst y) (w_db w) (snd y)"
      using assms(2) by (auto simp: pool_ok_def all_safe_def runs(1))
    have safe: "safe sha released L (w_db w) t"
      using ok(3) [OF nth_mem [OF runs(3)]] old by simp
    note step = step_safe [OF runs(4) [unfolded old new] safe ok(1)]
    have distinct: "L \<inter> fst (ts ! j) = {}" if "j < length ts" "j \<noteq> i" for j
      using ok(2) that runs(3) old unfolding apart_def by (metis fst_conv)
    have "safe sha released (fst y) (w_db w') (snd y)" if y: "y \<in> set (ts[i := x])" for y
    proof -
      obtain j where "j < length (ts[i := x])" "ts[i := x] ! j = y"
        using y unfolding in_set_conv_nth by blast
      then have j: "j < length ts" "y = ts[i := x] ! j" by simp_all
      show ?thesis
      proof (cases "j = i")
        case False
        have "rely sha (fst (ts ! j)) (w_db w) (w_db w')"
          by (rule guarantee_rely [OF step(1) distinct [OF j(1) False]])
        then show ?thesis using safe_later [OF ok(3) [OF nth_mem [OF j(1)]]] j(2) False by simp
      qed (use j step(2) new in simp)
    qed
    moreover have "apart (ts[i := x])"
    proof (rule apart_update [OF ok(2) runs(3)])
      show "fst x \<inter> fst (ts ! j) = {}" if "j < length ts" "j \<noteq> i" for j
        using step(3) distinct [OF that] new locks_of_iff [of _ ts] that(1) by (simp add: disjoint_iff) blast
    qed
    ultimately show ?thesis
      using relyD(1,2) [OF step(1)] by (simp add: runs pool_ok_def all_safe_def)
  qed
  then show "pool_ok sha p'" and "(store_step sha 0)\<^sup>*\<^sup>* (w_db (fst p)) (w_db (fst p'))" by auto
qed

lemma pool_step_ok:
  assumes "pool_step sv s adapters p p'" and "pool_ok (sv_sha256 sv) p"
  shows "pool_ok (sv_sha256 sv) p' \<and> (store_step (sv_sha256 sv) 0)\<^sup>*\<^sup>* (w_db (fst p)) (w_db (fst p'))"
  using assms(1)
proof (cases rule: pool_step.cases)
  case turns
  then show ?thesis using turn_ok assms(2) by blast
next
  case (arrives call w ts)
  then show ?thesis
    using assms(2) call_safe [OF arrives(3)] by (auto simp: pool_ok_def all_safe_def apart_append)
next
  case (elsewhere w w' ts)
  have quiet: "quiet_db (sv_sha256 sv) (w_db w) (w_db w')" by (rule elsewhere_quiet [OF elsewhere(3)])
  have rely: "rely (sv_sha256 sv) L (w_db w) (w_db w')" for L
    using assms(2) by (intro quiet_rely [OF quiet]) (simp add: pool_ok_def elsewhere(1))
  have "safe (sv_sha256 sv) released (fst x) (w_db w') (snd x)" if "x \<in> set ts" for x
    by (rule safe_later [OF _ rely]) (use assms(2) that in \<open>simp add: pool_ok_def all_safe_def elsewhere\<close>)
  then show ?thesis
    using assms(2) relyD(1,2) [OF rely] by (simp add: pool_ok_def all_safe_def elsewhere)
next
  case (cancelled i ts w)
  have "safe (sv_sha256 sv) released {} (w_db w) (Finished ())" by (rule safe.finished) simp
  then show ?thesis
    using assms(2) set_update_subset_insert [of ts i "({}, Finished ())"]
    by (auto simp: pool_ok_def all_safe_def cancelled intro!: apart_update)
qed

section \<open>What holds in every pool\<close>

lemma steps_reachable_on:
  "(store_step sha 0)\<^sup>*\<^sup>* d d' \<Longrightarrow> reachable sha n d \<Longrightarrow> reachable sha n d'"
  by (induction rule: rtranclp_induct) (auto dest: reachable.moves [where k = 0])

lemma reachable_sound: "reachable sha n d \<Longrightarrow> sound_db d"
proof (induction rule: reachable.induct)
  case (moves n d k d')
  have "machine_inv (n + k) d'" by (rule reachable_machine_inv [OF reachable.moves [OF moves(1,2)]])
  moreover have "employee_inv d'"
    using store_step_idents [OF moves(2) sound_store [OF moves(3)]]
  proof (elim disjE exE conjE)
    fix ex t h assume "steps_belong ex" and "d' = snd (begin_execution sha t ex h d)"
    then show ?thesis using employee_inv_begin moves(3) by (simp add: sound_db_def)
  next
    assume "map step_ident (tbl_steps d') = map step_ident (tbl_steps d)"
      and "map exec_ident (tbl_executions d') = map exec_ident (tbl_executions d)"
    from employee_inv_idents [OF this] show ?thesis using moves(3) by (simp add: sound_db_def)
  qed
  ultimately show ?case by (auto simp: sound_db_def)
qed (rule sound_empty)

lemma pool_empty: "reachable sha n (w_db w) \<Longrightarrow> pool_ok sha (w, [])"
  by (simp add: reachable_sound pool_ok_def all_safe_def apart_def)

lemma served_ok:
  "served sv s adapters n p \<Longrightarrow> reachable (sv_sha256 sv) n (w_db (fst p)) \<and> pool_ok (sv_sha256 sv) p"
proof (induction rule: served.induct)
  case (starts w)
  then show ?case by (simp add: pool_empty)
next
  case (goes_on p p')
  then show ?case using pool_step_ok [OF goes_on(2)] steps_reachable_on by blast
qed

text \<open>And the store of a pool is reached from the store it started on.\<close>

lemma pool_steps_ok:
  assumes "(pool_step sv s adapters)\<^sup>*\<^sup>* p p'" and "pool_ok (sv_sha256 sv) p"
  shows "pool_ok (sv_sha256 sv) p' \<and> (store_step (sv_sha256 sv) 0)\<^sup>*\<^sup>* (w_db (fst p)) (w_db (fst p'))"
  using assms
proof (induction rule: rtranclp_induct)
  case (step y z)
  then show ?case using pool_step_ok [OF step(2)] by (metis rtranclp_trans)
qed simp

lemma pool_never_exhausted:
  assumes "pool_ok sha p"
  shows "Exhausted \<notin> snd ` set (snd p)"
proof
  assume "Exhausted \<in> snd ` set (snd p)"
  then obtain x where x: "x \<in> set (snd p)" "snd x = Exhausted" by auto
  have "safe sha released (fst x) (w_db (fst p)) (snd x)"
    using assms x(1) by (simp add: pool_ok_def all_safe_def)
  then show False by (simp add: x(2)) (auto elim: safe_elims)
qed

text \<open>An adapter call under way is allowed.\<close>

lemma served_call:
  assumes "served sv s adapters n p" and "(L, Calls a oper c k) \<in> set (snd p)"
  shows "call_allowed L oper c (w_db (fst p))"
proof -
  have ok: "sound_db (w_db (fst p))" "all_safe (sv_sha256 sv) p"
    using served_ok [OF assms(1)] by (simp_all add: pool_ok_def)
  have "safe (sv_sha256 sv) released L (w_db (fst p)) (Calls a oper c k)"
    using ok(2) assms(2) by (fastforce simp: all_safe_def)
  then show ?thesis using ok(1) by (auto elim!: safe_elims)
qed

text \<open>Who waits, waits for a lock that is held; who holds a request lock does not wait for a lock.\<close>

definition stuck :: "'e pool \<Rightarrow> bool" where
  "stuck p \<longleftrightarrow> (\<exists>x \<in> set (snd p). \<nexists>r. snd x = Finished r) \<and> (\<nexists>p'. turn p p')"

lemma blocked_waits:
  assumes "\<nexists>p'. turn (w, ts) p'" and "pool_ok sha (w, ts)" and i: "i < length ts" "ts ! i = (L, t)"
    and "L \<noteq> {} \<or> (\<nexists>r. t = Finished r)"
  obtains l t' where "t = Locks l t'" and "in_order l L" and "l \<in> locks_of ts"
proof -
  have none: "\<not> steps_to (locks_of ts) w (L, t) w' x" for w' x
    using assms(1) turn.runs [OF i(1), of w w' x] i(2) by auto
  have safe: "safe sha released L (w_db w) t" "sound_db (w_db w)"
    using assms(2) nth_mem [OF i(1)] i(2) by (auto simp: pool_ok_def all_safe_def)
  show thesis
  proof (cases t)
    case (Finished r)
    then have "L = {}" using safe by (auto elim!: safe_elims dest: spec [of _ "w_db w"])
    then show thesis using assms(5) Finished by blast
  next
    case (Locks l t')
    have "in_order l L" using safe(1) Locks by (auto elim: safe_elims)
    moreover have "l \<in> locks_of ts" using none Locks by (blast intro: steps_to.intros)
    ultimately show thesis using that Locks by blast
  next
    case Exhausted
    then show thesis using safe(1) by (auto elim: safe_elims)
  qed (use none in \<open>blast intro: steps_to.intros\<close>)+
qed

lemma never_stuck:
  assumes "pool_ok sha p"
  shows "\<not> stuck p"
proof
  obtain w ts where p: "p = (w, ts)" by force
  assume "stuck p"
  then obtain x where x: "x \<in> set ts" "\<nexists>r. snd x = Finished r" and none: "\<nexists>p'. turn (w, ts) p'"
    by (auto simp: stuck_def p)
  have ok: "pool_ok sha (w, ts)" using assms p by simp
  note waits = blocked_waits [OF none ok]
  have request: False if held: "RequestLock r \<in> locks_of ts" for r
  proof -
    obtain j where j: "j < length ts" "RequestLock r \<in> fst (ts ! j)"
      using held unfolding locks_of_iff by blast
    obtain L t where old: "ts ! j = (L, t)" by force
    obtain l t' where "in_order l L" using waits [OF j(1) old] j(2) old by auto
    then show False using j(2) old by (cases l) (auto simp: in_order_def)
  qed
  have taken: False if held: "l \<in> locks_of ts" for l
  proof (cases l)
    case (EmployeeLock e)
    obtain j where j: "j < length ts" "l \<in> fst (ts ! j)"
      using held unfolding locks_of_iff by blast
    obtain L t where old: "ts ! j = (L, t)" by force
    obtain l' t' where l': "in_order l' L" "l' \<in> locks_of ts" using waits [OF j(1) old] j(2) old by auto
    show False
    proof (cases l')
      case (EmployeeLock e')
      then show False using l'(1) j(2) old by (auto simp: in_order_def)
    qed (use l'(2) request in blast)
  qed (use held request in blast)
  obtain i where i: "i < length ts" "x = ts ! i" using x(1) by (metis in_set_conv_nth)
  obtain L t where old: "ts ! i = (L, t)" by force
  show False using waits [OF i(1) old] x(2) i(2) old taken by auto
qed

section \<open>Every schedule ends\<close>

text \<open>What is left of a task after a step, whatever the step met.\<close>

inductive after_step :: "('e, 'a) task \<Rightarrow> ('e, 'a) task \<Rightarrow> bool" where
  "after_step (k w) (Atomic u k)" | "after_step (k r) (Calls a oper c k)"
| "after_step (k res) (Delivers m k)" | "after_step t (Locks l t)"
| "after_step t (Unlocks l t)" | "after_step (k b) (Tests l k)"

inductive_cases after_step_elims: "after_step t' (Finished x)" "after_step t' (Atomic u k)"
  "after_step t' (Calls a oper c k)" "after_step t' (Delivers m k)" "after_step t' (Locks l t)"
  "after_step t' (Unlocks l t)" "after_step t' (Tests l k)" "after_step t' Exhausted"

lemma after_step_wf: "wf {(t' :: ('e, 'a) task, t). after_step t' t}"
proof (rule wfUNIVI)
  fix P :: "('e, 'a) task \<Rightarrow> bool" and t
  assume step: "\<forall>t. (\<forall>t'. (t', t) \<in> {(t', t). after_step t' t} \<longrightarrow> P t') \<longrightarrow> P t"
  show "P t"
  proof (induction t)
    case (Atomic u k)
    show ?case by (rule step [rule_format]) (auto elim!: after_step_elims intro: Atomic)
  next
    case (Calls a oper c k)
    show ?case by (rule step [rule_format]) (auto elim!: after_step_elims intro: Calls)
  next
    case (Delivers m k)
    show ?case by (rule step [rule_format]) (auto elim!: after_step_elims intro: Delivers)
  next
    case (Locks l t)
    show ?case by (rule step [rule_format]) (auto elim!: after_step_elims intro: Locks)
  next
    case (Unlocks l t)
    show ?case by (rule step [rule_format]) (auto elim!: after_step_elims intro: Unlocks)
  next
    case (Tests l k)
    show ?case by (rule step [rule_format]) (auto elim!: after_step_elims intro: Tests)
  qed (rule step [rule_format], auto elim: after_step_elims)+
qed

lemma steps_after: "steps_to taken w (L, t) w' (L', t') \<Longrightarrow> after_step t' t"
  by (cases rule: steps_to.cases) (auto intro: after_step.intros)

definition remaining :: "'e pool \<Rightarrow> ('e, unit) task list" where
  "remaining p = map snd (snd p)"

lemma turn_remaining:
  assumes "turn p p'"
  shows "(remaining p', remaining p) \<in> listrel1 {(t', t). after_step t' t}"
  using assms
proof (cases rule: turn.cases)
  case (runs i ts w w' x)
  obtain L t L' t' where old: "ts ! i = (L, t)" and new: "x = (L', t')" by force
  have "after_step t' t" using steps_after runs(4) old new by simp
  moreover have "map snd ts = take i (map snd ts) @ t # drop (Suc i) (map snd ts)"
    using runs(3) old by (metis id_take_nth_drop length_map nth_map snd_conv)
  moreover have "map snd (ts[i := x]) = take i (map snd ts) @ t' # drop (Suc i) (map snd ts)"
    using runs(3) new by (simp add: map_update upd_conv_take_nth_drop take_map drop_map)
  ultimately show ?thesis
    unfolding runs remaining_def by (auto intro!: listrel1I)
qed

text \<open>The steps of the tasks with what the environment does in between.\<close>

definition passes :: "'e pool \<Rightarrow> 'e pool \<Rightarrow> bool" where
  "passes p p' \<longleftrightarrow> (\<exists>w. elsewhere_db (w_db (fst p)) (w_db w) \<and> turn (w, snd p) p')"

lemma passes_wf: "wf {(p', p). passes p p'}"
proof (rule wf_subset [OF wf_inv_image [OF wf_listrel1_iff [THEN iffD2, OF after_step_wf]]])
  show "{(p', p). passes p p'} \<subseteq> inv_image (listrel1 {(t', t). after_step t' t}) remaining"
    by (auto simp: passes_def in_inv_image dest!: turn_remaining) (simp_all add: remaining_def)
qed

lemma all_finish:
  assumes "pool_ok sha p"
  shows "\<exists>p'. turn\<^sup>*\<^sup>* p p' \<and> pool_ok sha p' \<and> (\<forall>x \<in> set (snd p'). \<exists>r. snd x = Finished r)"
proof -
  have "pool_ok sha p \<longrightarrow>
      (\<exists>p'. turn\<^sup>*\<^sup>* p p' \<and> pool_ok sha p' \<and> (\<forall>x \<in> set (snd p'). \<exists>r. snd x = Finished r))"
  proof (induction p rule: wf_induct_rule [OF passes_wf])
    case (1 p)
    show ?case
    proof (cases "\<exists>p'. turn p p'")
      case True
      then obtain p' where step: "turn p p'" by blast
      have "passes p p'" unfolding passes_def
        by (rule exI [of _ "fst p"]) (simp add: step elsewhere_db_def same_steps_def)
      then show ?thesis
        using 1 turn_ok(1) [OF step] converse_rtranclp_into_rtranclp [of turn, OF step] by blast
    next
      case False
      then show ?thesis using never_stuck unfolding stuck_def by blast
    qed
  qed
  then show ?thesis using assms by blast
qed

end
