(* ===== verification/Schedules.thy ===== *)
theory Schedules
  imports Interleaving
begin

text \<open>
  Concrete pools of tasks: a scheduler plays a list of turns, and two schedules are worked out, one of a
  retry that overtakes nothing but its own check, and one of a worker that activates an employee.
\<close>

section \<open>A scheduler\<close>

text \<open>One turn of a task, if it can take one: every call is answered with \<open>r\<close>, every delivery succeeds.\<close>

fun advanced ::
  "dict outcome \<Rightarrow> lock set \<Rightarrow> 'e world \<Rightarrow> lock set \<times> ('e, unit) task \<Rightarrow>
     ('e world \<times> (lock set \<times> ('e, unit) task)) option" where
  "advanced r taken w (L, Finished x) = None"
| "advanced r taken w (L, Atomic u k) = Some (u w, (L, k w))"
| "advanced r taken w (L, Calls a oper c k) = Some (w, (L, k r))"
| "advanced r taken w (L, Delivers m k) = Some (w, (L, k (Inr ())))"
| "advanced r taken w (L, Locks l t) = (if l \<in> taken then None else Some (w, (insert l L, t)))"
| "advanced r taken w (L, Unlocks l t) = Some (w, (L - {l}, t))"
| "advanced r taken w (L, Tests l k) = Some (w, (L, k (l \<in> taken)))"
| "advanced r taken w (L, Exhausted) = None"

definition take_turn :: "dict outcome \<Rightarrow> nat \<Rightarrow> 'e pool \<Rightarrow> 'e pool" where
  "take_turn r i p = (case p of (w, ts) \<Rightarrow>
     (case advanced r (locks_of ts) w (ts ! i) of
        None \<Rightarrow> p
      | Some (w', x) \<Rightarrow> (w', ts[i := x])))"

definition schedule :: "dict outcome \<Rightarrow> nat list \<Rightarrow> 'e pool \<Rightarrow> 'e pool" where
  "schedule r = fold (take_turn r)"

lemma advanced_steps:
  "advanced r taken w x = Some (w', y) \<Longrightarrow> steps_to taken w x w' y"
proof (induction r taken w x rule: advanced.induct)
  case (2 r taken w L u k)
  then show ?case by (auto intro: steps_to.intros)
next
  case (5 r taken w L l t)
  then show ?case by (auto intro: steps_to.intros split: if_splits)
qed (auto intro: steps_to.intros)

lemma take_turn_turns:
  assumes "i < length (snd p)"
  shows "turn\<^sup>*\<^sup>* p (take_turn r i p)" and "length (snd (take_turn r i p)) = length (snd p)"
proof -
  obtain w ts where p: "p = (w, ts)" by force
  show "length (snd (take_turn r i p)) = length (snd p)"
    by (simp add: take_turn_def p split: option.split)
  show "turn\<^sup>*\<^sup>* p (take_turn r i p)"
  proof (cases "advanced r (locks_of ts) w (ts ! i)")
    case (Some a)
    then obtain w' x where a: "advanced r (locks_of ts) w (ts ! i) = Some (w', x)" by (cases a) simp
    have "turn (w, ts) (w', ts[i := x])"
      using turn.runs [OF _ advanced_steps [OF a]] assms by (simp add: p)
    then show ?thesis using a by (simp add: take_turn_def p)
  qed (simp add: take_turn_def p)
qed

lemma schedule_turns:
  "\<forall>i \<in> set is. i < length (snd p) \<Longrightarrow> turn\<^sup>*\<^sup>* p (schedule r is p)"
proof (induction "is" arbitrary: p)
  case (Cons i "is")
  then have "turn\<^sup>*\<^sup>* p (take_turn r i p)" "length (snd (take_turn r i p)) = length (snd p)"
    using take_turn_turns [of i p r] by simp_all
  then show ?case
    using Cons.IH [of "take_turn r i p"] Cons.prems by (simp add: schedule_def)
qed (simp add: schedule_def)

lemma schedule_steps: "schedule r [] p = p" "schedule r (i # is) p = schedule r is (take_turn r i p)"
  by (simp_all add: schedule_def)

lemma served_turns: "turn\<^sup>*\<^sup>* p p' \<Longrightarrow> served sv s adapters n p \<Longrightarrow> served sv s adapters n p'"
  by (induction rule: rtranclp_induct) (auto intro: served.goes_on pool_step.turns)

lemma tbind_assoc: "tbind (tbind t f) g = tbind t (\<lambda>x. tbind (f x) g)"
  by (induction t) auto

text \<open>The tasks as they are played: the store steps one by one.\<close>

lemmas task_forms = tbind.simps tbind_assoc tthen_def atomically_def observe_def with_lock_def
  forget_def critical_def

text \<open>The pool after calls have arrived at a service that starts on a store.\<close>

definition arrived ::
  "'e services \<Rightarrow> settings \<Rightarrow> (string \<Rightarrow> 'e adapter option) \<Rightarrow> engine_call list \<Rightarrow> 'e world \<Rightarrow> 'e pool" where
  "arrived sv s adapters calls w = (w, map (\<lambda>call. ({}, call_task sv s adapters call)) calls)"

lemma arrived_steps:
  assumes "list_all admissible calls"
  shows "(pool_step sv s adapters)\<^sup>*\<^sup>* (w, []) (arrived sv s adapters calls w)"
  using assms
proof (induction calls rule: rev_induct)
  case (snoc call calls)
  then have "pool_step sv s adapters (arrived sv s adapters calls w) (arrived sv s adapters (calls @ [call]) w)"
    using pool_step.arrives [of call] by (simp add: arrived_def)
  then show ?case using snoc by (simp add: rtranclp.rtrancl_into_rtrancl)
qed (simp add: arrived_def)

lemma served_steps: "(pool_step sv s adapters)\<^sup>*\<^sup>* p p' \<Longrightarrow> served sv s adapters n p \<Longrightarrow> served sv s adapters n p'"
  by (induction rule: rtranclp_induct) (auto intro: served.goes_on)

lemma turns_steps: "turn\<^sup>*\<^sup>* p p' \<Longrightarrow> (pool_step sv s adapters)\<^sup>*\<^sup>* p p'"
  by (induction rule: rtranclp_induct) (auto intro: rtranclp.rtrancl_into_rtrancl pool_step.turns)

lemma arrived_served:
  assumes "reachable (sv_sha256 sv) n (w_db w)" and "list_all admissible calls"
  shows "served sv s adapters n (arrived sv s adapters calls w)"
  using served_steps [OF arrived_steps [OF assms(2)] served.starts [OF assms(1)]] .

section \<open>A service whose adapters answer\<close>

definition answering_adapters :: "string \<Rightarrow> unit adapter option" where
  "answering_adapters system = Some (\<lambda>oper c w. (Returned [], w))"

definition sample_asked :: "operation \<Rightarrow> string \<Rightarrow> action_request" where
  "sample_asked oper request =
     \<lparr>schema_version = ''1.0'', request_id = request, correlation_id = ''correlation-'' @ request,
      idempotency_key = ''action-key-'' @ request, employee_id = ''employee-0001'',
      target_system = Odoo, operation = oper, timestamp = seconds 1000, action_payload = []\<rparr>"

text \<open>
  A store with two requests of an employee: one step of the first has been dead-lettered with attempts
  left, and the only step of the second has succeeded. To it come the verification of the second
  request and the cancellation and the retry of the first.
\<close>

definition sample_shared :: db where
  "sample_shared = snd (complete_step 18 ''step-c-00'' Succeeded
     (step_evidence (\<lambda>s. s) (sample_step ''request-2'' ''step-c-00'' 0 Odoo CreateDisabled 1) [])
     (snd (claim_next 17 ''request-2'' (snd (begin_execution (\<lambda>x. x) 16 sample_one ''hash-2'' sample_dead)))))"

definition sample_pool :: "unit pool" where
  "sample_pool = arrived sample_sv sample_settings answering_adapters
     [VerifyRequest ''request-2'' (sample_asked Verify ''request-2''),
      CancelRequest ''request-1'' (sample_asked Cancel ''request-1''),
      Retry ''request-1'' (sample_asked Update ''request-1'')]
     \<lparr>w_db = sample_shared, w_env = ()\<rparr>"

lemma sample_shared_reachable: "reachable (\<lambda>x. x) 0 sample_shared"
proof -
  let ?claimed = "snd (claim_next 17 ''request-2'' (snd (begin_execution (\<lambda>x. x) 16 sample_one ''hash-2'' sample_dead)))"
  have "reachable (\<lambda>x. x) 0 ?claimed"
    using reachable.moves [OF reachable.moves [OF sample_dead_reachable store_step.begins [OF sample_one_belongs]]
      store_step.claims] by simp
  moreover have "in_flight ''step-c-00'' ?claimed" unfolding in_flight_code by code_simp
  ultimately show ?thesis
    unfolding sample_shared_def using reachable.moves [OF _ store_step.completes] by fastforce
qed

lemma sample_pool_served: "served sample_sv sample_settings answering_adapters 0 sample_pool"
  unfolding sample_pool_def by (intro arrived_served) (simp_all add: sample_shared_reachable)

text \<open>What the handlers of the schedule find, each in the world the last one has left.\<close>

fun accepted :: "'a res \<Rightarrow> bool" where
  "accepted (Inr x) = True"
| "accepted (Inl e) = False"

lemma accepted_employee:
  "map_sum (\<lambda>_. ()) er_employee_id r = Inr e \<Longrightarrow> \<exists>x. r = Inr x \<and> er_employee_id x = e"
  by (cases r) auto

definition race_start :: "unit world" where
  "race_start = \<lparr>w_db = sample_shared, w_env = ()\<rparr>"

definition verify_checked :: "execution_result res \<times> unit world" where
  "verify_checked = action_checks sample_sv sample_settings ''request-2''
     (sample_asked Verify ''request-2'') Verify ''verify_operation_required'' race_start"

definition cancel_checked :: "execution_result res \<times> unit world" where
  "cancel_checked = action_checks sample_sv sample_settings ''request-1''
     (sample_asked Cancel ''request-1'') Cancel ''cancel_operation_required'' (snd verify_checked)"

definition retry_checked :: "execution_result res \<times> unit world" where
  "retry_checked = retry_checks sample_sv sample_settings ''request-1''
     (sample_asked Update ''request-1'') (snd cancel_checked)"

definition cancel_emptied :: "unit res \<times> unit world" where
  "cancel_emptied = with_clock sample_sv (\<lambda>t d. (Inr (), snd (cancel_pending t ''request-1'' d)))
     (snd retry_checked)"

definition cancel_marked :: "unit res \<times> unit world" where
  "cancel_marked = with_clock2 sample_sv (\<lambda>t t' d. (Inr (), mark_cancelled t t' ''request-1'' d))
     (snd cancel_emptied)"

definition cancel_answered :: "execution_result res \<times> unit world" where
  "cancel_answered =
     required_result sample_sv ''request-1'' 500 ''execution_state_missing'' (snd cancel_marked)"

definition retry_scheduled :: "bool res \<times> unit world" where
  "retry_scheduled = with_clock3 sample_sv (\<lambda>t t' t'' d.
     case schedule_step_retry t t' t'' ''request-1'' d of (scheduled, d') \<Rightarrow> (Inr scheduled, d'))
     (snd cancel_answered)"

definition retry_claimed :: "step_command option \<times> unit world" where
  "retry_claimed = with_clock sample_sv (\<lambda>t. claim_next t ''request-1'') (snd retry_scheduled)"

lemmas race_folds = race_start_def [symmetric] verify_checked_def [symmetric] cancel_checked_def [symmetric]
  retry_checked_def [symmetric] cancel_emptied_def [symmetric] cancel_marked_def [symmetric]
  cancel_answered_def [symmetric] retry_scheduled_def [symmetric] retry_claimed_def [symmetric]

lemma race_employees:
  "map_sum (\<lambda>_. ()) er_employee_id (fst verify_checked) = Inr ''employee-0001''"
  "map_sum (\<lambda>_. ()) er_employee_id (fst cancel_checked) = Inr ''employee-0001''"
  "map_sum (\<lambda>_. ()) er_employee_id (fst retry_checked) = Inr ''employee-0001''"
  by code_simp+

lemma race_finds:
  "verification_commands ''request-2'' (w_db (snd verify_checked)) =
     [sample_step ''request-2'' ''step-c-00'' 0 Odoo CreateDisabled 1]"
  "is_current_verification_candidate ''employee-0001'' ''odoo'' ''step-c-00'' (w_db (snd verify_checked))"
  "successful_commands ''request-1'' (w_db (snd cancel_marked)) = []"
  "accepted (fst cancel_answered)"
  "fst retry_scheduled = Inr True"
  "waiting_count ''request-1'' (w_db (snd retry_scheduled)) = 1"
  "fst retry_claimed = Some (sample_step ''request-1'' ''step-a-00'' 0 Odoo CreateDisabled 3)"
  "is_cancelled ''request-1'' (w_db (snd retry_claimed))"
  by code_simp+

lemma race_emptied: "fst cancel_emptied = Inr ()" "fst cancel_marked = Inr ()"
  by (simp_all add: cancel_emptied_def cancel_marked_def with_clock_def with_clock2_def split_beta)

text \<open>
  The verification takes the employee's lock and waits for its adapter; the cancellation and then the
  retry pass their checks and wait for the lock; the verification fails; the cancellation runs to its
  end; the retry runs.
\<close>

definition race_turns :: "nat list" where
  "race_turns = [0, 0, 0, 1, 2, 0, 0, 1, 1, 1, 1, 1, 1, 1, 1, 2, 2, 2, 2, 2, 2]"

lemma race_runs:
  "\<exists>L a k. schedule (OtherError KeyError) race_turns sample_pool =
    (snd retry_claimed, [({}, Finished ()), ({}, Finished ()),
       (L, Calls a CreateDisabled (sample_step ''request-1'' ''step-a-00'' 0 Odoo CreateDisabled 3) k)])"
proof -
  obtain x y z where "fst verify_checked = Inr x" "er_employee_id x = ''employee-0001''"
      "fst cancel_checked = Inr y" "er_employee_id y = ''employee-0001''"
      "fst retry_checked = Inr z" "er_employee_id z = ''employee-0001''"
    using race_employees[THEN accepted_employee] by blast
  moreover obtain u where "fst cancel_answered = Inr u"
    using race_finds(4) by (cases "fst cancel_answered") auto
  ultimately show ?thesis
    by (simp add: race_turns_def sample_pool_def arrived_def schedule_steps take_turn_def locks_of_def Let_def
        task_forms race_finds race_emptied race_folds answering_adapters_def sample_step_def executed_def
        is_access_enabling_def verify_task_def verify_locked_task_def verify_one_task_def looked_up_task_def
        cancel_task_def cancel_locked_def compensate_task_def retry_task_def retry_locked_def
        run_request_task_def run_step_task_def run_claimed_task_def)
qed

text \<open>
  A pass of the worker over a request that activates an employee whose account has been created and
  verified, up to the adapter's call.
\<close>

definition sample_activation :: request_execution where
  "sample_activation = sample_execution ''request-3'' Activate
     [sample_step ''request-3'' ''step-d-00'' 0 Odoo Activate 3]"

definition sample_ready :: db where
  "sample_ready = snd (begin_execution (\<lambda>x. x) 20 sample_activation ''hash-3''
     (snd (record_verification 19 ''employee-0001'' ''odoo'' ''step-c-00'' ''evidence''
       (snd (complete_step 18 ''step-c-00'' Succeeded [] sample_one_claimed)))))"

lemma sample_ready_reachable: "reachable (\<lambda>x. x) 0 sample_ready"
proof -
  have "in_flight ''step-c-00'' sample_one_claimed" unfolding in_flight_code by code_simp
  then have made: "reachable (\<lambda>x. x) 0 (snd (complete_step 18 ''step-c-00'' Succeeded [] sample_one_claimed))"
    using reachable.moves [OF sample_one_claimed_reachable store_step.completes] by fastforce
  have "same_steps d (snd (record_verification t employee target step evidence d))" for t employee target step evidence d
    by (simp add: same_steps_def record_verification_def upsert_verification_def)
  from steps_reachable_on [OF same_steps_run [OF this] made]
  have "reachable (\<lambda>x. x) 0 (snd (record_verification 19 ''employee-0001'' ''odoo'' ''step-c-00'' ''evidence''
      (snd (complete_step 18 ''step-c-00'' Succeeded [] sample_one_claimed))))" .
  moreover have "steps_belong sample_activation" by (rule validated_steps_belong) code_simp
  ultimately show ?thesis
    unfolding sample_ready_def using reachable.moves [OF _ store_step.begins] by fastforce
qed

definition worker_pool :: "unit pool" where
  "worker_pool = arrived sample_sv sample_settings answering_adapters [WorkerPass]
     \<lparr>w_db = sample_ready, w_env = ()\<rparr>"

lemma worker_pool_served: "served sample_sv sample_settings answering_adapters 0 worker_pool"
  unfolding worker_pool_def by (intro arrived_served) (simp_all add: sample_ready_reachable)

definition worker_start :: "unit world" where
  "worker_start = \<lparr>w_db = sample_ready, w_env = ()\<rparr>"

definition worker_listed :: "string list res \<times> unit world" where
  "worker_listed = with_clock sample_sv (\<lambda>t d. (Inr (pending_request_ids t d), d)) worker_start"

definition worker_found :: "execution_result option res \<times> unit world" where
  "worker_found = the_result sample_sv ''request-3'' False (snd worker_listed)"

definition worker_claimed :: "step_command option \<times> unit world" where
  "worker_claimed = with_clock sample_sv (\<lambda>t. claim_next t ''request-3'') (snd worker_found)"

lemmas worker_folds = worker_start_def [symmetric] worker_listed_def [symmetric]
  worker_found_def [symmetric] worker_claimed_def [symmetric]

lemma worker_finds:
  "fst worker_listed = Inr [''request-3'']"
  "map_sum (\<lambda>_. ()) (map_option er_employee_id) (fst worker_found) = Inr (Some ''employee-0001'')"
  "waiting_count ''request-3'' (w_db (snd worker_found)) = 1"
  "fst worker_claimed = Some (sample_step ''request-3'' ''step-d-00'' 0 Odoo Activate 3)"
  "activation_blockers ''employee-0001'' [''odoo''] (w_db (snd worker_claimed)) = []"
  by code_simp+

definition worker_turns :: "nat list" where
  "worker_turns = [0, 0, 0, 0, 0, 0, 0, 0, 0]"

lemma worker_runs:
  "\<exists>L a k. schedule (OtherError KeyError) worker_turns worker_pool =
    (snd worker_claimed, [(L, Calls a Activate (sample_step ''request-3'' ''step-d-00'' 0 Odoo Activate 3) k)])"
proof -
  obtain r where "fst worker_found = Inr (Some r)" "er_employee_id r = ''employee-0001''"
    using worker_finds(2) by (cases "fst worker_found") (auto simp: map_option_case split: option.splits)
  then show ?thesis
    by (simp add: worker_turns_def worker_pool_def arrived_def schedule_steps take_turn_def locks_of_def Let_def
        task_forms worker_finds worker_folds answering_adapters_def sample_step_def executed_def
        is_access_enabling_def worker_task_def worker_request_def
        run_request_task_def run_step_task_def run_claimed_task_def)
qed

lemma race_pool:
  "\<exists>p L a k. turn\<^sup>*\<^sup>* sample_pool p \<and>
     p = (snd retry_claimed, [({}, Finished ()), ({}, Finished ()),
       (L, Calls a CreateDisabled (sample_step ''request-1'' ''step-a-00'' 0 Odoo CreateDisabled 3) k)])"
proof -
  have "length (snd sample_pool) = 3" by (simp add: sample_pool_def arrived_def)
  then have "turn\<^sup>*\<^sup>* sample_pool (schedule (OtherError KeyError) race_turns sample_pool)"
    by (intro schedule_turns) (simp add: race_turns_def)
  then show ?thesis using race_runs by metis
qed

lemma worker_call:
  "\<exists>L a k. served sample_sv sample_settings answering_adapters 0
     (snd worker_claimed, [(L, Calls a Activate (sample_step ''request-3'' ''step-d-00'' 0 Odoo Activate 3) k)])"
proof -
  have "length (snd worker_pool) = 1" by (simp add: worker_pool_def arrived_def)
  then have "turn\<^sup>*\<^sup>* worker_pool (schedule (OtherError KeyError) worker_turns worker_pool)"
    by (intro schedule_turns) (simp add: worker_turns_def)
  from served_turns [OF this worker_pool_served] show ?thesis using worker_runs by metis
qed

end
