(* ===== verification/Concurrency_Properties.thy ===== *)
theory Concurrency_Properties
  imports Schedules
begin

text \<open>
  The properties of the service as a pool of tasks: the store under interleaving, exclusion on the remote
  side, the gate of an activation while its call is under way, progress, and a schedule in which a
  cancelled execution is retried.
\<close>

section \<open>The store under interleaving\<close>

text \<open>C3. Refinement under concurrency: a service starts on a store that an earlier run has left. However
  its calls interleave, with whatever the adapters answer, the environment does and the cancellations
  of tasks, its store is one that calls of the repository, one after the other and none of them a
  recovery, lead to from the very store it started on; and the loop over the steps of a request, whose
  fuel is fixed when it starts, never runs out of it.\<close>

theorem interleaving_refines_machine:
  assumes "reachable (sv_sha256 sv) n (w_db w)" and "(pool_step sv s adapters)\<^sup>*\<^sup>* (w, []) p"
  shows "(store_step (sv_sha256 sv) 0)\<^sup>*\<^sup>* (w_db w) (w_db (fst p)) \<and>
    reachable (sv_sha256 sv) n (w_db (fst p)) \<and> Exhausted \<notin> snd ` set (snd p)"
proof -
  have run: "pool_ok (sv_sha256 sv) p" "(store_step (sv_sha256 sv) 0)\<^sup>*\<^sup>* (w_db w) (w_db (fst p))"
    using pool_steps_ok [OF assms(2) pool_empty [OF assms(1)]] by simp_all
  then show ?thesis
    using steps_reachable_on [OF run(2) assms(1)] pool_never_exhausted [OF run(1)] by blast
qed

theorem interleaving_refines_machine_witness:
  "\<exists>p. turn\<^sup>*\<^sup>* sample_pool p \<and> length (snd p) = 3 \<and> (store_step (\<lambda>s. s) 0)\<^sup>*\<^sup>* sample_shared (w_db (fst p)) \<and>
     reachable (\<lambda>s. s) 0 (w_db (fst p)) \<and> Exhausted \<notin> snd ` set (snd p)"
proof -
  obtain p L a k where run: "turn\<^sup>*\<^sup>* sample_pool p"
      and p: "p = (snd retry_claimed, [({}, Finished ()), ({}, Finished ()),
       (L, Calls a CreateDisabled (sample_step ''request-1'' ''step-a-00'' 0 Odoo CreateDisabled 3) k)])"
    using race_pool by blast
  have "(pool_step sample_sv sample_settings answering_adapters)\<^sup>*\<^sup>* (\<lparr>w_db = sample_shared, w_env = ()\<rparr>, []) sample_pool"
    unfolding sample_pool_def by (rule arrived_steps) simp
  then have "(pool_step sample_sv sample_settings answering_adapters)\<^sup>*\<^sup>* (\<lparr>w_db = sample_shared, w_env = ()\<rparr>, []) p"
    using turns_steps [OF run] by (rule rtranclp_trans)
  from interleaving_refines_machine [OF _ this] show ?thesis
    using run sample_shared_reachable by (intro exI [of _ p]) (simp add: p)
qed

text \<open>C4. Mutual exclusion of the remote side: while an adapter call that may change something is under
  way, its task holds the locks of the command's employee and request, and no other task is in such a
  call for the same employee or the same request.\<close>

theorem adapter_calls_exclusive:
  assumes "served sv s adapters n p" and "i < length (snd p)"
    and "snd p ! i = (L, Calls a oper c k)" and "oper \<notin> {Verify, Reconcile}"
  shows "{EmployeeLock (employee_id c), RequestLock (request_id c)} \<subseteq> L \<and>
    (\<forall>j L' a' oper' c' k'. j < length (snd p) \<longrightarrow> j \<noteq> i \<longrightarrow> snd p ! j = (L', Calls a' oper' c' k') \<longrightarrow>
       oper' \<notin> {Verify, Reconcile} \<longrightarrow> employee_id c' \<noteq> employee_id c \<and> request_id c' \<noteq> request_id c)"
proof -
  have apart: "apart (snd p)" using served_ok [OF assms(1)] by (simp add: pool_ok_def)
  have holds: "{EmployeeLock (employee_id c), RequestLock (request_id c)} \<subseteq> L"
    if "j < length (snd p)" "snd p ! j = (L, Calls a oper c k)" "oper \<notin> {Verify, Reconcile}"
    for j L a oper c k
    using served_call [OF assms(1), of L a oper c k] nth_mem [OF that(1)] that(2,3) by (simp add: call_allowed_def)
  note mine = holds [OF assms(2-4)]
  have "employee_id c' \<noteq> employee_id c \<and> request_id c' \<noteq> request_id c"
    if "j < length (snd p)" "j \<noteq> i" and other: "snd p ! j = (L', Calls a' oper' c' k')"
      and "oper' \<notin> {Verify, Reconcile}" for j L' a' oper' c' k'
  proof -
    have "L \<inter> L' = {}"
      using apart [unfolded apart_def, rule_format, OF assms(2) that(1)] that(2) other assms(3) by simp
    then show ?thesis using mine holds [OF that(1) other that(4)] by auto
  qed
  then show ?thesis using mine by simp
qed

theorem adapter_calls_exclusive_witness:
  "\<exists>L a c k. served sample_sv sample_settings answering_adapters 0 (snd worker_claimed, [(L, Calls a Activate c k)]) \<and>
     {EmployeeLock ''employee-0001'', RequestLock ''request-3''} \<subseteq> L"
proof -
  let ?c = "sample_step ''request-3'' ''step-d-00'' 0 Odoo Activate 3"
  obtain L a k where pool: "served sample_sv sample_settings answering_adapters 0
      (snd worker_claimed, [(L, Calls a Activate ?c k)])"
    using worker_call by blast
  have "{EmployeeLock (employee_id ?c), RequestLock (request_id ?c)} \<subseteq> L"
    using adapter_calls_exclusive [OF pool, of 0 L a Activate ?c k] by simp
  then show ?thesis using pool unfolding sample_step_def by auto
qed

text \<open>C5. The gate of an activation under concurrency: from the moment an adapter is asked to enable
  access to the moment it answers, nothing blocks the activation of the employee in that system,
  whatever the other tasks do meanwhile.\<close>

theorem activation_stays_open:
  assumes "served sv s adapters n p" and "(L, Calls a oper c k) \<in> set (snd p)"
    and "is_access_enabling oper"
  shows "activation_blockers (employee_id c) [target_value (target_system c)] (w_db (fst p)) = []"
  using served_call [OF assms(1,2)] assms(3) by (simp add: call_allowed_def)

theorem activation_stays_open_witness:
  "activation_blockers ''employee-0001'' [''odoo''] (w_db (snd worker_claimed)) = []"
proof -
  obtain L a k where pool: "served sample_sv sample_settings answering_adapters 0
      (snd worker_claimed, [(L, Calls a Activate (sample_step ''request-3'' ''step-d-00'' 0 Odoo Activate 3) k)])"
    using worker_call by blast
  from activation_stays_open [OF pool] show ?thesis by (auto simp: sample_step_def is_access_enabling_def)
qed

section \<open>Progress\<close>

text \<open>C6. Progress: no schedule of the tasks of a pool goes on for ever, whatever the environment does
  between their turns, and from every pool the turns of the tasks alone end every task. So no two calls
  wait for each other's locks.\<close>

theorem pool_progress:
  assumes "served sv s adapters n p"
  shows "(\<nexists>f. f 0 = p \<and> (\<forall>i. passes (f i) (f (Suc i)))) \<and>
    (\<exists>p'. turn\<^sup>*\<^sup>* p p' \<and> (\<forall>x \<in> set (snd p'). snd x = Finished ()))"
proof
  show "\<nexists>f. f 0 = p \<and> (\<forall>i. passes (f i) (f (Suc i)))"
    using passes_wf [unfolded wf_iff_no_infinite_down_chain] by blast
  show "\<exists>p'. turn\<^sup>*\<^sup>* p p' \<and> (\<forall>x \<in> set (snd p'). snd x = Finished ())"
    using all_finish [of "sv_sha256 sv" p] served_ok [OF assms] by (metis (full_types) old.unit.exhaust)
qed

theorem pool_progress_witness:
  "(\<nexists>f. f 0 = sample_pool \<and> (\<forall>i. passes (f i) (f (Suc i)))) \<and>
   (\<exists>p'. turn\<^sup>*\<^sup>* sample_pool p' \<and> (\<forall>x \<in> set (snd p'). snd x = Finished ()))"
  by (rule pool_progress [OF sample_pool_served])

section \<open>A check outside the locks\<close>

text \<open>C16. What the locks do not cover: whether an execution has been cancelled is checked by a retry
  before it waits for the locks. A verification, a cancellation and a retry for one employee can run so
  that the cancellation is over and the execution cancelled when the retry asks an adapter to carry out
  a step of that execution.\<close>

theorem cancelled_execution_retried:
  "\<exists>p L a c k. turn\<^sup>*\<^sup>* sample_pool p \<and> served sample_sv sample_settings answering_adapters 0 p \<and>
     is_cancelled ''request-1'' (w_db (fst p)) \<and> snd (snd p ! 1) = Finished () \<and>
     snd p ! 2 = (L, Calls a CreateDisabled c k) \<and> request_id c = ''request-1''"
proof -
  obtain p L a k where run: "turn\<^sup>*\<^sup>* sample_pool p"
      and p: "p = (snd retry_claimed, [({}, Finished ()), ({}, Finished ()),
       (L, Calls a CreateDisabled (sample_step ''request-1'' ''step-a-00'' 0 Odoo CreateDisabled 3) k)])"
    using race_pool by blast
  let ?c = "sample_step ''request-1'' ''step-a-00'' 0 Odoo CreateDisabled 3"
  have "served sample_sv sample_settings answering_adapters 0 p"
    by (rule served_turns [OF run sample_pool_served])
  then show ?thesis
    using run race_finds(8)
    by (intro exI [of _ p] exI [of _ L] exI [of _ a] exI [of _ ?c] exI [of _ k]) (simp add: p sample_step_def)
qed

end
