(* ===== verification/Deployment.thy ===== *)
theory Deployment
  imports Schedules
begin

text \<open>
  The service over its whole life: it is installed on an empty store, its calls interleave as in theory
  Interleaving, and time and again its process dies, with every task it has, and is started anew, which
  begins with the recovery (\<^verbatim>\<open>ProvisioningEngine.start\<close> awaits it before the service serves a request).
  Every step on the executions and steps is one that the code of the engine takes; nothing is assumed
  of when the repository is called. A death in the middle of the recovery is modelled as far as
  an exception of one of its calls models it.
\<close>

section \<open>Lives\<close>

inductive life_step ::
  "'e services \<Rightarrow> settings \<Rightarrow> (string \<times> adapter_object) list \<Rightarrow> 'e pool \<Rightarrow> 'e pool \<Rightarrow> bool"
  for sv s objects where
  serves: "pool_step sv s (adapter_table sv objects) p p' \<Longrightarrow> life_step sv s objects p p'"
| restarts: "life_step sv s objects (w, ts) (snd (recover sv s (adapter_table sv objects) w), [])"

inductive lives ::
  "'e services \<Rightarrow> settings \<Rightarrow> (string \<times> adapter_object) list \<Rightarrow> 'e pool \<Rightarrow> bool"
  for sv s objects where
  installs: "w_db w = empty_db \<Longrightarrow> lives sv s objects (w, [])"
| goes_on: "lives sv s objects p \<Longrightarrow> life_step sv s objects p p' \<Longrightarrow> lives sv s objects p'"

lemma lives_run: "(life_step sv s objects)\<^sup>*\<^sup>* p p' \<Longrightarrow> lives sv s objects p \<Longrightarrow> lives sv s objects p'"
  by (induction rule: rtranclp_induct) (auto intro: lives.goes_on)

lemma serves_run:
  "(pool_step sv s (adapter_table sv objects))\<^sup>*\<^sup>* p p' \<Longrightarrow> (life_step sv s objects)\<^sup>*\<^sup>* p p'"
  by (induction rule: rtranclp_induct) (auto intro: rtranclp.rtrancl_into_rtrancl life_step.serves)

text \<open>A step of a life is a sequence of transitions of the machine.\<close>

lemma life_step_ok:
  assumes "life_step sv s objects p p'" and "reachable (sv_sha256 sv) n (w_db (fst p))" and "pool_ok (sv_sha256 sv) p"
  shows "\<exists>m. reachable (sv_sha256 sv) m (w_db (fst p'))" and "pool_ok (sv_sha256 sv) p'"
    and "(transition (sv_sha256 sv))\<^sup>*\<^sup>* (w_db (fst p)) (w_db (fst p'))"
proof -
  have "(\<exists>m. reachable (sv_sha256 sv) m (w_db (fst p'))) \<and> pool_ok (sv_sha256 sv) p' \<and>
      (transition (sv_sha256 sv))\<^sup>*\<^sup>* (w_db (fst p)) (w_db (fst p'))"
    using assms(1)
  proof (cases rule: life_step.cases)
    case serves
    from pool_step_ok [OF this assms(3)] show ?thesis
      using steps_reachable_on [OF _ assms(2)] steps_transitions by blast
  next
    case (restarts w ts)
    have reach: "reachable (sv_sha256 sv) n (w_db w)" using assms(2) restarts(1) by simp
    then obtain k where "reachable (sv_sha256 sv) (n + k) (w_db (snd (recover sv s (adapter_table sv objects) w)))"
      using table.perform_reachable [OF reach, where call = Start and s = s and objects = objects]
      unfolding perform.simps by blast
    moreover have "(transition (sv_sha256 sv))\<^sup>*\<^sup>* (w_db w) (w_db (snd (recover sv s (adapter_table sv objects) w)))"
      using table.perform_transitions [OF reachable_machine_inv [OF reach], where call = Start and s = s and objects = objects]
      unfolding perform.simps .
    ultimately show ?thesis using pool_empty by (auto simp: restarts)
  qed
  then show "\<exists>m. reachable (sv_sha256 sv) m (w_db (fst p'))" and "pool_ok (sv_sha256 sv) p'"
    and "(transition (sv_sha256 sv))\<^sup>*\<^sup>* (w_db (fst p)) (w_db (fst p'))" by blast+
qed

lemma lives_ok:
  "lives sv s objects p \<Longrightarrow> (\<exists>n. reachable (sv_sha256 sv) n (w_db (fst p))) \<and> pool_ok (sv_sha256 sv) p"
proof (induction rule: lives.induct)
  case (installs w)
  then have "reachable (sv_sha256 sv) 0 (w_db w)" by (simp add: reachable.initial)
  then show ?case using pool_empty by auto
next
  case (goes_on p p')
  then show ?case using life_step_ok [OF goes_on(2)] by blast
qed

lemma life_transitions:
  assumes "(life_step sv s objects)\<^sup>*\<^sup>* p p'" and "lives sv s objects p"
  shows "(transition (sv_sha256 sv))\<^sup>*\<^sup>* (w_db (fst p)) (w_db (fst p'))"
  using assms
proof (induction rule: rtranclp_induct)
  case (step y z)
  have "lives sv s objects y" by (rule lives_run [OF step(1,4)])
  then have "(transition (sv_sha256 sv))\<^sup>*\<^sup>* (w_db (fst y)) (w_db (fst z))"
    using lives_ok life_step_ok(3) [OF step(2)] by blast
  then show ?case using step(3) [OF step(4)] by (rule rtranclp_trans [rotated])
qed simp

section \<open>A life\<close>

text \<open>A submission comes to a service just installed; its one step is claimed, carried out and completed.\<close>

definition life_objects :: "(string \<times> adapter_object) list" where
  "life_objects = [(''odoo'', DisabledAdapter ''odoo'')]"

definition life_arrival :: "unit pool" where
  "life_arrival = arrived sample_sv sample_settings (adapter_table sample_sv life_objects)
     [Submit ''request-2'' sample_submission] sample_world"

definition life_hash :: string where
  "life_hash = canonical_hash sample_sv sample_normalized"

definition life_admitted :: "unit res \<times> unit world" where
  "life_admitted = admit sample_sv sample_settings ''request-2'' sample_submission sample_world"

definition life_begun :: "(execution_result option \<times> bool) res \<times> unit world" where
  "life_begun = with_clock sample_sv (\<lambda>t d.
     case begin_execution (\<lambda>s. s) t sample_normalized life_hash d of
       (r, d') \<Rightarrow> (conflict_409 r, d')) (snd life_admitted)"

definition life_claimed :: "step_command option \<times> unit world" where
  "life_claimed = with_clock sample_sv (\<lambda>t. claim_next t ''request-2'') (snd life_begun)"

definition life_command :: step_command where
  "life_command = the (fst life_claimed)"

definition life_completed :: "unit res \<times> unit world" where
  "life_completed = with_clock sample_sv (\<lambda>t. complete_step t (step_id life_command) Succeeded
     (step_evidence (\<lambda>s. s) life_command [])) (snd life_claimed)"

lemmas life_folds = life_hash_def [symmetric] life_admitted_def [symmetric] life_begun_def [symmetric]
  life_claimed_def [symmetric] life_completed_def [symmetric]

lemma life_submitted:
  "fst life_admitted = Inr ()"
  "conflict_409 (existing_execution (\<lambda>s. s) sample_normalized life_hash (w_db (snd life_admitted))) = Inr (None, False)"
  "access_enabling_steps sample_submission = []"
  "employee_id sample_submission = ''employee-0001''"
  by code_simp+

lemma life_unblocked: "check_blockers sample_submission w = (Inr (), w)"
  by (simp add: check_blockers_def life_submitted hreturn_def)

lemma life_started:
  "fst life_begun = Inr (None, False)"
  "waiting_count ''request-2'' (w_db (snd life_begun)) = 1"
  by code_simp+

lemma life_taken: "fst life_claimed = Some life_command"
proof -
  have "\<not> Option.is_none (fst life_claimed)" by code_simp
  then show ?thesis by (cases "fst life_claimed") (simp_all add: life_command_def)
qed

lemma life_names: "operation life_command = CreateDisabled" "target_system life_command = Odoo"
  by code_simp+

lemma life_done:
  "list_ex (\<lambda>r. st_step_id r = ''step-c-00'' \<and> st_state r = Succeeded) (tbl_steps (w_db (snd life_completed)))"
  by code_simp

definition life_turns :: "nat list" where
  "life_turns = replicate 11 0"

lemma life_runs: "fst (schedule (Returned []) life_turns life_arrival) = snd life_completed"
  by (simp add: life_turns_def numeral_eq_Suc life_arrival_def arrived_def schedule_steps take_turn_def locks_of_def
      Let_def task_forms life_folds life_submitted life_unblocked life_started life_taken life_names
      sample_normalized [simplified]
      submit_task_def submit_locked_def begin_and_run_task_def fresh_execution_task_def
      run_request_task_def run_step_task_def run_claimed_task_def is_access_enabling_def adapter_table_def
      life_objects_def executed_def settle_step_task_def done_state_def)

lemma life_installed:
  "\<exists>ts. lives sample_sv sample_settings life_objects (snd life_completed, ts)"
proof -
  let ?p = "schedule (Returned []) life_turns life_arrival"
  have "(pool_step sample_sv sample_settings (adapter_table sample_sv life_objects))\<^sup>*\<^sup>* (sample_world, []) life_arrival"
    unfolding life_arrival_def by (rule arrived_steps) code_simp
  moreover have "turn\<^sup>*\<^sup>* life_arrival ?p"
    by (rule schedule_turns) (simp add: life_turns_def life_arrival_def arrived_def)
  ultimately have "(pool_step sample_sv sample_settings (adapter_table sample_sv life_objects))\<^sup>*\<^sup>* (sample_world, []) ?p"
    using turns_steps by (blast intro: rtranclp_trans)
  moreover have "lives sample_sv sample_settings life_objects (sample_world, [])"
    by (rule lives.installs) (simp add: sample_world_def)
  ultimately have "lives sample_sv sample_settings life_objects ?p"
    using lives_run [OF serves_run] by blast
  then show ?thesis by (metis life_runs prod.collapse)
qed

lemma life_row:
  obtains r where "r \<in> set (tbl_steps (w_db (snd life_completed)))" "st_step_id r = ''step-c-00''" "st_state r = Succeeded"
  using life_done by (auto simp: list_ex_iff)

section \<open>Properties\<close>

text \<open>C1. In every state of a deployed service the primary keys, unique columns and references of
  executions and steps hold, each step row agrees with its command, no step of a request has been
  started while an earlier one is unfinished, a step carries a claim time exactly while it runs, and
  every dead-lettered step has exactly one dead-letter record. The service starts on an empty store;
  its calls arrive at any time, submissions with an employee and a request identifier that are stripped
  as the document's model strips them, and interleave in any order; adapters answer anything, tasks are
  cancelled, and the process dies and starts anew.\<close>

theorem deployed_store_consistent:
  assumes "lives sv s objects p"
  shows "store_inv (w_db (fst p)) \<and> dead_letter_inv (w_db (fst p))"
  using lives_ok [OF assms] reachable_machine_inv by (auto simp: machine_inv_def)

theorem deployed_store_consistent_witness:
  "store_inv (w_db (snd life_completed)) \<and> dead_letter_inv (w_db (snd life_completed)) \<and>
   tbl_steps (w_db (snd life_completed)) \<noteq> []"
proof -
  obtain ts where "lives sample_sv sample_settings life_objects (snd life_completed, ts)"
    using life_installed by blast
  from deployed_store_consistent [OF this] show ?thesis using life_row by fastforce
qed

text \<open>C21. A finished step is final: once a step of a deployed service has succeeded, or has been
  verified or compensated, it stays in that state, whatever calls arrive and however they interleave,
  whatever the adapters answer, and however often the process dies and starts anew.\<close>

theorem finished_step_final:
  assumes "lives sv s objects p" and "r \<in> set (tbl_steps (w_db (fst p)))" and "is_done (st_state r)"
    and "(life_step sv s objects)\<^sup>*\<^sup>* p p'"
  shows "\<exists>r' \<in> set (tbl_steps (w_db (fst p'))). st_step_id r' = st_step_id r \<and> st_state r' = st_state r"
  using finished_step_kept lives_ok [OF assms(1)] assms(2,3) life_transitions [OF assms(4,1)] by blast

theorem finished_step_final_witness:
  "\<exists>r \<in> set (tbl_steps (w_db (snd (recover sample_sv sample_settings (adapter_table sample_sv life_objects)
       (snd life_completed))))). st_step_id r = ''step-c-00'' \<and> st_state r = Succeeded"
proof -
  obtain ts where lived: "lives sample_sv sample_settings life_objects (snd life_completed, ts)"
    using life_installed by blast
  obtain r where r: "r \<in> set (tbl_steps (w_db (snd life_completed)))" "st_step_id r = ''step-c-00''"
      "st_state r = Succeeded"
    by (rule life_row)
  let ?w = "snd (recover sample_sv sample_settings (adapter_table sample_sv life_objects) (snd life_completed))"
  have "(life_step sample_sv sample_settings life_objects)\<^sup>*\<^sup>* (snd life_completed, ts) (?w, [])"
    by (intro r_into_rtranclp life_step.restarts)
  from finished_step_final [OF lived _ _ this, of r] show ?thesis by (simp add: r)
qed

end
