(* ===== verification/Init_Secrets.thy ===== *)
theory Init_Secrets
  imports Prelude "HOL-Library.Word"
begin

text \<open>
  The script that hands the secrets of a deployment to the service (\<^verbatim>\<open>scripts/init_secrets.py\<close>), run as
  root: it checks the source directory and every expected file, and copies each with the owner and the
  mode the service reads it with. A file system is a map from paths to nodes; no two paths share a node,
  and the order in which Python iterates over the set of names is an argument.
\<close>

unbundle bit_operations_syntax

section \<open>The file system\<close>

datatype node_kind = Regular | Directory

text \<open>\<open>nd_symlink\<close>: the path is a symbolic link, and the rest describes what it leads to.\<close>

record node =
  nd_kind :: node_kind
  nd_symlink :: bool
  nd_mode :: nat
  nd_owner :: "int \<times> int"
  nd_text :: string

type_synonym nodes = "string \<Rightarrow> node option"

datatype script_error =
    SystemExit string
  | FileNotFoundError
  | FileExistsError
  | NotADirectoryError
  | IsADirectoryError

type_synonym script_step = "nodes \<Rightarrow> script_error option \<times> nodes"

definition andthen :: "script_step \<Rightarrow> script_step \<Rightarrow> script_step" where
  "andthen m m' fs = (case m fs of (None, fs') \<Rightarrow> m' fs' | (Some e, fs') \<Rightarrow> (Some e, fs'))"

fun each :: "('a \<Rightarrow> script_step) \<Rightarrow> 'a list \<Rightarrow> script_step" where
  "each f [] = (\<lambda>fs. (None, fs))"
| "each f (x # xs) = andthen (f x) (each f xs)"

definition check :: "(nodes \<Rightarrow> bool) \<Rightarrow> script_error \<Rightarrow> script_step" where
  "check ok e fs = (if ok fs then None else Some e, fs)"

text \<open>\<^verbatim>\<open>os.chmod\<close> and \<^verbatim>\<open>os.chown\<close>.\<close>

definition on_node :: "(node \<Rightarrow> node) \<Rightarrow> string \<Rightarrow> script_step" where
  "on_node f path fs =
     (case fs path of None \<Rightarrow> (Some FileNotFoundError, fs) | Some n \<Rightarrow> (None, fs(path \<mapsto> f n)))"

definition chmod :: "nat \<Rightarrow> string \<Rightarrow> script_step" where
  "chmod mode = on_node (\<lambda>n. n\<lparr>nd_mode := mode\<rparr>)"

definition chown :: "int \<Rightarrow> int \<Rightarrow> string \<Rightarrow> script_step" where
  "chown uid gid = on_node (\<lambda>n. n\<lparr>nd_owner := (uid, gid)\<rparr>)"

text \<open>
  \<^verbatim>\<open>Path.mkdir(mode, parents=True, exist_ok=True)\<close>, which masks the modes; the parents get the default
  mode. The parents of a path are its prefixes before a slash, the shortest first.
\<close>

fun parents :: "string \<Rightarrow> string \<Rightarrow> string list" where
  "parents seen [] = []"
| "parents seen (c # cs) = (if c = CHR ''/'' \<and> seen \<noteq> [] then [seen] else []) @ parents (seen @ [c]) cs"

definition masked :: "nat \<Rightarrow> nat \<Rightarrow> nat" where
  "masked umask mode = mode - (mode AND umask)"

definition make_directory :: "nat \<Rightarrow> nat \<Rightarrow> script_error \<Rightarrow> string \<Rightarrow> script_step" where
  "make_directory umask mode e path fs =
     (case fs path of
        None \<Rightarrow> (None, fs(path \<mapsto> \<lparr>nd_kind = Directory, nd_symlink = False, nd_mode = masked umask mode,
            nd_owner = (0, 0), nd_text = []\<rparr>))
      | Some n \<Rightarrow> (if nd_kind n = Directory then None else Some e, fs))"

definition mkdir :: "nat \<Rightarrow> nat \<Rightarrow> string \<Rightarrow> script_step" where
  "mkdir umask mode path =
     andthen (each (make_directory umask 0x1FF NotADirectoryError) (parents [] path))
       (make_directory umask mode FileExistsError path)"

text \<open>\<^verbatim>\<open>shutil.copyfile\<close>: the content alone; a new file gets the default mode.\<close>

definition copyfile :: "nat \<Rightarrow> string \<Rightarrow> string \<Rightarrow> script_step" where
  "copyfile umask source destination fs =
     (case fs source of
        None \<Rightarrow> (Some FileNotFoundError, fs)
      | Some s \<Rightarrow>
          (case fs destination of
             None \<Rightarrow> (None, fs(destination \<mapsto> \<lparr>nd_kind = Regular, nd_symlink = False,
                 nd_mode = masked umask 0x1B6, nd_owner = (0, 0), nd_text = nd_text s\<rparr>))
           | Some d \<Rightarrow> if nd_kind d = Directory then (Some IsADirectoryError, fs)
                      else (None, fs(destination \<mapsto> d\<lparr>nd_text := nd_text s\<rparr>))))"

section \<open>The script\<close>

definition SOURCE :: string where
  "SOURCE = ''/source-secrets''"

definition TARGET :: string where
  "TARGET = ''/run/provisioning-secrets''"

definition STATE :: string where
  "STATE = ''/var/lib/codestra''"

definition EXPECTED :: "string list" where
  "EXPECTED =
     [''jwt_public_key.pem'', ''odoo_callback_hmac'', ''credential_encryption_key'', ''adapter_config.json'',
      ''server.crt'', ''server.key'', ''ca.crt'', ''keycloak_client_secret'', ''telephony_hmac_key'',
      ''telephony_client.crt'', ''telephony_client.key'', ''telephony_ca.crt'', ''turn_shared_secret'']"

definition in_directory :: "string \<Rightarrow> string \<Rightarrow> string" where
  "in_directory dir name = dir @ ''/'' @ name"

text \<open>One turn of the loop over the names.\<close>

definition install_secret :: "nat \<Rightarrow> string \<Rightarrow> script_step" where
  "install_secret umask name =
     (let source = in_directory SOURCE name; destination = in_directory TARGET name in
      andthen (check (\<lambda>fs. case fs source of None \<Rightarrow> False
          | Some n \<Rightarrow> \<not> nd_symlink n \<and> nd_kind n = Regular)
        (SystemExit (''required secret file missing: '' @ name)))
      (andthen (check (\<lambda>fs. map_option nd_mode (fs source) = Some 0x180)
        (SystemExit (''secret file must be mode 0600: '' @ name)))
      (andthen (copyfile umask source destination)
      (andthen (chown 10001 10001 destination) (chmod 0x100 destination)))))"

definition check_source :: "script_step" where
  "check_source fs =
     (case fs SOURCE of
        None \<Rightarrow> (Some FileNotFoundError, fs)
      | Some n \<Rightarrow> check (\<lambda>_. nd_mode n = 0x1C0)
          (SystemExit ''source secret directory must be mode 0700'') fs)"

definition init_secrets :: "nat \<Rightarrow> string list \<Rightarrow> script_step" where
  "init_secrets umask names =
     andthen check_source
     (andthen (mkdir umask 0x1C0 TARGET)
     (andthen (mkdir umask 0x1C0 STATE)
     (andthen (chown 10001 10001 STATE)
     (andthen (chmod 0x1C0 STATE)
     (andthen (chmod 0x1C0 TARGET)
     (andthen (each (install_secret umask) names)
     (chown 10001 10001 TARGET)))))))"

section \<open>What a run leaves\<close>

lemma andthen_None:
  "andthen m m' fs = (None, fs') \<longleftrightarrow> (\<exists>fs1. m fs = (None, fs1) \<and> m' fs1 = (None, fs'))"
  by (auto simp: andthen_def split: prod.splits option.splits)

lemma check_None: "check ok e fs = (None, fs') \<longleftrightarrow> ok fs \<and> fs' = fs"
  by (auto simp: check_def)

lemma paths_apart [simp]:
  "in_directory SOURCE a \<noteq> in_directory TARGET b" "in_directory TARGET b \<noteq> TARGET"
  "in_directory TARGET b \<noteq> SOURCE" "in_directory TARGET a = in_directory TARGET b \<longleftrightarrow> a = b"
  "in_directory SOURCE a \<noteq> TARGET" "in_directory TARGET a \<noteq> STATE" "in_directory SOURCE a \<noteq> STATE"
  "TARGET \<noteq> STATE" "SOURCE \<noteq> TARGET" "SOURCE \<noteq> STATE"
  by (simp_all add: in_directory_def SOURCE_def TARGET_def STATE_def)

lemma not_directory [simp]: "k \<noteq> Directory \<longleftrightarrow> k = Regular"
  by (cases k) simp_all

text \<open>What the service is to find under an installed name, given the source.\<close>

definition installed :: "node \<Rightarrow> node \<Rightarrow> bool" where
  "installed source n \<longleftrightarrow> nd_kind n = Regular \<and> nd_text n = nd_text source \<and>
     nd_owner n = (10001, 10001) \<and> nd_mode n = 0x100"

definition acceptable :: "node \<Rightarrow> bool" where
  "acceptable n \<longleftrightarrow> \<not> nd_symlink n \<and> nd_kind n = Regular \<and> nd_mode n = 0x180"

lemma install_secret_None:
  assumes "install_secret umask name fs = (None, fs')"
  shows "\<exists>s. fs (in_directory SOURCE name) = Some s \<and> acceptable s \<and>
    installed s (the (fs' (in_directory TARGET name))) \<and>
    fs' = fs(in_directory TARGET name \<mapsto> the (fs' (in_directory TARGET name)))"
  using assms
  by (auto simp: install_secret_def Let_def andthen_None check_None copyfile_def chown_def chmod_def on_node_def
      acceptable_def installed_def split: option.splits if_splits)

lemma install_all_None:
  assumes "each (install_secret umask) names fs = (None, fs')"
  shows "(\<forall>name \<in> set names. \<exists>s d. fs (in_directory SOURCE name) = Some s \<and> acceptable s \<and>
      fs' (in_directory TARGET name) = Some d \<and> installed s d) \<and>
    (\<forall>p. p \<notin> in_directory TARGET ` set names \<longrightarrow> fs' p = fs p)"
  using assms
proof (induction names arbitrary: fs)
  case (Cons name names)
  then obtain fs1 where step: "install_secret umask name fs = (None, fs1)"
      and rest: "each (install_secret umask) names fs1 = (None, fs')"
    by (auto simp: andthen_None)
  from install_secret_None [OF step] obtain s d where first: "fs (in_directory SOURCE name) = Some s" "acceptable s"
      "installed s d" "fs1 = fs(in_directory TARGET name \<mapsto> d)" by blast
  note later = Cons.IH [OF rest]
  have kept: "fs1 (in_directory SOURCE m) = fs (in_directory SOURCE m)" for m by (simp add: first(4))
  have "\<exists>s d. fs (in_directory SOURCE m) = Some s \<and> acceptable s \<and>
      fs' (in_directory TARGET m) = Some d \<and> installed s d" if "m \<in> set (name # names)" for m
  proof (cases "m \<in> set names")
    case True
    then show ?thesis using later kept by metis
  next
    case False
    then have "m = name" "in_directory TARGET m \<notin> in_directory TARGET ` set names"
      using that by (simp_all add: image_iff)
    then have "m = name" "fs' (in_directory TARGET m) = fs1 (in_directory TARGET m)"
      using later by simp_all
    then show ?thesis using first by auto
  qed
  then show ?case using later first(4) by auto
qed simp

text \<open>The checks and the directories before the loop change nothing under the source.\<close>

lemma make_directory_keeps:
  "p \<noteq> path \<Longrightarrow> snd (make_directory umask mode e path fs) p = fs p"
  by (simp add: make_directory_def split: option.split)

lemma andthen_keeps:
  assumes "\<And>fs. snd (m fs) p = fs p" and "\<And>fs. snd (m' fs) p = fs p"
  shows "snd (andthen m m' fs) p = fs p"
  using assms(1) [of fs] assms(2) [of "snd (m fs)"] by (auto simp: andthen_def split: prod.split option.split)

lemma each_keeps:
  "(\<And>x fs. x \<in> set xs \<Longrightarrow> snd (f x fs) p = fs p) \<Longrightarrow> snd (each f xs fs) p = fs p"
  by (induction xs arbitrary: fs) (simp_all add: andthen_keeps)

lemma mkdir_keeps:
  assumes "p \<noteq> path" and "p \<notin> set (parents [] path)"
  shows "snd (mkdir umask mode path fs) p = fs p"
  unfolding mkdir_def
  by (intro andthen_keeps each_keeps make_directory_keeps) (use assms in auto)

lemma directory_parents: "parents [] TARGET = [''/run'']" "parents [] STATE = [''/var'', ''/var/lib'']"
  by (simp_all add: TARGET_def STATE_def)

lemma on_node_None: "on_node f path fs = (None, fs') \<longleftrightarrow> (\<exists>n. fs path = Some n \<and> fs' = fs(path \<mapsto> f n))"
  by (auto simp: on_node_def split: option.split)

text \<open>C39. The secrets are handed over as the service reads them: when the script ends normally, every
  expected secret was a regular file of mode 0600 and no link, and the service finds its content under
  the target, owned by the service and of mode 0400, in a directory that is the service's own; nothing
  outside the two directories and their parents has changed.\<close>

theorem secrets_installed:
  assumes "init_secrets umask names fs = (None, fs')" and "set names = set EXPECTED"
  shows "(\<forall>name \<in> set EXPECTED. \<exists>s d. fs (in_directory SOURCE name) = Some s \<and> acceptable s \<and>
      fs' (in_directory TARGET name) = Some d \<and> installed s d) \<and>
    (\<exists>n. fs' TARGET = Some n \<and> nd_owner n = (10001, 10001) \<and> nd_mode n = 0x1C0) \<and>
    (\<forall>p. p \<notin> {TARGET, STATE, ''/run'', ''/var'', ''/var/lib''} \<union> in_directory TARGET ` set EXPECTED \<longrightarrow>
       fs' p = fs p)"
proof -
  obtain fs0 fs1 fs2 fs3 fs4 fs5 fs6 where runs: "check_source fs = (None, fs0)"
      "mkdir umask 0x1C0 TARGET fs0 = (None, fs1)" "mkdir umask 0x1C0 STATE fs1 = (None, fs2)"
      "chown 10001 10001 STATE fs2 = (None, fs3)" "chmod 0x1C0 STATE fs3 = (None, fs4)"
      "chmod 0x1C0 TARGET fs4 = (None, fs5)" "each (install_secret umask) names fs5 = (None, fs6)"
      "chown 10001 10001 TARGET fs6 = (None, fs')"
    using assms(1) by (auto simp: init_secrets_def andthen_None)
  have fs0: "fs0 = fs" using runs(1) by (auto simp: check_source_def check_None split: option.splits)
  note each_name = install_all_None [OF runs(7)]
  have "TARGET \<notin> in_directory TARGET ` set names" by (simp add: image_iff not_sym [OF paths_apart(2)])
  then have last: "fs6 TARGET = fs5 TARGET" using each_name by simp
  obtain n where n: "fs6 TARGET = Some n" "fs' = fs6(TARGET \<mapsto> n\<lparr>nd_owner := (10001, 10001)\<rparr>)"
    using runs(8) by (auto simp: chown_def on_node_None)
  have mode: "nd_mode n = 0x1C0" using runs(6) n(1) last by (auto simp: chmod_def on_node_None)
  have before: "fs5 p = fs p" if "p \<notin> {TARGET, STATE, ''/run'', ''/var'', ''/var/lib''}" for p
  proof -
    have "fs5 p = fs2 p" using runs(4-6) that by (auto simp: chown_def chmod_def on_node_None)
    moreover have "snd (mkdir umask 0x1C0 STATE fs1) p = fs1 p" "snd (mkdir umask 0x1C0 TARGET fs0) p = fs0 p"
      by (rule mkdir_keeps; use that in \<open>simp add: directory_parents\<close>)+
    ultimately show ?thesis using runs(2,3) by (simp add: fs0)
  qed
  have source: "fs5 (in_directory SOURCE name) = fs (in_directory SOURCE name)" for name
    by (rule before) (simp add: in_directory_def SOURCE_def TARGET_def STATE_def)
  show ?thesis
  proof (intro conjI allI ballI impI)
    show "\<exists>s d. fs (in_directory SOURCE name) = Some s \<and> acceptable s \<and>
        fs' (in_directory TARGET name) = Some d \<and> installed s d" if "name \<in> set EXPECTED" for name
      using each_name assms(2) that source by (auto simp: n(2))
    show "\<exists>n. fs' TARGET = Some n \<and> nd_owner n = (10001, 10001) \<and> nd_mode n = 0x1C0"
      using mode by (simp add: n(2))
    show "fs' p = fs p" if "p \<notin> {TARGET, STATE, ''/run'', ''/var'', ''/var/lib''} \<union> in_directory TARGET ` set EXPECTED" for p
      using that each_name before assms(2) by (auto simp: n(2))
  qed
qed

text \<open>A source directory as the deployment prepares it, and nothing else.\<close>

definition sample_sources :: nodes where
  "sample_sources p =
     (if p = SOURCE
      then Some \<lparr>nd_kind = Directory, nd_symlink = False, nd_mode = 0x1C0, nd_owner = (0, 0), nd_text = []\<rparr>
      else if p \<in> set (map (in_directory SOURCE) EXPECTED)
      then Some \<lparr>nd_kind = Regular, nd_symlink = False, nd_mode = 0x180, nd_owner = (0, 0), nd_text = p\<rparr>
      else None)"

theorem secrets_installed_witness:
  "\<exists>d. snd (init_secrets 0x12 EXPECTED sample_sources) ''/run/provisioning-secrets/server.key'' = Some d \<and>
     nd_text d = ''/source-secrets/server.key'' \<and> nd_owner d = (10001, 10001) \<and> nd_mode d = 0x100"
proof -
  have "fst (init_secrets 0x12 EXPECTED sample_sources) = None" by code_simp
  then obtain fs' where run: "init_secrets 0x12 EXPECTED sample_sources = (None, fs')"
    by (cases "init_secrets 0x12 EXPECTED sample_sources") simp
  have "''server.key'' \<in> set EXPECTED" by (simp add: EXPECTED_def)
  with secrets_installed [OF run] obtain s d where
    "sample_sources (in_directory SOURCE ''server.key'') = Some s" "installed s d"
    "fs' (in_directory TARGET ''server.key'') = Some d" by blast
  then show ?thesis
    unfolding run snd_conv by (auto simp: installed_def sample_sources_def in_directory_def SOURCE_def TARGET_def EXPECTED_def)
qed

end
