(* ===== verification/Acceptance.thy ===== *)
theory Acceptance
  imports Adapters
begin

text \<open>
  The acceptance run against a live Keycloak server (\<^verbatim>\<open>scripts/keycloak_acceptance.py\<close>): it builds the
  adapter from the configuration file and creates, verifies, activates, reconciles, suspends,
  reactivates and terminates one identity, with assertions in between. The run is an action on the world;
  its value is the report it prints.
\<close>

section \<open>The commands\<close>

definition acceptance_attributes :: "string \<Rightarrow> dict" where
  "acceptance_attributes employee =
     [(''employee_id'', JStr employee), (''company_id'', JStr ''staging-company''),
      (''business_unit_id'', JStr ''staging-business-unit''), (''department_id'', JStr ''staging-department''),
      (''team_id'', JStr ''staging-team''), (''supervisor_id'', JStr ''staging-supervisor''),
      (''campaign_ids'', JList [JStr ''staging-campaign'']), (''role_template'', JStr ''AGENT''),
      (''agent_desktop_roles'', JList [JStr ''agent''])]"

definition acceptance_payload :: "string \<Rightarrow> string \<Rightarrow> string \<Rightarrow> dict" where
  "acceptance_payload employee username group_path =
     [(''username'', JStr username), (''email'', JStr (username @ ''@staging.invalid'')),
      (''first_name'', JStr ''Keycloak''), (''last_name'', JStr ''Acceptance''),
      (''attributes'', JObj (acceptance_attributes employee)), (''groups'', JList [JStr group_path]),
      (''realm_roles'', JList [JStr ''codestra_agent'']),
      (''client_roles'', JObj [(''codestra-agent-desktop'', JList [JStr ''agent''])])]"

text \<open>The model \<^verbatim>\<open>StepCommand\<close> checks the command, with its defaults for the attempts and \<^verbatim>\<open>mandatory\<close>.\<close>

definition acceptance_command ::
  "'e services \<Rightarrow> operation \<Rightarrow> string \<Rightarrow> string \<Rightarrow> string \<Rightarrow> string \<Rightarrow> dict option \<Rightarrow> ('e, step_command) action" where
  "acceptance_command sv oper employee username group_path idempotency desired =
     abind (on_env (sv_now sv)) (\<lambda>now.
     alift (validate_step (strip_step
       \<lparr>schema_version = ''1.0'', request_id = ''request-'' @ employee,
        correlation_id = ''correlation-'' @ employee, idempotency_key = idempotency,
        employee_id = employee, target_system = Keycloak, operation = oper, timestamp = now,
        payload = (case desired of None \<Rightarrow> acceptance_payload employee username group_path
          | Some d \<Rightarrow> [(''desired'', JObj d)]),
        step_id = ''step-'' @ employee @ ''-'' @ operation_value oper, sequence = 10,
        max_attempts = 3, mandatory = True\<rparr>)))"

section \<open>The run\<close>

definition assert_that :: "bool res \<Rightarrow> ('e, unit) action" where
  "assert_that r = abind (alift r) (\<lambda>ok. alift (if ok then Inr () else Inl AssertionError))"

text \<open>\<^verbatim>\<open>try ... except PermanentAdapterError\<close>: whether the call was refused with the code.\<close>

definition refused_with :: "string \<Rightarrow> ('e, 'a) action \<Rightarrow> ('e, bool) action" where
  "refused_with code m w =
     (case m w of
        (Returned x, w') \<Rightarrow> (Returned False, w')
      | (PermanentAdapterError c, w') \<Rightarrow> (Returned (c = code), w')
      | (RetryableAdapterError c, w') \<Rightarrow> (RetryableAdapterError c, w')
      | (OtherError e, w') \<Rightarrow> (OtherError e, w'))"

definition acceptance_adapter :: "'e services \<Rightarrow> ('e, keycloak_config) action" where
  "acceptance_adapter sv w =
     alift (
       res_bind (case sv_env sv (w_env w) ''ADAPTER_CONFIG_FILE'' of None \<Rightarrow> Inl KeyError | Some p \<Rightarrow> Inr p) (\<lambda>path.
       res_bind (case Option.bind (sv_files sv (w_env w) path) fs_text of None \<Rightarrow> Inl OSError | Some t \<Rightarrow> Inr t) (\<lambda>raw.
       res_bind (case sv_json_loads sv raw of None \<Rightarrow> Inl (ValueError ''invalid JSON'') | Some v \<Rightarrow> Inr v) (\<lambda>document.
       res_bind (res_bind (item document ''keycloak'') as_object) configured_keycloak)))) w"

definition environ :: "'e services \<Rightarrow> string \<Rightarrow> ('e, string) action" where
  "environ sv name w =
     alift (case sv_env sv (w_env w) name of None \<Rightarrow> Inl KeyError | Some v \<Rightarrow> Inr v) w"

text \<open>What the run expects of the identity: all but the switch and the actions is read from its snapshot.\<close>

definition acceptance_desired :: "kc_snapshot \<Rightarrow> dict res" where
  "acceptance_desired s =
     res_bind (map_res (\<lambda>name. res_bind (item (sn_attributes s) name) (\<lambda>v. Inr (name, v))) IDENTITY_ATTRIBUTES)
       (\<lambda>attributes. Inr
       [(''enabled'', JBool True),
        (''required_actions'', JList (map JStr (sort REQUIRED_ACTIONS))),
        (''groups'', dict_get (snapshot_json s) ''groups''),
        (''realm_roles'', dict_get (snapshot_json s) ''realm_roles''),
        (''client_roles'', dict_get (snapshot_json s) ''client_roles''),
        (''attributes'', JObj attributes)])"

definition acceptance_checks :: "string list" where
  "acceptance_checks =
     [''valid_creation'', ''duplicate_request'', ''duplicate_username'', ''duplicate_identity'',
      ''required_password_action'', ''required_mfa_action'', ''group_assignment'',
      ''realm_role_assignment'', ''client_role_assignment'', ''activation'',
      ''session_revocation_endpoint'', ''suspension'', ''reactivation'', ''termination'',
      ''reconciliation'', ''privilege_drift'']"

definition acceptance_report :: "json \<Rightarrow> string \<Rightarrow> dict" where
  "acceptance_report user employee =
     map (\<lambda>k. (k, JStr ''PASS'')) acceptance_checks @ [(''user_id'', user), (''employee_id'', JStr employee)]"

text \<open>The user as the run looks it up, and whether it is enabled.\<close>

definition is_switched :: "json \<Rightarrow> bool \<Rightarrow> bool res" where
  "is_switched user on = res_bind (item user ''enabled'') (\<lambda>v. Inr (v = JBool on))"

text \<open>One command, made and given to the adapter's method of its operation; the user of the identity.\<close>

definition acceptance_call ::
  "'e services \<Rightarrow> keycloak_config \<Rightarrow> string \<Rightarrow> string \<Rightarrow> string \<Rightarrow> string \<Rightarrow> operation \<Rightarrow> dict option \<Rightarrow>
     ('e, dict) action" where
  "acceptance_call sv kc employee username group_path key oper desired =
     abind (acceptance_command sv oper employee username group_path key desired) (keycloak_adapter sv kc oper)"

definition acceptance_user ::
  "'e services \<Rightarrow> keycloak_config \<Rightarrow> string \<Rightarrow> string \<Rightarrow> string \<Rightarrow> string \<Rightarrow> ('e, json) action" where
  "acceptance_user sv kc employee username group_path key =
     abind (acceptance_command sv Verify employee username group_path key None) (user_for_command sv kc)"

text \<open>Creation, twice, and the two creations that must be refused; the value is the identity's id.\<close>

definition acceptance_creation ::
  "'e services \<Rightarrow> keycloak_config \<Rightarrow> string \<Rightarrow> string \<Rightarrow> string \<Rightarrow> string \<Rightarrow> ('e, dict) action" where
  "acceptance_creation sv kc employee username group_path key =
     abind (acceptance_call sv kc employee username group_path key CreateDisabled None) (\<lambda>created.
     abind (acceptance_user sv kc employee username group_path key) (\<lambda>user.
     abind (assert_that (is_switched user False)) (\<lambda>_.
     abind (assert_that (res_bind (item user ''requiredActions'') (\<lambda>v. res_bind (string_list v)
       (\<lambda>actions. Inr (set REQUIRED_ACTIONS \<subseteq> set actions))))) (\<lambda>_.
     abind (acceptance_call sv kc employee username group_path key CreateDisabled None) (\<lambda>replay.
     abind (assert_that (res_bind (member replay ''external_id'') (\<lambda>again.
       res_bind (member created ''external_id'') (\<lambda>first. Inr (py_eq again first))))) (\<lambda>_.
     abind (refused_with ''keycloak_duplicate_username''
       (acceptance_call sv kc (employee @ ''-OTHER'') username group_path (key @ ''-other'') CreateDisabled None))
       (\<lambda>duplicate_username.
     abind (assert_that (Inr duplicate_username)) (\<lambda>_.
     abind (refused_with ''keycloak_duplicate_identity''
       (acceptance_call sv kc employee (username @ ''-other'') group_path (key @ ''-identity'') CreateDisabled None))
       (\<lambda>duplicate_identity.
     abind (assert_that (Inr duplicate_identity)) (\<lambda>_.
     areturn created))))))))))"

text \<open>Verification, activation, and the two reconciliations.\<close>

definition acceptance_alignment ::
  "'e services \<Rightarrow> keycloak_config \<Rightarrow> string \<Rightarrow> string \<Rightarrow> string \<Rightarrow> string \<Rightarrow> ('e, unit) action" where
  "acceptance_alignment sv kc employee username group_path key =
     abind (acceptance_call sv kc employee username group_path key Verify None) (\<lambda>_.
     abind (acceptance_call sv kc employee username group_path key Activate None) (\<lambda>_.
     abind (acceptance_user sv kc employee username group_path key) (\<lambda>user.
     abind (assert_that (is_switched user True)) (\<lambda>_.
     abind (kc_snapshot sv kc user) (\<lambda>snapshot.
     abind (alift (acceptance_desired snapshot)) (\<lambda>desired.
     abind (acceptance_call sv kc employee username group_path key Reconcile (Some desired)) (\<lambda>aligned.
     abind (assert_that (res_bind (member aligned ''state'') (\<lambda>v. Inr (v = JStr ''aligned'')))) (\<lambda>_.
     abind (acceptance_call sv kc employee username group_path key Reconcile
       (Some (AList.update ''realm_roles'' (JList [JStr ''intentionally-missing-role'']) desired))) (\<lambda>drift.
     assert_that (res_bind (member drift ''state'') (\<lambda>v. Inr (v = JStr ''privilege_drift''))))))))))))"

text \<open>Suspension, reactivation and termination.\<close>

definition acceptance_withdrawal ::
  "'e services \<Rightarrow> keycloak_config \<Rightarrow> string \<Rightarrow> string \<Rightarrow> string \<Rightarrow> string \<Rightarrow> ('e, unit) action" where
  "acceptance_withdrawal sv kc employee username group_path key =
     abind (acceptance_call sv kc employee username group_path key Suspend None) (\<lambda>_.
     abind (acceptance_user sv kc employee username group_path key) (\<lambda>user.
     abind (assert_that (is_switched user False)) (\<lambda>_.
     abind (acceptance_call sv kc employee username group_path key Reactivate None) (\<lambda>_.
     abind (acceptance_user sv kc employee username group_path key) (\<lambda>user.
     abind (assert_that (is_switched user True)) (\<lambda>_.
     abind (acceptance_call sv kc employee username group_path key Terminate None) (\<lambda>_.
     abind (acceptance_user sv kc employee username group_path key) (\<lambda>user.
     abind (assert_that (is_switched user False)) (\<lambda>_.
     assert_that (res_bind (item user ''attributes'') (\<lambda>a. res_bind (item a ''lifecycle_state'')
       (\<lambda>v. Inr (v = JList [JStr ''terminated''])))))))))))))"

definition acceptance_run ::
  "'e services \<Rightarrow> keycloak_config \<Rightarrow> string \<Rightarrow> string \<Rightarrow> string \<Rightarrow> string \<Rightarrow> ('e, dict) action" where
  "acceptance_run sv kc employee username group_path key =
     abind (acceptance_creation sv kc employee username group_path key) (\<lambda>created.
     abind (acceptance_alignment sv kc employee username group_path key) (\<lambda>_.
     abind (acceptance_withdrawal sv kc employee username group_path key) (\<lambda>_.
     abind (alift (member created ''external_id'')) (\<lambda>uid.
     areturn (acceptance_report uid employee)))))"

definition acceptance_main :: "'e services \<Rightarrow> ('e, dict) action" where
  "acceptance_main sv =
     abind (acceptance_adapter sv) (\<lambda>kc.
     abind (environ sv ''ACCEPTANCE_STAMP'') (\<lambda>stamp.
     abind (environ sv ''ACCEPTANCE_GROUP_PATH'') (\<lambda>group_path.
     acceptance_run sv kc (''KP-STAGING-'' @ stamp) (''kp-staging-'' @ str_lower stamp) group_path
       (''kp-acceptance-'' @ stamp))))"

section \<open>What a passed run shows\<close>

lemma py_eq_refl [simp]: "py_eq v v"
  by (simp add: py_eq_def)

lemma map_of_read:
  "map_res (\<lambda>k. res_bind (item v k) (\<lambda>x. Inr (k, x))) ks = Inr kvs \<Longrightarrow> (k, x) \<in> set kvs \<Longrightarrow> item v k = Inr x"
  by (induction ks arbitrary: kvs) (auto elim!: res_bind_InrE split: sum.splits)

lemma item_get: "item v k = Inr x \<Longrightarrow> \<exists>d. v = JObj d \<and> dict_get d k = x"
  by (cases v) (auto simp: item_def as_object_def member_def dict_get_def split: option.splits)

text \<open>C40. The reconciliation that must find the identity aligned compares its groups and roles with what
  was read from the server just before: whatever groups and roles a snapshot of an enabled identity with
  the required actions lists, none or any others than those asked for, it is aligned with the document
  the run builds from it.\<close>

theorem acceptance_compares_with_itself:
  assumes "acceptance_desired s = Inr desired" and "sn_enabled s"
    and "sn_required_actions s = sort REQUIRED_ACTIONS"
  shows "kc_drift (JObj desired) s = Inr []"
proof -
  obtain attributes where read: "map_res (\<lambda>k. res_bind (item (sn_attributes s) k) (\<lambda>x. Inr (k, x))) IDENTITY_ATTRIBUTES
      = Inr attributes" and desired: "desired = [(''enabled'', JBool True),
        (''required_actions'', JList (map JStr (sort REQUIRED_ACTIONS))),
        (''groups'', dict_get (snapshot_json s) ''groups''),
        (''realm_roles'', dict_get (snapshot_json s) ''realm_roles''),
        (''client_roles'', dict_get (snapshot_json s) ''client_roles''), (''attributes'', JObj attributes)]"
    using assms(1) by (auto simp: acceptance_desired_def elim!: res_bind_InrE)
  have same: "\<exists>d. sn_attributes s = JObj d \<and> dict_get d k = x" if "(k, x) \<in> set attributes" for k x
    using item_get [OF map_of_read [OF read that]] .
  have "attribute_drift desired (sn_attributes s) = Inr []"
  proof (cases attributes)
    case Nil
    then show ?thesis by (simp add: attribute_drift_def desired as_object_def)
  next
    case (Cons a rest)
    then obtain d where d: "sn_attributes s = JObj d" using same [of "fst a" "snd a"] by auto
    have "filter (\<lambda>(k, x). \<not> py_eq (dict_get d k) x) attributes = []"
      using same d by (fastforce simp: filter_empty_conv)
    then show ?thesis by (simp add: attribute_drift_def desired as_object_def d)
  qed
  then show ?thesis
    using assms(2,3) by (simp add: kc_drift_def member_drift_def desired snapshot_json_def dict_get_def)
qed

text \<open>The snapshot of an identity that was granted nothing.\<close>

definition sample_ungranted :: kc_snapshot where
  "sample_ungranted = \<lparr>sn_enabled = True, sn_required_actions = REQUIRED_ACTIONS,
     sn_attributes = JObj (acceptance_attributes ''KP-STAGING-01''), sn_groups = [], sn_realm_roles = [],
     sn_client_roles = []\<rparr>"

theorem acceptance_compares_with_itself_witness:
  "\<exists>desired. acceptance_desired sample_ungranted = Inr desired \<and> kc_drift (JObj desired) sample_ungranted = Inr []"
proof -
  have "case acceptance_desired sample_ungranted of Inr _ \<Rightarrow> True | Inl _ \<Rightarrow> False" by code_simp
  then obtain desired where d: "acceptance_desired sample_ungranted = Inr desired" by (auto split: sum.splits)
  have "sn_enabled sample_ungranted" "sn_required_actions sample_ungranted = sort REQUIRED_ACTIONS"
    by code_simp+
  from acceptance_compares_with_itself [OF d this] d show ?thesis by blast
qed

end
