(* ===== verification/Migrations.thy ===== *)
theory Migrations
  imports Prelude
begin

text \<open>
  What \<^verbatim>\<open>StateRepository.__init__\<close> does to a database file that an older version has left: after the
  tables are created where they are missing, columns that two of them have gained are added. A table
  here is its columns and its rows of values; the other theories start from the current tables.
\<close>

datatype sql_value = SqlNull | SqlInt int | SqlText string

record sql_table =
  sq_columns :: "string list"
  sq_rows :: "(string \<times> sql_value) list list"

definition table_ok :: "sql_table \<Rightarrow> bool" where
  "table_ok t \<longleftrightarrow> distinct (sq_columns t) \<and> (\<forall>r \<in> set (sq_rows t). map fst r = sq_columns t)"

text \<open>\<^verbatim>\<open>ALTER TABLE ... ADD COLUMN\<close>: the rows get the default.\<close>

definition add_column :: "string \<times> sql_value \<Rightarrow> sql_table \<Rightarrow> sql_table" where
  "add_column c t = t\<lparr>sq_columns := sq_columns t @ [fst c], sq_rows := map (\<lambda>r. r @ [c]) (sq_rows t)\<rparr>"

text \<open>The columns present are read once, before the loop.\<close>

definition add_missing :: "(string \<times> sql_value) list \<Rightarrow> sql_table \<Rightarrow> sql_table" where
  "add_missing cs t = fold add_column (filter (\<lambda>c. fst c \<notin> set (sq_columns t)) cs) t"

definition compensation_columns :: "(string \<times> sql_value) list" where
  "compensation_columns =
     [(''attempt_count'', SqlInt 0), (''max_attempts'', SqlInt 3), (''next_retry_at'', SqlNull),
      (''updated_at'', SqlNull)]"

definition migrate_compensation :: "sql_table \<Rightarrow> sql_table" where
  "migrate_compensation t = add_missing compensation_columns t"

definition migrate_executions :: "sql_table \<Rightarrow> sql_table" where
  "migrate_executions t = add_missing [(''cancelled_at'', SqlNull)] t"

lemma add_columns:
  "sq_columns (fold add_column cs t) = sq_columns t @ map fst cs"
  "sq_rows (fold add_column cs t) = map (\<lambda>r. r @ cs) (sq_rows t)"
  by (induction cs arbitrary: t) (simp_all add: add_column_def)

lemma add_missing_tables:
  "sq_columns (add_missing cs t) = sq_columns t @ map fst (filter (\<lambda>c. fst c \<notin> set (sq_columns t)) cs)"
  "sq_rows (add_missing cs t) = map (\<lambda>r. r @ filter (\<lambda>c. fst c \<notin> set (sq_columns t)) cs) (sq_rows t)"
  by (simp_all add: add_missing_def add_columns)

text \<open>An old row keeps its values, and has the defaults of the columns that were missing.\<close>

theorem migration_completes_rows:
  assumes "table_ok t" and "distinct (map fst cs)"
  shows "table_ok (add_missing cs t) \<and> set (map fst cs) \<subseteq> set (sq_columns (add_missing cs t)) \<and>
    (\<forall>i < length (sq_rows t). \<forall>k. map_of (sq_rows (add_missing cs t) ! i) k =
       (if k \<in> set (sq_columns t) then map_of (sq_rows t ! i) k else map_of cs k))"
proof (intro conjI allI impI)
  let ?new = "filter (\<lambda>c. fst c \<notin> set (sq_columns t)) cs"
  have "distinct (map fst ?new)" using assms(2) by (simp add: distinct_map_filter)
  then show "table_ok (add_missing cs t)"
    using assms(1) by (auto simp: table_ok_def add_missing_tables)
  show "set (map fst cs) \<subseteq> set (sq_columns (add_missing cs t))" by (auto simp: add_missing_tables)
  fix i k assume i: "i < length (sq_rows t)"
  then have row: "map fst (sq_rows t ! i) = sq_columns t" using assms(1) by (simp add: table_ok_def)
  have "map_of (sq_rows t ! i) k = None \<longleftrightarrow> k \<notin> set (sq_columns t)"
    unfolding row [symmetric] by (simp add: map_of_eq_None_iff)
  moreover have "map_of ?new k = map_of cs k" if "k \<notin> set (sq_columns t)"
    using that by (induction cs) auto
  ultimately show "map_of (sq_rows (add_missing cs t) ! i) k =
      (if k \<in> set (sq_columns t) then map_of (sq_rows t ! i) k else map_of cs k)"
    using i by (auto simp: add_missing_tables map_add_def split: option.split)
qed

text \<open>Opening the file again changes nothing.\<close>

theorem migration_once:
  "migrate_compensation (migrate_compensation t) = migrate_compensation t"
  "migrate_executions (migrate_executions t) = migrate_executions t"
proof -
  have "filter (\<lambda>c. fst c \<notin> set (sq_columns (add_missing cs t))) cs = []" for cs
    by (auto simp: filter_empty_conv add_missing_tables)
  then have "add_missing cs (add_missing cs t) = add_missing cs t" for cs
    unfolding add_missing_def [of cs "add_missing cs t"] by simp
  then show "migrate_compensation (migrate_compensation t) = migrate_compensation t"
    and "migrate_executions (migrate_executions t) = migrate_executions t"
    by (simp_all add: migrate_compensation_def migrate_executions_def)
qed

end
