(* ===== verification/Spec2Isabelle.thy ===== *)
theory Spec2Isabelle
  imports Contract_Properties Employee_View Compensation_Store Session_Store Config Logging
    Engine_Submission Engine_Outcomes Service_Properties Mailbox Concurrency_Properties
    Deployment Init_Secrets Acceptance Migrations
begin

text \<open>
  A verification development for the Codestra provisioning service, a FastAPI service that creates,
  changes, activates and withdraws the identities of an employee in a fixed set of target systems.

  \<^bold>\<open>The program.\<close> A client submits an execution: an ordered list of steps, each a command to one target
  system (\<^verbatim>\<open>app/contracts.py\<close>). The engine (\<^verbatim>\<open>app/engine.py\<close>) records it durably in a SQLite store
  (\<^verbatim>\<open>app/repository.py\<close>), runs its steps in order through the adapters of the systems
  (\<^verbatim>\<open>app/adapters.py\<close>, \<^verbatim>\<open>app/keycloak.py\<close>), compensates when a step is dead-lettered, and reports
  results by signed callbacks (\<^verbatim>\<open>app/callbacks.py\<close>). A worker goes on with what waits. Requests are
  authenticated by JWT (\<^verbatim>\<open>app/security.py\<close>) and reach the engine by the routes of \<^verbatim>\<open>app/main.py\<close>,
  which also offer browser sessions of the SIP endpoint (\<^verbatim>\<open>app/sip_browser.py\<close>). The mailbox service
  (\<^verbatim>\<open>app/mailbox.py\<close>) has a store of its own and is not mounted by \<^verbatim>\<open>app/main.py\<close>.

  \<^bold>\<open>The theories.\<close>
  \<^item> Prelude: JSON values and dictionaries, time, the exceptions (\<open>repo_error\<close>, \<open>'a res\<close>), SQL statements
    as functions on lists of rows, and the shared rule collections. Json\_Text: \<^verbatim>\<open>json.dumps\<close>,
    \<^verbatim>\<open>isoformat\<close>, \<^verbatim>\<open>urlsplit\<close>.
  \<^item> Contracts: the models of \<^verbatim>\<open>app/contracts.py\<close> and their validators, from the members of a body, with its
    time as it was read (\<open>dated\<close>: naive, or aware of its zone), to the model, whose times are in UTC
    (\<open>build_execution\<close>, \<open>build_action\<close>); Contract\_Properties: what they accept. Secrets, Config, Logging: \<^verbatim>\<open>app/secrets.py\<close>, \<^verbatim>\<open>app/config.py\<close>, \<^verbatim>\<open>app/logging.py\<close>.
  \<^item> Database: the tables of \<^verbatim>\<open>StateRepository\<close> as one record \<open>db\<close> of lists of rows. Step\_Store:
    executions and steps (begin, claim, complete, fail, retry, release, cancel, recover, result).
    Verification\_Store, Employee\_View, Compensation\_Store, Replay\_Store, Callback\_Store,
    Session\_Store: the other methods of \<^verbatim>\<open>app/repository.py\<close>, table by table. A method takes its clock
    readings and arguments and the database, and returns its result or exception and the database.
  \<^item> Step\_Invariants, Step\_Machine, Step\_History, Step\_Properties, Step\_Outcomes: the store as a
    transition system (\<open>store_step\<close>, \<open>reachable\<close>), its invariant, what a run never takes back, and the
    properties of the steps. Samples: concrete stores for the instances of the properties.
  \<^item> World: the world a running service acts on (the database and an environment), adapter actions,
    handlers, and \<open>keeps\<close>, the rule set for what an action leaves of the database. Provider\_Adapters,
    Keycloak, Adapters: every adapter and \<^verbatim>\<open>load_adapters\<close>. Dispatcher: delivery of callbacks.
  \<^item> Engine: \<^verbatim>\<open>ProvisioningEngine\<close>. Engine\_Runs, Engine\_Properties, Engine\_Submission,
    Engine\_Outcomes: that it runs on the step machine and ends, and what each call does. Engine\_Frame:
    the tables it leaves alone.
  \<^item> Tasks: the calls of the engine once more, as \<^verbatim>\<open>asyncio\<close> tasks with the employee and request locks;
    Task\_Equivalence: alone, a task does what the function of Engine does. Isolation: what the locks
    protect in the store. Task\_Safety, Engine\_Safety, Call\_Safety: a rely-guarantee logic of tasks and
    its application to every call. Interleaving: the service as a pool of tasks. Schedules,
    Concurrency\_Properties: concrete pools, and what holds of all. Deployment: the life of a service from
    its empty store on, with processes that die and start anew.
  \<^item> Security: \<^verbatim>\<open>JWTAuthorizer\<close> and \<^verbatim>\<open>require_scope\<close>. Sip\_Browser: \<^verbatim>\<open>SipBrowserSessionManager\<close>.
    Service: \<^verbatim>\<open>create_app\<close>, the security boundary, routes and exception handlers. Service\_Runs,
    Service\_Properties: whole runs of the service. Mailbox: \<^verbatim>\<open>app/mailbox.py\<close>.
  \<^item> Migrations: the columns \<^verbatim>\<open>StateRepository.__init__\<close> adds to older files. Init\_Secrets, Acceptance:
    the operator scripts \<^verbatim>\<open>scripts/init_secrets.py\<close> and \<^verbatim>\<open>scripts/keycloak_acceptance.py\<close>.

  \<^bold>\<open>Interfaces.\<close> Each interface is a locale, interpreted on the model where it is provided: updates of
  the step table (Database), lookups written once (\<open>write_once\<close>), bounded retry delays
  (\<open>bounded_backoff\<close>), the contract of an adapter (\<open>provider_adapter\<close>), of the adapters towards the
  engine (\<open>engine_adapters\<close>, \<open>framed_adapters\<close>), of relations the engine (\<open>engine_frame\<close>), the session
  manager (\<open>session_frame\<close>) and the service (\<open>service_frame\<close>, \<open>run_frame\<close>) keep.

  \<^bold>\<open>What is shown.\<close> The store of a deployed service is consistent in every state of its life and its
  finished steps are final; on every reachable store steps start in sequence, attempts are bounded, keys
  are idempotent, waiting requests are found by the worker,
  cancelled steps do not run, results are reported faithfully. The engine refines this machine; its
  loop ends; each call as a task, run alone, gives the answer of the engine's function; activation is gated by
  verification; compensation only reduces access; each refusal of a
  submission changes nothing; sending a submission again is a replay. The service: any run of
  requests, starts and worker passes refines the machine, an unauthorized request changes nothing and
  gets a bare error, a token serves one request, an employee has one browser session. The adapters:
  which are loaded, and that unapproved entitlements are refused. The mailbox service: provisioning
  under a key is done once, and without a provider it fails closed. The theorems of kind error that
  describe a defect (a token accepted again after its expiry, a lost browser session, an identity
  enabled by a refused activation, a worker that ends, a cancelled execution that is retried, an
  acceptance that compares a server with itself) are what the findings of the manifest refer to. The
  scripts: the secrets are handed over with the owner and the modes the service needs. The log: in the
  document a record is dumped as, every text at any depth is free of credentials and no member of a
  sensitive name has a value; what the formatter does not look at (the names of members, and values
  other than texts, lists and dictionaries, which are dumped as \<^verbatim>\<open>str\<close> gives them) is as it was.

  \<^bold>\<open>Obligations.\<close> The guards that \<open>store_step\<close> puts on begin, complete and fail are not the repository's:
  the engine discharges them, in every history of calls (Engine\_Runs) and in every interleaving
  (Call\_Safety). A submission has passed its model; all the interleaving needs of that is that its
  employee and request identifiers are stripped (\<open>admissible\<close>).

  \<^bold>\<open>Concurrency.\<close> A pool of tasks starts on any reachable store; calls arrive at any time, tasks take
  their turns in any order, adapters and deliveries answer with anything, the rest of the service
  changes other tables at any time, and a task may be cancelled where it waits. Every such pool keeps the
  store within the step machine, excludes two changing adapter calls for one employee or request, keeps
  the gate of an activation shut or open for the whole call, and ends under every schedule. One theorem
  of kind error is about what the locks do not cover: the check of a retry for a cancelled execution.
  Tasks may be interrupted at every step on the store, \<^verbatim>\<open>asyncio\<close> interrupts only at an await; the
  schedule of that theorem switches at awaits only.

  \<^bold>\<open>Bounds.\<close> The only loops with fuel are \<open>run_loop\<close> and its task, the loop of \<^verbatim>\<open>_run_request\<close>: it gets
  one turn more than the request has waiting steps. Every turn that goes on has turned one waiting step
  into a finished one, so this is enough, and more fuel gives the same outcome
  (\<open>run_request_terminates\<close>); the holder of a request's lock is the only one to change its steps, so
  it is enough among other tasks, too (\<open>interleaving_refines_machine\<close>).

  \<^bold>\<open>Parameters.\<close> The record \<open>services\<close> holds what the process calls: clock, HTTP client, random values,
  Fernet, files, environment variables, hashes, \<^verbatim>\<open>json.loads\<close>. \<open>jwt_library\<close> is PyJWT and its JWKS
  client, \<open>web_framework\<close> how FastAPI reads a JSON body as the fields of a model and answers unmatched
  paths, \<open>mailbox_provider\<close> a provider of mailboxes. Nothing is assumed of them, except where a theorem
  says so (the clock in \<open>token_serves_once\<close>).

  \<^bold>\<open>Conventions.\<close> Text is ASCII. Timestamps are instants in microseconds. Where a method reads the clock
  only on some path, the model reads it on every path. A document of a remote server or of the
  configuration that is not of its documented type raises, where Python would fail later or iterate
  over a text.

  \<^bold>\<open>Not modelled.\<close> The interleaving of the handlers of the browser sessions and the mailbox service,
  which hold no engine lock: in Service and Mailbox a request runs alone. The order in which \<^verbatim>\<open>asyncio\<close>
  serves the waiters of a lock. The death of a process in the middle of the recovery at its start, but
  for what an exception of one of its calls does. The PRAGMAs of the connection. pydantic's own parsing of JSON and its refusal of extra fields, FastAPI's routing beyond
  the table of routes, and the serialisation of answers. The emission of log records and the printing of
  the acceptance report. Links and shared nodes in the target directories of \<^verbatim>\<open>scripts/init_secrets.py\<close>.
  But for these interleavings, what remains is I/O and the work of the libraries.
\<close>

end
